(* ===== verification/Prelude.thy ===== *)
theory Prelude
  imports Main "HOL-Library.Sublist" "HOL-Library.List_Lexorder" "HOL-Library.Char_ord"
begin

text \<open>
  Shared vocabulary of the development: Go's (value, error) results as sums, the errors the
  repository distinguishes, Go's 64-bit signed arithmetic, and generic facts on strings, maps
  and lists that the component theories use.
\<close>

section \<open>Errors and results\<close>

text \<open>
  Sentinel errors that the code compares or returns by identity are constructors of their own:
  \<open>ErrKeyNotFound\<close> is badger's sentinel, the next five are the variables of auth/jwt.go (lines
  29-35), \<open>ErrClientPermissionDeny\<close> is the one of jwtclient/utils.go,
  \<open>ErrRecordNotFound\<close> is gorm's. \<open>Msg\<close> is an error made
  from a string (\<open>errors.New\<close>, or a format that flattens its cause with \<open>%v\<close> or \<open>%s\<close>), \<open>Wrap\<close>
  is \<open>fmt.Errorf\<close> with \<open>%w\<close>, \<open>External\<close> an error of a library, and \<open>Panic\<close> a run-time panic
  (nil dereference, failed type assertion, index out of range).
\<close>

datatype err =
    ErrKeyNotFound
  | ErrorNonRegisteredToken
  | ErrorVerificationFailed
  | ErrorPermissionDeny
  | ErrorPermissionNotFound
  | ErrorUsernameNotFound
  | ErrClientPermissionDeny
  | ErrRecordNotFound
  | Msg string
  | Wrap string err
  | External string
  | Panic string

type_synonym 'a res = "err + 'a"

text \<open>Go's \<open>errors.Is\<close> against a sentinel: look through the \<open>%w\<close> chain.\<close>

fun errors_Is :: "err \<Rightarrow> err \<Rightarrow> bool" where
  "errors_Is (Wrap m e) target = (Wrap m e = target \<or> errors_Is e target)"
| "errors_Is e target = (e = target)"

text \<open>Go's \<open>err.Error()\<close>.\<close>

fun err_Error :: "err \<Rightarrow> string" where
  "err_Error ErrKeyNotFound = ''Key not found''"
| "err_Error ErrorNonRegisteredToken = ''A non-registered token''"
| "err_Error ErrorVerificationFailed = ''Verification Failed''"
| "err_Error ErrorPermissionDeny = ''Permission Deny''"
| "err_Error ErrorPermissionNotFound = ''permission not found''"
| "err_Error ErrorUsernameNotFound = ''username not found''"
| "err_Error ErrClientPermissionDeny = ''permission deny''"
| "err_Error ErrRecordNotFound = ''record not found''"
| "err_Error (Msg m) = m"
| "err_Error (Wrap m e) = m @ err_Error e"
| "err_Error (External m) = m"
| "err_Error (Panic m) = m"

definition is_ok :: "'a res \<Rightarrow> bool" where
  "is_ok r = (case r of Inl _ \<Rightarrow> False | Inr _ \<Rightarrow> True)"

lemma is_ok_simps [simp]: "is_ok (Inl e) = False" "is_ok (Inr x) = True"
  by (simp_all add: is_ok_def)

lemma is_okE: "is_ok r \<Longrightarrow> (\<And>x. r = Inr x \<Longrightarrow> P) \<Longrightarrow> P"
  by (cases r) auto

section \<open>Go's int64\<close>

text \<open>
  Values of type \<open>int64\<close> are integers in the range of the type; \<open>i64\<close> writes out the
  wrap-around of an operation's result.
\<close>

definition i64 :: "int \<Rightarrow> int" where
  "i64 x = (x + 2 ^ 63) mod 2 ^ 64 - 2 ^ 63"

definition is_i64 :: "int \<Rightarrow> bool" where
  "is_i64 x \<longleftrightarrow> - (2 ^ 63) \<le> x \<and> x < 2 ^ 63"

lemma i64_id: "is_i64 x \<Longrightarrow> i64 x = x"
  by (simp add: i64_def is_i64_def)

lemma i64_range: "is_i64 (i64 x)"
  by (simp add: i64_def is_i64_def)

text \<open>The decimal form of a number (\<open>%d\<close>).\<close>

fun show_nat :: "nat \<Rightarrow> string" where
  "show_nat n = (if n < 10 then [char_of (48 + n)] else show_nat (n div 10) @ [char_of (48 + n mod 10)])"

declare show_nat.simps [simp del]

text \<open>\<open>strconv.FormatInt(x, 10)\<close>.\<close>

definition FormatInt :: "int \<Rightarrow> string" where
  "FormatInt x = (if x < 0 then CHR ''-'' # show_nat (nat (- x)) else show_nat (nat x))"

section \<open>Time\<close>

text \<open>
  A \<open>time.Time\<close> is the number of nanoseconds since Go's zero time (January 1, year 1, UTC), so
  \<open>IsZero\<close> is being 0. A \<open>time.Duration\<close> is an \<open>int64\<close> of nanoseconds.
\<close>

type_synonym time = int

definition zero_time :: time where
  "zero_time = 0"

definition IsZero :: "time \<Rightarrow> bool" where
  "IsZero t \<longleftrightarrow> t = 0"

text \<open>Seconds since January 1, 1970, which is 62135596800 s after the zero time.\<close>

definition time_Unix :: "time \<Rightarrow> int" where
  "time_Unix t = t div 1000000000 - 62135596800"

lemma IsZero_zero_time [simp]: "IsZero zero_time"
  by (simp add: IsZero_def zero_time_def)

section \<open>Strings and lists\<close>

lemma prefix_append_same [simp]: "prefix (xs @ ys) (xs @ zs) = prefix ys zs"
  by (auto simp: prefix_def)

lemma append_sep_eq:
  assumes "c \<notin> set a" and "c \<notin> set b"
  shows "a @ c # u = b @ c # v \<longleftrightarrow> a = b \<and> u = v"
  using assms
proof (induction a arbitrary: b)
  case Nil
  then show ?case by (cases b) auto
next
  case (Cons x a)
  then show ?case by (cases b) auto
qed

lemma prefix_sep:
  assumes "c \<notin> set a" and "c \<notin> set b"
  shows "prefix (a @ [c]) (b @ c # v) \<longleftrightarrow> a = b"
  using assms by (auto simp: prefix_def append_sep_eq)

lemma prefix_no_sep:
  assumes "prefix a (b @ c # v)" and "c \<notin> set a"
  shows "prefix a b"
proof -
  from assms(1) have "prefix a b \<or> prefix (b @ [c]) a"
    by (auto simp: prefix_append prefix_Cons)
  moreover have "\<not> prefix (b @ [c]) a"
    using assms(2) by (auto simp: prefix_def)
  ultimately show ?thesis by blast
qed

text \<open>A list that lists each key once holds a pair exactly when the key maps to the value.\<close>

lemma sorted_keys_unique:
  fixes xs ys :: "('k::linorder \<times> 'v) list"
  assumes "sorted (map fst xs)" "distinct (map fst xs)"
    and "sorted (map fst ys)" "distinct (map fst ys)" and "set xs = set ys"
  shows "xs = ys"
proof (rule map_sorted_distinct_set_unique)
  show "inj_on fst (set xs \<union> set ys)"
    using assms(2,5) by (simp add: distinct_map)
qed (use assms in simp_all)

text \<open>
  A page of a list: drop the first \<open>skip\<close> elements and take \<open>limit\<close> of the rest, 0 meaning no
  limit.
\<close>

definition page_of :: "int \<Rightarrow> int \<Rightarrow> 'a list \<Rightarrow> 'a list" where
  "page_of skip limit xs =
     (let ys = drop (nat skip) xs in if limit = 0 then ys else take (nat limit) ys)"

lemma page_of_all [simp]: "page_of 0 0 xs = xs"
  by (simp add: page_of_def)

lemma length_page_of: "0 < limit \<Longrightarrow> int (length (page_of skip limit xs)) \<le> limit"
  by (simp add: page_of_def Let_def)


end
