(* ===== verification/Core.thy ===== *)
theory Core
  imports Prelude
begin

text \<open>
  The package core: permissions and the old strategy that expands one permission into the
  permissions it implies, paging, user states, and the request context (core/const.go,
  core/context.go). Proved here: the expansion is exactly the chain read < write < sign < admin,
  and paging bounds.
\<close>

section \<open>Permissions (core/const.go)\<close>

type_synonym permission = string

definition PermRead :: permission where "PermRead = ''read''"
definition PermWrite :: permission where "PermWrite = ''write''"
definition PermSign :: permission where "PermSign = ''sign''"
definition PermAdmin :: permission where "PermAdmin = ''admin''"

lemmas perm_defs = PermRead_def PermWrite_def PermSign_def PermAdmin_def

definition PermArr :: "permission list" where
  "PermArr = [PermRead, PermWrite, PermSign, PermAdmin]"

fun IsValid_loop :: "permission list \<Rightarrow> permission \<Rightarrow> bool" where
  "IsValid_loop [] perm = False"
| "IsValid_loop (v # vs) perm = (if v = perm then True else IsValid_loop vs perm)"

definition IsValid :: "permission \<Rightarrow> bool" where
  "IsValid perm = IsValid_loop PermArr perm"

definition AdaptOldStrategy :: "permission \<Rightarrow> permission list" where
  "AdaptOldStrategy perm =
     (if perm = PermAdmin then [PermRead, PermWrite, PermSign, PermAdmin]
      else if perm = PermSign then [PermRead, PermWrite, PermSign]
      else if perm = PermWrite then [PermRead, PermWrite]
      else if perm = PermRead then [PermRead]
      else [])"

lemma IsValid_loop_iff [simp]: "IsValid_loop vs perm \<longleftrightarrow> perm \<in> set vs"
  by (induction vs) auto

lemma IsValid_iff: "IsValid perm \<longleftrightarrow> perm \<in> {PermRead, PermWrite, PermSign, PermAdmin}"
  by (simp add: IsValid_def PermArr_def)

text \<open>The position of a permission in the order the documentation gives them.\<close>

definition perm_level :: "permission \<Rightarrow> nat" where
  "perm_level perm =
     (if perm = PermRead then 1 else if perm = PermWrite then 2
      else if perm = PermSign then 3 else if perm = PermAdmin then 4 else 0)"

lemma AdaptOldStrategy_invalid: "AdaptOldStrategy perm = [] \<longleftrightarrow> \<not> IsValid perm"
  by (auto simp: AdaptOldStrategy_def IsValid_iff)

lemma AdaptOldStrategy_level:
  "q \<in> set (AdaptOldStrategy p) \<longleftrightarrow> IsValid p \<and> IsValid q \<and> perm_level q \<le> perm_level p"
  by (auto simp: AdaptOldStrategy_def IsValid_iff perm_level_def perm_defs)

lemma admin_in_Adapt: "PermAdmin \<in> set (AdaptOldStrategy p) \<longleftrightarrow> p = PermAdmin"
  by (auto simp: AdaptOldStrategy_def perm_defs)

lemma read_in_Adapt: "PermRead \<in> set (AdaptOldStrategy p) \<longleftrightarrow> IsValid p"
  by (auto simp: AdaptOldStrategy_def IsValid_iff perm_defs)

section \<open>Paging (core/const.go)\<close>

record page =
  Skip :: int
  Limit :: int

text \<open>Both getters have a pointer receiver and write the corrected value back.\<close>

definition GetSkip :: "page \<Rightarrow> int \<times> page" where
  "GetSkip pg = (let pg' = (if Skip pg < 0 then pg\<lparr>Skip := 0\<rparr> else pg) in (Skip pg', pg'))"

definition GetLimit :: "page \<Rightarrow> int \<times> page" where
  "GetLimit pg = (let pg' = (if Limit pg < 0 \<or> Limit pg > 1000 then pg\<lparr>Limit := 1000\<rparr> else pg)
     in (Limit pg', pg'))"

lemma GetSkip_nonneg: "0 \<le> fst (GetSkip pg)"
  by (simp add: GetSkip_def Let_def)

lemma GetLimit_bounds: "0 \<le> fst (GetLimit pg) \<and> fst (GetLimit pg) \<le> 1000"
  by (simp add: GetLimit_def Let_def)

lemma GetLimit_after_GetSkip: "fst (GetLimit (snd (GetSkip pg))) = fst (GetLimit pg)"
  by (simp add: GetLimit_def GetSkip_def Let_def)

section \<open>User states (core/const.go)\<close>

type_synonym user_state = int

definition UserStateUndefined :: user_state where "UserStateUndefined = 0"
definition UserStateEnabled :: user_state where "UserStateEnabled = 1"
definition UserStateDisabled :: user_state where "UserStateDisabled = 2"

lemmas user_state_defs = UserStateUndefined_def UserStateEnabled_def UserStateDisabled_def

definition userStateStrs :: "user_state \<rightharpoonup> string" where
  "userStateStrs = [UserStateEnabled \<mapsto> ''enabled'', UserStateDisabled \<mapsto> ''disabled'']"

definition UserState_String :: "user_state \<Rightarrow> string" where
  "UserState_String us = (case userStateStrs us of Some str \<Rightarrow> str | None \<Rightarrow> ''unknown state'')"

definition NotDelete :: int where "NotDelete = 0"
definition Deleted :: int where "Deleted = 1"

section \<open>The request context (core/context.go)\<close>

text \<open>
  The values a context carries under the three private keys of type \<open>CtxKey\<close>; \<open>None\<close> is a key
  that no \<open>WithValue\<close> has set.
\<close>

record ctx =
  ctx_name :: "string option"
  ctx_location :: "string option"
  ctx_perms :: "permission list option"

definition ctx_Background :: ctx where
  "ctx_Background = \<lparr>ctx_name = None, ctx_location = None, ctx_perms = None\<rparr>"

definition CtxWithPerms :: "ctx \<Rightarrow> permission list \<Rightarrow> ctx" where
  "CtxWithPerms c perms = c\<lparr>ctx_perms := Some perms\<rparr>"

definition CtxWithPerm :: "ctx \<Rightarrow> permission \<Rightarrow> ctx" where
  "CtxWithPerm c perm = c\<lparr>ctx_perms := Some (AdaptOldStrategy perm)\<rparr>"

definition CtxGetPerm :: "ctx \<Rightarrow> permission list option" where
  "CtxGetPerm c = ctx_perms c"

definition CtxWithName :: "ctx \<Rightarrow> string \<Rightarrow> ctx" where
  "CtxWithName c name = c\<lparr>ctx_name := Some name\<rparr>"

definition CtxGetName :: "ctx \<Rightarrow> string option" where
  "CtxGetName c = ctx_name c"

definition CtxWithTokenLocation :: "ctx \<Rightarrow> string \<Rightarrow> ctx" where
  "CtxWithTokenLocation c token = c\<lparr>ctx_location := Some token\<rparr>"

definition CtxGetTokenLocation :: "ctx \<Rightarrow> string option" where
  "CtxGetTokenLocation c = ctx_location c"

fun perm_loop :: "permission list \<Rightarrow> permission \<Rightarrow> bool" where
  "perm_loop [] perm = False"
| "perm_loop (callerPerm # rest) perm =
     (if callerPerm = perm then True else perm_loop rest perm)"

definition HasPerm :: "ctx \<Rightarrow> permission list \<Rightarrow> permission \<Rightarrow> bool" where
  "HasPerm c defaultPerms perm =
     perm_loop (case CtxGetPerm c of None \<Rightarrow> defaultPerms | Some callerPerms \<Rightarrow> callerPerms) perm"

lemma perm_loop_iff [simp]: "perm_loop ps perm \<longleftrightarrow> perm \<in> set ps"
  by (induction ps) auto

lemmas ctx_defs = CtxWithPerms_def CtxWithPerm_def CtxGetPerm_def CtxWithName_def CtxGetName_def
  CtxWithTokenLocation_def CtxGetTokenLocation_def ctx_Background_def

lemma ctx_get_set [simp]:
  "CtxGetPerm (CtxWithPerm c perm) = Some (AdaptOldStrategy perm)"
  "CtxGetPerm (CtxWithPerms c perms) = Some perms"
  "CtxGetPerm (CtxWithName c name) = CtxGetPerm c"
  "CtxGetPerm (CtxWithTokenLocation c loc) = CtxGetPerm c"
  "CtxGetName (CtxWithName c name) = Some name"
  "CtxGetName (CtxWithPerm c perm) = CtxGetName c"
  "CtxGetName (CtxWithPerms c perms) = CtxGetName c"
  "CtxGetName (CtxWithTokenLocation c loc) = CtxGetName c"
  "CtxGetTokenLocation (CtxWithTokenLocation c loc) = Some loc"
  "CtxGetPerm ctx_Background = None"
  "CtxGetName ctx_Background = None"
  by (simp_all add: ctx_defs)

text \<open>
  A context made from one permission answers \<open>HasPerm\<close> exactly for the valid permissions
  at or below it in the order read, write, sign, admin; an unknown permission string grants
  nothing, whatever the defaults.
\<close>

theorem HasPerm_CtxWithPerm:
  "HasPerm (CtxWithPerm c p) defaults q
     \<longleftrightarrow> IsValid p \<and> IsValid q \<and> perm_level q \<le> perm_level p"
  by (simp add: HasPerm_def AdaptOldStrategy_level)

end
