(* ===== verification/Token_Codec.thy ===== *)
theory Token_Codec
  imports Core
begin

text \<open>
  Reading a token without its key: \<open>DecodeToBytes\<close>, \<open>DecodeToken\<close> and \<open>JwtUserFromToken\<close>
  (auth/jwt.go, lines 697-734), \<open>JWTPayloadMap\<close> (util/jwt.go), with the parts of the standard
  library they use: \<open>strings.Split\<close>, the raw URL encoding of base64, hexadecimal. A byte string is
  a \<open>string\<close>, since a \<open>char\<close> is 8 bits.

  Proved: decoding inverts encoding, for base64 and hexadecimal, and so reading a token gives back
  the payload it was made from.
\<close>

section \<open>strings.Split\<close>

fun Split :: "string \<Rightarrow> char \<Rightarrow> string list" where
  "Split [] sep = [[]]"
| "Split (ch # rest) sep =
     (if ch = sep then [] # Split rest sep
      else case Split rest sep of [] \<Rightarrow> [[ch]] | w # ws \<Rightarrow> (ch # w) # ws)"

lemma Split_nonempty [simp]: "Split xs sep \<noteq> []"
  by (cases xs) (auto split: list.split)

lemma Split_word: "sep \<notin> set w \<Longrightarrow> Split (w @ sep # rest) sep = w # Split rest sep"
  by (induction w) auto

lemma Split_last: "sep \<notin> set w \<Longrightarrow> Split w sep = [w]"
  by (induction w) auto

text \<open>Joining the words with the separator gives the string back.\<close>

fun Join :: "string list \<Rightarrow> char \<Rightarrow> string" where
  "Join [] sep = []"
| "Join [w] sep = w"
| "Join (w # ws) sep = w @ sep # Join ws sep"

lemma Join_Split: "Join (Split xs sep) sep = xs"
proof (induction xs)
  case (Cons ch rest)
  then show ?case
    by (cases "Split rest sep"; cases "tl (Split rest sep)") auto
qed simp

section \<open>base64.RawURLEncoding\<close>

definition b64_val :: "char \<Rightarrow> nat option" where
  "b64_val ch =
     (let n = of_char ch :: nat in
      if 65 \<le> n \<and> n \<le> 90 then Some (n - 65)
      else if 97 \<le> n \<and> n \<le> 122 then Some (n - 71)
      else if 48 \<le> n \<and> n \<le> 57 then Some (n + 4)
      else if n = 45 then Some 62
      else if n = 95 then Some 63
      else None)"

definition b64_char :: "nat \<Rightarrow> char" where
  "b64_char v =
     (if v < 26 then char_of (v + 65)
      else if v < 52 then char_of (v + 71)
      else if v < 62 then char_of (v - 4)
      else if v = 62 then CHR ''-''
      else CHR ''_'')"

fun b64_quanta :: "nat list \<Rightarrow> string option" where
  "b64_quanta [] = Some []"
| "b64_quanta [a] = None"
| "b64_quanta [a, b] = Some [char_of (a * 4 + b div 16)]"
| "b64_quanta [a, b, c] = Some [char_of (a * 4 + b div 16), char_of (b mod 16 * 16 + c div 4)]"
| "b64_quanta (a # b # c # d # rest) = map_option
     (\<lambda>bs. char_of (a * 4 + b div 16) # char_of (b mod 16 * 16 + c div 4) # char_of (c mod 4 * 64 + d) # bs)
     (b64_quanta rest)"

fun b64_vals :: "string \<Rightarrow> nat list option" where
  "b64_vals [] = Some []"
| "b64_vals (ch # rest) =
     (case b64_val ch of
        None \<Rightarrow> None
      | Some v \<Rightarrow> map_option ((#) v) (b64_vals rest))"

text \<open>The decoder skips line breaks, and an encoding has no padding.\<close>

definition b64_Decode :: "string \<Rightarrow> string option" where
  "b64_Decode enc =
     Option.bind (b64_vals (filter (\<lambda>ch. ch \<noteq> CHR 0x0A \<and> ch \<noteq> CHR 0x0D) enc)) b64_quanta"

definition DecodedLen :: "nat \<Rightarrow> nat" where
  "DecodedLen n = n div 4 * 3 + n mod 4 * 6 div 8"

fun b64_Encode :: "string \<Rightarrow> string" where
  "b64_Encode [] = []"
| "b64_Encode [x] =
     (let n = of_char x in map b64_char [n div 4, n mod 4 * 16])"
| "b64_Encode [x, y] =
     (let n = of_char x; m = of_char y
      in map b64_char [n div 4, n mod 4 * 16 + m div 16, m mod 16 * 4])"
| "b64_Encode (x # y # z # rest) =
     (let n = of_char x; m = of_char y; l = of_char z
      in map b64_char [n div 4, n mod 4 * 16 + m div 16, m mod 16 * 4 + l div 64, l mod 64])
     @ b64_Encode rest"

lemma of_char_256: "(of_char (ch :: char) :: nat) < 256"
  by (metis nat_of_char_less_256)

lemma of_char_div:
  "(of_char (ch :: char) :: nat) div 16 < 16" "(of_char ch :: nat) div 4 < 64"
  "(of_char ch :: nat) div 64 < 4"
  using of_char_256 [of ch] by (simp_all add: less_mult_imp_div_less)

lemma b64_val_char: "v < 64 \<Longrightarrow> b64_val (b64_char v) = Some v"
  by (auto simp: b64_val_def b64_char_def Let_def)

lemma b64_val_special: "b64_val (CHR 0x0A) = None" "b64_val (CHR 0x0D) = None" "b64_val (CHR ''.'') = None"
  by (simp_all add: b64_val_def)

lemma b64_char_ok: "v < 64 \<Longrightarrow> b64_char v \<notin> {CHR 0x0A, CHR 0x0D, CHR ''.''}"
  using b64_val_char [of v] b64_val_special by auto

lemma DecodedLen_4: "DecodedLen (4 + n) = 3 + DecodedLen n"
proof -
  have "(4 + n) div 4 = 1 + n div 4" "(4 + n) mod 4 = n mod 4" by simp_all
  then show ?thesis unfolding DecodedLen_def by simp
qed

text \<open>The four values of three bytes, and the bytes back from them.\<close>

definition b64_group :: "char \<Rightarrow> char \<Rightarrow> char \<Rightarrow> nat list" where
  "b64_group x y z = [of_char x div 4, of_char x mod 4 * 16 + of_char y div 16,
     of_char y mod 16 * 4 + of_char z div 64, of_char z mod 64]"

lemma b64_group_range: "\<forall>v \<in> set (b64_group x y z). v < 64"
proof -
  have "(of_char x :: nat) mod 4 < 4" "(of_char y :: nat) mod 16 < 16" by simp_all
  then have "(of_char x :: nat) mod 4 * 16 + of_char y div 16 < 64"
    "(of_char y :: nat) mod 16 * 4 + of_char z div 64 < 64"
    using of_char_div [of y] of_char_div [of z] by linarith+
  then show ?thesis using of_char_div [of x] by (simp add: b64_group_def)
qed

lemma b64_group_quanta: "b64_quanta (b64_group x y z @ vs) = map_option ((@) [x, y, z]) (b64_quanta vs)"
proof -
  have m: "(a mod 4 * 16 + b) div 16 = a mod 4" "(a mod 4 * 16 + b) mod 16 = b"
    "(a mod 16 * 4 + c) div 4 = a mod 16" "(a mod 16 * 4 + c) mod 4 = c"
    if "b < 16" "c < 4" for a b c :: nat
    using that by simp_all
  show ?thesis
    using of_char_div [of y] of_char_div [of z]
    by (simp add: b64_group_def m) (intro arg_cong [where f = "\<lambda>f. map_option f (b64_quanta vs)"] ext, simp)
qed

text \<open>An encoding consists of characters of the alphabet, and its values are those encoded.\<close>

lemma b64_quanta_Encode:
  "\<exists>vs. b64_Encode bs = map b64_char vs \<and> (\<forall>v \<in> set vs. v < 64) \<and> b64_quanta vs = Some bs \<and>
     DecodedLen (length vs) = length bs"
proof (induction bs rule: b64_Encode.induct)
  case (2 x)
  then show ?case
    using of_char_div [of x] by (intro exI [of _ "[of_char x div 4, of_char x mod 4 * 16]"])
      (simp add: DecodedLen_def Let_def)
next
  case (3 x y)
  then show ?case
    using of_char_div [of x] of_char_div [of y]
    by (intro exI [of _ "[of_char x div 4, of_char x mod 4 * 16 + of_char y div 16, of_char y mod 16 * 4]"])
      (simp add: DecodedLen_def Let_def)
next
  case (4 x y z rest)
  then obtain vs where vs: "b64_Encode rest = map b64_char vs" "\<forall>v \<in> set vs. v < 64"
    "b64_quanta vs = Some rest" "DecodedLen (length vs) = length rest" by blast
  have "b64_Encode (x # y # z # rest) = map b64_char (b64_group x y z @ vs)"
    by (simp add: vs(1) b64_group_def Let_def)
  moreover have "\<forall>v \<in> set (b64_group x y z @ vs). v < 64"
    using b64_group_range [of x y z] vs(2) by (simp only: set_append ball_Un)
  moreover have "b64_quanta (b64_group x y z @ vs) = Some (x # y # z # rest)"
    unfolding b64_group_quanta vs(3) by simp
  moreover have "length (b64_group x y z @ vs) = 4 + length vs" by (simp add: b64_group_def)
  then have "DecodedLen (length (b64_group x y z @ vs)) = length (x # y # z # rest)"
    by (simp only: DecodedLen_4 vs(4)) simp
  ultimately show ?case by blast
qed (simp add: DecodedLen_def)

lemma b64_vals_map: "\<forall>v \<in> set vs. v < 64 \<Longrightarrow> b64_vals (map b64_char vs) = Some vs"
  by (induction vs) (auto simp: b64_val_char)

lemma b64_Decode_Encode: "b64_Decode (b64_Encode bs) = Some bs"
  and length_b64_Encode: "DecodedLen (length (b64_Encode bs)) = length bs"
  and b64_Encode_no_dot: "CHR ''.'' \<notin> set (b64_Encode bs)"
proof -
  obtain vs where vs: "b64_Encode bs = map b64_char vs" "\<forall>v \<in> set vs. v < 64"
    "b64_quanta vs = Some bs" "DecodedLen (length vs) = length bs" using b64_quanta_Encode by blast
  have "filter (\<lambda>ch. ch \<noteq> CHR 0x0A \<and> ch \<noteq> CHR 0x0D) (map b64_char vs) = map b64_char vs"
    using vs(2) b64_char_ok by (intro filter_True) force
  then show "b64_Decode (b64_Encode bs) = Some bs"
    by (simp add: b64_Decode_def vs(1) b64_vals_map [OF vs(2)] vs(3))
  show "DecodedLen (length (b64_Encode bs)) = length bs" using vs(1,4) by simp
  show "CHR ''.'' \<notin> set (b64_Encode bs)"
    unfolding vs(1) using vs(2) b64_char_ok by force
qed

section \<open>encoding/hex\<close>

definition hex_digit :: "nat \<Rightarrow> char" where
  "hex_digit v = (if v < 10 then char_of (v + 48) else char_of (v + 87))"

definition hex_val :: "char \<Rightarrow> nat option" where
  "hex_val ch =
     (let n = of_char ch :: nat in
      if 48 \<le> n \<and> n \<le> 57 then Some (n - 48)
      else if 97 \<le> n \<and> n \<le> 102 then Some (n - 87)
      else if 65 \<le> n \<and> n \<le> 70 then Some (n - 55)
      else None)"

fun hex_EncodeToString :: "string \<Rightarrow> string" where
  "hex_EncodeToString [] = []"
| "hex_EncodeToString (x # xs) =
     hex_digit (of_char x div 16) # hex_digit (of_char x mod 16) # hex_EncodeToString xs"

fun hex_DecodeString :: "string \<Rightarrow> string res" where
  "hex_DecodeString [] = Inr []"
| "hex_DecodeString [x] =
     (case hex_val x of
        None \<Rightarrow> Inl (Msg ''encoding/hex: invalid byte'')
      | Some _ \<Rightarrow> Inl (Msg ''encoding/hex: odd length hex string''))"
| "hex_DecodeString (x # y # rest) =
     (case (hex_val x, hex_val y) of
        (Some a, Some b) \<Rightarrow>
          (case hex_DecodeString rest of Inl e \<Rightarrow> Inl e | Inr bs \<Rightarrow> Inr (char_of (a * 16 + b) # bs))
      | _ \<Rightarrow> Inl (Msg ''encoding/hex: invalid byte''))"

lemma hex_val_digit: "v < 16 \<Longrightarrow> hex_val (hex_digit v) = Some v"
  by (auto simp: hex_val_def hex_digit_def Let_def)

lemma hex_Decode_Encode: "hex_DecodeString (hex_EncodeToString bs) = Inr bs"
proof (induction bs)
  case (Cons x xs)
  then show ?case using of_char_div [of x] by (simp add: hex_val_digit)
qed simp

section \<open>Reading a token\<close>

record jwt_payload =
  pl_Name :: string
  pl_Perm :: permission
  pl_Extra :: string

definition zero_payload :: jwt_payload where
  "zero_payload = \<lparr>pl_Name = [], pl_Perm = [], pl_Extra = []\<rparr>"

text \<open>The members of a JSON object decoded into a \<open>map[string]interface{}\<close>.\<close>

datatype json_val = JString string | JOther

text \<open>
  \<open>DecodeToBytes\<close> allocates \<open>DecodedLen\<close> bytes, so bytes that the decoder does not fill are zero.
\<close>

definition DecodeToBytes :: "string \<Rightarrow> string res" where
  "DecodeToBytes enc =
     (case b64_Decode enc of
        None \<Rightarrow> Inl (Msg ''illegal base64 data'')
      | Some bs \<Rightarrow> Inr (bs @ replicate (DecodedLen (length enc) - length bs) (CHR 0x00)))"

lemma DecodeToBytes_Encode: "DecodeToBytes (b64_Encode bs) = Inr bs"
  by (simp add: DecodeToBytes_def b64_Decode_Encode length_b64_Encode)

text \<open>
  Parameters: \<open>json.Unmarshal\<close> into a zero \<open>JWTPayload\<close> (the struct as it is afterwards, and the
  error) and into a map; \<open>jwt.Sign\<close> and \<open>jwt.Verify\<close> with HMAC-SHA256 under a key (package
  gbrlsnchs/jwt), where \<open>Verify\<close> decodes the payload into the struct it is given.
\<close>

record jwt_lib =
  json_payload :: "string \<Rightarrow> jwt_payload \<times> err option"
  json_map :: "string \<Rightarrow> (string \<rightharpoonup> json_val) res"
  jwt_Sign :: "jwt_payload \<Rightarrow> string \<Rightarrow> string res"
  jwt_Verify :: "string \<Rightarrow> string \<Rightarrow> jwt_payload \<Rightarrow> jwt_payload \<times> err option"

definition DecodeToken :: "jwt_lib \<Rightarrow> string \<Rightarrow> jwt_payload option \<times> err option" where
  "DecodeToken J token =
     (let sks = Split token (CHR ''.'') in
      if length sks < 2 then (None, Some (Msg ''can't parse user from input token''))
      else case DecodeToBytes (sks ! 1) of
             Inl e \<Rightarrow> (None, Some e)
           | Inr dec \<Rightarrow> (case json_payload J dec of (payload, e) \<Rightarrow> (Some payload, e)))"

definition JwtUserFromToken :: "jwt_lib \<Rightarrow> string \<Rightarrow> string res" where
  "JwtUserFromToken J token =
     (let sks = Split token (CHR ''.'') in
      if length sks < 2 then Inl (Msg ''can't parse user from input token'')
      else case DecodeToBytes (sks ! 1) of
             Inl e \<Rightarrow> Inl e
           | Inr dec \<Rightarrow>
               (case json_payload J dec of
                  (_, Some e) \<Rightarrow> Inl e
                | (payload, None) \<Rightarrow> Inr (pl_Name payload)))"

text \<open>\<open>tokenSpan[1]\<close> is not guarded here: without a dot in the token the call panics.\<close>

definition JWTPayloadMap :: "jwt_lib \<Rightarrow> string \<Rightarrow> (string \<rightharpoonup> json_val) res" where
  "JWTPayloadMap J token =
     (let tokenSpan = Split token (CHR ''.'') in
      if length tokenSpan < 2 then Inl (Panic ''index out of range [1]'')
      else case DecodeToBytes (tokenSpan ! 1) of
             Inl e \<Rightarrow> Inl e
           | Inr pb \<Rightarrow> json_map J pb)"

text \<open>The two readers of the payload agree.\<close>

lemma JwtUserFromToken_DecodeToken:
  "JwtUserFromToken J token =
     (case DecodeToken J token of
        (_, Some e) \<Rightarrow> Inl e
      | (Some p, None) \<Rightarrow> Inr (pl_Name p)
      | (None, None) \<Rightarrow> Inl (Panic ''nil''))"
  by (auto simp: JwtUserFromToken_def DecodeToken_def Let_def split: sum.split prod.split option.split)

section \<open>Documented behaviour of the parameters\<close>

text \<open>
  JSON round-trips payloads of valid UTF-8 (\<open>json.Marshal\<close> replaces bytes that are not). A signed token is three words joined by dots, the
  second one the base64 form of the payload's JSON. \<open>Verify\<close> accepts what \<open>Sign\<close> made under the
  same key; when it accepts, the struct holds the payload of the token.
\<close>

definition utf8_tail :: "char \<Rightarrow> bool" where
  "utf8_tail ch \<longleftrightarrow> 0x80 \<le> (of_char ch :: nat) \<and> (of_char ch :: nat) < 0xC0"

fun utf8 :: "string \<Rightarrow> bool" where
  "utf8 [] = True"
| "utf8 (a # s) =
     (let n = of_char a :: nat in
      if n < 0x80 then utf8 s
      else if 0xC2 \<le> n \<and> n < 0xE0 then (case s of b # s \<Rightarrow> utf8_tail b \<and> utf8 s | _ \<Rightarrow> False)
      else if 0xE0 \<le> n \<and> n < 0xF0 then
        (case s of
           b # c # s \<Rightarrow> utf8_tail b \<and> utf8_tail c \<and> (n = 0xE0 \<longrightarrow> 0xA0 \<le> (of_char b :: nat)) \<and>
             (n = 0xED \<longrightarrow> (of_char b :: nat) < 0xA0) \<and> utf8 s
         | _ \<Rightarrow> False)
      else if 0xF0 \<le> n \<and> n < 0xF5 then
        (case s of
           b # c # d # s \<Rightarrow> utf8_tail b \<and> utf8_tail c \<and> utf8_tail d \<and> (n = 0xF0 \<longrightarrow> 0x90 \<le> (of_char b :: nat)) \<and>
             (n = 0xF4 \<longrightarrow> (of_char b :: nat) < 0x90) \<and> utf8 s
         | _ \<Rightarrow> False)
      else False)"

declare utf8.simps(2) [simp del]

lemma utf8_ascii [simp]: "(of_char a :: nat) < 128 \<Longrightarrow> utf8 (a # s) = utf8 s"
  by (simp add: utf8.simps(2))

definition utf8_payload :: "jwt_payload \<Rightarrow> bool" where
  "utf8_payload p \<longleftrightarrow> utf8 (pl_Name p) \<and> utf8 (pl_Perm p) \<and> utf8 (pl_Extra p)"

definition jwt_ok :: "jwt_lib \<Rightarrow> (jwt_payload \<Rightarrow> string) \<Rightarrow> bool" where
  "jwt_ok J marshal \<longleftrightarrow>
     (\<forall>p. utf8_payload p \<longrightarrow> json_payload J (marshal p) = (p, None) \<and>
        (\<exists>m. json_map J (marshal p) = Inr m \<and> m ''name'' = Some (JString (pl_Name p)) \<and>
             m ''perm'' = Some (JString (pl_Perm p)))) \<and>
     (\<forall>p key tk. jwt_Sign J p key = Inr tk \<longrightarrow>
        (\<exists>hd sig. tk = hd @ CHR ''.'' # b64_Encode (marshal p) @ CHR ''.'' # sig \<and>
           CHR ''.'' \<notin> set hd \<and> CHR ''.'' \<notin> set sig) \<and>
        (utf8_payload p \<longrightarrow> (\<forall>q. jwt_Verify J tk key q = (p, None)))) \<and>
     (\<forall>tk key p q. DecodeToken J tk = (Some p, None) \<longrightarrow> jwt_Verify J tk key p = (q, None) \<longrightarrow> q = p)"

lemma jwt_okD:
  assumes "jwt_ok J marshal"
  shows jwt_ok_json: "utf8_payload p \<Longrightarrow> json_payload J (marshal p) = (p, None)"
    and jwt_ok_map: "utf8_payload p \<Longrightarrow> \<exists>m. json_map J (marshal p) = Inr m \<and>
      m ''name'' = Some (JString (pl_Name p)) \<and> m ''perm'' = Some (JString (pl_Perm p))"
    and jwt_ok_token: "jwt_Sign J p key = Inr tk \<Longrightarrow>
      \<exists>hd sig. tk = hd @ CHR ''.'' # b64_Encode (marshal p) @ CHR ''.'' # sig \<and>
        CHR ''.'' \<notin> set hd \<and> CHR ''.'' \<notin> set sig"
    and jwt_ok_verify: "jwt_Sign J p key = Inr tk \<Longrightarrow> utf8_payload p \<Longrightarrow> jwt_Verify J tk key q = (p, None)"
    and jwt_ok_same: "DecodeToken J tk = (Some p, None) \<Longrightarrow> jwt_Verify J tk key p = (q, None) \<Longrightarrow> q = p"
  using assms unfolding jwt_ok_def by blast+

lemma Split_signed:
  assumes "jwt_ok J marshal" and "jwt_Sign J p key = Inr tk"
  obtains hd sig where "Split tk (CHR ''.'') = [hd, b64_Encode (marshal p), sig]"
proof -
  obtain hd sig where "tk = hd @ CHR ''.'' # b64_Encode (marshal p) @ CHR ''.'' # sig"
    "CHR ''.'' \<notin> set hd" "CHR ''.'' \<notin> set sig" using jwt_ok_token [OF assms] by blast
  then have "Split tk (CHR ''.'') = [hd, b64_Encode (marshal p), sig]"
    by (simp add: Split_word b64_Encode_no_dot Split_last)
  then show thesis by (rule that)
qed

lemma DecodeToken_signed:
  assumes "jwt_ok J marshal" and "jwt_Sign J p key = Inr tk" and "utf8_payload p"
  shows "DecodeToken J tk = (Some p, None)" and "JwtUserFromToken J tk = Inr (pl_Name p)"
    and "\<exists>m. JWTPayloadMap J tk = Inr m \<and> m ''name'' = Some (JString (pl_Name p)) \<and>
      m ''perm'' = Some (JString (pl_Perm p))"
proof -
  obtain hd sig where split: "Split tk (CHR ''.'') = [hd, b64_Encode (marshal p), sig]"
    by (rule Split_signed [OF assms(1,2)])
  show d: "DecodeToken J tk = (Some p, None)"
    by (simp add: DecodeToken_def split DecodeToBytes_Encode jwt_ok_json [OF assms(1,3)])
  show "JwtUserFromToken J tk = Inr (pl_Name p)"
    by (simp add: JwtUserFromToken_DecodeToken d)
  show "\<exists>m. JWTPayloadMap J tk = Inr m \<and> m ''name'' = Some (JString (pl_Name p)) \<and>
      m ''perm'' = Some (JString (pl_Perm p))"
    using jwt_ok_map [OF assms(1,3)] by (simp add: JWTPayloadMap_def split DecodeToBytes_Encode)
qed

end
