(* ===== verification/Store_Types.thy ===== *)
theory Store_Types
  imports Core
begin

text \<open>
  The data of the package storage (storage/store.go) and the key scheme of the badger store
  (storage/badger_helper.go): tokens, users, miners, signers, rate limits, the store version,
  and their methods \<open>key\<close>, \<open>FromBytes\<close>, \<open>Bytes\<close>, \<open>isDeleted\<close>, \<open>setDeleted\<close>. The Go interfaces
  \<open>iKableObj\<close>, \<open>iStreamableObj\<close>, \<open>deleteVerify\<close> and \<open>softDelete\<close> are records of methods, embedded
  in each other as the interfaces are.

  Filecoin addresses (package go-address) are values of a type variable \<open>'a\<close>; what the code
  calls on them is the parameter record \<open>addr_lib\<close>.

  A stored value is the JSON document of one of the structs. \<open>obj\<close> has one constructor per
  struct, \<open>Bytes\<close> applies it, and \<open>FromBytes\<close> is an error on a document of another struct.
\<close>

section \<open>Addresses (parameter: github.com/filecoin-project/go-address)\<close>

datatype protocol = AddrID | SECP256K1 | Actor | BLS | Delegated | UnknownProtocol nat

record 'a addr_lib =
  addr_String :: "'a \<Rightarrow> string"
  addr_Protocol :: "'a \<Rightarrow> protocol"
  addr_Empty :: "'a \<Rightarrow> bool"
  addr_NewFromString :: "string \<Rightarrow> err + 'a"
  addr_NetworkPrefix :: string

text \<open>
  Documented behaviour relied on: the textual form identifies the address, is a word without a
  colon, and starts with the network prefix (\<open>f\<close> or \<open>t\<close>) of the current network unless the
  address is the empty one; parsing it gives the address back.
\<close>

definition addr_ok :: "'a addr_lib \<Rightarrow> bool" where
  "addr_ok A \<longleftrightarrow> inj (addr_String A) \<and> (\<forall>a. CHR '':'' \<notin> set (addr_String A a))"

definition addr_text_ok :: "'a addr_lib \<Rightarrow> bool" where
  "addr_text_ok A \<longleftrightarrow>
     length (addr_NetworkPrefix A) = 1 \<and>
     (\<forall>a. \<not> addr_Empty A a \<longrightarrow>
        prefix (addr_NetworkPrefix A) (addr_String A a) \<and>
        addr_NewFromString A (addr_String A a) = Inr a)"

lemma addr_ok_inj: "addr_ok A \<Longrightarrow> addr_String A a = addr_String A b \<longleftrightarrow> a = b"
  by (auto simp: addr_ok_def dest: injD)

lemma addr_ok_colon: "addr_ok A \<Longrightarrow> CHR '':'' \<notin> set (addr_String A a)"
  by (simp add: addr_ok_def)

text \<open>Addresses that can sign (auth/jwt.go, lines 736-739).\<close>

definition IsSignerAddress :: "'a addr_lib \<Rightarrow> 'a \<Rightarrow> bool" where
  "IsSignerAddress A addr =
     (let protocol = addr_Protocol A addr
      in protocol = SECP256K1 \<or> protocol = BLS \<or> protocol = Delegated)"

text \<open>
  The type \<open>storedAddress\<close> is \<open>address.Address\<close> under another name; in a database column it is
  kept without the network prefix. \<open>Scan\<close> reads such a column back (\<open>None\<close> is a driver value
  that is not a byte string).
\<close>

definition storedAddress_String :: "'a addr_lib \<Rightarrow> 'a \<Rightarrow> string" where
  "storedAddress_String A sa =
     (let val = addr_String A sa in if addr_Empty A sa then val else drop 1 val)"

definition storedAddress_Value :: "'a addr_lib \<Rightarrow> 'a \<Rightarrow> string" where
  "storedAddress_Value A sa =
     (let val = storedAddress_String A sa
      in if addr_Empty A sa then val else storedAddress_String A sa)"

definition storedAddress_Scan :: "'a addr_lib \<Rightarrow> string option \<Rightarrow> 'a res" where
  "storedAddress_Scan A value =
     (case value of
        None \<Rightarrow> Inl (Msg ''non-string types unsupported'')
      | Some val \<Rightarrow> addr_NewFromString A (addr_NetworkPrefix A @ val))"

section \<open>Keys (storage/badger_helper.go)\<close>

type_synonym key = string

definition PrefixToken :: string where "PrefixToken = ''TOKEN:''"
definition PrefixUser :: string where "PrefixUser = ''USER:''"
definition PrefixReqLimit :: string where "PrefixReqLimit = ''ReqLimit:''"
definition PrefixMiner :: string where "PrefixMiner = ''MINERS:''"
definition PrefixSigner :: string where "PrefixSigner = ''SIGNERS:''"
definition storeVersionKey :: key where "storeVersionKey = ''StoreVersion''"

lemmas prefix_defs = PrefixToken_def PrefixUser_def PrefixReqLimit_def PrefixMiner_def
  PrefixSigner_def storeVersionKey_def

definition rateLimitKey :: "string \<Rightarrow> key" where "rateLimitKey name = PrefixReqLimit @ name"
definition userKey :: "string \<Rightarrow> key" where "userKey name = PrefixUser @ name"
definition tokenKey :: "string \<Rightarrow> key" where "tokenKey name = PrefixToken @ name"
definition minerKey :: "string \<Rightarrow> key" where "minerKey miner = PrefixMiner @ miner"
definition signerKey :: "string \<Rightarrow> key" where "signerKey signer = PrefixSigner @ signer"
definition signerForUserKey :: "string \<Rightarrow> string \<Rightarrow> key" where
  "signerForUserKey signer userName = PrefixSigner @ signer @ '':'' @ userName"

lemmas key_defs = rateLimitKey_def userKey_def tokenKey_def minerKey_def signerKey_def
  signerForUserKey_def

lemma key_inject [simp]:
  "rateLimitKey a = rateLimitKey b \<longleftrightarrow> a = b"
  "userKey a = userKey b \<longleftrightarrow> a = b"
  "tokenKey a = tokenKey b \<longleftrightarrow> a = b"
  "minerKey a = minerKey b \<longleftrightarrow> a = b"
  by (simp_all add: key_defs)

lemma signerForUserKey_inject:
  assumes "CHR '':'' \<notin> set a" and "CHR '':'' \<notin> set b"
  shows "signerForUserKey a u = signerForUserKey b v \<longleftrightarrow> a = b \<and> u = v"
  using append_sep_eq [OF assms] by (simp add: signerForUserKey_def)

lemma key_distinct [simp]:
  "tokenKey a \<noteq> userKey b" "userKey b \<noteq> tokenKey a"
  "tokenKey a \<noteq> minerKey b" "minerKey b \<noteq> tokenKey a"
  "tokenKey a \<noteq> signerForUserKey c d" "signerForUserKey c d \<noteq> tokenKey a"
  "tokenKey a \<noteq> rateLimitKey b" "rateLimitKey b \<noteq> tokenKey a"
  "tokenKey a \<noteq> storeVersionKey" "storeVersionKey \<noteq> tokenKey a"
  "userKey a \<noteq> minerKey b" "minerKey b \<noteq> userKey a"
  "userKey a \<noteq> signerForUserKey c d" "signerForUserKey c d \<noteq> userKey a"
  "userKey a \<noteq> rateLimitKey b" "rateLimitKey b \<noteq> userKey a"
  "userKey a \<noteq> storeVersionKey" "storeVersionKey \<noteq> userKey a"
  "minerKey a \<noteq> signerForUserKey c d" "signerForUserKey c d \<noteq> minerKey a"
  "minerKey a \<noteq> rateLimitKey b" "rateLimitKey b \<noteq> minerKey a"
  "minerKey a \<noteq> storeVersionKey" "storeVersionKey \<noteq> minerKey a"
  "signerForUserKey c d \<noteq> rateLimitKey b" "rateLimitKey b \<noteq> signerForUserKey c d"
  "signerForUserKey c d \<noteq> storeVersionKey" "storeVersionKey \<noteq> signerForUserKey c d"
  "rateLimitKey a \<noteq> storeVersionKey" "storeVersionKey \<noteq> rateLimitKey a"
  by (simp_all add: key_defs prefix_defs)

text \<open>Which keys a walk through one of the prefixes can meet.\<close>

lemma prefix_key [simp]:
  "prefix PrefixToken (tokenKey a)" "\<not> prefix PrefixToken (userKey a)"
  "\<not> prefix PrefixToken (minerKey a)" "\<not> prefix PrefixToken (signerForUserKey a b)"
  "\<not> prefix PrefixToken (rateLimitKey a)" "\<not> prefix PrefixToken storeVersionKey"
  "prefix PrefixUser (userKey a)" "\<not> prefix PrefixUser (tokenKey a)"
  "\<not> prefix PrefixUser (minerKey a)" "\<not> prefix PrefixUser (signerForUserKey a b)"
  "\<not> prefix PrefixUser (rateLimitKey a)" "\<not> prefix PrefixUser storeVersionKey"
  "prefix PrefixMiner (minerKey a)" "\<not> prefix PrefixMiner (tokenKey a)"
  "\<not> prefix PrefixMiner (userKey a)" "\<not> prefix PrefixMiner (signerForUserKey a b)"
  "\<not> prefix PrefixMiner (rateLimitKey a)" "\<not> prefix PrefixMiner storeVersionKey"
  "prefix PrefixSigner (signerForUserKey a b)" "\<not> prefix PrefixSigner (tokenKey c)"
  "\<not> prefix PrefixSigner (userKey c)" "\<not> prefix PrefixSigner (minerKey c)"
  "\<not> prefix PrefixSigner (rateLimitKey c)" "\<not> prefix PrefixSigner storeVersionKey"
  by (simp_all add: key_defs prefix_defs)

lemma prefix_signerKey [simp]:
  "\<not> prefix (signerKey x) (tokenKey c)" "\<not> prefix (signerKey x) (userKey c)"
  "\<not> prefix (signerKey x) (minerKey c)" "\<not> prefix (signerKey x) (rateLimitKey c)"
  "\<not> prefix (signerKey x) storeVersionKey"
  "prefix (signerKey x) (signerForUserKey a b) \<longleftrightarrow> prefix x (a @ '':'' @ b)"
  by (auto simp: key_defs prefix_defs)

section \<open>Structs (storage/store.go)\<close>

record key_pair =
  kp_Name :: string
  kp_Perm :: string
  kp_Secret :: string
  kp_Extra :: string
  kp_Token :: string
  kp_CreateTime :: time
  kp_IsDeleted :: int

record user =
  usr_Id :: string
  usr_Name :: string
  usr_Comment :: string
  usr_State :: user_state
  usr_CreateTime :: time
  usr_UpdateTime :: time
  usr_IsDeleted :: int

text \<open>The embedded struct \<open>OrmTimestamp\<close>; its last field is a \<open>gorm.DeletedAt\<close>.\<close>

record deleted_at =
  da_Time :: time
  da_Valid :: bool

record orm_timestamp =
  CreatedAt :: time
  UpdatedAt :: time
  DeletedAt :: deleted_at

record 'a miner = orm_timestamp +
  mn_ID :: nat
  mn_Miner :: 'a
  mn_User :: string
  mn_OpenMining :: "bool option"

record 'a signer = orm_timestamp +
  sn_ID :: nat
  sn_Signer :: 'a
  sn_User :: string

record store_version =
  sv_ID :: nat
  sv_Version :: nat

record req_limit =
  Cap :: int
  ResetDur :: int

record user_rate_limit =
  rl_Id :: string
  rl_Name :: string
  rl_Service :: string
  rl_API :: string
  rl_ReqLimit :: req_limit

text \<open>
  A Go map from ids to limits: an association list with distinct keys. Its order has no
  meaning; where the code ranges over the map, the order is a parameter.
\<close>

type_synonym maped_ratelimit = "(string \<times> user_rate_limit) list"

text \<open>
  Documents in the store. A user document written by version 0 of the store also has a member
  \<open>Miner\<close>, which decoding into \<open>User\<close> ignores and which no document written now has.
\<close>

datatype 'a obj =
    KeyPairObj key_pair
  | UserObj user "string option"
  | MinerObj "'a miner"
  | SignerObj "'a signer"
  | RateLimitObj maped_ratelimit
  | VersionObj store_version

definition zero_deleted_at :: deleted_at where
  "zero_deleted_at = \<lparr>da_Time = zero_time, da_Valid = False\<rparr>"

section \<open>Interfaces and methods (storage/store.go)\<close>

record ('o, 'v) iStreamableObj =
  FromBytes :: "'v \<Rightarrow> 'o res"
  Bytes :: "'o \<Rightarrow> 'v"

record ('o, 'v) iBadgerObj = "('o, 'v) iStreamableObj" +
  obj_key :: "'o \<Rightarrow> key"

record ('o, 'v) deleteVerify = "('o, 'v) iBadgerObj" +
  isDeleted :: "'o \<Rightarrow> bool"

record ('o, 'v) softDelete = "('o, 'v) deleteVerify" +
  setDeleted :: "time \<Rightarrow> 'o \<Rightarrow> 'o"

definition decode_error :: err where
  "decode_error = Msg ''json: cannot unmarshal''"

definition KeyPair_Bytes :: "key_pair \<Rightarrow> 'a obj" where "KeyPair_Bytes kp = KeyPairObj kp"

definition KeyPair_FromBytes :: "'a obj \<Rightarrow> key_pair res" where
  "KeyPair_FromBytes val = (case val of KeyPairObj kp \<Rightarrow> Inr kp | _ \<Rightarrow> Inl decode_error)"

definition KeyPair_key :: "key_pair \<Rightarrow> key" where "KeyPair_key kp = tokenKey (kp_Token kp)"

definition KeyPair_isDeleted :: "key_pair \<Rightarrow> bool" where
  "KeyPair_isDeleted kp \<longleftrightarrow> kp_IsDeleted kp = Deleted"

definition KeyPair_setDeleted :: "time \<Rightarrow> key_pair \<Rightarrow> key_pair" where
  "KeyPair_setDeleted now kp = kp\<lparr>kp_IsDeleted := Deleted\<rparr>"

definition User_Bytes :: "user \<Rightarrow> 'a obj" where "User_Bytes u = UserObj u None"

definition User_FromBytes :: "'a obj \<Rightarrow> user res" where
  "User_FromBytes val = (case val of UserObj u _ \<Rightarrow> Inr u | _ \<Rightarrow> Inl decode_error)"

definition User_key :: "user \<Rightarrow> key" where "User_key u = userKey (usr_Name u)"

definition User_isDeleted :: "user \<Rightarrow> bool" where
  "User_isDeleted u \<longleftrightarrow> usr_IsDeleted u = 1"

definition User_setDeleted :: "time \<Rightarrow> user \<Rightarrow> user" where
  "User_setDeleted now u = u\<lparr>usr_IsDeleted := Deleted\<rparr>"

definition Miner_Bytes :: "'a miner \<Rightarrow> 'a obj" where "Miner_Bytes m = MinerObj m"

definition Miner_FromBytes :: "'a obj \<Rightarrow> 'a miner res" where
  "Miner_FromBytes val = (case val of MinerObj m \<Rightarrow> Inr m | _ \<Rightarrow> Inl decode_error)"

definition Miner_key :: "'a addr_lib \<Rightarrow> 'a miner \<Rightarrow> key" where
  "Miner_key A m = minerKey (addr_String A (mn_Miner m))"

definition Miner_isDeleted :: "'a miner \<Rightarrow> bool" where
  "Miner_isDeleted m \<longleftrightarrow> da_Valid (DeletedAt m) \<and> \<not> IsZero (da_Time (DeletedAt m))"

definition Miner_setDeleted :: "time \<Rightarrow> 'a miner \<Rightarrow> 'a miner" where
  "Miner_setDeleted now m = m\<lparr>DeletedAt := \<lparr>da_Time = now, da_Valid = True\<rparr>\<rparr>"

definition Signer_Bytes :: "'a signer \<Rightarrow> 'a obj" where "Signer_Bytes m = SignerObj m"

definition Signer_FromBytes :: "'a obj \<Rightarrow> 'a signer res" where
  "Signer_FromBytes val = (case val of SignerObj m \<Rightarrow> Inr m | _ \<Rightarrow> Inl decode_error)"

definition Signer_key :: "'a addr_lib \<Rightarrow> 'a signer \<Rightarrow> key" where
  "Signer_key A m = signerForUserKey (addr_String A (sn_Signer m)) (sn_User m)"

definition Signer_isDeleted :: "'a signer \<Rightarrow> bool" where
  "Signer_isDeleted m \<longleftrightarrow> da_Valid (DeletedAt m) \<and> \<not> IsZero (da_Time (DeletedAt m))"

definition Signer_setDeleted :: "time \<Rightarrow> 'a signer \<Rightarrow> 'a signer" where
  "Signer_setDeleted now m = m\<lparr>DeletedAt := \<lparr>da_Time = now, da_Valid = True\<rparr>\<rparr>"

definition StoreVersion_key :: "store_version \<Rightarrow> key" where "StoreVersion_key v = storeVersionKey"

definition StoreVersion_Bytes :: "store_version \<Rightarrow> 'a obj" where
  "StoreVersion_Bytes v = VersionObj v"

definition StoreVersion_FromBytes :: "'a obj \<Rightarrow> store_version res" where
  "StoreVersion_FromBytes val = (case val of VersionObj v \<Rightarrow> Inr v | _ \<Rightarrow> Inl decode_error)"

definition LimitKey :: "user_rate_limit \<Rightarrow> string" where
  "LimitKey l = rl_Name l @ rl_Service l @ rl_API l"

definition mapedRatelimit_key :: "maped_ratelimit \<Rightarrow> key option" where
  "mapedRatelimit_key mr = (case mr of [] \<Rightarrow> None | (_, v) # _ \<Rightarrow> Some (rateLimitKey (rl_Name v)))"

definition mapedRatelimit_Bytes :: "maped_ratelimit \<Rightarrow> 'a obj" where
  "mapedRatelimit_Bytes mr = RateLimitObj mr"

definition mapedRatelimit_FromBytes :: "'a obj \<Rightarrow> maped_ratelimit res" where
  "mapedRatelimit_FromBytes val = (case val of RateLimitObj mr \<Rightarrow> Inr mr | _ \<Rightarrow> Inl decode_error)"

text \<open>The method tables through which the store calls each struct.\<close>

definition KeyPair_obj :: "(key_pair, 'a obj) softDelete" where
  "KeyPair_obj = \<lparr>FromBytes = KeyPair_FromBytes, Bytes = KeyPair_Bytes, obj_key = KeyPair_key,
     isDeleted = KeyPair_isDeleted, setDeleted = KeyPair_setDeleted\<rparr>"

definition User_obj :: "(user, 'a obj) softDelete" where
  "User_obj = \<lparr>FromBytes = User_FromBytes, Bytes = User_Bytes, obj_key = User_key,
     isDeleted = User_isDeleted, setDeleted = User_setDeleted\<rparr>"

definition Miner_obj :: "'a addr_lib \<Rightarrow> ('a miner, 'a obj) softDelete" where
  "Miner_obj A = \<lparr>FromBytes = Miner_FromBytes, Bytes = Miner_Bytes, obj_key = Miner_key A,
     isDeleted = Miner_isDeleted, setDeleted = Miner_setDeleted\<rparr>"

definition Signer_obj :: "'a addr_lib \<Rightarrow> ('a signer, 'a obj) softDelete" where
  "Signer_obj A = \<lparr>FromBytes = Signer_FromBytes, Bytes = Signer_Bytes, obj_key = Signer_key A,
     isDeleted = Signer_isDeleted, setDeleted = Signer_setDeleted\<rparr>"

definition mapedRatelimit_obj :: "(maped_ratelimit, 'a obj) iStreamableObj" where
  "mapedRatelimit_obj =
     \<lparr>FromBytes = mapedRatelimit_FromBytes, Bytes = mapedRatelimit_Bytes\<rparr>"

definition StoreVersion_obj :: "(store_version, 'a obj) iBadgerObj" where
  "StoreVersion_obj = \<lparr>FromBytes = StoreVersion_FromBytes, Bytes = StoreVersion_Bytes,
     obj_key = StoreVersion_key\<rparr>"

lemmas method_table_defs = KeyPair_obj_def User_obj_def Miner_obj_def Signer_obj_def
  mapedRatelimit_obj_def StoreVersion_obj_def

lemmas codec_defs = KeyPair_Bytes_def KeyPair_FromBytes_def User_Bytes_def User_FromBytes_def
  Miner_Bytes_def Miner_FromBytes_def Signer_Bytes_def Signer_FromBytes_def
  StoreVersion_Bytes_def StoreVersion_FromBytes_def mapedRatelimit_Bytes_def
  mapedRatelimit_FromBytes_def

lemmas deleted_defs = KeyPair_isDeleted_def KeyPair_setDeleted_def User_isDeleted_def
  User_setDeleted_def Miner_isDeleted_def Miner_setDeleted_def Signer_isDeleted_def
  Signer_setDeleted_def Deleted_def NotDelete_def

lemmas obj_key_defs = KeyPair_key_def User_key_def Miner_key_def Signer_key_def StoreVersion_key_def

lemma FromBytes_Inr:
  "KeyPair_FromBytes v = Inr kp \<longleftrightarrow> v = KeyPairObj kp"
  "Miner_FromBytes v = Inr m \<longleftrightarrow> v = MinerObj m"
  "Signer_FromBytes v = Inr s \<longleftrightarrow> v = SignerObj s"
  "User_FromBytes v = Inr u \<longleftrightarrow> (\<exists>l. v = UserObj u l)"
  by (auto simp: codec_defs split: obj.splits)

end
