(* ===== verification/Store_Interface.thy ===== *)
theory Store_Interface
  imports Store_Types
begin

text \<open>
  The interface \<open>Store\<close> (storage/store.go, lines 46-97) as a table of methods, what runs over any
  store - the migration loop (storage/store_migration.go) and \<open>NewStore\<close> - and the contract under
  which the loop returns with the store at version 3.

  A method takes the state \<open>'db\<close> of the store; one that may change it returns the new state too.
  \<open>time\<close> is the reading of the clock during the call, and the first argument of
  \<open>st_PutRateLimit\<close> the identifier that \<open>uuid.NewString\<close> returns.
\<close>

record ('a, 'db) store_ops =
  st_Get :: "string \<Rightarrow> 'db \<Rightarrow> key_pair res"
  st_ByName :: "string \<Rightarrow> 'db \<Rightarrow> key_pair list res"
  st_Put :: "key_pair \<Rightarrow> 'db \<Rightarrow> 'db \<times> unit res"
  st_Delete :: "time \<Rightarrow> string \<Rightarrow> 'db \<Rightarrow> 'db \<times> unit res"
  st_Recover :: "string \<Rightarrow> 'db \<Rightarrow> 'db \<times> unit res"
  st_Has :: "string \<Rightarrow> 'db \<Rightarrow> bool res"
  st_List :: "int \<Rightarrow> int \<Rightarrow> 'db \<Rightarrow> key_pair list res"
  st_UpdateToken :: "key_pair \<Rightarrow> 'db \<Rightarrow> 'db \<times> unit res"
  st_HasUser :: "string \<Rightarrow> 'db \<Rightarrow> bool res"
  st_GetUser :: "string \<Rightarrow> 'db \<Rightarrow> user res"
  st_VerifyUsers :: "string list \<Rightarrow> 'db \<Rightarrow> unit res"
  st_PutUser :: "user \<Rightarrow> 'db \<Rightarrow> 'db \<times> unit res"
  st_UpdateUser :: "user \<Rightarrow> 'db \<Rightarrow> 'db \<times> unit res"
  st_ListUsers :: "int \<Rightarrow> int \<Rightarrow> user_state \<Rightarrow> 'db \<Rightarrow> user list res"
  st_DeleteUser :: "time \<Rightarrow> string \<Rightarrow> 'db \<Rightarrow> 'db \<times> unit res"
  st_RecoverUser :: "string \<Rightarrow> 'db \<Rightarrow> 'db \<times> unit res"
  st_GetRateLimits :: "string \<Rightarrow> string \<Rightarrow> 'db \<Rightarrow> user_rate_limit list res"
  st_PutRateLimit :: "string \<Rightarrow> user_rate_limit \<Rightarrow> 'db \<Rightarrow> 'db \<times> string res"
  st_DelRateLimit :: "string \<Rightarrow> string \<Rightarrow> 'db \<Rightarrow> 'db \<times> unit res"
  st_UpsertMiner :: "time \<Rightarrow> 'a \<Rightarrow> string \<Rightarrow> bool option \<Rightarrow> 'db \<Rightarrow> 'db \<times> bool res"
  st_HasMiner :: "'a \<Rightarrow> 'db \<Rightarrow> bool res"
  st_MinerExistInUser :: "'a \<Rightarrow> string \<Rightarrow> 'db \<Rightarrow> bool res"
  st_GetUserByMiner :: "'a \<Rightarrow> 'db \<Rightarrow> user res"
  st_ListMiners :: "string \<Rightarrow> 'db \<Rightarrow> 'a miner list res"
  st_DelMiner :: "time \<Rightarrow> 'a \<Rightarrow> 'db \<Rightarrow> 'db \<times> bool res"
  st_RegisterSigner :: "time \<Rightarrow> 'a \<Rightarrow> string \<Rightarrow> 'db \<Rightarrow> 'db \<times> unit res"
  st_SignerExistInUser :: "'a \<Rightarrow> string \<Rightarrow> 'db \<Rightarrow> bool res"
  st_ListSigner :: "string \<Rightarrow> 'db \<Rightarrow> 'a signer list res"
  st_UnregisterSigner :: "time \<Rightarrow> 'a \<Rightarrow> string \<Rightarrow> 'db \<Rightarrow> 'db \<times> unit res"
  st_HasSigner :: "'a \<Rightarrow> 'db \<Rightarrow> bool res"
  st_DelSigner :: "time \<Rightarrow> 'a \<Rightarrow> 'db \<Rightarrow> 'db \<times> bool res"
  st_GetUserBySigner :: "'a \<Rightarrow> 'db \<Rightarrow> user list res"
  st_Version :: "'db \<Rightarrow> nat res"
  st_MigrateToV1 :: "time \<Rightarrow> 'db \<Rightarrow> 'db \<times> unit res"
  st_MigrateToV2 :: "'db \<Rightarrow> 'db \<times> unit res"
  st_MigrateToV3 :: "'db \<Rightarrow> 'db \<times> unit res"

section \<open>The migration loop\<close>

definition migrationSchedules ::
  "('a, 'db) store_ops \<Rightarrow> time \<Rightarrow> nat \<Rightarrow> ('db \<Rightarrow> 'db \<times> unit res) option" where
  "migrationSchedules S now v =
     (if v = 0 then Some (st_MigrateToV1 S now)
      else if v = 1 then Some (st_MigrateToV2 S)
      else if v = 2 then Some (st_MigrateToV3 S)
      else None)"

text \<open>\<open>for { ... }\<close>: the value \<open>None\<close> is a loop that never ends.\<close>

partial_function (option) StoreMigrate ::
  "('a, 'db) store_ops \<Rightarrow> time \<Rightarrow> 'db \<Rightarrow> ('db \<times> unit res) option" where
  "StoreMigrate S now s =
     (case st_Version S s of
        Inl e \<Rightarrow> Some (s, Inl e)
      | Inr v \<Rightarrow>
          (case migrationSchedules S now v of
             None \<Rightarrow> Some (s, Inr ())
           | Some migrate \<Rightarrow>
               (case migrate s of
                  (s, Inl e) \<Rightarrow>
                    Some (s, Inl (Wrap (''migrate from store version:'' @ show_nat v @ '' failed:'') e))
                | (s, Inr _) \<Rightarrow> StoreMigrate S now s)))"

text \<open>\<open>strings.ToLower\<close> on ASCII.\<close>

definition ToLower :: "string \<Rightarrow> string" where
  "ToLower s = map (\<lambda>ch. if CHR ''A'' \<le> ch \<and> ch \<le> CHR ''Z''
     then char_of ((of_char ch :: nat) + 32) else ch) s"

text \<open>
  \<open>NewStore\<close>: each constructor (\<open>newMySQLStore\<close>, \<open>newBadgerStore\<close>) gives a method table and a
  state, or an error.
\<close>

definition NewStore ::
  "(('a, 'db) store_ops \<times> 'db) res \<Rightarrow> (('a, 'db) store_ops \<times> 'db) res \<Rightarrow> time \<Rightarrow> string \<Rightarrow>
     (('a, 'db) store_ops \<times> 'db) res option" where
  "NewStore newMySQLStore newBadgerStore now cnfType =
     (let ty = ToLower cnfType in
      case (if ty = ''mysql'' then newMySQLStore
            else if ty = ''badger'' then newBadgerStore
            else Inl (Msg (''the type '' @ cnfType @ '' is not currently supported''))) of
        Inl e \<Rightarrow> Some (Inl e)
      | Inr (S, s) \<Rightarrow>
          (case StoreMigrate S now s of
             None \<Rightarrow> None
           | Some (s, Inl e) \<Rightarrow> Some (Inl (Wrap ''migrate store failed:'' e))
           | Some (s, Inr _) \<Rightarrow> Some (Inr (S, s))))"

section \<open>The contract of migration\<close>

text \<open>
  Each migration succeeds on a store of its version, raises the version by one, and relates the
  states before and after by a preorder \<open>keeps\<close>.
\<close>

locale migrating_store =
  fixes S :: "('a, 'db) store_ops" and inv :: "'db \<Rightarrow> bool" and ver :: "'db \<Rightarrow> nat"
    and keeps :: "'db \<Rightarrow> 'db \<Rightarrow> bool"
  assumes Version: "inv s \<Longrightarrow> st_Version S s = Inr (ver s)"
    and step: "inv s \<Longrightarrow> migrationSchedules S now (ver s) = Some migrate \<Longrightarrow>
      \<exists>s'. migrate s = (s', Inr ()) \<and> inv s' \<and> ver s' = ver s + 1 \<and> keeps s s'"
    and keeps_refl: "inv s \<Longrightarrow> keeps s s"
    and keeps_trans: "keeps s s' \<Longrightarrow> keeps s' s'' \<Longrightarrow> keeps s s''"
begin

lemma schedule_None: "migrationSchedules S now v = None \<longleftrightarrow> 3 \<le> v"
  by (auto simp: migrationSchedules_def)

lemma StoreMigrate_done: "inv s \<Longrightarrow> 3 \<le> ver s \<Longrightarrow> StoreMigrate S now s = Some (s, Inr ())"
  by (subst StoreMigrate.simps) (simp add: Version schedule_None [THEN iffD2])

lemma StoreMigrate_step:
  assumes "inv s" and "ver s < 3"
  obtains s' migrate where "migrationSchedules S now (ver s) = Some migrate"
    and "migrate s = (s', Inr ())" "inv s'" "ver s' = ver s + 1" "keeps s s'"
    and "StoreMigrate S now s = StoreMigrate S now s'"
proof -
  from assms(2) have "migrationSchedules S now (ver s) \<noteq> None" by (simp add: schedule_None)
  then obtain migrate where m: "migrationSchedules S now (ver s) = Some migrate" by blast
  from step [OF assms(1) m] obtain s' where s': "migrate s = (s', Inr ())" "inv s'"
    "ver s' = ver s + 1" "keeps s s'" by blast
  moreover have "StoreMigrate S now s = StoreMigrate S now s'"
    by (subst StoreMigrate.simps) (simp add: Version [OF assms(1)] m s'(1))
  ultimately show thesis using m that by blast
qed

lemma StoreMigrate_ok:
  "inv s \<Longrightarrow> \<exists>s'. StoreMigrate S now s = Some (s', Inr ()) \<and> inv s' \<and>
     ver s' = max 3 (ver s) \<and> keeps s s'"
proof (induction "3 - ver s" arbitrary: s)
  case 0
  then show ?case using StoreMigrate_done [of s now] keeps_refl [of s] by (auto simp: max_def)
next
  case (Suc n)
  then have "ver s < 3" by simp
  with Suc.prems obtain s1 where s1: "inv s1" "ver s1 = ver s + 1" "keeps s s1"
    "StoreMigrate S now s = StoreMigrate S now s1" by (rule StoreMigrate_step)
  then have "n = 3 - ver s1" using Suc.hyps(2) by simp
  from Suc.hyps(1) [OF this s1(1)] obtain s2 where "StoreMigrate S now s1 = Some (s2, Inr ())"
    "inv s2" "ver s2 = max 3 (ver s1)" "keeps s1 s2" by blast
  with s1 \<open>ver s < 3\<close> keeps_trans show ?case by (auto simp: max_def)
qed

end

end
