(* ===== verification/Store_Spec.thy ===== *)
theory Store_Spec
  imports Store_Interface "HOL-Library.Multiset"
begin

text \<open>
  What a \<open>Store\<close> promises, independently of how it keeps its data: an abstract state of finite maps,
  the meaning of every method on it, and the locale \<open>store_contract\<close> with the law of each method.
  The service is verified against this contract, or the part \<open>store_reads\<close> of it; the badger store is
  shown to meet it, the MySQL store to meet the part.

  The abstract state keeps deleted entries, because \<open>Recover\<close> brings them back.
\<close>

section \<open>The abstract state\<close>

record 'a astore =
  as_token :: "string \<rightharpoonup> key_pair"
  as_user :: "string \<rightharpoonup> user"
  as_miner :: "'a \<rightharpoonup> 'a miner"
  as_signer :: "'a \<Rightarrow> string \<rightharpoonup> 'a signer"
  as_limit :: "string \<Rightarrow> string \<rightharpoonup> user_rate_limit"

definition live :: "('x \<Rightarrow> bool) \<Rightarrow> 'x option \<Rightarrow> 'x option" where
  "live del x = (case x of None \<Rightarrow> None | Some v \<Rightarrow> if del v then None else Some v)"

lemma live_simps [simp]:
  "live del None = None" "live del (Some v) = (if del v then None else Some v)"
  by (simp_all add: live_def)

lemma live_Some: "live del x = Some v \<longleftrightarrow> x = Some v \<and> \<not> del v"
  by (auto simp: live_def split: option.split)

abbreviation a_token :: "'a astore \<Rightarrow> string \<Rightarrow> key_pair option" where
  "a_token st t \<equiv> live KeyPair_isDeleted (as_token st t)"

abbreviation a_user :: "'a astore \<Rightarrow> string \<Rightarrow> user option" where
  "a_user st n \<equiv> live User_isDeleted (as_user st n)"

abbreviation a_miner :: "'a astore \<Rightarrow> 'a \<Rightarrow> 'a miner option" where
  "a_miner st a \<equiv> live Miner_isDeleted (as_miner st a)"

abbreviation a_signer :: "'a astore \<Rightarrow> 'a \<Rightarrow> string \<Rightarrow> 'a signer option" where
  "a_signer st a n \<equiv> live Signer_isDeleted (as_signer st a n)"

text \<open>The user that owns a miner.\<close>

definition a_owner :: "'a astore \<Rightarrow> 'a \<Rightarrow> string option" where
  "a_owner st a = map_option mn_User (a_miner st a)"

section \<open>The meaning of the methods that change the store\<close>

text \<open>\<open>None\<close> is a call that is refused; otherwise the new state and the result.\<close>

definition spec_Put :: "key_pair \<Rightarrow> 'a astore \<Rightarrow> ('a astore \<times> unit) option" where
  "spec_Put kp st = Some (st\<lparr>as_token := (as_token st)(kp_Token kp \<mapsto> kp)\<rparr>, ())"

definition spec_Delete :: "string \<Rightarrow> 'a astore \<Rightarrow> ('a astore \<times> unit) option" where
  "spec_Delete t st = map_option
     (\<lambda>kp. (st\<lparr>as_token := (as_token st)(t \<mapsto> kp\<lparr>kp_IsDeleted := Deleted\<rparr>)\<rparr>, ())) (a_token st t)"

definition spec_Recover :: "string \<Rightarrow> 'a astore \<Rightarrow> ('a astore \<times> unit) option" where
  "spec_Recover t st =
     (case as_token st t of
        None \<Rightarrow> None
      | Some kp \<Rightarrow>
          if kp_IsDeleted kp = NotDelete then None
          else Some (st\<lparr>as_token := (as_token st)(t \<mapsto> kp\<lparr>kp_IsDeleted := NotDelete\<rparr>)\<rparr>, ()))"

definition spec_PutUser :: "user \<Rightarrow> 'a astore \<Rightarrow> ('a astore \<times> unit) option" where
  "spec_PutUser u st = Some (st\<lparr>as_user := (as_user st)(usr_Name u \<mapsto> u)\<rparr>, ())"

definition del_miner :: "time \<Rightarrow> 'a miner \<Rightarrow> 'a miner" where
  "del_miner now m = (if Miner_isDeleted m then m else Miner_setDeleted now m)"

definition del_signer :: "time \<Rightarrow> 'a signer \<Rightarrow> 'a signer" where
  "del_signer now g = (if Signer_isDeleted g then g else Signer_setDeleted now g)"

text \<open>Deleting a user deletes the user's miners and the user's signer bindings.\<close>

definition spec_DeleteUser :: "time \<Rightarrow> string \<Rightarrow> 'a astore \<Rightarrow> ('a astore \<times> unit) option" where
  "spec_DeleteUser now n st = map_option
     (\<lambda>u. (st\<lparr>as_user := (as_user st)(n \<mapsto> u\<lparr>usr_IsDeleted := Deleted\<rparr>),
             as_miner := (\<lambda>a. map_option (\<lambda>m. if mn_User m = n then del_miner now m else m) (as_miner st a)),
             as_signer := (\<lambda>a m. if m = n then map_option (del_signer now) (as_signer st a m)
                                else as_signer st a m)\<rparr>, ()))
     (a_user st n)"

definition spec_RecoverUser :: "string \<Rightarrow> 'a astore \<Rightarrow> ('a astore \<times> unit) option" where
  "spec_RecoverUser n st =
     (case as_user st n of
        None \<Rightarrow> None
      | Some u \<Rightarrow>
          if usr_IsDeleted u = NotDelete then None
          else Some (st\<lparr>as_user := (as_user st)(n \<mapsto> u\<lparr>usr_IsDeleted := NotDelete\<rparr>)\<rparr>, ()))"

definition spec_PutRateLimit ::
  "string \<Rightarrow> user_rate_limit \<Rightarrow> 'a astore \<Rightarrow> ('a astore \<times> string) option" where
  "spec_PutRateLimit uuid l st =
     (let i = (if rl_Id l = [] then uuid else rl_Id l) in
      Some (st\<lparr>as_limit := (as_limit st)(rl_Name l := (as_limit st (rl_Name l))(i \<mapsto> l\<lparr>rl_Id := i\<rparr>))\<rparr>, i))"

text \<open>The miner document after an upsert; \<open>old\<close> is the one before it, if any.\<close>

definition bind_miner :: "time \<Rightarrow> 'a \<Rightarrow> string \<Rightarrow> bool option \<Rightarrow> 'a miner option \<Rightarrow> 'a miner" where
  "bind_miner now a n om old =
     \<lparr>CreatedAt = (case old of None \<Rightarrow> now | Some m \<Rightarrow> CreatedAt m), UpdatedAt = now,
      DeletedAt = \<lparr>da_Time = zero_time, da_Valid = True\<rparr>,
      mn_ID = (case old of None \<Rightarrow> 0 | Some m \<Rightarrow> mn_ID m), mn_Miner = a, mn_User = n,
      mn_OpenMining = om\<rparr>"

text \<open>The user must be known, but may have been deleted.\<close>

definition spec_UpsertMiner ::
  "time \<Rightarrow> 'a \<Rightarrow> string \<Rightarrow> bool option \<Rightarrow> 'a astore \<Rightarrow> ('a astore \<times> bool) option" where
  "spec_UpsertMiner now a n om st =
     (if as_user st n = None then None
      else Some (st\<lparr>as_miner := (as_miner st)(a \<mapsto> bind_miner now a n om (as_miner st a))\<rparr>,
                 as_miner st a = None))"

definition spec_DelMiner :: "time \<Rightarrow> 'a \<Rightarrow> 'a astore \<Rightarrow> ('a astore \<times> bool) option" where
  "spec_DelMiner now a st =
     (case as_miner st a of
        None \<Rightarrow> Some (st, False)
      | Some m \<Rightarrow>
          if Miner_isDeleted m then None
          else Some (st\<lparr>as_miner := (as_miner st)(a \<mapsto> Miner_setDeleted now m)\<rparr>, True))"

definition bind_signer :: "time \<Rightarrow> 'a \<Rightarrow> string \<Rightarrow> 'a signer option \<Rightarrow> 'a signer" where
  "bind_signer now a n old =
     \<lparr>CreatedAt = (case old of None \<Rightarrow> now | Some g \<Rightarrow> CreatedAt g), UpdatedAt = now,
      DeletedAt = \<lparr>da_Time = zero_time, da_Valid = True\<rparr>,
      sn_ID = (case old of None \<Rightarrow> 0 | Some g \<Rightarrow> sn_ID g), sn_Signer = a, sn_User = n\<rparr>"

definition spec_RegisterSigner :: "time \<Rightarrow> 'a \<Rightarrow> string \<Rightarrow> 'a astore \<Rightarrow> ('a astore \<times> unit) option" where
  "spec_RegisterSigner now a n st =
     (if as_user st n = None then None
      else Some (st\<lparr>as_signer := (as_signer st)(a := (as_signer st a)(n \<mapsto> bind_signer now a n (as_signer st a n)))\<rparr>, ()))"

definition spec_UnregisterSigner :: "time \<Rightarrow> 'a \<Rightarrow> string \<Rightarrow> 'a astore \<Rightarrow> ('a astore \<times> unit) option" where
  "spec_UnregisterSigner now a n st =
     (case as_signer st a n of
        None \<Rightarrow> Some (st, ())
      | Some g \<Rightarrow>
          if Signer_isDeleted g then None
          else Some (st\<lparr>as_signer := (as_signer st)(a := (as_signer st a)(n \<mapsto> Signer_setDeleted now g))\<rparr>, ()))"

text \<open>
  \<open>DelSigner\<close> deletes the bindings of the signers with \<open>P\<close>, the addresses that a store takes for the
  one it is given: on MySQL that address alone, on badger every address whose text begins with it.
\<close>

definition spec_DelSigner :: "time \<Rightarrow> ('a \<Rightarrow> bool) \<Rightarrow> 'a astore \<Rightarrow> ('a astore \<times> bool) option" where
  "spec_DelSigner now P st =
     Some (st\<lparr>as_signer := (\<lambda>b n. if P b then map_option (del_signer now) (as_signer st b n) else as_signer st b n)\<rparr>,
           \<exists>b n. P b \<and> a_signer st b n \<noteq> None)"

lemmas spec_defs = spec_Put_def spec_Delete_def spec_Recover_def spec_PutUser_def spec_DeleteUser_def
  spec_RecoverUser_def spec_PutRateLimit_def spec_UpsertMiner_def spec_DelMiner_def
  spec_RegisterSigner_def spec_UnregisterSigner_def spec_DelSigner_def

section \<open>Refinement\<close>

text \<open>
  An outcome refines a specified one: the invariant \<open>I\<close> holds afterwards; a refused call returns an
  error and leaves the abstract state alone; any other has the specified state and result.
\<close>

definition refines ::
  "('db \<Rightarrow> bool) \<Rightarrow> ('db \<Rightarrow> 'a astore) \<Rightarrow> 'a astore \<Rightarrow> 'db \<times> 'r res \<Rightarrow> ('a astore \<times> 'r) option \<Rightarrow> bool" where
  "refines I view st p spec \<longleftrightarrow> I (fst p) \<and>
     (case spec of
        None \<Rightarrow> view (fst p) = st \<and> \<not> is_ok (snd p)
      | Some (st', r) \<Rightarrow> view (fst p) = st' \<and> snd p = Inr r)"

text \<open>A lookup returns what is there, or an error.\<close>

definition found :: "'r res \<Rightarrow> 'r option \<Rightarrow> bool" where
  "found r x = (case x of None \<Rightarrow> \<not> is_ok r | Some v \<Rightarrow> r = Inr v)"

text \<open>A listing enumerates a set, each element once.\<close>

definition lists :: "'r list res \<Rightarrow> 'r set \<Rightarrow> bool" where
  "lists r X \<longleftrightarrow> (\<exists>xs. r = Inr xs \<and> set xs = X \<and> distinct xs)"

text \<open>A page of a listing.\<close>

definition pages :: "int \<Rightarrow> int \<Rightarrow> 'r list res \<Rightarrow> 'r set \<Rightarrow> bool" where
  "pages skip limit r X \<longleftrightarrow> (\<exists>xs. r = Inr (page_of skip limit xs) \<and> set xs = X \<and> distinct xs)"

lemma refinesE:
  assumes "refines I view st p spec"
  obtains "I (fst p)" "spec = None" "view (fst p) = st" "\<not> is_ok (snd p)"
  | st' r where "I (fst p)" "spec = Some (st', r)" "view (fst p) = st'" "snd p = Inr r"
  using assms by (auto simp: refines_def split: option.splits)

lemma refines_I: "refines I view st p spec \<Longrightarrow> I (fst p)"
  by (simp add: refines_def)

lemma refines_ok: "refines I view st p spec \<Longrightarrow> snd p = Inr r \<Longrightarrow> spec = Some (view (fst p), r)"
  by (auto simp: refines_def split: option.splits)

lemma refines_err: "refines I view st p spec \<Longrightarrow> snd p = Inl e \<Longrightarrow> view (fst p) = st"
  by (auto simp: refines_def split: option.splits)

section \<open>The contract\<close>

text \<open>
  \<open>I\<close> is the store's invariant and \<open>view\<close> its abstract state. \<open>store_reads\<close> is what both stores promise
  of the methods that read: what a caller can learn from a store.
\<close>

locale store_reads =
  fixes S :: "('a, 'db) store_ops" and I :: "'db \<Rightarrow> bool" and view :: "'db \<Rightarrow> 'a astore"
  assumes Get: "I s \<Longrightarrow> found (st_Get S t s) (a_token (view s) t)"
    and ByName: "I s \<Longrightarrow> lists (st_ByName S n s)
      {kp. a_token (view s) (kp_Token kp) = Some kp \<and> kp_Name kp = n}"
    and Has: "I s \<Longrightarrow> st_Has S t s = Inr (a_token (view s) t \<noteq> None)"
    and HasUser: "I s \<Longrightarrow> st_HasUser S n s = Inr (a_user (view s) n \<noteq> None)"
    and GetUser: "I s \<Longrightarrow> found (st_GetUser S n s) (a_user (view s) n)"
    and VerifyUsers: "I s \<Longrightarrow> is_ok (st_VerifyUsers S ns s) \<longleftrightarrow> (\<forall>n \<in> set ns. a_user (view s) n \<noteq> None)"
    and GetRateLimits: "I s \<Longrightarrow> lists (st_GetRateLimits S n i s)
      {l. as_limit (view s) n (rl_Id l) = Some l \<and> (i = [] \<or> rl_Id l = i)}"
    and HasMiner: "I s \<Longrightarrow> st_HasMiner S a s = Inr (a_owner (view s) a \<noteq> None)"
    and MinerExistInUser: "I s \<Longrightarrow> st_MinerExistInUser S a n s = Inr (a_owner (view s) a = Some n)"
    and ListMiners: "I s \<Longrightarrow> lists (st_ListMiners S n s)
      {m. a_miner (view s) (mn_Miner m) = Some m \<and> mn_User m = n}"
    and SignerExistInUser: "I s \<Longrightarrow> st_SignerExistInUser S a n s = Inr (a_signer (view s) a n \<noteq> None)"
    and ListSigner: "I s \<Longrightarrow> lists (st_ListSigner S n s)
      {g. a_signer (view s) (sn_Signer g) n = Some g \<and> sn_User g = n}"
    and HasSigner: "I s \<Longrightarrow> \<exists>P. P a \<and> st_HasSigner S a s = Inr (\<exists>b n. P b \<and> a_signer (view s) b n \<noteq> None)"
    and token_keyed: "I s \<Longrightarrow> as_token (view s) t = Some kp \<Longrightarrow> kp_Token kp = t"
    and user_keyed: "I s \<Longrightarrow> as_user (view s) n = Some u \<Longrightarrow> usr_Name u = n"
    and miner_keyed: "I s \<Longrightarrow> as_miner (view s) a = Some m \<Longrightarrow> mn_Miner m = a"
    and signer_keyed: "I s \<Longrightarrow> as_signer (view s) a n = Some g \<Longrightarrow> sn_Signer g = a \<and> sn_User g = n"
begin

lemma Get_ok: "I s \<Longrightarrow> st_Get S t s = Inr kp \<longleftrightarrow> a_token (view s) t = Some kp"
  using Get [of s t] by (auto simp: found_def split: option.splits)

lemma GetUser_ok: "I s \<Longrightarrow> st_GetUser S n s = Inr u \<longleftrightarrow> a_user (view s) n = Some u"
  using GetUser [of s n] by (auto simp: found_def split: option.splits)

end

text \<open>
  The badger store promises all the rest. Signer methods are promised for addresses that can sign
  (\<open>signer_addr\<close>), which is all the service passes to them. \<open>DelRateLimit\<close> promises that the limit
  is gone and that other users' limits stay; whether the user's other limits stay is left open,
  because the badger store drops them. \<open>HasSigner\<close> and \<open>DelSigner\<close> take in the signer they are asked
  about, and may take in others with it. \<open>GetUserBySigner\<close> is left to the stores.
\<close>

locale store_contract = store_reads S I view
  for S :: "('a, 'db) store_ops" and signer_addr :: "'a \<Rightarrow> bool"
    and I :: "'db \<Rightarrow> bool" and view :: "'db \<Rightarrow> 'a astore" +
  assumes Put: "I s \<Longrightarrow> refines I view (view s) (st_Put S kp s) (spec_Put kp (view s))"
    and Delete: "I s \<Longrightarrow> refines I view (view s) (st_Delete S now t s) (spec_Delete t (view s))"
    and Recover: "I s \<Longrightarrow> refines I view (view s) (st_Recover S t s) (spec_Recover t (view s))"
    and List: "I s \<Longrightarrow> 0 \<le> skip \<Longrightarrow> is_i64 skip \<Longrightarrow> 0 \<le> limit \<Longrightarrow>
      int (card (dom (as_token (view s)))) < 2 ^ 63 \<Longrightarrow>
      pages skip limit (st_List S skip limit s) {kp. a_token (view s) (kp_Token kp) = Some kp}"
    and UpdateToken: "I s \<Longrightarrow> refines I view (view s) (st_UpdateToken S kp s) (spec_Put kp (view s))"
    and PutUser: "I s \<Longrightarrow> refines I view (view s) (st_PutUser S u s) (spec_PutUser u (view s))"
    and UpdateUser: "I s \<Longrightarrow> refines I view (view s) (st_UpdateUser S u s) (spec_PutUser u (view s))"
    and ListUsers: "I s \<Longrightarrow> 0 \<le> skip \<Longrightarrow> is_i64 skip \<Longrightarrow> 0 \<le> limit \<Longrightarrow>
      int (card (dom (as_user (view s)))) < 2 ^ 63 \<Longrightarrow>
      pages skip limit (st_ListUsers S skip limit state s)
        {u. a_user (view s) (usr_Name u) = Some u \<and> (state = UserStateUndefined \<or> usr_State u = state)}"
    and DeleteUser: "I s \<Longrightarrow> refines I view (view s) (st_DeleteUser S now n s) (spec_DeleteUser now n (view s))"
    and RecoverUser: "I s \<Longrightarrow> refines I view (view s) (st_RecoverUser S n s) (spec_RecoverUser n (view s))"
    and PutRateLimit: "I s \<Longrightarrow> refines I view (view s) (st_PutRateLimit S uuid l s) (spec_PutRateLimit uuid l (view s))"
    and DelRateLimit: "I s \<Longrightarrow> I (fst (st_DelRateLimit S n i s)) \<and>
      (\<exists>f. view (fst (st_DelRateLimit S n i s)) = (view s)\<lparr>as_limit := (as_limit (view s))(n := f)\<rparr> \<and>
           f \<subseteq>\<^sub>m as_limit (view s) n \<and> (is_ok (snd (st_DelRateLimit S n i s)) \<longrightarrow> f i = None))"
    and UpsertMiner: "I s \<Longrightarrow> refines I view (view s) (st_UpsertMiner S now a n om s) (spec_UpsertMiner now a n om (view s))"
    and GetUserByMiner: "I s \<Longrightarrow> found (st_GetUserByMiner S a s) (Option.bind (a_owner (view s) a) (a_user (view s)))"
    and DelMiner: "I s \<Longrightarrow> refines I view (view s) (st_DelMiner S now a s) (spec_DelMiner now a (view s))"
    and RegisterSigner: "I s \<Longrightarrow> signer_addr a \<Longrightarrow>
      refines I view (view s) (st_RegisterSigner S now a n s) (spec_RegisterSigner now a n (view s))"
    and UnregisterSigner: "I s \<Longrightarrow>
      refines I view (view s) (st_UnregisterSigner S now a n s) (spec_UnregisterSigner now a n (view s))"
    and DelSigner: "I s \<Longrightarrow> \<exists>P. P a \<and> refines I view (view s) (st_DelSigner S now a s) (spec_DelSigner now P (view s))"


end
