(* ===== verification/Perm_Check.thy ===== *)
theory Perm_Check
  imports Token_Codec Store_Spec
begin

text \<open>
  The permission checks of the service (auth/jwt.go, lines 741-835): what the caller's context
  must hold for an operation, for a user's own data, for a token, and for a miner or signer the
  caller owns. The locale \<open>ownership_checker\<close> is the contract of the interfaces
  \<open>minerOwnershipChecker\<close> and \<open>signerOwnershipChecker\<close>.
\<close>

fun permCheck_loop :: "permission list \<Rightarrow> permission \<Rightarrow> unit res" where
  "permCheck_loop [] needPerm = Inl ErrorPermissionDeny"
| "permCheck_loop (callerPerm # rest) needPerm =
     (if callerPerm = needPerm then Inr () else permCheck_loop rest needPerm)"

definition permCheck :: "ctx \<Rightarrow> permission \<Rightarrow> unit res" where
  "permCheck c needPerm =
     (case CtxGetPerm c of
        None \<Rightarrow> Inl ErrorPermissionNotFound
      | Some callerPerms \<Rightarrow> permCheck_loop callerPerms needPerm)"

definition userPermCheck :: "ctx \<Rightarrow> string \<Rightarrow> unit res" where
  "userPermCheck c username =
     (case permCheck c PermAdmin of
        Inr _ \<Rightarrow> Inr ()
      | Inl _ \<Rightarrow>
          (case CtxGetName c of
             None \<Rightarrow> Inl ErrorUsernameNotFound
           | Some ctxUsername \<Rightarrow> if ctxUsername = username then Inr () else Inl ErrorPermissionDeny))"

definition tokenPermCheck :: "jwt_lib \<Rightarrow> ctx \<Rightarrow> string \<Rightarrow> unit res" where
  "tokenPermCheck J c token =
     (case permCheck c PermAdmin of
        Inr _ \<Rightarrow> Inr ()
      | Inl _ \<Rightarrow>
          (case JwtUserFromToken J token of
             Inl e \<Rightarrow> Inl (Wrap (''get user of token '' @ token @ '' failed: '') e)
           | Inr username \<Rightarrow>
               (case CtxGetName c of
                  None \<Rightarrow> Inl ErrorUsernameNotFound
                | Some ctxUsername \<Rightarrow>
                    if ctxUsername = username then Inr () else Inl ErrorPermissionDeny)))"

definition ownerOfMinerCheck :: "ctx \<Rightarrow> ('a \<Rightarrow> string \<Rightarrow> bool res) \<Rightarrow> 'a \<Rightarrow> unit res" where
  "ownerOfMinerCheck c MinerExistInUser miner =
     (case CtxGetName c of
        None \<Rightarrow> Inl ErrorUsernameNotFound
      | Some userName \<Rightarrow>
          (case MinerExistInUser miner userName of
             Inl e \<Rightarrow> Inl e
           | Inr has \<Rightarrow> if \<not> has then Inl ErrorPermissionDeny else Inr ()))"

definition ownerOfSignerCheck :: "ctx \<Rightarrow> ('a \<Rightarrow> string \<Rightarrow> bool res) \<Rightarrow> 'a \<Rightarrow> unit res" where
  "ownerOfSignerCheck c SignerExistInUser signer =
     (case CtxGetName c of
        None \<Rightarrow> Inl ErrorUsernameNotFound
      | Some userName \<Rightarrow>
          (case SignerExistInUser signer userName of
             Inl e \<Rightarrow> Inl e
           | Inr has \<Rightarrow> if \<not> has then Inl ErrorPermissionDeny else Inr ()))"

section \<open>When the checks pass\<close>

text \<open>The permissions a context grants; none when it carries no permissions at all.\<close>

definition grants :: "ctx \<Rightarrow> permission \<Rightarrow> bool" where
  "grants c p \<longleftrightarrow> (\<exists>ps. CtxGetPerm c = Some ps \<and> p \<in> set ps)"

lemma permCheck_loop_iff: "permCheck_loop ps p = Inr () \<longleftrightarrow> p \<in> set ps"
  by (induction ps) auto

lemma permCheck_iff: "permCheck c p = Inr () \<longleftrightarrow> grants c p"
  by (auto simp: permCheck_def grants_def permCheck_loop_iff split: option.split)

lemma permCheck_cases:
  obtains "permCheck c p = Inr ()" "grants c p" | e where "permCheck c p = Inl e" "\<not> grants c p"
proof (cases "permCheck c p")
  case (Inl e)
  then have "\<not> grants c p" using permCheck_iff [of c p] by simp
  with Inl that(2) show thesis by blast
next
  case (Inr x)
  then have "permCheck c p = Inr ()" by simp
  with that(1) show thesis by (simp add: permCheck_iff)
qed

lemma grants_CtxWithPerm [simp]: "grants (CtxWithPerm c p) q \<longleftrightarrow> q \<in> set (AdaptOldStrategy p)"
  by (simp add: grants_def)

lemma grants_CtxWithName [simp]: "grants (CtxWithName c n) q \<longleftrightarrow> grants c q"
  by (simp add: grants_def)

lemma grants_Background [simp]: "\<not> grants ctx_Background q"
  by (simp add: grants_def)

lemma userPermCheck_iff: "userPermCheck c n = Inr () \<longleftrightarrow> grants c PermAdmin \<or> CtxGetName c = Some n"
  by (rule permCheck_cases [of c PermAdmin]) (auto simp: userPermCheck_def split: option.split)

lemma tokenPermCheck_iff:
  "tokenPermCheck J c tk = Inr () \<longleftrightarrow>
     grants c PermAdmin \<or> (\<exists>n. JwtUserFromToken J tk = Inr n \<and> CtxGetName c = Some n)"
  by (rule permCheck_cases [of c PermAdmin]) (auto simp: tokenPermCheck_def split: option.split sum.split)

section \<open>The contract of the ownership checkers\<close>

locale ownership_checker =
  fixes exist :: "'a \<Rightarrow> string \<Rightarrow> 'db \<Rightarrow> bool res" and owns :: "'db \<Rightarrow> 'a \<Rightarrow> string \<Rightarrow> bool"
    and I :: "'db \<Rightarrow> bool"
  assumes exist: "I s \<Longrightarrow> exist a n s = Inr (owns s a n)"
begin

lemma ownerOfMinerCheck_iff:
  "I s \<Longrightarrow> ownerOfMinerCheck c (\<lambda>a n. exist a n s) a = Inr () \<longleftrightarrow>
     (\<exists>n. CtxGetName c = Some n \<and> owns s a n)"
  by (auto simp: ownerOfMinerCheck_def exist split: option.split)

lemma ownerOfSignerCheck_iff:
  "I s \<Longrightarrow> ownerOfSignerCheck c (\<lambda>a n. exist a n s) a = Inr () \<longleftrightarrow>
     (\<exists>n. CtxGetName c = Some n \<and> owns s a n)"
  by (auto simp: ownerOfSignerCheck_def exist split: option.split)

end

text \<open>Every store gives both.\<close>

sublocale store_reads \<subseteq> miner_checker:
  ownership_checker "st_MinerExistInUser S" "\<lambda>s a n. a_owner (view s) a = Some n" I
  by unfold_locales (rule MinerExistInUser)

sublocale store_reads \<subseteq> signer_checker:
  ownership_checker "st_SignerExistInUser S" "\<lambda>s a n. a_signer (view s) a n \<noteq> None" I
  by unfold_locales (rule SignerExistInUser)

end
