(* ===== verification/Transport.thy ===== *)
theory Transport
  imports Store_Interface
begin

text \<open>
  The requests and responses of the service (auth/transport.go), the mapping of users to output
  users (auth/mapper.go), and \<open>MatchedLimit\<close>. Requests with a single field are that field.
\<close>

section \<open>Requests and responses\<close>

record getUserRateLimitsReq =
  gr_Id :: string
  gr_Name :: string

record delUserRateLimitReq =
  dr_Name :: string
  dr_Id :: string

record createUserRequest =
  cu_Name :: string
  cu_Comment :: "string option"
  cu_State :: user_state

record updateUserRequest =
  uu_Name :: string
  uu_Comment :: "string option"
  uu_State :: user_state

text \<open>The embedded \<open>*core.Page\<close> is nil when a request has neither \<open>skip\<close> nor \<open>limit\<close>.\<close>

record listUsersRequest =
  lu_Page :: "page option"
  lu_State :: int

record outputMiner_base =
  om_User :: string
  om_OpenMining :: bool
  om_CreatedAt :: time
  om_UpdatedAt :: time

record 'a outputMiner = outputMiner_base +
  om_Miner :: 'a

record 'a outputSigner =
  os_Signer :: 'a
  os_User :: string
  os_CreatedAt :: time
  os_UpdatedAt :: time

record outputUser =
  ou_Id :: string
  ou_Name :: string
  ou_Comment :: string
  ou_State :: user_state
  ou_CreateTime :: int
  ou_UpdateTime :: int

record 'a upsertMinerReq =
  um_User :: string
  um_Miner :: 'a
  um_OpenMining :: "bool option"

record 'a minerExistInUserRequest =
  me_Miner :: 'a
  me_User :: string

record 'a signersReq =
  sr_User :: string
  sr_Signers :: "'a list"

record 'a signerExistInUserReq =
  se_Signer :: 'a
  se_User :: string

record tokenInfo =
  ti_Token :: string
  ti_Name :: string
  ti_Perm :: string
  ti_Custom :: string
  ti_CreateTime :: time

text \<open>\<open>NewListUsersRequest\<close>.\<close>

definition NewListUsersRequest :: "int \<Rightarrow> int \<Rightarrow> int \<Rightarrow> listUsersRequest" where
  "NewListUsersRequest skip limit state =
     \<lparr>lu_Page = Some \<lparr>Skip = skip, Limit = limit\<rparr>, lu_State = state\<rparr>"

section \<open>The mapper\<close>

definition ToOutPutUser :: "user option \<Rightarrow> outputUser option" where
  "ToOutPutUser m =
     (case m of
        None \<Rightarrow> None
      | Some u \<Rightarrow> Some \<lparr>ou_Id = usr_Id u, ou_Name = usr_Name u, ou_Comment = usr_Comment u,
          ou_State = usr_State u, ou_CreateTime = time_Unix (usr_CreateTime u),
          ou_UpdateTime = time_Unix (usr_UpdateTime u)\<rparr>)"

text \<open>On a user that is there.\<close>

definition out_user :: "user \<Rightarrow> outputUser" where
  "out_user u = the (ToOutPutUser (Some u))"

fun ToOutPutUsers :: "user list \<Rightarrow> outputUser list" where
  "ToOutPutUsers [] = []"
| "ToOutPutUsers (v # arr) = out_user v # ToOutPutUsers arr"

lemma ToOutPutUsers_map: "ToOutPutUsers arr = map out_user arr"
  by (induction arr) auto

lemma out_user_Name [simp]: "ou_Name (out_user u) = usr_Name u" "ou_State (out_user u) = usr_State u"
  by (simp_all add: out_user_def ToOutPutUser_def)

section \<open>Rate limits\<close>

fun MatchedLimit :: "user_rate_limit list \<Rightarrow> string \<Rightarrow> string \<Rightarrow> user_rate_limit option" where
  "MatchedLimit [] service api = None"
| "MatchedLimit (l # ls) service api =
     (if rl_Service l = [] \<and> rl_API l = [] then Some l else MatchedLimit ls service api)"

lemma MatchedLimit_find: "MatchedLimit ls service api = find (\<lambda>l. rl_Service l = [] \<and> rl_API l = []) ls"
  by (induction ls) auto

end
