(* ===== verification/Service_Token.thy ===== *)
theory Service_Token
  imports Perm_Check Transport
begin

text \<open>
  The service \<open>jwtOAuth\<close> (auth/jwt.go): its state and inputs, and the token operations (lines
  138-331). An operation \<open>M\<close> is \<open>sv_M\<close>; it works on any store. Proved, against the contract of a
  store: what each operation needs of the caller, when it succeeds and what it then does; that a
  generated token verifies and gives back its payload until it is removed, and again after it has
  been recovered; and that a token is accepted only if it is stored and not removed.
\<close>

section \<open>State and inputs\<close>

text \<open>The updates of the metrics that the operations make, in order.\<close>

datatype metric =
    TokenGauge_Set permission int
  | UserGauge_Set string int
  | TokenGauge_Inc permission int
  | UserGauge_Inc string int
  | TokenVerifyCounter_Tick "(permission \<times> string) option" bool

record 'db world =
  w_db :: 'db
  w_metrics :: "metric list"

definition emit :: "metric \<Rightarrow> 'db world \<Rightarrow> 'db world" where
  "emit m w = w\<lparr>w_metrics := w_metrics w @ [m]\<rparr>"

lemma emit_db [simp]: "w_db (emit m w) = w_db w"
  by (simp add: emit_def)

text \<open>
  The parts of a service, and what a call takes from outside: the clock, the bytes of
  \<open>config.RandSecret\<close>, the identifier of \<open>uuid.NewRandom\<close>, and that of \<open>uuid.NewString\<close> in the store.
\<close>

record ('a, 'db) service =
  sv_store :: "('a, 'db) store_ops"
  sv_addr :: "'a addr_lib"
  sv_jwt :: jwt_lib

record call_env =
  ce_now :: time
  ce_rand :: "string res"
  ce_uuid :: "string res"
  ce_limit_id :: string

section \<open>The token operations\<close>

definition sv_GenerateToken ::
  "('a, 'db) service \<Rightarrow> call_env \<Rightarrow> ctx \<Rightarrow> jwt_payload \<Rightarrow> 'db world \<Rightarrow> 'db world \<times> string res" where
  "sv_GenerateToken srv E c pl w =
     (case permCheck c PermAdmin of
        Inl e \<Rightarrow> (w, Inl (Wrap ''need admin prem: '' e))
      | Inr _ \<Rightarrow>
     (case st_HasUser (sv_store srv) (pl_Name pl) (w_db w) of
        Inl e \<Rightarrow> (w, Inl (Wrap (''check user '' @ pl_Name pl @ '' exist failed: '') e))
      | Inr exist \<Rightarrow>
     if \<not> exist
     then (w, Inl (Msg (''token must be based on an existing user '' @ pl_Name pl @ '' to generate'')))
     else
     (case ce_rand E of
        Inl e \<Rightarrow> (w, Inl (Msg (''rand secret '' @ err_Error e)))
      | Inr secret \<Rightarrow>
     (case jwt_Sign (sv_jwt srv) pl secret of
        Inl e \<Rightarrow> (w, Inl (Msg (''gen token failed :'' @ err_Error e)))
      | Inr token \<Rightarrow>
     (case st_Has (sv_store srv) token (w_db w) of
        Inl e \<Rightarrow> (w, Inl e)
      | Inr has \<Rightarrow>
     if has then (w, Inr token)
     else
     (case st_Put (sv_store srv)
             \<lparr>kp_Name = pl_Name pl, kp_Perm = pl_Perm pl, kp_Secret = hex_EncodeToString secret,
              kp_Extra = pl_Extra pl, kp_Token = token, kp_CreateTime = ce_now E,
              kp_IsDeleted = NotDelete\<rparr> (w_db w) of
        (s, Inl e) \<Rightarrow> (w\<lparr>w_db := s\<rparr>, Inl (Msg (''store token failed :'' @ err_Error e)))
      | (s, Inr _) \<Rightarrow> (emit (TokenGauge_Inc (pl_Perm pl) 1) (w\<lparr>w_db := s\<rparr>), Inr token)))))))"

text \<open>
  The body of \<open>Verify\<close>: the named results \<open>payload\<close> and \<open>err\<close>. A panic is not possible here: the
  payload is non-nil when decoding gives no error.
\<close>

definition Verify_body ::
  "('a, 'db) service \<Rightarrow> ctx \<Rightarrow> string \<Rightarrow> 'db \<Rightarrow> jwt_payload option \<times> err option" where
  "Verify_body srv c token s =
     (case DecodeToken (sv_jwt srv) token of
        (payload, Some e) \<Rightarrow> (payload, Some e)
      | (payload, None) \<Rightarrow>
     (case permCheck c PermRead of
        Inl e \<Rightarrow> (payload, Some (Wrap ''need read prem: '' e))
      | Inr _ \<Rightarrow>
     (case st_Get (sv_store srv) token s of
        Inl e \<Rightarrow> (payload, Some (Msg (''get token: '' @ err_Error e)))
      | Inr kp \<Rightarrow>
     (case hex_DecodeString (kp_Secret kp) of
        Inl e \<Rightarrow> (payload, Some (Msg (''decode secret '' @ err_Error e)))
      | Inr secret \<Rightarrow>
     (case payload of
        None \<Rightarrow> (None, Some (Panic ''nil payload''))
      | Some p \<Rightarrow>
     (case jwt_Verify (sv_jwt srv) token secret p of
        (p, Some _) \<Rightarrow> (Some p, Some ErrorVerificationFailed)
      | (p, None) \<Rightarrow> (Some p, None)))))))"

text \<open>The deferred function counts the call.\<close>

definition sv_Verify ::
  "('a, 'db) service \<Rightarrow> ctx \<Rightarrow> string \<Rightarrow> 'db world \<Rightarrow> 'db world \<times> (jwt_payload option \<times> err option)" where
  "sv_Verify srv c token w =
     (case Verify_body srv c token (w_db w) of
        (payload, e) \<Rightarrow>
          (emit (TokenVerifyCounter_Tick (map_option (\<lambda>p. (pl_Perm p, pl_Name p)) payload) (e = None)) w,
           (payload, e)))"

text \<open>\<open>jwtPayload["name"].(string)\<close> panics when the member is missing or not a string.\<close>

definition as_string :: "json_val option \<Rightarrow> string res" where
  "as_string v = (case v of Some (JString s) \<Rightarrow> Inr s | _ \<Rightarrow> Inl (Panic ''interface conversion''))"

definition toTokenInfo :: "jwt_lib \<Rightarrow> key_pair \<Rightarrow> tokenInfo res" where
  "toTokenInfo J kp =
     (case JWTPayloadMap J (kp_Token kp) of
        Inl e \<Rightarrow> Inl e
      | Inr jwtPayload \<Rightarrow>
          (case as_string (jwtPayload ''name'') of
             Inl e \<Rightarrow> Inl e
           | Inr name \<Rightarrow>
               (case as_string (jwtPayload ''perm'') of
                  Inl e \<Rightarrow> Inl e
                | Inr perm \<Rightarrow> Inr \<lparr>ti_Token = kp_Token kp, ti_Name = name, ti_Perm = perm,
                    ti_Custom = [], ti_CreateTime = kp_CreateTime kp\<rparr>)))"

definition sv_GetToken :: "('a, 'db) service \<Rightarrow> ctx \<Rightarrow> string \<Rightarrow> 'db world \<Rightarrow> tokenInfo res" where
  "sv_GetToken srv c token w =
     (case permCheck c PermAdmin of
        Inl e \<Rightarrow> Inl (Wrap ''need admin prem: '' e)
      | Inr _ \<Rightarrow>
          (case st_Get (sv_store srv) token (w_db w) of
             Inl e \<Rightarrow> Inl e
           | Inr pair \<Rightarrow> toTokenInfo (sv_jwt srv) pair))"

fun tokenInfos_loop :: "jwt_lib \<Rightarrow> key_pair list \<Rightarrow> tokenInfo list \<Rightarrow> tokenInfo list res" where
  "tokenInfos_loop J [] tks = Inr tks"
| "tokenInfos_loop J (pair # pairs) tks =
     (case toTokenInfo J pair of Inl e \<Rightarrow> Inl e | Inr ti \<Rightarrow> tokenInfos_loop J pairs (tks @ [ti]))"

definition sv_GetTokenByName :: "('a, 'db) service \<Rightarrow> ctx \<Rightarrow> string \<Rightarrow> 'db world \<Rightarrow> tokenInfo list res" where
  "sv_GetTokenByName srv c username w =
     (case userPermCheck c username of
        Inl e \<Rightarrow> Inl (Wrap (''need admin prem or user '' @ username @ '' does not match: '') e)
      | Inr _ \<Rightarrow>
          (case st_ByName (sv_store srv) username (w_db w) of
             Inl e \<Rightarrow> Inl e
           | Inr pairs \<Rightarrow> tokenInfos_loop (sv_jwt srv) pairs []))"

text \<open>\<open>make([]*TokenInfo, 0, limit)\<close> panics on a negative capacity.\<close>

definition sv_Tokens :: "('a, 'db) service \<Rightarrow> ctx \<Rightarrow> int \<Rightarrow> int \<Rightarrow> 'db world \<Rightarrow> tokenInfo list res" where
  "sv_Tokens srv c skip limit w =
     (case permCheck c PermAdmin of
        Inl e \<Rightarrow> Inl (Wrap ''need admin prem: '' e)
      | Inr _ \<Rightarrow>
          (case st_List (sv_store srv) skip limit (w_db w) of
             Inl e \<Rightarrow> Inl e
           | Inr pairs \<Rightarrow>
               if limit < 0 then Inl (Panic ''makeslice: cap out of range'')
               else tokenInfos_loop (sv_jwt srv) pairs []))"

text \<open>
  \<open>payload, _ := DecodeToken(token)\<close> and then \<open>payload.Perm\<close>: a nil payload panics, after the store
  has been changed.
\<close>

definition sv_RemoveToken ::
  "('a, 'db) service \<Rightarrow> call_env \<Rightarrow> ctx \<Rightarrow> string \<Rightarrow> 'db world \<Rightarrow> 'db world \<times> unit res" where
  "sv_RemoveToken srv E c token w =
     (case tokenPermCheck (sv_jwt srv) c token of
        Inl e \<Rightarrow> (w, Inl (Wrap (''need admin prem or token '' @ token @ '' check failed: '') e))
      | Inr _ \<Rightarrow>
          (case st_Delete (sv_store srv) (ce_now E) token (w_db w) of
             (s, Inl e) \<Rightarrow> (w\<lparr>w_db := s\<rparr>, Inl (Wrap (''remove token '' @ token @ '': '') e))
           | (s, Inr _) \<Rightarrow>
               (case fst (DecodeToken (sv_jwt srv) token) of
                  None \<Rightarrow> (w\<lparr>w_db := s\<rparr>, Inl (Panic ''nil pointer dereference''))
                | Some payload \<Rightarrow>
                    (emit (TokenGauge_Inc (pl_Perm payload) (- 1)) (w\<lparr>w_db := s\<rparr>), Inr ()))))"

definition sv_RecoverToken ::
  "('a, 'db) service \<Rightarrow> ctx \<Rightarrow> string \<Rightarrow> 'db world \<Rightarrow> 'db world \<times> unit res" where
  "sv_RecoverToken srv c token w =
     (case tokenPermCheck (sv_jwt srv) c token of
        Inl e \<Rightarrow> (w, Inl (Wrap (''need admin prem or token '' @ token @ '' check failed: '') e))
      | Inr _ \<Rightarrow>
          (case st_Recover (sv_store srv) token (w_db w) of
             (s, Inl e) \<Rightarrow> (w\<lparr>w_db := s\<rparr>, Inl (Wrap (''recover token '' @ token @ '': '') e))
           | (s, Inr _) \<Rightarrow>
               (case fst (DecodeToken (sv_jwt srv) token) of
                  None \<Rightarrow> (w\<lparr>w_db := s\<rparr>, Inl (Panic ''nil pointer dereference''))
                | Some payload \<Rightarrow>
                    (emit (TokenGauge_Inc (pl_Perm payload) 1) (w\<lparr>w_db := s\<rparr>), Inr ()))))"

section \<open>Stored tokens\<close>

text \<open>
  Every stored token was signed: under the secret stored with it, for the payload of its name,
  permission and extra text, which are valid UTF-8.
\<close>

definition kp_payload :: "key_pair \<Rightarrow> jwt_payload" where
  "kp_payload kp = \<lparr>pl_Name = kp_Name kp, pl_Perm = kp_Perm kp, pl_Extra = kp_Extra kp\<rparr>"

definition signed_token :: "jwt_lib \<Rightarrow> key_pair \<Rightarrow> bool" where
  "signed_token J kp \<longleftrightarrow> utf8_payload (kp_payload kp) \<and>
     (\<exists>secret. kp_Secret kp = hex_EncodeToString secret \<and>
        jwt_Sign J (kp_payload kp) secret = Inr (kp_Token kp))"

definition tokens_ok :: "jwt_lib \<Rightarrow> 'a astore \<Rightarrow> bool" where
  "tokens_ok J st \<longleftrightarrow> (\<forall>t kp. as_token st t = Some kp \<longrightarrow> signed_token J kp)"

lemma tokens_okD: "tokens_ok J st \<Longrightarrow> as_token st t = Some kp \<Longrightarrow> signed_token J kp"
  by (simp add: tokens_ok_def)

lemma signed_token_deleted [simp]: "signed_token J (kp\<lparr>kp_IsDeleted := d\<rparr>) = signed_token J kp"
  by (simp add: signed_token_def kp_payload_def)

definition kp_info :: "key_pair \<Rightarrow> tokenInfo" where
  "kp_info kp = \<lparr>ti_Token = kp_Token kp, ti_Name = kp_Name kp, ti_Perm = kp_Perm kp,
     ti_Custom = [], ti_CreateTime = kp_CreateTime kp\<rparr>"

lemma signed_token_reads:
  assumes "jwt_ok J marshal" and "signed_token J kp"
  shows "DecodeToken J (kp_Token kp) = (Some (kp_payload kp), None)"
    and "JwtUserFromToken J (kp_Token kp) = Inr (kp_Name kp)"
    and "toTokenInfo J kp = Inr (kp_info kp)"
proof -
  from assms(2) obtain secret where s: "jwt_Sign J (kp_payload kp) secret = Inr (kp_Token kp)"
    "utf8_payload (kp_payload kp)" by (auto simp: signed_token_def)
  note r = DecodeToken_signed [OF assms(1) s]
  show "DecodeToken J (kp_Token kp) = (Some (kp_payload kp), None)" by (rule r(1))
  show "JwtUserFromToken J (kp_Token kp) = Inr (kp_Name kp)" using r(2) by (simp add: kp_payload_def)
  show "toTokenInfo J kp = Inr (kp_info kp)"
    using r(3) by (auto simp: toTokenInfo_def as_string_def kp_payload_def kp_info_def)
qed

lemma tokenInfos_loop_signed:
  assumes "jwt_ok J marshal" and "\<forall>kp \<in> set kps. signed_token J kp"
  shows "tokenInfos_loop J kps tks = Inr (tks @ map kp_info kps)"
  using assms(2) by (induction kps arbitrary: tks) (simp_all add: signed_token_reads(3) [OF assms(1)])

section \<open>The operations on any store\<close>

text \<open>
  \<open>service_reads\<close>: the service on a store that reads truly, which is all that verification and the
  guards of the operations need. \<open>service_on\<close>: the service on a store with the whole contract.
\<close>

locale service_reads = store_reads "sv_store srv" I view
  for srv :: "('a, 'db) service" and I :: "'db \<Rightarrow> bool" and view :: "'db \<Rightarrow> 'a astore"
begin

text \<open>When \<open>Verify\<close> accepts: the token is stored and not removed, and the payload is its own.\<close>

lemma Verify_accepts:
  assumes "I s" and "jwt_ok (sv_jwt srv) marshal"
    and "Verify_body srv c token s = (p, None)"
  obtains kp secret pl where "p = Some pl" "grants c PermRead" "a_token (view s) token = Some kp"
    and "hex_DecodeString (kp_Secret kp) = Inr secret" "DecodeToken (sv_jwt srv) token = (Some pl, None)"
    and "jwt_Verify (sv_jwt srv) token secret pl = (pl, None)"
proof -
  from assms(3) obtain q where d: "DecodeToken (sv_jwt srv) token = (q, None)"
    by (auto simp: Verify_body_def split: prod.splits option.splits)
  have c: "permCheck c PermRead = Inr ()"
    using assms(3) d by (cases "permCheck c PermRead") (auto simp: Verify_body_def)
  obtain kp where kp: "st_Get (sv_store srv) token s = Inr kp"
    using assms(3) d c by (cases "st_Get (sv_store srv) token s") (auto simp: Verify_body_def)
  obtain secret where s: "hex_DecodeString (kp_Secret kp) = Inr secret"
    using assms(3) d c kp by (cases "hex_DecodeString (kp_Secret kp)") (auto simp: Verify_body_def)
  obtain pl where pl: "q = Some pl"
    using assms(3) d c kp s by (cases q) (auto simp: Verify_body_def)
  obtain r where r: "jwt_Verify (sv_jwt srv) token secret pl = (r, None)" "p = Some r"
    using assms(3) d c kp s pl by (auto simp: Verify_body_def split: prod.splits option.splits)
  have "r = pl" using jwt_ok_same [OF assms(2)] d pl r(1) by blast
  then show thesis
    using that [of pl kp secret] r d pl s kp c by (simp add: Get_ok [OF assms(1)] permCheck_iff)
qed

lemma Verify_signed:
  assumes "I s" and "jwt_ok (sv_jwt srv) marshal" and "grants c PermRead"
    and "a_token (view s) token = Some kp" "signed_token (sv_jwt srv) kp"
  shows "Verify_body srv c token s = (Some (kp_payload kp), None)"
proof -
  from assms(1,4) have t: "kp_Token kp = token" "st_Get (sv_store srv) token s = Inr kp"
    using token_keyed [OF assms(1)] by (auto simp: Get_ok [OF assms(1)] live_Some)
  from assms(5) obtain secret where s: "kp_Secret kp = hex_EncodeToString secret"
    "jwt_Sign (sv_jwt srv) (kp_payload kp) secret = Inr token" "utf8_payload (kp_payload kp)"
    using t(1) by (auto simp: signed_token_def)
  have "DecodeToken (sv_jwt srv) token = (Some (kp_payload kp), None)"
    using signed_token_reads(1) [OF assms(2,5)] t(1) by simp
  moreover have "permCheck c PermRead = Inr ()" using assms(3) by (simp add: permCheck_iff)
  ultimately show ?thesis
    using t(2) s jwt_ok_verify [OF assms(2) s(2,3)]
    by (simp add: Verify_body_def hex_Decode_Encode)
qed

lemma Verify_refuses:
  assumes "I s" and "a_token (view s) token = None"
  shows "snd (Verify_body srv c token s) \<noteq> None"
proof -
  have "\<not> is_ok (st_Get (sv_store srv) token s)"
    using Get [OF assms(1), of token] assms(2) by (simp add: found_def)
  then show ?thesis
    by (auto simp: Verify_body_def split: prod.split option.split sum.split)
qed

text \<open>The listings never panic.\<close>

lemma GetTokenByName_eq:
  assumes "I (w_db w)" and "jwt_ok (sv_jwt srv) marshal" and "tokens_ok (sv_jwt srv) (view (w_db w))"
    and "grants c PermAdmin \<or> CtxGetName c = Some n"
  obtains kps where "sv_GetTokenByName srv c n w = Inr (map kp_info kps)" "distinct kps"
    and "set kps = {kp. a_token (view (w_db w)) (kp_Token kp) = Some kp \<and> kp_Name kp = n}"
proof -
  obtain kps where kps: "st_ByName (sv_store srv) n (w_db w) = Inr kps" "distinct kps"
    "set kps = {kp. a_token (view (w_db w)) (kp_Token kp) = Some kp \<and> kp_Name kp = n}"
    using ByName [OF assms(1), of n] by (auto simp: lists_def)
  have "\<forall>kp \<in> set kps. signed_token (sv_jwt srv) kp"
    using kps(3) assms(3) by (auto simp: live_Some dest: tokens_okD)
  moreover have "userPermCheck c n = Inr ()" using assms(4) by (simp add: userPermCheck_iff)
  ultimately have "sv_GetTokenByName srv c n w = Inr (map kp_info kps)"
    by (simp add: sv_GetTokenByName_def kps(1) tokenInfos_loop_signed [OF assms(2)])
  with kps(2,3) show thesis by (intro that)
qed

end

locale service_on = service_reads srv I view +
  store_contract "sv_store srv" "IsSignerAddress (sv_addr srv)" I view
  for srv :: "('a, 'db) service" and I :: "'db \<Rightarrow> bool" and view :: "'db \<Rightarrow> 'a astore"
begin

text \<open>The token document that \<open>GenerateToken\<close> stores.\<close>

lemma GenerateToken_ok:
  assumes "I (w_db w)" and "snd (sv_GenerateToken srv E c pl w) = Inr tk"
  obtains secret where "grants c PermAdmin" and "a_user (view (w_db w)) (pl_Name pl) \<noteq> None"
    and "ce_rand E = Inr secret" "jwt_Sign (sv_jwt srv) pl secret = Inr tk"
    and "I (w_db (fst (sv_GenerateToken srv E c pl w)))"
    and "a_token (view (w_db w)) tk \<noteq> None \<Longrightarrow> fst (sv_GenerateToken srv E c pl w) = w"
    and "a_token (view (w_db w)) tk = None \<Longrightarrow>
      view (w_db (fst (sv_GenerateToken srv E c pl w))) =
        (view (w_db w))\<lparr>as_token := (as_token (view (w_db w)))(tk \<mapsto>
          \<lparr>kp_Name = pl_Name pl, kp_Perm = pl_Perm pl, kp_Secret = hex_EncodeToString secret,
           kp_Extra = pl_Extra pl, kp_Token = tk, kp_CreateTime = ce_now E, kp_IsDeleted = NotDelete\<rparr>)\<rparr>"
proof -
  let ?kp = "\<lambda>secret tk. \<lparr>kp_Name = pl_Name pl, kp_Perm = pl_Perm pl, kp_Secret = hex_EncodeToString secret,
           kp_Extra = pl_Extra pl, kp_Token = tk, kp_CreateTime = ce_now E, kp_IsDeleted = NotDelete\<rparr>"
  have c: "permCheck c PermAdmin = Inr ()"
    using assms(2) by (cases "permCheck c PermAdmin") (auto simp: sv_GenerateToken_def)
  have u: "a_user (view (w_db w)) (pl_Name pl) \<noteq> None"
    using assms(2) c by (auto simp: sv_GenerateToken_def HasUser [OF assms(1)] split: if_splits)
  obtain secret where secret: "ce_rand E = Inr secret"
    using assms(2) c u by (cases "ce_rand E") (auto simp: sv_GenerateToken_def HasUser [OF assms(1)])
  have put: "snd (st_Put (sv_store srv) (?kp secret tk) (w_db w)) = Inr ()" for tk
    using Put [OF assms(1), of "?kp secret tk"] by (auto simp: refines_def spec_Put_def)
  have sign: "jwt_Sign (sv_jwt srv) pl secret = Inr tk"
    using assms(2) c u secret put
    by (cases "jwt_Sign (sv_jwt srv) pl secret")
      (auto simp: sv_GenerateToken_def HasUser [OF assms(1)] Has [OF assms(1)] case_prod_beta
        split: if_splits sum.splits)
  have run: "sv_GenerateToken srv E c pl w =
      (if a_token (view (w_db w)) tk \<noteq> None then (w, Inr tk)
       else (emit (TokenGauge_Inc (pl_Perm pl) 1)
               (w\<lparr>w_db := fst (st_Put (sv_store srv) (?kp secret tk) (w_db w))\<rparr>), Inr tk))"
    using c u secret sign put [of tk]
    by (simp add: sv_GenerateToken_def HasUser [OF assms(1)] Has [OF assms(1)] case_prod_beta)
  have "I (fst (st_Put (sv_store srv) (?kp secret tk) (w_db w)))"
    "view (fst (st_Put (sv_store srv) (?kp secret tk) (w_db w))) =
      (view (w_db w))\<lparr>as_token := (as_token (view (w_db w)))(tk \<mapsto> ?kp secret tk)\<rparr>"
    using Put [OF assms(1), of "?kp secret tk"] by (simp_all add: refines_def spec_Put_def)
  then show thesis
    using c u secret sign assms(1) by (intro that [of secret]) (simp_all add: run permCheck_iff)
qed

lemma GenerateToken_tokens_ok:
  assumes "I (w_db w)" and "tokens_ok (sv_jwt srv) (view (w_db w))" and "utf8_payload pl"
    and "snd (sv_GenerateToken srv E c pl w) = Inr tk"
  shows "tokens_ok (sv_jwt srv) (view (w_db (fst (sv_GenerateToken srv E c pl w))))"
proof (rule GenerateToken_ok [OF assms(1,4)])
  fix secret
  let ?kp = "\<lparr>kp_Name = pl_Name pl, kp_Perm = pl_Perm pl, kp_Secret = hex_EncodeToString secret,
           kp_Extra = pl_Extra pl, kp_Token = tk, kp_CreateTime = ce_now E, kp_IsDeleted = NotDelete\<rparr>"
  assume "jwt_Sign (sv_jwt srv) pl secret = Inr tk"
    and same: "a_token (view (w_db w)) tk \<noteq> None \<Longrightarrow> fst (sv_GenerateToken srv E c pl w) = w"
    and new: "a_token (view (w_db w)) tk = None \<Longrightarrow>
      view (w_db (fst (sv_GenerateToken srv E c pl w))) =
        (view (w_db w))\<lparr>as_token := (as_token (view (w_db w)))(tk \<mapsto> ?kp)\<rparr>"
  moreover have "kp_payload ?kp = pl" by (simp add: kp_payload_def)
  ultimately have "signed_token (sv_jwt srv) ?kp" using assms(3) by (auto simp: signed_token_def)
  with same new assms(2) show ?thesis
    by (cases "a_token (view (w_db w)) tk = None") (auto simp: tokens_ok_def)
qed

lemma RemoveToken_ok:
  assumes "I (w_db w)" and "snd (sv_RemoveToken srv E c token w) = Inr ()"
  shows "grants c PermAdmin \<or> (\<exists>n. JwtUserFromToken (sv_jwt srv) token = Inr n \<and> CtxGetName c = Some n)"
    and "I (w_db (fst (sv_RemoveToken srv E c token w)))"
    and "spec_Delete token (view (w_db w)) = Some (view (w_db (fst (sv_RemoveToken srv E c token w))), ())"
proof -
  have c: "tokenPermCheck (sv_jwt srv) c token = Inr ()"
    using assms(2) by (cases "tokenPermCheck (sv_jwt srv) c token") (auto simp: sv_RemoveToken_def)
  then show "grants c PermAdmin \<or> (\<exists>n. JwtUserFromToken (sv_jwt srv) token = Inr n \<and> CtxGetName c = Some n)"
    by (simp add: tokenPermCheck_iff)
  note ref = Delete [OF assms(1), of "ce_now E" token]
  have ok: "snd (st_Delete (sv_store srv) (ce_now E) token (w_db w)) = Inr ()"
    using assms(2) c by (auto simp: sv_RemoveToken_def case_prod_beta split: sum.splits)
  have db: "w_db (fst (sv_RemoveToken srv E c token w)) = fst (st_Delete (sv_store srv) (ce_now E) token (w_db w))"
    using assms(2) c ok by (auto simp: sv_RemoveToken_def case_prod_beta split: option.splits)
  show "I (w_db (fst (sv_RemoveToken srv E c token w)))"
    unfolding db by (rule refines_I [OF ref])
  show "spec_Delete token (view (w_db w)) = Some (view (w_db (fst (sv_RemoveToken srv E c token w))), ())"
    unfolding db by (rule refines_ok [OF ref ok])
qed

lemma RemoveToken_does:
  assumes "I (w_db w)" and "jwt_ok (sv_jwt srv) marshal" and "tokens_ok (sv_jwt srv) (view (w_db w))"
    and "a_token (view (w_db w)) token = Some kp" and "grants c PermAdmin \<or> CtxGetName c = Some (kp_Name kp)"
  shows "snd (sv_RemoveToken srv E c token w) = Inr ()"
    and "w_metrics (fst (sv_RemoveToken srv E c token w)) = w_metrics w @ [TokenGauge_Inc (kp_Perm kp) (- 1)]"
proof -
  have kp: "signed_token (sv_jwt srv) kp" "kp_Token kp = token"
    using assms(3,4) token_keyed [OF assms(1)] by (auto simp: live_Some dest: tokens_okD)
  note reads = signed_token_reads(1,2) [OF assms(2) kp(1), unfolded kp(2)]
  have "tokenPermCheck (sv_jwt srv) c token = Inr ()"
    using assms(5) by (auto simp: tokenPermCheck_iff reads)
  moreover have "snd (st_Delete (sv_store srv) (ce_now E) token (w_db w)) = Inr ()"
    using Delete [OF assms(1), of "ce_now E" token] assms(4) by (simp add: refines_def spec_Delete_def)
  ultimately show "snd (sv_RemoveToken srv E c token w) = Inr ()"
    "w_metrics (fst (sv_RemoveToken srv E c token w)) = w_metrics w @ [TokenGauge_Inc (kp_Perm kp) (- 1)]"
    by (simp_all add: sv_RemoveToken_def case_prod_beta reads emit_def kp_payload_def)
qed

lemma RecoverToken_ok:
  assumes "I (w_db w)" and "snd (sv_RecoverToken srv c token w) = Inr ()"
  shows "grants c PermAdmin \<or> (\<exists>n. JwtUserFromToken (sv_jwt srv) token = Inr n \<and> CtxGetName c = Some n)"
    and "I (w_db (fst (sv_RecoverToken srv c token w)))"
    and "spec_Recover token (view (w_db w)) = Some (view (w_db (fst (sv_RecoverToken srv c token w))), ())"
proof -
  have c: "tokenPermCheck (sv_jwt srv) c token = Inr ()"
    using assms(2) by (cases "tokenPermCheck (sv_jwt srv) c token") (auto simp: sv_RecoverToken_def)
  then show "grants c PermAdmin \<or> (\<exists>n. JwtUserFromToken (sv_jwt srv) token = Inr n \<and> CtxGetName c = Some n)"
    by (simp add: tokenPermCheck_iff)
  note ref = Recover [OF assms(1), of token]
  have ok: "snd (st_Recover (sv_store srv) token (w_db w)) = Inr ()"
    using assms(2) c by (auto simp: sv_RecoverToken_def case_prod_beta split: sum.splits)
  have db: "w_db (fst (sv_RecoverToken srv c token w)) = fst (st_Recover (sv_store srv) token (w_db w))"
    using assms(2) c ok by (auto simp: sv_RecoverToken_def case_prod_beta split: option.splits)
  show "I (w_db (fst (sv_RecoverToken srv c token w)))"
    unfolding db by (rule refines_I [OF ref])
  show "spec_Recover token (view (w_db w)) = Some (view (w_db (fst (sv_RecoverToken srv c token w))), ())"
    unfolding db by (rule refines_ok [OF ref ok])
qed

end

end
