(* ===== verification/Service_User.thy ===== *)
theory Service_User
  imports Service_Token
begin

text \<open>
  The service's operations on users and on their rate limits (auth/jwt.go, lines 333-516). Against
  the contract of a store, each operation that changes the store refines its meaning: refused
  with the store unchanged unless the caller has the permission the operation asks for, and
  otherwise exactly the abstract update.
\<close>

section \<open>Operations\<close>

text \<open>The two calls of \<open>time.Now\<close> in one operation are one reading of the clock.\<close>

definition new_user :: "call_env \<Rightarrow> createUserRequest \<Rightarrow> string \<Rightarrow> user" where
  "new_user E req uid =
     (let userNew = \<lparr>usr_Id = uid, usr_Name = cu_Name req, usr_Comment = [], usr_State = cu_State req,
        usr_CreateTime = ce_now E, usr_UpdateTime = ce_now E, usr_IsDeleted = NotDelete\<rparr>
      in case cu_Comment req of None \<Rightarrow> userNew | Some txt \<Rightarrow> userNew\<lparr>usr_Comment := txt\<rparr>)"

definition sv_CreateUser ::
  "('a, 'db) service \<Rightarrow> call_env \<Rightarrow> ctx \<Rightarrow> createUserRequest \<Rightarrow> 'db world \<Rightarrow> 'db world \<times> outputUser res" where
  "sv_CreateUser srv E c req w =
     (case permCheck c PermAdmin of
        Inl e \<Rightarrow> (w, Inl (Wrap ''need admin prem: '' e))
      | Inr _ \<Rightarrow>
     (case st_HasUser (sv_store srv) (cu_Name req) (w_db w) of
        Inl e \<Rightarrow> (w, Inl e)
      | Inr exist \<Rightarrow>
     if exist then (w, Inl (Msg ''user already exists''))
     else
     (case ce_uuid E of
        Inl e \<Rightarrow> (w, Inl e)
      | Inr uid \<Rightarrow>
     (let userNew = new_user E req uid in
      case st_PutUser (sv_store srv) userNew (w_db w) of
        (s, Inl e) \<Rightarrow> (w\<lparr>w_db := s\<rparr>, Inl e)
      | (s, Inr _) \<Rightarrow>
          (emit (UserGauge_Inc (UserState_String (usr_State userNew)) 1) (w\<lparr>w_db := s\<rparr>),
           Inr (out_user userNew))))))"

definition updated_user :: "call_env \<Rightarrow> updateUserRequest \<Rightarrow> user \<Rightarrow> user" where
  "updated_user E req user =
     (let user = user\<lparr>usr_UpdateTime := ce_now E\<rparr>;
          user = (case uu_Comment req of None \<Rightarrow> user | Some txt \<Rightarrow> user\<lparr>usr_Comment := txt\<rparr>)
      in if uu_State req \<noteq> UserStateUndefined then user\<lparr>usr_State := uu_State req\<rparr> else user)"

definition sv_UpdateUser ::
  "('a, 'db) service \<Rightarrow> call_env \<Rightarrow> ctx \<Rightarrow> updateUserRequest \<Rightarrow> 'db world \<Rightarrow> 'db world \<times> unit res" where
  "sv_UpdateUser srv E c req w =
     (case permCheck c PermAdmin of
        Inl e \<Rightarrow> (w, Inl (Wrap ''need admin prem: '' e))
      | Inr _ \<Rightarrow>
          (case st_GetUser (sv_store srv) (uu_Name req) (w_db w) of
             Inl e \<Rightarrow> (w, Inl e)
           | Inr user \<Rightarrow>
               (case st_UpdateUser (sv_store srv) (updated_user E req user) (w_db w) of
                  (s, r) \<Rightarrow> (w\<lparr>w_db := s\<rparr>, r))))"

definition sv_VerifyUsers :: "('a, 'db) service \<Rightarrow> ctx \<Rightarrow> string list \<Rightarrow> 'db world \<Rightarrow> unit res" where
  "sv_VerifyUsers srv c names w =
     (case permCheck c PermAdmin of
        Inl e \<Rightarrow> Inl (Wrap ''need admin prem: '' e)
      | Inr _ \<Rightarrow> st_VerifyUsers (sv_store srv) names (w_db w))"

text \<open>
  \<open>GetSkip\<close> and \<open>GetLimit\<close> are methods of the embedded page, which the first one writes to; a nil
  page panics.
\<close>

definition sv_ListUsers ::
  "('a, 'db) service \<Rightarrow> ctx \<Rightarrow> listUsersRequest \<Rightarrow> 'db world \<Rightarrow> outputUser list res" where
  "sv_ListUsers srv c req w =
     (case permCheck c PermAdmin of
        Inl e \<Rightarrow> Inl (Wrap ''need admin prem: '' e)
      | Inr _ \<Rightarrow>
          (case lu_Page req of
             None \<Rightarrow> Inl (Panic ''nil pointer dereference'')
           | Some pg \<Rightarrow>
               (let (skip, pg) = GetSkip pg; (limit, pg) = GetLimit pg in
                case st_ListUsers (sv_store srv) skip limit (lu_State req) (w_db w) of
                  Inl e \<Rightarrow> Inl e
                | Inr users \<Rightarrow> Inr (ToOutPutUsers users))))"

definition sv_HasUser :: "('a, 'db) service \<Rightarrow> ctx \<Rightarrow> string \<Rightarrow> 'db world \<Rightarrow> bool res" where
  "sv_HasUser srv c name w =
     (case permCheck c PermAdmin of
        Inl e \<Rightarrow> Inl (Wrap ''need admin prem: '' e)
      | Inr _ \<Rightarrow> st_HasUser (sv_store srv) name (w_db w))"

definition sv_DeleteUser ::
  "('a, 'db) service \<Rightarrow> call_env \<Rightarrow> ctx \<Rightarrow> string \<Rightarrow> 'db world \<Rightarrow> 'db world \<times> unit res" where
  "sv_DeleteUser srv E c name w =
     (case permCheck c PermAdmin of
        Inl e \<Rightarrow> (w, Inl (Wrap ''need admin prem: '' e))
      | Inr _ \<Rightarrow>
          (case st_DeleteUser (sv_store srv) (ce_now E) name (w_db w) of
             (s, Inl e) \<Rightarrow> (w\<lparr>w_db := s\<rparr>, Inl e)
           | (s, Inr _) \<Rightarrow>
               (emit (UserGauge_Inc (UserState_String UserStateDisabled) (- 1)) (w\<lparr>w_db := s\<rparr>), Inr ())))"

definition sv_RecoverUser ::
  "('a, 'db) service \<Rightarrow> ctx \<Rightarrow> string \<Rightarrow> 'db world \<Rightarrow> 'db world \<times> unit res" where
  "sv_RecoverUser srv c name w =
     (case permCheck c PermAdmin of
        Inl e \<Rightarrow> (w, Inl (Wrap ''need admin prem: '' e))
      | Inr _ \<Rightarrow>
          (case st_RecoverUser (sv_store srv) name (w_db w) of
             (s, Inl e) \<Rightarrow> (w\<lparr>w_db := s\<rparr>, Inl e)
           | (s, Inr _) \<Rightarrow>
               (emit (UserGauge_Inc (UserState_String UserStateDisabled) 1) (w\<lparr>w_db := s\<rparr>), Inr ())))"

definition sv_GetUserByMiner :: "('a, 'db) service \<Rightarrow> ctx \<Rightarrow> 'a \<Rightarrow> 'db world \<Rightarrow> outputUser res" where
  "sv_GetUserByMiner srv c miner w =
     (case permCheck c PermAdmin of
        Inl e \<Rightarrow> Inl (Wrap ''need admin prem: '' e)
      | Inr _ \<Rightarrow>
          (case st_GetUserByMiner (sv_store srv) miner (w_db w) of
             Inl e \<Rightarrow> Inl e
           | Inr user \<Rightarrow> Inr (out_user user)))"

definition sv_GetUserBySigner :: "('a, 'db) service \<Rightarrow> ctx \<Rightarrow> 'a \<Rightarrow> 'db world \<Rightarrow> outputUser list res" where
  "sv_GetUserBySigner srv c signer w =
     (case permCheck c PermAdmin of
        Inl e \<Rightarrow> Inl (Wrap ''need admin prem: '' e)
      | Inr _ \<Rightarrow>
          (case st_GetUserBySigner (sv_store srv) signer (w_db w) of
             Inl e \<Rightarrow> Inl e
           | Inr users \<Rightarrow> Inr (map out_user users)))"

definition sv_GetUser :: "('a, 'db) service \<Rightarrow> ctx \<Rightarrow> string \<Rightarrow> 'db world \<Rightarrow> outputUser res" where
  "sv_GetUser srv c name w =
     (case userPermCheck c name of
        Inl e \<Rightarrow> Inl (Wrap (''need admin prem or user '' @ name @ '' does not match: '') e)
      | Inr _ \<Rightarrow>
          (case st_GetUser (sv_store srv) name (w_db w) of
             Inl e \<Rightarrow> Inl e
           | Inr user \<Rightarrow> Inr (out_user user)))"

definition sv_GetUserRateLimits ::
  "('a, 'db) service \<Rightarrow> ctx \<Rightarrow> getUserRateLimitsReq \<Rightarrow> 'db world \<Rightarrow> user_rate_limit list res" where
  "sv_GetUserRateLimits srv c req w =
     (case permCheck c PermAdmin of
        Inl e \<Rightarrow> Inl (Wrap ''need admin prem: '' e)
      | Inr _ \<Rightarrow> st_GetRateLimits (sv_store srv) (gr_Name req) (gr_Id req) (w_db w))"

text \<open>The first argument after the service is what \<open>uuid.NewString\<close> returns in the store.\<close>

definition sv_UpsertUserRateLimit ::
  "('a, 'db) service \<Rightarrow> string \<Rightarrow> ctx \<Rightarrow> user_rate_limit \<Rightarrow> 'db world \<Rightarrow> 'db world \<times> string res" where
  "sv_UpsertUserRateLimit srv uuid c req w =
     (case permCheck c PermAdmin of
        Inl e \<Rightarrow> (w, Inl (Wrap ''need admin prem: '' e))
      | Inr _ \<Rightarrow>
          (case st_PutRateLimit (sv_store srv) uuid req (w_db w) of (s, r) \<Rightarrow> (w\<lparr>w_db := s\<rparr>, r)))"

definition sv_DelUserRateLimit ::
  "('a, 'db) service \<Rightarrow> ctx \<Rightarrow> delUserRateLimitReq \<Rightarrow> 'db world \<Rightarrow> 'db world \<times> unit res" where
  "sv_DelUserRateLimit srv c req w =
     (case permCheck c PermAdmin of
        Inl e \<Rightarrow> (w, Inl (Wrap ''need admin prem: '' e))
      | Inr _ \<Rightarrow>
          (case st_DelRateLimit (sv_store srv) (dr_Name req) (dr_Id req) (w_db w) of
             (s, r) \<Rightarrow> (w\<lparr>w_db := s\<rparr>, r)))"

section \<open>Refinement\<close>

text \<open>An operation on the world refines a meaning if it does so on the store.\<close>

abbreviation wrefines ::
  "('db \<Rightarrow> bool) \<Rightarrow> ('db \<Rightarrow> 'a astore) \<Rightarrow> 'db world \<Rightarrow> 'db world \<times> 'r res \<Rightarrow> ('a astore \<times> 'r) option \<Rightarrow> bool" where
  "wrefines I view w p spec \<equiv> refines I view (view (w_db w)) (w_db (fst p), snd p) spec"

lemma refines_refused: "I s \<Longrightarrow> refines I view (view s) (s, Inl e) None"
  by (simp add: refines_def)

lemma new_user_sel [simp]:
  "usr_Name (new_user E req uid) = cu_Name req" "usr_State (new_user E req uid) = cu_State req"
  "\<not> User_isDeleted (new_user E req uid)" "usr_IsDeleted (new_user E req uid) = NotDelete"
  by (auto simp: new_user_def Let_def User_isDeleted_def NotDelete_def split: option.split)

lemma updated_user_sel [simp]:
  "usr_Name (updated_user E req u) = usr_Name u" "User_isDeleted (updated_user E req u) = User_isDeleted u"
  "usr_Id (updated_user E req u) = usr_Id u" "usr_IsDeleted (updated_user E req u) = usr_IsDeleted u"
  by (auto simp: updated_user_def Let_def User_isDeleted_def split: option.split)

context service_reads
begin

text \<open>What the reading operations return.\<close>

lemma user_reads:
  assumes "I (w_db w)" and "grants c PermAdmin"
  shows "sv_HasUser srv c n w = Inr (a_user (view (w_db w)) n \<noteq> None)"
    and "is_ok (sv_VerifyUsers srv c ns w) \<longleftrightarrow> (\<forall>n \<in> set ns. a_user (view (w_db w)) n \<noteq> None)"
    and "lists (sv_GetUserRateLimits srv c req w)
      {l. as_limit (view (w_db w)) (gr_Name req) (rl_Id l) = Some l \<and> (gr_Id req = [] \<or> rl_Id l = gr_Id req)}"
proof -
  have "permCheck c PermAdmin = Inr ()" using assms(2) by (simp add: permCheck_iff)
  then show "sv_HasUser srv c n w = Inr (a_user (view (w_db w)) n \<noteq> None)"
    "is_ok (sv_VerifyUsers srv c ns w) \<longleftrightarrow> (\<forall>n \<in> set ns. a_user (view (w_db w)) n \<noteq> None)"
    "lists (sv_GetUserRateLimits srv c req w)
      {l. as_limit (view (w_db w)) (gr_Name req) (rl_Id l) = Some l \<and> (gr_Id req = [] \<or> rl_Id l = gr_Id req)}"
    using HasUser [OF assms(1)] VerifyUsers [OF assms(1)] GetRateLimits [OF assms(1)]
    by (simp_all add: sv_HasUser_def sv_VerifyUsers_def sv_GetUserRateLimits_def)
qed

lemma GetUser_iff:
  assumes "I (w_db w)"
  shows "sv_GetUser srv c n w = Inr ou \<longleftrightarrow>
    (grants c PermAdmin \<or> CtxGetName c = Some n) \<and>
    (\<exists>u. a_user (view (w_db w)) n = Some u \<and> ou = out_user u)"
proof (cases "userPermCheck c n")
  case (Inl e)
  then have "\<not> (grants c PermAdmin \<or> CtxGetName c = Some n)" using userPermCheck_iff [of c n] by simp
  with Inl show ?thesis by (simp add: sv_GetUser_def)
next
  case (Inr x)
  then have "userPermCheck c n = Inr ()" by simp
  moreover from this have "grants c PermAdmin \<or> CtxGetName c = Some n" by (simp add: userPermCheck_iff)
  ultimately show ?thesis
    by (auto simp: sv_GetUser_def GetUser_ok [OF assms, symmetric] split: sum.split)
qed

end

context service_on
begin

lemma CreateUser_refines:
  assumes "I (w_db w)"
  shows "wrefines I view w (sv_CreateUser srv E c req w)
    (if grants c PermAdmin \<and> a_user (view (w_db w)) (cu_Name req) = None \<and> is_ok (ce_uuid E)
     then let u = new_user E req (projr (ce_uuid E)) in
       Some (view (w_db w)\<lparr>as_user := (as_user (view (w_db w)))(cu_Name req \<mapsto> u)\<rparr>, out_user u)
     else None)"
proof (cases "ce_uuid E")
  case (Inl e)
  then show ?thesis using assms
    by (cases rule: permCheck_cases [of c PermAdmin])
      (simp_all add: sv_CreateUser_def HasUser [OF assms] refines_refused)
next
  case (Inr uid)
  then show ?thesis using assms PutUser [OF assms, of "new_user E req uid"]
    by (cases rule: permCheck_cases [of c PermAdmin])
      (auto simp: sv_CreateUser_def HasUser [OF assms] refines_refused refines_def spec_PutUser_def
        Let_def case_prod_beta)
qed

lemma UpdateUser_refines:
  assumes "I (w_db w)"
  shows "wrefines I view w (sv_UpdateUser srv E c req w)
    (if grants c PermAdmin
     then map_option (\<lambda>u. (view (w_db w)\<lparr>as_user := (as_user (view (w_db w)))(uu_Name req \<mapsto> updated_user E req u)\<rparr>, ()))
       (a_user (view (w_db w)) (uu_Name req))
     else None)"
proof (cases rule: permCheck_cases [of c PermAdmin])
  case 1
  show ?thesis
  proof (cases "a_user (view (w_db w)) (uu_Name req)")
    case None
    then have "\<not> is_ok (st_GetUser (sv_store srv) (uu_Name req) (w_db w))"
      using GetUser [OF assms, of "uu_Name req"] by (simp add: found_def)
    then show ?thesis
      using 1 None assms by (cases "st_GetUser (sv_store srv) (uu_Name req) (w_db w)")
        (simp_all add: sv_UpdateUser_def refines_refused)
  next
    case (Some u)
    then have "st_GetUser (sv_store srv) (uu_Name req) (w_db w) = Inr u" by (simp add: GetUser_ok assms)
    moreover have "usr_Name u = uu_Name req" using Some user_keyed [OF assms] by (simp add: live_Some)
    ultimately show ?thesis
      using 1 Some UpdateUser [OF assms, of "updated_user E req u"]
      by (auto simp: sv_UpdateUser_def refines_def spec_PutUser_def case_prod_beta)
  qed
next
  case (2 e)
  then show ?thesis using assms by (simp add: sv_UpdateUser_def refines_refused)
qed

lemma DeleteUser_refines:
  assumes "I (w_db w)"
  shows "wrefines I view w (sv_DeleteUser srv E c n w)
    (if grants c PermAdmin then spec_DeleteUser (ce_now E) n (view (w_db w)) else None)"
  using assms DeleteUser [OF assms, of "ce_now E" n]
  by (cases rule: permCheck_cases [of c PermAdmin])
    (auto simp: sv_DeleteUser_def refines_def split: option.splits sum.splits prod.splits)

lemma RecoverUser_refines:
  assumes "I (w_db w)"
  shows "wrefines I view w (sv_RecoverUser srv c n w)
    (if grants c PermAdmin then spec_RecoverUser n (view (w_db w)) else None)"
  using assms RecoverUser [OF assms, of n]
  by (cases rule: permCheck_cases [of c PermAdmin])
    (auto simp: sv_RecoverUser_def refines_def split: option.splits sum.splits prod.splits)

lemma UpsertUserRateLimit_refines:
  assumes "I (w_db w)"
  shows "wrefines I view w (sv_UpsertUserRateLimit srv uuid c l w)
    (if grants c PermAdmin then spec_PutRateLimit uuid l (view (w_db w)) else None)"
  using assms PutRateLimit [OF assms, of uuid l]
  by (cases rule: permCheck_cases [of c PermAdmin])
    (auto simp: sv_UpsertUserRateLimit_def refines_refused case_prod_beta)

lemma DelUserRateLimit_does:
  assumes "I (w_db w)"
  obtains f where "view (w_db (fst (sv_DelUserRateLimit srv c req w))) =
      view (w_db w)\<lparr>as_limit := (as_limit (view (w_db w)))(dr_Name req := f)\<rparr>"
    and "f \<subseteq>\<^sub>m as_limit (view (w_db w)) (dr_Name req)"
    and "I (w_db (fst (sv_DelUserRateLimit srv c req w)))"
    and "is_ok (snd (sv_DelUserRateLimit srv c req w)) \<Longrightarrow> grants c PermAdmin \<and> f (dr_Id req) = None"
proof (cases rule: permCheck_cases [of c PermAdmin])
  case 1
  then show ?thesis
    using DelRateLimit [OF assms, of "dr_Name req" "dr_Id req"]
    by (auto simp: sv_DelUserRateLimit_def case_prod_beta intro: that)
next
  case (2 e)
  then show ?thesis
    using assms by (intro that [of "as_limit (view (w_db w)) (dr_Name req)"])
      (simp_all add: sv_DelUserRateLimit_def)
qed

text \<open>A page of users, with the requested page brought into bounds.\<close>

lemma ListUsers_page:
  assumes "I (w_db w)" and "grants c PermAdmin" and "lu_Page req = Some pg" "is_i64 (Skip pg)"
    and "int (card (dom (as_user (view (w_db w))))) < 2 ^ 63"
  obtains us where "sv_ListUsers srv c req w =
      Inr (map out_user (page_of (fst (GetSkip pg)) (fst (GetLimit pg)) us))" "distinct us"
    and "set us = {u. a_user (view (w_db w)) (usr_Name u) = Some u \<and>
      (lu_State req = UserStateUndefined \<or> usr_State u = lu_State req)}"
proof -
  have "is_i64 (fst (GetSkip pg))" using assms(4) by (simp add: GetSkip_def Let_def is_i64_def)
  from ListUsers [OF assms(1) GetSkip_nonneg this _ assms(5), of "fst (GetLimit pg)" "lu_State req"]
  obtain us where us: "st_ListUsers (sv_store srv) (fst (GetSkip pg)) (fst (GetLimit pg)) (lu_State req) (w_db w) =
      Inr (page_of (fst (GetSkip pg)) (fst (GetLimit pg)) us)" "distinct us"
    "set us = {u. a_user (view (w_db w)) (usr_Name u) = Some u \<and>
      (lu_State req = UserStateUndefined \<or> usr_State u = lu_State req)}"
    using GetLimit_bounds by (auto simp: pages_def)
  moreover have "permCheck c PermAdmin = Inr ()" using assms(2) by (simp add: permCheck_iff)
  ultimately show thesis
    using assms(3) by (intro that [of us])
      (simp_all add: sv_ListUsers_def case_prod_beta GetLimit_after_GetSkip ToOutPutUsers_map)
qed

lemma GetUserByMiner_iff:
  assumes "I (w_db w)"
  shows "sv_GetUserByMiner srv c a w = Inr ou \<longleftrightarrow> grants c PermAdmin \<and>
    (\<exists>n u. a_owner (view (w_db w)) a = Some n \<and> a_user (view (w_db w)) n = Some u \<and> ou = out_user u)"
  using GetUserByMiner [OF assms, of a]
  by (cases rule: permCheck_cases [of c PermAdmin])
    (auto simp: sv_GetUserByMiner_def found_def split: option.splits sum.splits bind_splits)

end

end
