(* ===== verification/Service_Miner.thy ===== *)
theory Service_Miner
  imports Service_User
begin

text \<open>
  The service's operations on miners and signers (auth/jwt.go, lines 518-695): who may call them,
  the address kinds they accept, the loops over signers, and what they do to the store, against the
  contract of a store.
\<close>

section \<open>Miners\<close>

text \<open>The message with the number of a protocol (\<open>%v\<close>).\<close>

definition protocol_number :: "protocol \<Rightarrow> nat" where
  "protocol_number p = (case p of AddrID \<Rightarrow> 0 | SECP256K1 \<Rightarrow> 1 | Actor \<Rightarrow> 2 | BLS \<Rightarrow> 3 | Delegated \<Rightarrow> 4
     | UnknownProtocol n \<Rightarrow> n)"

definition invalid_protocol :: "'a addr_lib \<Rightarrow> 'a \<Rightarrow> err" where
  "invalid_protocol A addr =
     Msg (''invalid protocol type: '' @ show_nat (protocol_number (addr_Protocol A addr)))"

definition sv_UpsertMiner ::
  "('a, 'db) service \<Rightarrow> call_env \<Rightarrow> ctx \<Rightarrow> 'a upsertMinerReq \<Rightarrow> 'db world \<Rightarrow> 'db world \<times> bool res" where
  "sv_UpsertMiner srv E c req w =
     (case permCheck c PermAdmin of
        Inl e \<Rightarrow> (w, Inl (Wrap ''need admin prem: '' e))
      | Inr _ \<Rightarrow>
          (let mAddr = um_Miner req in
           if addr_Protocol (sv_addr srv) mAddr \<noteq> AddrID
           then (w, Inl (invalid_protocol (sv_addr srv) mAddr))
           else
             (case st_UpsertMiner (sv_store srv) (ce_now E) mAddr (um_User req) (um_OpenMining req) (w_db w) of
                (s, r) \<Rightarrow> (w\<lparr>w_db := s\<rparr>, r))))"

definition sv_HasMiner :: "('a, 'db) service \<Rightarrow> ctx \<Rightarrow> 'a \<Rightarrow> 'db world \<Rightarrow> bool res" where
  "sv_HasMiner srv c miner w =
     (case permCheck c PermAdmin of
        Inl e \<Rightarrow> Inl (Wrap ''need admin prem: '' e)
      | Inr _ \<Rightarrow>
          (case st_HasMiner (sv_store srv) miner (w_db w) of Inl e \<Rightarrow> Inl e | Inr has \<Rightarrow> Inr has))"

definition sv_MinerExistInUser ::
  "('a, 'db) service \<Rightarrow> ctx \<Rightarrow> 'a minerExistInUserRequest \<Rightarrow> 'db world \<Rightarrow> bool res" where
  "sv_MinerExistInUser srv c req w =
     (case userPermCheck c (me_User req) of
        Inl e \<Rightarrow> Inl (Wrap (''need admin prem or user '' @ me_User req @ '' does not match: '') e)
      | Inr _ \<Rightarrow>
          (case st_MinerExistInUser (sv_store srv) (me_Miner req) (me_User req) (w_db w) of
             Inl e \<Rightarrow> Inl e | Inr exist \<Rightarrow> Inr exist))"

text \<open>\<open>*m.OpenMining\<close> panics on a miner without the flag.\<close>

fun outputMiners_loop :: "'a miner list \<Rightarrow> 'a outputMiner list res" where
  "outputMiners_loop [] = Inr []"
| "outputMiners_loop (m # miners) =
     (case mn_OpenMining m of
        None \<Rightarrow> Inl (Panic ''nil pointer dereference'')
      | Some om \<Rightarrow>
          (case outputMiners_loop miners of
             Inl e \<Rightarrow> Inl e
           | Inr outs \<Rightarrow> Inr (\<lparr>om_User = mn_User m, om_OpenMining = om, om_CreatedAt = CreatedAt m,
               om_UpdatedAt = UpdatedAt m, om_Miner = mn_Miner m\<rparr> # outs)))"

definition sv_ListMiners :: "('a, 'db) service \<Rightarrow> ctx \<Rightarrow> string \<Rightarrow> 'db world \<Rightarrow> 'a outputMiner list res" where
  "sv_ListMiners srv c user w =
     (case userPermCheck c user of
        Inl e \<Rightarrow> Inl (Wrap (''need admin prem or user '' @ user @ '' does not match: '') e)
      | Inr _ \<Rightarrow>
          (case st_ListMiners (sv_store srv) user (w_db w) of
             Inl e \<Rightarrow> Inl (Wrap (''list user:'' @ user @ '' miners failed:'') e)
           | Inr miners \<Rightarrow> outputMiners_loop miners))"

definition sv_DelMiner ::
  "('a, 'db) service \<Rightarrow> call_env \<Rightarrow> ctx \<Rightarrow> 'a \<Rightarrow> 'db world \<Rightarrow> 'db world \<times> bool res" where
  "sv_DelMiner srv E c miner w =
     (case (case permCheck c PermAdmin of
              Inr _ \<Rightarrow> Inr ()
            | Inl _ \<Rightarrow> ownerOfMinerCheck c (\<lambda>a n. st_MinerExistInUser (sv_store srv) a n (w_db w)) miner) of
        Inl e \<Rightarrow>
          (w, Inl (Wrap (''need admin prem or '' @ addr_String (sv_addr srv) miner @ '' ownership check error: '') e))
      | Inr _ \<Rightarrow>
          (case st_DelMiner (sv_store srv) (ce_now E) miner (w_db w) of (s, r) \<Rightarrow> (w\<lparr>w_db := s\<rparr>, r)))"

section \<open>Signers\<close>

text \<open>The loops of \<open>RegisterSigners\<close> and \<open>UnregisterSigners\<close> stop at the first error.\<close>

fun RegisterSigners_loop ::
  "('a, 'db) service \<Rightarrow> time \<Rightarrow> string \<Rightarrow> 'a list \<Rightarrow> 'db \<Rightarrow> 'db \<times> unit res" where
  "RegisterSigners_loop srv now user [] s = (s, Inr ())"
| "RegisterSigners_loop srv now user (signer # signers) s =
     (if \<not> IsSignerAddress (sv_addr srv) signer then (s, Inl (invalid_protocol (sv_addr srv) signer))
      else
        (case st_RegisterSigner (sv_store srv) now signer user s of
           (s, Inl e) \<Rightarrow>
             (s, Inl (Wrap (''unregister signer:'' @ addr_String (sv_addr srv) signer @ '', error: '') e))
         | (s, Inr _) \<Rightarrow> RegisterSigners_loop srv now user signers s))"

definition sv_RegisterSigners ::
  "('a, 'db) service \<Rightarrow> call_env \<Rightarrow> ctx \<Rightarrow> 'a signersReq \<Rightarrow> 'db world \<Rightarrow> 'db world \<times> unit res" where
  "sv_RegisterSigners srv E c req w =
     (case permCheck c PermAdmin of
        Inl e \<Rightarrow> (w, Inl (Wrap ''need admin prem: '' e))
      | Inr _ \<Rightarrow>
          (case RegisterSigners_loop srv (ce_now E) (sr_User req) (sr_Signers req) (w_db w) of
             (s, r) \<Rightarrow> (w\<lparr>w_db := s\<rparr>, r)))"

definition sv_SignerExistInUser ::
  "('a, 'db) service \<Rightarrow> ctx \<Rightarrow> 'a signerExistInUserReq \<Rightarrow> 'db world \<Rightarrow> bool res" where
  "sv_SignerExistInUser srv c req w =
     (case userPermCheck c (se_User req) of
        Inl e \<Rightarrow> Inl (Wrap (''need admin prem or user '' @ se_User req @ '' does not match: '') e)
      | Inr _ \<Rightarrow>
          (let addr = se_Signer req in
           if \<not> IsSignerAddress (sv_addr srv) addr then Inl (invalid_protocol (sv_addr srv) addr)
           else
             (case st_SignerExistInUser (sv_store srv) addr (se_User req) (w_db w) of
                Inl e \<Rightarrow> Inl e | Inr has \<Rightarrow> Inr has)))"

definition out_signer :: "'a signer \<Rightarrow> 'a outputSigner" where
  "out_signer m = \<lparr>os_Signer = sn_Signer m, os_User = sn_User m, os_CreatedAt = CreatedAt m,
     os_UpdatedAt = UpdatedAt m\<rparr>"

definition sv_ListSigner :: "('a, 'db) service \<Rightarrow> ctx \<Rightarrow> string \<Rightarrow> 'db world \<Rightarrow> 'a outputSigner list res" where
  "sv_ListSigner srv c user w =
     (case userPermCheck c user of
        Inl e \<Rightarrow> Inl (Wrap (''need admin prem or user '' @ user @ '' does not match: '') e)
      | Inr _ \<Rightarrow>
          (case st_ListSigner (sv_store srv) user (w_db w) of
             Inl e \<Rightarrow> Inl (Wrap (''list user:'' @ user @ '' signer failed: '') e)
           | Inr signers \<Rightarrow> Inr (map out_signer signers)))"

fun UnregisterSigners_loop ::
  "('a, 'db) service \<Rightarrow> time \<Rightarrow> string \<Rightarrow> 'a list \<Rightarrow> 'db \<Rightarrow> 'db \<times> unit res" where
  "UnregisterSigners_loop srv now user [] s = (s, Inr ())"
| "UnregisterSigners_loop srv now user (signer # signers) s =
     (if \<not> IsSignerAddress (sv_addr srv) signer then (s, Inl (invalid_protocol (sv_addr srv) signer))
      else
        (case st_UnregisterSigner (sv_store srv) now signer user s of
           (s, Inl e) \<Rightarrow>
             (s, Inl (Wrap (''unregister signer:'' @ addr_String (sv_addr srv) signer @ '', error: '') e))
         | (s, Inr _) \<Rightarrow> UnregisterSigners_loop srv now user signers s))"

definition sv_UnregisterSigners ::
  "('a, 'db) service \<Rightarrow> call_env \<Rightarrow> ctx \<Rightarrow> 'a signersReq \<Rightarrow> 'db world \<Rightarrow> 'db world \<times> unit res" where
  "sv_UnregisterSigners srv E c req w =
     (case permCheck c PermAdmin of
        Inl e \<Rightarrow> (w, Inl (Wrap ''need admin prem: '' e))
      | Inr _ \<Rightarrow>
          (case UnregisterSigners_loop srv (ce_now E) (sr_User req) (sr_Signers req) (w_db w) of
             (s, r) \<Rightarrow> (w\<lparr>w_db := s\<rparr>, r)))"

definition sv_HasSigner :: "('a, 'db) service \<Rightarrow> ctx \<Rightarrow> 'a \<Rightarrow> 'db world \<Rightarrow> bool res" where
  "sv_HasSigner srv c addr w =
     (case permCheck c PermAdmin of
        Inl e \<Rightarrow> Inl (Wrap ''need admin prem: '' e)
      | Inr _ \<Rightarrow>
          if \<not> IsSignerAddress (sv_addr srv) addr then Inl (invalid_protocol (sv_addr srv) addr)
          else st_HasSigner (sv_store srv) addr (w_db w))"

definition sv_DelSigner ::
  "('a, 'db) service \<Rightarrow> call_env \<Rightarrow> ctx \<Rightarrow> 'a \<Rightarrow> 'db world \<Rightarrow> 'db world \<times> bool res" where
  "sv_DelSigner srv E c addr w =
     (case (case permCheck c PermAdmin of
              Inr _ \<Rightarrow> Inr ()
            | Inl _ \<Rightarrow> ownerOfSignerCheck c (\<lambda>a n. st_SignerExistInUser (sv_store srv) a n (w_db w)) addr) of
        Inl e \<Rightarrow>
          (w, Inl (Wrap (''need admin prem or '' @ addr_String (sv_addr srv) addr @ '' ownership check error: '') e))
      | Inr _ \<Rightarrow>
          (case st_DelSigner (sv_store srv) (ce_now E) addr (w_db w) of (s, r) \<Rightarrow> (w\<lparr>w_db := s\<rparr>, r)))"

section \<open>Refinement\<close>

text \<open>
  The meaning of the loops: bind the signers one by one, as far as the loop gets; the flag tells
  whether it gets through.
\<close>

fun spec_RegisterSigners ::
  "('a \<Rightarrow> bool) \<Rightarrow> time \<Rightarrow> string \<Rightarrow> 'a list \<Rightarrow> 'a astore \<Rightarrow> 'a astore \<times> bool" where
  "spec_RegisterSigners ok now n [] st = (st, True)"
| "spec_RegisterSigners ok now n (a # as) st =
     (if \<not> ok a then (st, False)
      else case spec_RegisterSigner now a n st of
        None \<Rightarrow> (st, False) | Some (st, _) \<Rightarrow> spec_RegisterSigners ok now n as st)"

fun spec_UnregisterSigners ::
  "('a \<Rightarrow> bool) \<Rightarrow> time \<Rightarrow> string \<Rightarrow> 'a list \<Rightarrow> 'a astore \<Rightarrow> 'a astore \<times> bool" where
  "spec_UnregisterSigners ok now n [] st = (st, True)"
| "spec_UnregisterSigners ok now n (a # as) st =
     (if \<not> ok a then (st, False)
      else case spec_UnregisterSigner now a n st of
        None \<Rightarrow> (st, False) | Some (st, _) \<Rightarrow> spec_UnregisterSigners ok now n as st)"

lemma spec_RegisterSigners_users: "as_user (fst (spec_RegisterSigners ok now n as st)) = as_user st"
  by (induction ok now n as st rule: spec_RegisterSigners.induct)
    (auto simp: spec_RegisterSigner_def split: option.splits if_splits)

text \<open>Registration of a list of signing addresses for a known user binds each of them.\<close>

lemma spec_RegisterSigners_all:
  assumes "as_user st n \<noteq> None" and "\<forall>a \<in> set as. ok a"
  shows "snd (spec_RegisterSigners ok now n as st)"
    and "as_signer (fst (spec_RegisterSigners ok now n as st)) a m =
      (if m = n \<and> a \<in> set as
       then as_signer (fst (spec_RegisterSigners ok now n as st)) a n else as_signer st a m)"
    and "a \<in> set as \<Longrightarrow> a_signer (fst (spec_RegisterSigners ok now n as st)) a n \<noteq> None"
proof -
  have bound [simp]: "\<not> Signer_isDeleted (bind_signer now a n old)" for a old
    by (simp add: bind_signer_def Signer_isDeleted_def)
  have "snd (spec_RegisterSigners ok now n as st) \<and>
    (\<forall>a m. m \<noteq> n \<or> a \<notin> set as \<longrightarrow>
      as_signer (fst (spec_RegisterSigners ok now n as st)) a m = as_signer st a m) \<and>
    (\<forall>a. a \<in> set as \<or> a_signer st a n \<noteq> None \<longrightarrow>
      a_signer (fst (spec_RegisterSigners ok now n as st)) a n \<noteq> None)"
    using assms
  proof (induction as arbitrary: st)
    case (Cons b as)
    define st1 where "st1 = st\<lparr>as_signer := (as_signer st)(b := (as_signer st b)(n \<mapsto> bind_signer now b n (as_signer st b n)))\<rparr>"
    have "as_user st1 n \<noteq> None" using Cons.prems(1) by (simp add: st1_def)
    note IH = Cons.IH [OF this]
    have "spec_RegisterSigners ok now n (b # as) st = spec_RegisterSigners ok now n as st1"
      using Cons.prems by (auto simp: spec_RegisterSigner_def st1_def)
    moreover have "a_signer st1 a n \<noteq> None" if "a = b \<or> a_signer st a n \<noteq> None" for a
      using that by (auto simp: st1_def)
    moreover have "as_signer st1 a m = as_signer st a m" if "m \<noteq> n \<or> a \<noteq> b" for a m
      using that by (auto simp: st1_def)
    ultimately show ?case using IH Cons.prems(2) by (metis list.set_intros set_ConsD)
  qed simp
  then show "snd (spec_RegisterSigners ok now n as st)"
    "as_signer (fst (spec_RegisterSigners ok now n as st)) a m =
      (if m = n \<and> a \<in> set as
       then as_signer (fst (spec_RegisterSigners ok now n as st)) a n else as_signer st a m)"
    "a \<in> set as \<Longrightarrow> a_signer (fst (spec_RegisterSigners ok now n as st)) a n \<noteq> None"
    by auto
qed

text \<open>Every miner has the flag \<open>OpenMining\<close>, so that it can be listed.\<close>

definition miners_open :: "'a astore \<Rightarrow> bool" where
  "miners_open st \<longleftrightarrow> (\<forall>a m. as_miner st a = Some m \<longrightarrow> mn_OpenMining m \<noteq> None)"

definition out_miner :: "'a miner \<Rightarrow> 'a outputMiner" where
  "out_miner m = \<lparr>om_User = mn_User m, om_OpenMining = the (mn_OpenMining m), om_CreatedAt = CreatedAt m,
     om_UpdatedAt = UpdatedAt m, om_Miner = mn_Miner m\<rparr>"

lemma outputMiners_loop_open:
  "\<forall>m \<in> set ms. mn_OpenMining m \<noteq> None \<Longrightarrow> outputMiners_loop ms = Inr (map out_miner ms)"
  by (induction ms) (auto simp: out_miner_def)

context service_reads
begin

text \<open>What the reading operations return.\<close>

lemma MinerExistInUser_eq:
  assumes "I (w_db w)" and "grants c PermAdmin \<or> CtxGetName c = Some (me_User req)"
  shows "sv_MinerExistInUser srv c req w = Inr (a_owner (view (w_db w)) (me_Miner req) = Some (me_User req))"
proof -
  have "userPermCheck c (me_User req) = Inr ()" using assms(2) by (simp add: userPermCheck_iff)
  then show ?thesis by (simp add: sv_MinerExistInUser_def MinerExistInUser [OF assms(1)])
qed

lemma SignerExistInUser_eq:
  assumes "I (w_db w)" and "grants c PermAdmin \<or> CtxGetName c = Some (se_User req)"
    and "IsSignerAddress (sv_addr srv) (se_Signer req)"
  shows "sv_SignerExistInUser srv c req w = Inr (a_signer (view (w_db w)) (se_Signer req) (se_User req) \<noteq> None)"
proof -
  have "userPermCheck c (se_User req) = Inr ()" using assms(2) by (simp add: userPermCheck_iff)
  then show ?thesis using assms(3) by (simp add: sv_SignerExistInUser_def SignerExistInUser [OF assms(1)])
qed

lemma HasMiner_eq:
  assumes "I (w_db w)" and "grants c PermAdmin"
  shows "sv_HasMiner srv c a w = Inr (a_owner (view (w_db w)) a \<noteq> None)"
proof -
  have "permCheck c PermAdmin = Inr ()" using assms(2) by (simp add: permCheck_iff)
  then show ?thesis by (simp add: sv_HasMiner_def HasMiner [OF assms(1)])
qed

lemma ListMiners_eq:
  assumes "I (w_db w)" and "grants c PermAdmin \<or> CtxGetName c = Some n" and "miners_open (view (w_db w))"
  obtains ms where "sv_ListMiners srv c n w = Inr (map out_miner ms)" "distinct ms"
    and "set ms = {m. a_miner (view (w_db w)) (mn_Miner m) = Some m \<and> mn_User m = n}"
proof -
  obtain ms where ms: "st_ListMiners (sv_store srv) n (w_db w) = Inr ms" "distinct ms"
    "set ms = {m. a_miner (view (w_db w)) (mn_Miner m) = Some m \<and> mn_User m = n}"
    using ListMiners [OF assms(1), of n] by (auto simp: lists_def)
  have "\<forall>m \<in> set ms. mn_OpenMining m \<noteq> None"
    using ms(3) assms(3) by (auto simp: miners_open_def live_Some)
  moreover have "userPermCheck c n = Inr ()" using assms(2) by (simp add: userPermCheck_iff)
  ultimately have "sv_ListMiners srv c n w = Inr (map out_miner ms)"
    by (simp add: sv_ListMiners_def ms(1) outputMiners_loop_open)
  with ms(2,3) show thesis by (intro that)
qed

lemma ListSigner_eq:
  assumes "I (w_db w)" and "grants c PermAdmin \<or> CtxGetName c = Some n"
  obtains gs where "sv_ListSigner srv c n w = Inr (map out_signer gs)" "distinct gs"
    and "set gs = {g. a_signer (view (w_db w)) (sn_Signer g) n = Some g \<and> sn_User g = n}"
proof -
  obtain gs where gs: "st_ListSigner (sv_store srv) n (w_db w) = Inr gs" "distinct gs"
    "set gs = {g. a_signer (view (w_db w)) (sn_Signer g) n = Some g \<and> sn_User g = n}"
    using ListSigner [OF assms(1), of n] by (auto simp: lists_def)
  moreover have "userPermCheck c n = Inr ()" using assms(2) by (simp add: userPermCheck_iff)
  ultimately show thesis by (intro that [of gs]) (simp_all add: sv_ListSigner_def)
qed

end

context service_on
begin

lemma UpsertMiner_refines:
  assumes "I (w_db w)"
  shows "wrefines I view w (sv_UpsertMiner srv E c req w)
    (if grants c PermAdmin \<and> addr_Protocol (sv_addr srv) (um_Miner req) = AddrID
     then spec_UpsertMiner (ce_now E) (um_Miner req) (um_User req) (um_OpenMining req) (view (w_db w))
     else None)"
  using assms UpsertMiner [OF assms, of "ce_now E" "um_Miner req" "um_User req" "um_OpenMining req"]
  by (cases rule: permCheck_cases [of c PermAdmin])
    (simp_all add: sv_UpsertMiner_def Let_def refines_refused case_prod_beta)

lemma DelMiner_refines:
  assumes "I (w_db w)"
  shows "wrefines I view w (sv_DelMiner srv E c a w)
    (if grants c PermAdmin \<or> (\<exists>n. CtxGetName c = Some n \<and> a_owner (view (w_db w)) a = Some n)
     then spec_DelMiner (ce_now E) a (view (w_db w)) else None)"
proof -
  have check: "(case permCheck c PermAdmin of Inr _ \<Rightarrow> Inr ()
      | Inl _ \<Rightarrow> ownerOfMinerCheck c (\<lambda>a n. st_MinerExistInUser (sv_store srv) a n (w_db w)) a) = Inr () \<longleftrightarrow>
      grants c PermAdmin \<or> (\<exists>n. CtxGetName c = Some n \<and> a_owner (view (w_db w)) a = Some n)"
    by (cases rule: permCheck_cases [of c PermAdmin])
      (simp_all add: miner_checker.ownerOfMinerCheck_iff [OF assms])
  show ?thesis
    unfolding check [symmetric]
    using assms DelMiner [OF assms, of "ce_now E" a]
    by (cases "case permCheck c PermAdmin of Inr _ \<Rightarrow> Inr ()
        | Inl _ \<Rightarrow> ownerOfMinerCheck c (\<lambda>a n. st_MinerExistInUser (sv_store srv) a n (w_db w)) a")
      (simp_all add: sv_DelMiner_def refines_refused case_prod_beta)
qed

lemma DelSigner_refines:
  assumes "I (w_db w)"
    and del: "refines I view (view (w_db w)) (st_DelSigner (sv_store srv) (ce_now E) a (w_db w)) sp"
  shows "wrefines I view w (sv_DelSigner srv E c a w)
    (if grants c PermAdmin \<or> (\<exists>n. CtxGetName c = Some n \<and> a_signer (view (w_db w)) a n \<noteq> None)
     then sp else None)"
proof -
  have check: "(case permCheck c PermAdmin of Inr _ \<Rightarrow> Inr ()
      | Inl _ \<Rightarrow> ownerOfSignerCheck c (\<lambda>a n. st_SignerExistInUser (sv_store srv) a n (w_db w)) a) = Inr () \<longleftrightarrow>
      grants c PermAdmin \<or> (\<exists>n. CtxGetName c = Some n \<and> a_signer (view (w_db w)) a n \<noteq> None)"
    by (cases rule: permCheck_cases [of c PermAdmin])
      (simp_all add: signer_checker.ownerOfSignerCheck_iff [OF assms(1)])
  show ?thesis
    unfolding check [symmetric]
    using assms
    by (cases "case permCheck c PermAdmin of Inr _ \<Rightarrow> Inr ()
        | Inl _ \<Rightarrow> ownerOfSignerCheck c (\<lambda>a n. st_SignerExistInUser (sv_store srv) a n (w_db w)) a")
      (simp_all add: sv_DelSigner_def refines_refused case_prod_beta)
qed

lemma RegisterSigners_loop_does:
  "I s \<Longrightarrow> I (fst (RegisterSigners_loop srv now n as s)) \<and>
     (view (fst (RegisterSigners_loop srv now n as s)), is_ok (snd (RegisterSigners_loop srv now n as s))) =
       spec_RegisterSigners (IsSignerAddress (sv_addr srv)) now n as (view s)"
proof (induction as arbitrary: s)
  case (Cons a as)
  show ?case
  proof (cases "IsSignerAddress (sv_addr srv) a")
    case True
    obtain s' r where p: "st_RegisterSigner (sv_store srv) now a n s = (s', r)" by fastforce
    from RegisterSigner [OF Cons.prems True, of now n] show ?thesis unfolding p
    proof (rule refinesE)
      assume "I (fst (s', r))" "spec_RegisterSigner now a n (view s) = None" "view (fst (s', r)) = view s"
        "\<not> is_ok (snd (s', r))"
      then show ?thesis using True p by (cases r) simp_all
    next
      fix st' x
      assume "I (fst (s', r))" "spec_RegisterSigner now a n (view s) = Some (st', x)" "view (fst (s', r)) = st'"
        "snd (s', r) = Inr x"
      then show ?thesis using True p Cons.IH [of s'] by simp
    qed
  qed (use Cons.prems in simp)
qed simp

lemma UnregisterSigners_loop_does:
  "I s \<Longrightarrow> I (fst (UnregisterSigners_loop srv now n as s)) \<and>
     (view (fst (UnregisterSigners_loop srv now n as s)), is_ok (snd (UnregisterSigners_loop srv now n as s))) =
       spec_UnregisterSigners (IsSignerAddress (sv_addr srv)) now n as (view s)"
proof (induction as arbitrary: s)
  case (Cons a as)
  show ?case
  proof (cases "IsSignerAddress (sv_addr srv) a")
    case True
    obtain s' r where p: "st_UnregisterSigner (sv_store srv) now a n s = (s', r)" by fastforce
    from UnregisterSigner [OF Cons.prems, of now a n] show ?thesis unfolding p
    proof (rule refinesE)
      assume "I (fst (s', r))" "spec_UnregisterSigner now a n (view s) = None" "view (fst (s', r)) = view s"
        "\<not> is_ok (snd (s', r))"
      then show ?thesis using True p by (cases r) simp_all
    next
      fix st' x
      assume "I (fst (s', r))" "spec_UnregisterSigner now a n (view s) = Some (st', x)" "view (fst (s', r)) = st'"
        "snd (s', r) = Inr x"
      then show ?thesis using True p Cons.IH [of s'] by simp
    qed
  qed (use Cons.prems in simp)
qed simp

lemma RegisterSigners_does:
  assumes "I (w_db w)"
  shows "I (w_db (fst (sv_RegisterSigners srv E c req w)))"
    and "(view (w_db (fst (sv_RegisterSigners srv E c req w))), is_ok (snd (sv_RegisterSigners srv E c req w))) =
      (if grants c PermAdmin
       then spec_RegisterSigners (IsSignerAddress (sv_addr srv)) (ce_now E) (sr_User req) (sr_Signers req) (view (w_db w))
       else (view (w_db w), False))"
  using assms RegisterSigners_loop_does [OF assms, of "ce_now E" "sr_User req" "sr_Signers req"]
  by (cases rule: permCheck_cases [of c PermAdmin];
      simp add: sv_RegisterSigners_def case_prod_beta)+

lemma UnregisterSigners_does:
  assumes "I (w_db w)"
  shows "I (w_db (fst (sv_UnregisterSigners srv E c req w)))"
    and "(view (w_db (fst (sv_UnregisterSigners srv E c req w))), is_ok (snd (sv_UnregisterSigners srv E c req w))) =
      (if grants c PermAdmin
       then spec_UnregisterSigners (IsSignerAddress (sv_addr srv)) (ce_now E) (sr_User req) (sr_Signers req) (view (w_db w))
       else (view (w_db w), False))"
  using assms UnregisterSigners_loop_does [OF assms, of "ce_now E" "sr_User req" "sr_Signers req"]
  by (cases rule: permCheck_cases [of c PermAdmin];
      simp add: sv_UnregisterSigners_def case_prod_beta)+

end

end
