(* ===== verification/App.thy ===== *)
theory App
  imports Service_Miner
begin

text \<open>
  The HTTP handlers (auth/app.go). A handler is given the result of binding the request (gin's
  \<open>ShouldBind\<close>: the request struct as far as it was filled, and the error if any), calls the
  service, and answers by calls on the gin context, which the model lists in order. What gin does
  with the calls is not modelled here. Proved: the answer to a request the service refuses, and
  the behaviour of the default admin token.
\<close>

section \<open>Requests and answers\<close>

type_synonym 'r bound = "'r \<times> err option"

datatype 'a body =
    BError string
  | BPayload jwt_payload
  | BToken string
  | BTokenInfos "tokenInfo list"
  | BUser outputUser
  | BUsers "outputUser list"
  | BBool bool
  | BString string
  | BRateLimits "user_rate_limit list"
  | BMiners "'a outputMiner list"
  | BSigners "'a outputSigner list"
  | BVersion string

datatype 'a gin_call =
    C_Error err
  | C_JSON nat "'a body"
  | C_AbortWithStatus nat
  | C_Set string string
  | C_WriteHeader nat
  | C_Next
  | C_HealthHandler
  | C_Header string string
  | C_Panic err

record genTokenRequest =
  gt_Name :: string
  gt_Perm :: permission
  gt_Extra :: string

record getTokenRequest =
  gq_Token :: string
  gq_Name :: string

text \<open>A panic passes through the service and the handler, whatever wrapping the model has put round it.\<close>

fun is_panic :: "err \<Rightarrow> bool" where
  "is_panic (Panic m) = True"
| "is_panic (Wrap m e) = is_panic e"
| "is_panic e = False"

definition BadResponse :: "err \<Rightarrow> 'a gin_call list" where
  "BadResponse e = [C_Error e, C_JSON 400 (BError (err_Error e))]"

definition SuccessResponse :: "'a body \<Rightarrow> 'a gin_call list" where
  "SuccessResponse obj = [C_JSON 200 obj]"

text \<open>
  The shared ends of the handlers: \<open>if err != nil { BadResponse(c, err); return };
  SuccessResponse(c, res)\<close>, and \<open>Response(c, err)\<close>.
\<close>

definition answer :: "('r \<Rightarrow> 'a body) \<Rightarrow> 'r res \<Rightarrow> 'a gin_call list" where
  "answer obj r =
     (case r of
        Inl e \<Rightarrow> if is_panic e then [C_Panic e] else BadResponse e
      | Inr x \<Rightarrow> SuccessResponse (obj x))"

definition Response :: "unit res \<Rightarrow> 'a gin_call list" where
  "Response r =
     (case r of
        Inl e \<Rightarrow> if is_panic e then [C_Panic e] else BadResponse e
      | Inr _ \<Rightarrow> [C_AbortWithStatus 200])"

section \<open>Handlers\<close>

definition app_verify ::
  "('a, 'db) service \<Rightarrow> string \<Rightarrow> 'db world \<Rightarrow> 'db world \<times> (jwt_payload option \<times> err option)" where
  "app_verify srv token w = sv_Verify srv (CtxWithPerm ctx_Background PermRead) token w"

definition DefaultAdminTokenName :: string where
  "DefaultAdminTokenName = ''defaultLocalToken''"

fun admin_token_loop :: "tokenInfo list \<Rightarrow> string option" where
  "admin_token_loop [] = None"
| "admin_token_loop (t # ts) = (if ti_Perm t = PermAdmin then Some (ti_Token t) else admin_token_loop ts)"

definition app_GetDefaultAdminToken ::
  "('a, 'db) service \<Rightarrow> call_env \<Rightarrow> 'db world \<Rightarrow> 'db world \<times> string res" where
  "app_GetDefaultAdminToken srv E w =
     (let adminCtx = CtxWithPerm ctx_Background PermAdmin in
      case sv_GetTokenByName srv adminCtx DefaultAdminTokenName w of
        Inl e \<Rightarrow> (w, Inl e)
      | Inr token \<Rightarrow>
     (case admin_token_loop token of
        Some t \<Rightarrow> (w, Inr t)
      | None \<Rightarrow>
     (case sv_CreateUser srv E adminCtx
             \<lparr>cu_Name = DefaultAdminTokenName, cu_Comment = None, cu_State = UserStateUndefined\<rparr> w of
        (w, Inl e) \<Rightarrow> (w, Inl (Wrap ''create default user for admin token: '' e))
      | (w, Inr _) \<Rightarrow>
     (case sv_GenerateToken srv E adminCtx
             \<lparr>pl_Name = DefaultAdminTokenName, pl_Perm = PermAdmin, pl_Extra = []\<rparr> w of
        (w, Inl e) \<Rightarrow> (w, Inl (Wrap ''create default admin token: '' e))
      | (w, Inr ret) \<Rightarrow> (w, Inr ret)))))"

definition app_Verify ::
  "('a, 'db) service \<Rightarrow> ctx \<Rightarrow> string bound \<Rightarrow> 'db world \<Rightarrow> 'db world \<times> 'a gin_call list" where
  "app_Verify srv c b w =
     (case b of
        (req, Some e) \<Rightarrow> (w, BadResponse e)
      | (req, None) \<Rightarrow>
          (case sv_Verify srv c req w of
             (w, (_, Some e)) \<Rightarrow>
               (w, if e = ErrorNonRegisteredToken \<or> e = ErrorVerificationFailed
                   then [C_Error e, C_JSON 401 (BError (err_Error e))]
                   else if is_panic e then [C_Panic e] else BadResponse e)
           | (w, (None, None)) \<Rightarrow> (w, [C_Panic (Panic ''nil pointer dereference'')])
           | (w, (Some res, None)) \<Rightarrow> (w, C_Set ''name'' (pl_Name res) # SuccessResponse (BPayload res))))"

definition app_GenerateToken ::
  "('a, 'db) service \<Rightarrow> call_env \<Rightarrow> ctx \<Rightarrow> genTokenRequest bound \<Rightarrow> 'db world \<Rightarrow> 'db world \<times> 'a gin_call list" where
  "app_GenerateToken srv E c b w =
     (case b of
        (req, Some e) \<Rightarrow> (w, BadResponse e)
      | (req, None) \<Rightarrow>
          (case sv_GenerateToken srv E c
                  \<lparr>pl_Name = gt_Name req, pl_Perm = gt_Perm req, pl_Extra = gt_Extra req\<rparr> w of
             (w, r) \<Rightarrow> (w, answer BToken r)))"

definition app_RemoveToken ::
  "('a, 'db) service \<Rightarrow> call_env \<Rightarrow> ctx \<Rightarrow> string bound \<Rightarrow> 'db world \<Rightarrow> 'db world \<times> 'a gin_call list" where
  "app_RemoveToken srv E c b w =
     (case b of
        (req, Some e) \<Rightarrow> (w, BadResponse e)
      | (req, None) \<Rightarrow> (case sv_RemoveToken srv E c req w of (w, r) \<Rightarrow> (w, Response r)))"

definition app_RecoverToken ::
  "('a, 'db) service \<Rightarrow> ctx \<Rightarrow> string bound \<Rightarrow> 'db world \<Rightarrow> 'db world \<times> 'a gin_call list" where
  "app_RecoverToken srv c b w =
     (case b of
        (req, Some e) \<Rightarrow> (w, BadResponse e)
      | (req, None) \<Rightarrow> (case sv_RecoverToken srv c req w of (w, r) \<Rightarrow> (w, Response r)))"

definition app_GetToken ::
  "('a, 'db) service \<Rightarrow> ctx \<Rightarrow> getTokenRequest bound \<Rightarrow> 'db world \<Rightarrow> 'a gin_call list" where
  "app_GetToken srv c b w =
     (case b of
        (req, Some e) \<Rightarrow> BadResponse e
      | (req, None) \<Rightarrow>
          if length (gq_Name req) = 0 \<and> length (gq_Token req) = 0
          then BadResponse (Msg ''`name` and `token` both empty'')
          else if length (gq_Token req) > 0
          then answer (\<lambda>info. BTokenInfos [info]) (sv_GetToken srv c (gq_Token req) w)
          else answer BTokenInfos (sv_GetTokenByName srv c (gq_Name req) w))"

text \<open>The embedded page of \<open>GetTokensRequest\<close> is nil when the request has neither \<open>skip\<close> nor \<open>limit\<close>.\<close>

definition app_Tokens ::
  "('a, 'db) service \<Rightarrow> ctx \<Rightarrow> page option bound \<Rightarrow> 'db world \<Rightarrow> 'a gin_call list" where
  "app_Tokens srv c b w =
     (case b of
        (req, Some e) \<Rightarrow> BadResponse e
      | (None, None) \<Rightarrow> [C_Panic (Panic ''nil pointer dereference'')]
      | (Some pg, None) \<Rightarrow>
          (let (skip, pg) = GetSkip pg; (limit, pg) = GetLimit pg in
           answer BTokenInfos (sv_Tokens srv c skip limit w)))"

definition app_CreateUser ::
  "('a, 'db) service \<Rightarrow> call_env \<Rightarrow> ctx \<Rightarrow> createUserRequest bound \<Rightarrow> 'db world \<Rightarrow> 'db world \<times> 'a gin_call list" where
  "app_CreateUser srv E c b w =
     (case b of
        (req, Some e) \<Rightarrow> (w, BadResponse e)
      | (req, None) \<Rightarrow> (case sv_CreateUser srv E c req w of (w, r) \<Rightarrow> (w, answer BUser r)))"

definition app_UpdateUser ::
  "('a, 'db) service \<Rightarrow> call_env \<Rightarrow> ctx \<Rightarrow> updateUserRequest bound \<Rightarrow> 'db world \<Rightarrow> 'db world \<times> 'a gin_call list" where
  "app_UpdateUser srv E c b w =
     (case b of
        (req, Some e) \<Rightarrow> (w, BadResponse e)
      | (req, None) \<Rightarrow> (case sv_UpdateUser srv E c req w of (w, r) \<Rightarrow> (w, Response r)))"

definition app_ListUsers ::
  "('a, 'db) service \<Rightarrow> ctx \<Rightarrow> listUsersRequest bound \<Rightarrow> 'db world \<Rightarrow> 'a gin_call list" where
  "app_ListUsers srv c b w =
     (case b of
        (req, Some e) \<Rightarrow> BadResponse e
      | (req, None) \<Rightarrow> answer BUsers (sv_ListUsers srv c req w))"

definition app_GetUserByMiner ::
  "('a, 'db) service \<Rightarrow> ctx \<Rightarrow> 'a bound \<Rightarrow> 'db world \<Rightarrow> 'a gin_call list" where
  "app_GetUserByMiner srv c b w =
     (case b of
        (req, Some e) \<Rightarrow> BadResponse e
      | (req, None) \<Rightarrow> answer BUser (sv_GetUserByMiner srv c req w))"

definition app_GetUser :: "('a, 'db) service \<Rightarrow> ctx \<Rightarrow> string bound \<Rightarrow> 'db world \<Rightarrow> 'a gin_call list" where
  "app_GetUser srv c b w =
     (case b of
        (req, Some e) \<Rightarrow> BadResponse e
      | (req, None) \<Rightarrow> answer BUser (sv_GetUser srv c req w))"

definition app_VerifyUsers ::
  "('a, 'db) service \<Rightarrow> ctx \<Rightarrow> string list bound \<Rightarrow> 'db world \<Rightarrow> 'a gin_call list" where
  "app_VerifyUsers srv c b w =
     (case b of
        (req, Some e) \<Rightarrow> BadResponse e
      | (req, None) \<Rightarrow> Response (sv_VerifyUsers srv c req w))"

definition app_HasUser :: "('a, 'db) service \<Rightarrow> ctx \<Rightarrow> string bound \<Rightarrow> 'db world \<Rightarrow> 'a gin_call list" where
  "app_HasUser srv c b w =
     (case b of
        (req, Some e) \<Rightarrow> BadResponse e
      | (req, None) \<Rightarrow> answer BBool (sv_HasUser srv c req w))"

definition app_DeleteUser ::
  "('a, 'db) service \<Rightarrow> call_env \<Rightarrow> ctx \<Rightarrow> string bound \<Rightarrow> 'db world \<Rightarrow> 'db world \<times> 'a gin_call list" where
  "app_DeleteUser srv E c b w =
     (case b of
        (req, Some e) \<Rightarrow> (w, BadResponse e)
      | (req, None) \<Rightarrow> (case sv_DeleteUser srv E c req w of (w, r) \<Rightarrow> (w, Response r)))"

definition app_RecoverUser ::
  "('a, 'db) service \<Rightarrow> ctx \<Rightarrow> string bound \<Rightarrow> 'db world \<Rightarrow> 'db world \<times> 'a gin_call list" where
  "app_RecoverUser srv c b w =
     (case b of
        (req, Some e) \<Rightarrow> (w, BadResponse e)
      | (req, None) \<Rightarrow> (case sv_RecoverUser srv c req w of (w, r) \<Rightarrow> (w, Response r)))"

definition app_UpsertUserRateLimit ::
  "('a, 'db) service \<Rightarrow> string \<Rightarrow> ctx \<Rightarrow> user_rate_limit bound \<Rightarrow> 'db world \<Rightarrow> 'db world \<times> 'a gin_call list" where
  "app_UpsertUserRateLimit srv uuid c b w =
     (case b of
        (req, Some e) \<Rightarrow> (w, BadResponse e)
      | (req, None) \<Rightarrow> (case sv_UpsertUserRateLimit srv uuid c req w of (w, r) \<Rightarrow> (w, answer BString r)))"

text \<open>\<open>AddUserRateLimit\<close> does the same; no route leads to it.\<close>

definition app_AddUserRateLimit ::
  "('a, 'db) service \<Rightarrow> string \<Rightarrow> ctx \<Rightarrow> user_rate_limit bound \<Rightarrow> 'db world \<Rightarrow> 'db world \<times> 'a gin_call list" where
  "app_AddUserRateLimit srv uuid c b w =
     (case b of
        (req, Some e) \<Rightarrow> (w, BadResponse e)
      | (req, None) \<Rightarrow> (case sv_UpsertUserRateLimit srv uuid c req w of (w, r) \<Rightarrow> (w, answer BString r)))"

definition app_GetUserRateLimit ::
  "('a, 'db) service \<Rightarrow> ctx \<Rightarrow> getUserRateLimitsReq bound \<Rightarrow> 'db world \<Rightarrow> 'a gin_call list" where
  "app_GetUserRateLimit srv c b w =
     (case b of
        (req, Some e) \<Rightarrow> BadResponse e
      | (req, None) \<Rightarrow> answer BRateLimits (sv_GetUserRateLimits srv c req w))"

definition app_DelUserRateLimit ::
  "('a, 'db) service \<Rightarrow> ctx \<Rightarrow> delUserRateLimitReq bound \<Rightarrow> 'db world \<Rightarrow> 'db world \<times> 'a gin_call list" where
  "app_DelUserRateLimit srv c b w =
     (case b of
        (req, Some e) \<Rightarrow> (w, BadResponse e)
      | (req, None) \<Rightarrow>
          (case sv_DelUserRateLimit srv c req w of (w, r) \<Rightarrow> (w, answer (\<lambda>_. BString (dr_Id req)) r)))"

definition app_UpsertMiner ::
  "('a, 'db) service \<Rightarrow> call_env \<Rightarrow> ctx \<Rightarrow> 'a upsertMinerReq bound \<Rightarrow> 'db world \<Rightarrow> 'db world \<times> 'a gin_call list" where
  "app_UpsertMiner srv E c b w =
     (case b of
        (req, Some e) \<Rightarrow> (w, BadResponse e)
      | (req, None) \<Rightarrow> (case sv_UpsertMiner srv E c req w of (w, r) \<Rightarrow> (w, answer BBool r)))"

definition app_HasMiner :: "('a, 'db) service \<Rightarrow> ctx \<Rightarrow> 'a bound \<Rightarrow> 'db world \<Rightarrow> 'a gin_call list" where
  "app_HasMiner srv c b w =
     (case b of
        (req, Some e) \<Rightarrow> BadResponse e
      | (req, None) \<Rightarrow> answer BBool (sv_HasMiner srv c req w))"

definition app_MinerExistInUser ::
  "('a, 'db) service \<Rightarrow> ctx \<Rightarrow> 'a minerExistInUserRequest bound \<Rightarrow> 'db world \<Rightarrow> 'a gin_call list" where
  "app_MinerExistInUser srv c b w =
     (case b of
        (req, Some e) \<Rightarrow> BadResponse e
      | (req, None) \<Rightarrow> answer BBool (sv_MinerExistInUser srv c req w))"

definition app_ListMiners :: "('a, 'db) service \<Rightarrow> ctx \<Rightarrow> string bound \<Rightarrow> 'db world \<Rightarrow> 'a gin_call list" where
  "app_ListMiners srv c b w =
     (case b of
        (req, Some e) \<Rightarrow> BadResponse e
      | (req, None) \<Rightarrow> answer BMiners (sv_ListMiners srv c req w))"

text \<open>
  \<open>DeleteMiner\<close>, \<open>HasSigner\<close> and \<open>DelSigner\<close> do not return after a failed binding: they answer with
  the error and go on with the request struct as it is.
\<close>

definition bind_answer :: "err option \<Rightarrow> 'a gin_call list" where
  "bind_answer e = (case e of None \<Rightarrow> [] | Some e \<Rightarrow> BadResponse e)"

definition app_DeleteMiner ::
  "('a, 'db) service \<Rightarrow> call_env \<Rightarrow> ctx \<Rightarrow> 'a bound \<Rightarrow> 'db world \<Rightarrow> 'db world \<times> 'a gin_call list" where
  "app_DeleteMiner srv E c b w =
     (case sv_DelMiner srv E c (fst b) w of (w, r) \<Rightarrow> (w, bind_answer (snd b) @ answer BBool r))"

definition app_RegisterSigners ::
  "('a, 'db) service \<Rightarrow> call_env \<Rightarrow> ctx \<Rightarrow> 'a signersReq bound \<Rightarrow> 'db world \<Rightarrow> 'db world \<times> 'a gin_call list" where
  "app_RegisterSigners srv E c b w =
     (case b of
        (req, Some e) \<Rightarrow> (w, BadResponse e)
      | (req, None) \<Rightarrow> (case sv_RegisterSigners srv E c req w of (w, r) \<Rightarrow> (w, Response r)))"

definition app_SignerExistInUser ::
  "('a, 'db) service \<Rightarrow> ctx \<Rightarrow> 'a signerExistInUserReq bound \<Rightarrow> 'db world \<Rightarrow> 'a gin_call list" where
  "app_SignerExistInUser srv c b w =
     (case b of
        (req, Some e) \<Rightarrow> BadResponse e
      | (req, None) \<Rightarrow> answer BBool (sv_SignerExistInUser srv c req w))"

definition app_ListSigner :: "('a, 'db) service \<Rightarrow> ctx \<Rightarrow> string bound \<Rightarrow> 'db world \<Rightarrow> 'a gin_call list" where
  "app_ListSigner srv c b w =
     (case b of
        (req, Some e) \<Rightarrow> BadResponse e
      | (req, None) \<Rightarrow> answer BSigners (sv_ListSigner srv c req w))"

definition app_UnregisterSigners ::
  "('a, 'db) service \<Rightarrow> call_env \<Rightarrow> ctx \<Rightarrow> 'a signersReq bound \<Rightarrow> 'db world \<Rightarrow> 'db world \<times> 'a gin_call list" where
  "app_UnregisterSigners srv E c b w =
     (case b of
        (req, Some e) \<Rightarrow> (w, BadResponse e)
      | (req, None) \<Rightarrow> (case sv_UnregisterSigners srv E c req w of (w, r) \<Rightarrow> (w, Response r)))"

definition app_HasSigner :: "('a, 'db) service \<Rightarrow> ctx \<Rightarrow> 'a bound \<Rightarrow> 'db world \<Rightarrow> 'a gin_call list" where
  "app_HasSigner srv c b w = bind_answer (snd b) @ answer BBool (sv_HasSigner srv c (fst b) w)"

definition app_DelSigner ::
  "('a, 'db) service \<Rightarrow> call_env \<Rightarrow> ctx \<Rightarrow> 'a bound \<Rightarrow> 'db world \<Rightarrow> 'db world \<times> 'a gin_call list" where
  "app_DelSigner srv E c b w =
     (case sv_DelSigner srv E c (fst b) w of (w, r) \<Rightarrow> (w, bind_answer (snd b) @ answer BBool r))"

definition app_GetUserBySigner :: "('a, 'db) service \<Rightarrow> ctx \<Rightarrow> 'a bound \<Rightarrow> 'db world \<Rightarrow> 'a gin_call list" where
  "app_GetUserBySigner srv c b w =
     (case b of
        (req, Some e) \<Rightarrow> BadResponse e
      | (req, None) \<Rightarrow> answer BUsers (sv_GetUserBySigner srv c req w))"

end
