(* ===== verification/Route.thy ===== *)
theory Route
  imports App
begin

text \<open>
  The routes (auth/route.go, \<open>InitRouter\<close>), the middleware that turns the token of a request into
  the permissions of its context (\<open>permMiddleWare\<close>), and the requests as steps of the system.
  Proved: what a request without a valid token, or with one that is not an administrator's, can
  do; and the invariants of every state that requests can reach.
\<close>

section \<open>The middleware\<close>

text \<open>
  What the middleware reads of a request: the header \<open>Authorization\<close> (empty when missing), the
  form value \<open>token\<close>, and the context of the request.
\<close>

record http_request =
  rq_Authorization :: string
  rq_FormToken :: string
  rq_ctx :: ctx

definition bearer_token :: "'z http_request_scheme \<Rightarrow> string option" where
  "bearer_token rq =
     (let token = rq_Authorization rq;
          token = (if token = [] then
                     (let token = rq_FormToken rq in if token \<noteq> [] then ''Bearer '' @ token else token)
                   else token)
      in if \<not> prefix ''Bearer '' token then None else Some (drop (length ''Bearer '') token))"

definition permMiddleWare ::
  "('a, 'db) service \<Rightarrow> http_request \<Rightarrow> 'db world \<Rightarrow> 'db world \<times> ctx \<times> 'a gin_call list" where
  "permMiddleWare srv rq w =
     (case bearer_token rq of
        None \<Rightarrow> (w, rq_ctx rq, [C_WriteHeader 401])
      | Some token \<Rightarrow>
          (case app_verify srv token w of
             (w, (_, Some e)) \<Rightarrow> (w, rq_ctx rq, [C_WriteHeader 401])
           | (w, (None, None)) \<Rightarrow> (w, rq_ctx rq, [C_Panic (Panic ''nil pointer dereference'')])
           | (w, (Some jwtPayload, None)) \<Rightarrow>
               (let reqCtx = CtxWithPerm (rq_ctx rq) (pl_Perm jwtPayload);
                    reqCtx = (if length (pl_Name jwtPayload) \<noteq> 0
                              then CtxWithName reqCtx (pl_Name jwtPayload) else reqCtx)
                in (w, reqCtx, [C_Next]))))"

section \<open>The routes\<close>

text \<open>A request to one of the handlers, with the result of binding it.\<close>

datatype 'a request =
    RHealthcheck
  | RVersion
  | RVerify "string bound"
  | RGenerateToken "genTokenRequest bound"
  | RGetToken "getTokenRequest bound"
  | RTokens "page option bound"
  | RRemoveToken "string bound"
  | RRecoverToken "string bound"
  | RCreateUser "createUserRequest bound"
  | RUpdateUser "updateUserRequest bound"
  | RListUsers "listUsersRequest bound"
  | RGetUser "string bound"
  | RVerifyUsers "string list bound"
  | RHasUser "string bound"
  | RDeleteUser "string bound"
  | RRecoverUser "string bound"
  | RUpsertUserRateLimit "user_rate_limit bound"
  | RDelUserRateLimit "delUserRateLimitReq bound"
  | RGetUserRateLimit "getUserRateLimitsReq bound"
  | RGetUserByMiner "'a bound"
  | RHasMiner "'a bound"
  | RListMiners "string bound"
  | RUpsertMiner "'a upsertMinerReq bound"
  | RDeleteMiner "'a bound"
  | RMinerExistInUser "'a minerExistInUserRequest bound"
  | RGetUserBySigner "'a bound"
  | RRegisterSigners "'a signersReq bound"
  | RSignerExistInUser "'a signerExistInUserReq bound"
  | RListSigner "string bound"
  | RUnregisterSigners "'a signersReq bound"
  | RHasSigner "'a bound"
  | RDelSigner "'a bound"

text \<open>The table of \<open>InitRouter\<close>: method, path, and the handler it registers.\<close>

datatype handler =
    H_healthcheck | H_version | H_Verify | H_GenerateToken | H_GetToken | H_Tokens | H_RemoveToken
  | H_RecoverToken | H_CreateUser | H_UpdateUser | H_ListUsers | H_GetUser | H_VerifyUsers
  | H_HasUser | H_DeleteUser | H_RecoverUser | H_UpsertUserRateLimit | H_DelUserRateLimit
  | H_GetUserRateLimit | H_GetUserByMiner | H_HasMiner | H_ListMiners | H_UpsertMiner
  | H_DeleteMiner | H_MinerExistInUser | H_GetUserBySigner | H_RegisterSigners
  | H_SignerExistInUser | H_ListSigner | H_UnregisterSigners | H_HasSigner | H_DelSigner

definition group :: "string \<Rightarrow> (string \<times> string \<times> handler) list \<Rightarrow> (string \<times> string \<times> handler) list" where
  "group p rs = map (\<lambda>(m, q, h). (m, p @ q, h)) rs"

definition routes :: "(string \<times> string \<times> handler) list" where
  "routes =
     [(''GET'', ''/healthcheck'', H_healthcheck), (''GET'', ''/version'', H_version),
      (''POST'', ''/verify'', H_Verify), (''POST'', ''/genToken'', H_GenerateToken),
      (''GET'', ''/token'', H_GetToken), (''GET'', ''/tokens'', H_Tokens),
      (''DELETE'', ''/token'', H_RemoveToken), (''POST'', ''/recoverToken'', H_RecoverToken)] @
     group ''/user''
       ([(''PUT'', ''/new'', H_CreateUser), (''POST'', ''/update'', H_UpdateUser),
         (''GET'', ''/list'', H_ListUsers), (''GET'', '''', H_GetUser), (''POST'', ''/verify'', H_VerifyUsers),
         (''GET'', ''/has'', H_HasUser), (''POST'', ''/del'', H_DeleteUser),
         (''POST'', ''/recover'', H_RecoverUser)] @
        group ''/ratelimit''
          [(''POST'', ''/upsert'', H_UpsertUserRateLimit), (''POST'', ''/del'', H_DelUserRateLimit),
           (''GET'', '''', H_GetUserRateLimit)]) @
     group ''/miner''
       [(''GET'', '''', H_GetUserByMiner), (''GET'', ''/has-miner'', H_HasMiner),
        (''GET'', ''/list-by-user'', H_ListMiners), (''POST'', ''/add-miner'', H_UpsertMiner),
        (''POST'', ''/del'', H_DeleteMiner), (''GET'', ''/has'', H_HasMiner)] @
     group ''/user''
       (group ''/miner''
          [(''GET'', '''', H_GetUserByMiner), (''POST'', ''/add'', H_UpsertMiner),
           (''GET'', ''/exist'', H_MinerExistInUser), (''GET'', ''/list'', H_ListMiners),
           (''POST'', ''/del'', H_DeleteMiner)] @
        group ''/signer''
          [(''GET'', '''', H_GetUserBySigner), (''POST'', ''/register'', H_RegisterSigners),
           (''GET'', ''/exist'', H_SignerExistInUser), (''GET'', ''/list'', H_ListSigner),
           (''POST'', ''/unregister'', H_UnregisterSigners)]) @
     group ''/signer'' [(''GET'', ''/has'', H_HasSigner), (''POST'', ''/del'', H_DelSigner)]"

definition route :: "string \<Rightarrow> string \<Rightarrow> handler option" where
  "route method path = map_of (map (\<lambda>(m, q, h). ((m, q), h)) routes) (method, path)"

fun handler_of :: "'a request \<Rightarrow> handler" where
  "handler_of RHealthcheck = H_healthcheck"
| "handler_of RVersion = H_version"
| "handler_of (RVerify b) = H_Verify"
| "handler_of (RGenerateToken b) = H_GenerateToken"
| "handler_of (RGetToken b) = H_GetToken"
| "handler_of (RTokens b) = H_Tokens"
| "handler_of (RRemoveToken b) = H_RemoveToken"
| "handler_of (RRecoverToken b) = H_RecoverToken"
| "handler_of (RCreateUser b) = H_CreateUser"
| "handler_of (RUpdateUser b) = H_UpdateUser"
| "handler_of (RListUsers b) = H_ListUsers"
| "handler_of (RGetUser b) = H_GetUser"
| "handler_of (RVerifyUsers b) = H_VerifyUsers"
| "handler_of (RHasUser b) = H_HasUser"
| "handler_of (RDeleteUser b) = H_DeleteUser"
| "handler_of (RRecoverUser b) = H_RecoverUser"
| "handler_of (RUpsertUserRateLimit b) = H_UpsertUserRateLimit"
| "handler_of (RDelUserRateLimit b) = H_DelUserRateLimit"
| "handler_of (RGetUserRateLimit b) = H_GetUserRateLimit"
| "handler_of (RGetUserByMiner b) = H_GetUserByMiner"
| "handler_of (RHasMiner b) = H_HasMiner"
| "handler_of (RListMiners b) = H_ListMiners"
| "handler_of (RUpsertMiner b) = H_UpsertMiner"
| "handler_of (RDeleteMiner b) = H_DeleteMiner"
| "handler_of (RMinerExistInUser b) = H_MinerExistInUser"
| "handler_of (RGetUserBySigner b) = H_GetUserBySigner"
| "handler_of (RRegisterSigners b) = H_RegisterSigners"
| "handler_of (RSignerExistInUser b) = H_SignerExistInUser"
| "handler_of (RListSigner b) = H_ListSigner"
| "handler_of (RUnregisterSigners b) = H_UnregisterSigners"
| "handler_of (RHasSigner b) = H_HasSigner"
| "handler_of (RDelSigner b) = H_DelSigner"

text \<open>\<open>core.Version\<close> is set by the build; the health check is a library's handler.\<close>

fun handle ::
  "('a, 'db) service \<Rightarrow> string \<Rightarrow> call_env \<Rightarrow> ctx \<Rightarrow> 'a request \<Rightarrow> 'db world \<Rightarrow> 'db world \<times> 'a gin_call list" where
  "handle srv ver E c RHealthcheck w = (w, [C_HealthHandler])"
| "handle srv ver E c RVersion w = (w, [C_JSON 200 (BVersion ver)])"
| "handle srv ver E c (RVerify b) w = app_Verify srv c b w"
| "handle srv ver E c (RGenerateToken b) w = app_GenerateToken srv E c b w"
| "handle srv ver E c (RGetToken b) w = (w, app_GetToken srv c b w)"
| "handle srv ver E c (RTokens b) w = (w, app_Tokens srv c b w)"
| "handle srv ver E c (RRemoveToken b) w = app_RemoveToken srv E c b w"
| "handle srv ver E c (RRecoverToken b) w = app_RecoverToken srv c b w"
| "handle srv ver E c (RCreateUser b) w = app_CreateUser srv E c b w"
| "handle srv ver E c (RUpdateUser b) w = app_UpdateUser srv E c b w"
| "handle srv ver E c (RListUsers b) w = (w, app_ListUsers srv c b w)"
| "handle srv ver E c (RGetUser b) w = (w, app_GetUser srv c b w)"
| "handle srv ver E c (RVerifyUsers b) w = (w, app_VerifyUsers srv c b w)"
| "handle srv ver E c (RHasUser b) w = (w, app_HasUser srv c b w)"
| "handle srv ver E c (RDeleteUser b) w = app_DeleteUser srv E c b w"
| "handle srv ver E c (RRecoverUser b) w = app_RecoverUser srv c b w"
| "handle srv ver E c (RUpsertUserRateLimit b) w = app_UpsertUserRateLimit srv (ce_limit_id E) c b w"
| "handle srv ver E c (RDelUserRateLimit b) w = app_DelUserRateLimit srv c b w"
| "handle srv ver E c (RGetUserRateLimit b) w = (w, app_GetUserRateLimit srv c b w)"
| "handle srv ver E c (RGetUserByMiner b) w = (w, app_GetUserByMiner srv c b w)"
| "handle srv ver E c (RHasMiner b) w = (w, app_HasMiner srv c b w)"
| "handle srv ver E c (RListMiners b) w = (w, app_ListMiners srv c b w)"
| "handle srv ver E c (RUpsertMiner b) w = app_UpsertMiner srv E c b w"
| "handle srv ver E c (RDeleteMiner b) w = app_DeleteMiner srv E c b w"
| "handle srv ver E c (RMinerExistInUser b) w = (w, app_MinerExistInUser srv c b w)"
| "handle srv ver E c (RGetUserBySigner b) w = (w, app_GetUserBySigner srv c b w)"
| "handle srv ver E c (RRegisterSigners b) w = app_RegisterSigners srv E c b w"
| "handle srv ver E c (RSignerExistInUser b) w = (w, app_SignerExistInUser srv c b w)"
| "handle srv ver E c (RListSigner b) w = (w, app_ListSigner srv c b w)"
| "handle srv ver E c (RUnregisterSigners b) w = app_UnregisterSigners srv E c b w"
| "handle srv ver E c (RHasSigner b) w = (w, app_HasSigner srv c b w)"
| "handle srv ver E c (RDelSigner b) w = app_DelSigner srv E c b w"

section \<open>Serving a request\<close>

text \<open>
  The middleware runs first. Whether gin goes on to the handler when the middleware has returned
  without calling \<open>Next\<close> is gin's: the parameter \<open>go_on\<close> (gin goes on unless a handler has called
  an \<open>Abort\<close> method, and the middleware calls none).
\<close>

definition serve ::
  "('a, 'db) service \<Rightarrow> string \<Rightarrow> bool \<Rightarrow> call_env \<Rightarrow> http_request \<Rightarrow> 'a request \<Rightarrow> 'db world \<Rightarrow>
     'db world \<times> 'a gin_call list" where
  "serve srv ver go_on E rq req w =
     (case permMiddleWare srv rq w of
        (w, c, calls) \<Rightarrow>
          if C_Next \<in> set calls \<or> C_WriteHeader 401 \<in> set calls \<and> go_on
          then (case handle srv ver E c req w of (w, calls') \<Rightarrow> (w, calls @ calls'))
          else (w, calls))"

section \<open>Who can do what\<close>

text \<open>An answer that says the operation has been carried out.\<close>

fun is_success :: "'a gin_call \<Rightarrow> bool" where
  "is_success (C_JSON n obj) = (n = 200)"
| "is_success (C_AbortWithStatus n) = (n = 200)"
| "is_success call = False"

lemma no_success [simp]:
  "\<not> list_ex is_success (BadResponse e)" "\<not> list_ex is_success (answer obj (Inl e))"
  "\<not> list_ex is_success (Response (Inl e))" "\<not> list_ex is_success (bind_answer eo)"
  by (auto simp: BadResponse_def answer_def Response_def bind_answer_def split: option.splits)

lemmas admin_guards = sv_GenerateToken_def sv_GetToken_def sv_Tokens_def sv_CreateUser_def
  sv_UpdateUser_def sv_VerifyUsers_def sv_ListUsers_def sv_HasUser_def sv_DeleteUser_def
  sv_RecoverUser_def sv_GetUserByMiner_def sv_GetUserBySigner_def sv_GetUserRateLimits_def
  sv_UpsertUserRateLimit_def sv_DelUserRateLimit_def sv_UpsertMiner_def sv_HasMiner_def
  sv_RegisterSigners_def sv_UnregisterSigners_def sv_HasSigner_def

lemmas user_guards = sv_GetTokenByName_def sv_GetUser_def sv_MinerExistInUser_def
  sv_ListMiners_def sv_SignerExistInUser_def sv_ListSigner_def

lemmas app_defs = app_GenerateToken_def app_GetToken_def app_Tokens_def
  app_RemoveToken_def app_RecoverToken_def app_CreateUser_def app_UpdateUser_def app_ListUsers_def
  app_GetUser_def app_VerifyUsers_def app_HasUser_def app_DeleteUser_def app_RecoverUser_def
  app_UpsertUserRateLimit_def app_DelUserRateLimit_def app_GetUserRateLimit_def
  app_GetUserByMiner_def app_HasMiner_def app_ListMiners_def app_UpsertMiner_def
  app_DeleteMiner_def app_MinerExistInUser_def app_GetUserBySigner_def app_RegisterSigners_def
  app_SignerExistInUser_def app_ListSigner_def app_UnregisterSigners_def app_HasSigner_def
  app_DelSigner_def

text \<open>A context without a name and without permissions, as the middleware leaves it.\<close>

lemma anonymous_checks:
  assumes "CtxGetPerm c = None" and "CtxGetName c = None"
  shows "permCheck c p = Inl ErrorPermissionNotFound" "userPermCheck c n = Inl ErrorUsernameNotFound"
    "\<exists>e. tokenPermCheck J c t = Inl e" "ownerOfMinerCheck c f a = Inl ErrorUsernameNotFound"
    "ownerOfSignerCheck c f a = Inl ErrorUsernameNotFound"
  using assms by (auto simp: permCheck_def userPermCheck_def tokenPermCheck_def ownerOfMinerCheck_def
      ownerOfSignerCheck_def split: sum.split)

lemma Verify_db [simp]: "w_db (fst (sv_Verify srv c token w)) = w_db w"
  by (simp add: sv_Verify_def case_prod_beta)

lemma Verify_db_eq: "sv_Verify srv c token w = (w', r) \<Longrightarrow> w_db w' = w_db w"
  using Verify_db [of srv c token w] by simp

lemma Verify_anonymous:
  assumes "CtxGetPerm c = None"
  obtains w' p e where "sv_Verify srv c token w = (w', p, Some e)" "w_db w' = w_db w"
proof -
  have "snd (Verify_body srv c token (w_db w)) \<noteq> None"
    using assms by (auto simp: Verify_body_def permCheck_def split: prod.split option.split)
  then obtain p e where "Verify_body srv c token (w_db w) = (p, Some e)" by (cases "Verify_body srv c token (w_db w)") auto
  then show thesis
    by (intro that [of "fst (sv_Verify srv c token w)" p e]) (simp_all add: sv_Verify_def)
qed

lemma handle_anonymous:
  assumes "CtxGetPerm c = None" and "CtxGetName c = None"
    and "handler_of req \<noteq> H_healthcheck" "handler_of req \<noteq> H_version"
  shows "w_db (fst (handle srv ver E c req w)) = w_db w"
    and "\<not> list_ex is_success (snd (handle srv ver E c req w))"
proof -
  note checks = anonymous_checks [OF assms(1,2)]
  obtain te where te: "\<And>J t. tokenPermCheck J c t = Inl (te J t)" using checks(3) by metis
  have "w_db (fst (handle srv ver E c req w)) = w_db w \<and>
      \<not> list_ex is_success (snd (handle srv ver E c req w))"
  proof (cases req)
    case (RVerify b)
    show ?thesis
      by (rule Verify_anonymous [OF assms(1), of srv "fst b" w])
        (cases b; cases "snd b"; auto simp: RVerify app_Verify_def BadResponse_def split: option.split)
  qed (use assms(3,4) in \<open>simp_all add: app_defs admin_guards user_guards sv_RemoveToken_def
      sv_RecoverToken_def sv_DelMiner_def sv_DelSigner_def checks te
      split: prod.split option.split\<close>)
  then show "w_db (fst (handle srv ver E c req w)) = w_db w"
    "\<not> list_ex is_success (snd (handle srv ver E c req w))" by simp_all
qed

text \<open>
  What a caller that is no administrator can change: a token of the caller's own name, a miner the
  caller owns, a signer the caller has registered.
\<close>

fun owns_target :: "jwt_lib \<Rightarrow> 'a astore \<Rightarrow> string \<Rightarrow> 'a request \<Rightarrow> bool" where
  "owns_target J st n (RRemoveToken b) = (JwtUserFromToken J (fst b) = Inr n)"
| "owns_target J st n (RRecoverToken b) = (JwtUserFromToken J (fst b) = Inr n)"
| "owns_target J st n (RDeleteMiner b) = (a_owner st (fst b) = Some n)"
| "owns_target J st n (RDelSigner b) = (a_signer st (fst b) n \<noteq> None)"
| "owns_target J st n req = False"

text \<open>
  The requests that the proofs of the invariants admit, by what gin's binding delivers: the strings of a
  JSON body are valid UTF-8 (the decoder replaces bytes that are not), which is required of the
  payload of a token; and the binding refuses an \<open>UpsertMinerReq\<close> without \<open>OpenMining\<close>, which is
  marked as required.
\<close>

fun valid_request :: "'a request \<Rightarrow> bool" where
  "valid_request (RGenerateToken b) =
     utf8_payload \<lparr>pl_Name = gt_Name (fst b), pl_Perm = gt_Perm (fst b), pl_Extra = gt_Extra (fst b)\<rparr>"
| "valid_request (RUpsertMiner b) = (snd b = None \<longrightarrow> um_OpenMining (fst b) \<noteq> None)"
| "valid_request req = True"

text \<open>What holds of the stored data while the system runs.\<close>

definition data_ok :: "jwt_lib \<Rightarrow> 'a astore \<Rightarrow> bool" where
  "data_ok J st \<longleftrightarrow> tokens_ok J st \<and> miners_open st"

lemma data_ok_other:
  "data_ok J (st\<lparr>as_user := f\<rparr>) = data_ok J st" "data_ok J (st\<lparr>as_limit := g\<rparr>) = data_ok J st"
  "data_ok J (st\<lparr>as_signer := h\<rparr>) = data_ok J st"
  by (simp_all add: data_ok_def tokens_ok_def miners_open_def)

lemma del_miner_open [simp]: "mn_OpenMining (del_miner now m) = mn_OpenMining m"
  by (simp add: del_miner_def Miner_setDeleted_def)

lemma data_okI:
  assumes "data_ok J st"
    and "\<And>t kp. tokens_ok J st \<Longrightarrow> as_token st' t = Some kp \<Longrightarrow> signed_token J kp"
    and "\<And>a m. as_miner st' a = Some m \<Longrightarrow>
      mn_OpenMining m \<noteq> None \<or> (\<exists>m'. as_miner st a = Some m' \<and> mn_OpenMining m = mn_OpenMining m')"
  shows "data_ok J st'"
  using assms unfolding data_ok_def tokens_ok_def miners_open_def by metis

lemma del_miner_if: "mn_OpenMining (if P then del_miner now m else m) = mn_OpenMining m"
  by simp

lemma spec_Delete_data: "data_ok J st \<Longrightarrow> spec_Delete t st = Some (st', x) \<Longrightarrow> data_ok J st'"
  by (erule data_okI) (auto simp: tokens_ok_def spec_Delete_def live_Some split: if_splits)

lemma spec_Recover_data: "data_ok J st \<Longrightarrow> spec_Recover t st = Some (st', x) \<Longrightarrow> data_ok J st'"
  by (erule data_okI) (auto simp: tokens_ok_def spec_Recover_def split: if_splits option.splits)

lemma spec_DeleteUser_data: "data_ok J st \<Longrightarrow> spec_DeleteUser now n st = Some (st', x) \<Longrightarrow> data_ok J st'"
  by (erule data_okI) (auto simp: tokens_ok_def spec_DeleteUser_def del_miner_if)

lemma spec_RecoverUser_data: "data_ok J st \<Longrightarrow> spec_RecoverUser n st = Some (st', x) \<Longrightarrow> data_ok J st'"
  by (auto simp: tokens_ok_def spec_RecoverUser_def data_ok_other split: option.splits if_splits)

lemma spec_UpsertMiner_data:
  "data_ok J st \<Longrightarrow> om \<noteq> None \<Longrightarrow> spec_UpsertMiner now a n om st = Some (st', x) \<Longrightarrow> data_ok J st'"
  by (erule data_okI) (auto simp: tokens_ok_def spec_UpsertMiner_def bind_miner_def split: if_splits)

lemma spec_DelMiner_data: "data_ok J st \<Longrightarrow> spec_DelMiner now a st = Some (st', x) \<Longrightarrow> data_ok J st'"
  by (erule data_okI) (auto simp: tokens_ok_def spec_DelMiner_def Miner_setDeleted_def split: if_splits option.splits)

lemma spec_DelSigner_data: "data_ok J st \<Longrightarrow> spec_DelSigner now P st = Some (st', x) \<Longrightarrow> data_ok J st'"
  by (auto simp: tokens_ok_def spec_DelSigner_def data_ok_other)

lemma spec_PutRateLimit_data: "data_ok J st \<Longrightarrow> spec_PutRateLimit uuid l st = Some (st', x) \<Longrightarrow> data_ok J st'"
  by (auto simp: spec_PutRateLimit_def data_ok_other Let_def)

lemma spec_loops_keep_data:
  "data_ok J (fst (spec_RegisterSigners ok now n as st)) = data_ok J st"
  "data_ok J (fst (spec_UnregisterSigners ok now n as st)) = data_ok J st"
proof -
  show "data_ok J (fst (spec_RegisterSigners ok now n as st)) = data_ok J st"
    by (induction ok now n as st rule: spec_RegisterSigners.induct)
      (auto simp: spec_RegisterSigner_def data_ok_other split: option.split)
  show "data_ok J (fst (spec_UnregisterSigners ok now n as st)) = data_ok J st"
    by (induction ok now n as st rule: spec_UnregisterSigners.induct)
      (auto simp: spec_UnregisterSigner_def data_ok_other split: option.split)
qed

lemma refines_keeps:
  assumes "refines I view st p spec" and "P st" and "\<And>st' r. spec = Some (st', r) \<Longrightarrow> P st'"
  shows "I (fst p) \<and> P (view (fst p))"
  using assms by (auto simp: refines_def split: option.splits)

definition sys_ok :: "('db \<Rightarrow> bool) \<Rightarrow> ('db \<Rightarrow> 'a astore) \<Rightarrow> jwt_lib \<Rightarrow> 'db \<Rightarrow> bool" where
  "sys_ok I view J s \<longleftrightarrow> I s \<and> data_ok J (view s)"

lemma sys_okD:
  assumes "sys_ok I view J s"
  shows "I s" "data_ok J (view s)" "tokens_ok J (view s)" "miners_open (view s)"
  using assms by (simp_all add: sys_ok_def data_ok_def)

lemma sys_ok_refines:
  assumes "refines I view (view s) p spec" and "sys_ok I view J s"
    and "\<And>st' r. spec = Some (st', r) \<Longrightarrow> data_ok J st'"
  shows "sys_ok I view J (fst p)"
  using refines_keeps [of I view "view s" p spec "data_ok J"] assms by (auto simp: sys_ok_def)

text \<open>
  What an operation asks of a method that changes the store, for the data to stay well-formed. Both
  stores provide it, the badger store as a consequence of its contract.
\<close>

locale service_safe = service_reads srv I view
  for srv :: "('a, 'db) service" and I :: "'db \<Rightarrow> bool" and view :: "'db \<Rightarrow> 'a astore" +
  assumes Put_safe: "sys_ok I view (sv_jwt srv) s \<Longrightarrow> signed_token (sv_jwt srv) kp \<Longrightarrow> kp_IsDeleted kp = NotDelete \<Longrightarrow>
      sys_ok I view (sv_jwt srv) (fst (st_Put (sv_store srv) kp s))"
    and Delete_safe: "sys_ok I view (sv_jwt srv) s \<Longrightarrow> sys_ok I view (sv_jwt srv) (fst (st_Delete (sv_store srv) now t s))"
    and Recover_safe: "sys_ok I view (sv_jwt srv) s \<Longrightarrow> sys_ok I view (sv_jwt srv) (fst (st_Recover (sv_store srv) t s))"
    and PutUser_safe: "sys_ok I view (sv_jwt srv) s \<Longrightarrow> usr_IsDeleted u = NotDelete \<Longrightarrow>
      sys_ok I view (sv_jwt srv) (fst (st_PutUser (sv_store srv) u s))"
    and UpdateUser_safe: "sys_ok I view (sv_jwt srv) s \<Longrightarrow> a_user (view s) (usr_Name u) = Some u0 \<Longrightarrow>
      usr_Id u = usr_Id u0 \<Longrightarrow> usr_IsDeleted u = usr_IsDeleted u0 \<Longrightarrow>
      sys_ok I view (sv_jwt srv) (fst (st_UpdateUser (sv_store srv) u s))"
    and DeleteUser_safe: "sys_ok I view (sv_jwt srv) s \<Longrightarrow> sys_ok I view (sv_jwt srv) (fst (st_DeleteUser (sv_store srv) now n s))"
    and RecoverUser_safe: "sys_ok I view (sv_jwt srv) s \<Longrightarrow> sys_ok I view (sv_jwt srv) (fst (st_RecoverUser (sv_store srv) n s))"
    and PutRateLimit_safe: "sys_ok I view (sv_jwt srv) s \<Longrightarrow>
      sys_ok I view (sv_jwt srv) (fst (st_PutRateLimit (sv_store srv) uuid l s))"
    and DelRateLimit_safe: "sys_ok I view (sv_jwt srv) s \<Longrightarrow>
      sys_ok I view (sv_jwt srv) (fst (st_DelRateLimit (sv_store srv) n i s))"
    and UpsertMiner_safe: "sys_ok I view (sv_jwt srv) s \<Longrightarrow> om \<noteq> None \<Longrightarrow>
      sys_ok I view (sv_jwt srv) (fst (st_UpsertMiner (sv_store srv) now a n om s))"
    and DelMiner_safe: "sys_ok I view (sv_jwt srv) s \<Longrightarrow> sys_ok I view (sv_jwt srv) (fst (st_DelMiner (sv_store srv) now a s))"
    and RegisterSigner_safe: "sys_ok I view (sv_jwt srv) s \<Longrightarrow> IsSignerAddress (sv_addr srv) a \<Longrightarrow>
      sys_ok I view (sv_jwt srv) (fst (st_RegisterSigner (sv_store srv) now a n s))"
    and UnregisterSigner_safe: "sys_ok I view (sv_jwt srv) s \<Longrightarrow>
      sys_ok I view (sv_jwt srv) (fst (st_UnregisterSigner (sv_store srv) now a n s))"
    and DelSigner_safe: "sys_ok I view (sv_jwt srv) s \<Longrightarrow> sys_ok I view (sv_jwt srv) (fst (st_DelSigner (sv_store srv) now a s))"
begin

text \<open>Each operation of the service keeps the data well-formed, whether it succeeds or not.\<close>

lemma GenerateToken_keeps:
  assumes "sys_ok I view (sv_jwt srv) (w_db w)" and "utf8_payload pl"
  shows "sys_ok I view (sv_jwt srv) (w_db (fst (sv_GenerateToken srv E c pl w)))"
proof -
  let ?kp = "\<lambda>secret tk. \<lparr>kp_Name = pl_Name pl, kp_Perm = pl_Perm pl, kp_Secret = hex_EncodeToString secret,
           kp_Extra = pl_Extra pl, kp_Token = tk, kp_CreateTime = ce_now E, kp_IsDeleted = NotDelete\<rparr>"
  have "w_db (fst (sv_GenerateToken srv E c pl w)) = w_db w \<or>
      (\<exists>secret tk. jwt_Sign (sv_jwt srv) pl secret = Inr tk \<and>
         w_db (fst (sv_GenerateToken srv E c pl w)) = fst (st_Put (sv_store srv) (?kp secret tk) (w_db w)))"
    by (auto simp: sv_GenerateToken_def case_prod_beta split: sum.split)
  moreover have "signed_token (sv_jwt srv) (?kp secret tk)" if "jwt_Sign (sv_jwt srv) pl secret = Inr tk" for secret tk
  proof -
    have "kp_payload (?kp secret tk) = pl" by (simp add: kp_payload_def)
    with that assms(2) show ?thesis by (auto simp: signed_token_def)
  qed
  ultimately show ?thesis using assms(1) Put_safe [OF assms(1)] by auto
qed

lemma RemoveToken_keeps:
  assumes ok: "sys_ok I view (sv_jwt srv) (w_db w)"
  shows "sys_ok I view (sv_jwt srv) (w_db (fst (sv_RemoveToken srv E c t w)))"
  using ok Delete_safe [OF ok] by (auto simp: sv_RemoveToken_def case_prod_beta split: sum.split option.split)

lemma RecoverToken_keeps:
  assumes ok: "sys_ok I view (sv_jwt srv) (w_db w)"
  shows "sys_ok I view (sv_jwt srv) (w_db (fst (sv_RecoverToken srv c t w)))"
  using ok Recover_safe [OF ok] by (auto simp: sv_RecoverToken_def case_prod_beta split: sum.split option.split)

lemma CreateUser_keeps:
  assumes ok: "sys_ok I view (sv_jwt srv) (w_db w)"
  shows "sys_ok I view (sv_jwt srv) (w_db (fst (sv_CreateUser srv E c req w)))"
  using ok PutUser_safe [OF ok, OF new_user_sel(4)]
  by (auto simp: sv_CreateUser_def Let_def case_prod_beta split: sum.split)

lemma UpdateUser_keeps:
  assumes ok: "sys_ok I view (sv_jwt srv) (w_db w)"
  shows "sys_ok I view (sv_jwt srv) (w_db (fst (sv_UpdateUser srv E c req w)))"
proof (cases "is_ok (permCheck c PermAdmin) \<and> is_ok (st_GetUser (sv_store srv) (uu_Name req) (w_db w))")
  case True
  then obtain u where u: "st_GetUser (sv_store srv) (uu_Name req) (w_db w) = Inr u" by (auto elim: is_okE)
  then have live: "a_user (view (w_db w)) (uu_Name req) = Some u" by (simp add: GetUser_ok sys_okD(1) [OF ok])
  then have "usr_Name u = uu_Name req" using user_keyed [OF sys_okD(1) [OF ok]] by (simp add: live_Some)
  with UpdateUser_safe [OF ok, of "updated_user E req u" u, OF _ updated_user_sel(3,4)] live
  have "sys_ok I view (sv_jwt srv) (fst (st_UpdateUser (sv_store srv) (updated_user E req u) (w_db w)))" by simp
  with True u show ?thesis by (auto simp: sv_UpdateUser_def case_prod_beta elim!: is_okE)
qed (use ok in \<open>auto simp: sv_UpdateUser_def split: sum.split\<close>)

lemma DeleteUser_keeps:
  assumes ok: "sys_ok I view (sv_jwt srv) (w_db w)"
  shows "sys_ok I view (sv_jwt srv) (w_db (fst (sv_DeleteUser srv E c n w)))"
  using ok DeleteUser_safe [OF ok] by (auto simp: sv_DeleteUser_def case_prod_beta split: sum.split)

lemma RecoverUser_keeps:
  assumes ok: "sys_ok I view (sv_jwt srv) (w_db w)"
  shows "sys_ok I view (sv_jwt srv) (w_db (fst (sv_RecoverUser srv c n w)))"
  using ok RecoverUser_safe [OF ok] by (auto simp: sv_RecoverUser_def case_prod_beta split: sum.split)

lemma UpsertUserRateLimit_keeps:
  assumes ok: "sys_ok I view (sv_jwt srv) (w_db w)"
  shows "sys_ok I view (sv_jwt srv) (w_db (fst (sv_UpsertUserRateLimit srv uuid c l w)))"
  using ok PutRateLimit_safe [OF ok] by (auto simp: sv_UpsertUserRateLimit_def case_prod_beta split: sum.split)

lemma DelUserRateLimit_keeps:
  assumes ok: "sys_ok I view (sv_jwt srv) (w_db w)"
  shows "sys_ok I view (sv_jwt srv) (w_db (fst (sv_DelUserRateLimit srv c req w)))"
  using ok DelRateLimit_safe [OF ok] by (auto simp: sv_DelUserRateLimit_def case_prod_beta split: sum.split)

lemma UpsertMiner_keeps:
  assumes ok: "sys_ok I view (sv_jwt srv) (w_db w)" and om: "um_OpenMining req \<noteq> None"
  shows "sys_ok I view (sv_jwt srv) (w_db (fst (sv_UpsertMiner srv E c req w)))"
  using ok UpsertMiner_safe [OF ok om] by (auto simp: sv_UpsertMiner_def Let_def case_prod_beta split: sum.split)

lemma DelMiner_keeps:
  assumes ok: "sys_ok I view (sv_jwt srv) (w_db w)"
  shows "sys_ok I view (sv_jwt srv) (w_db (fst (sv_DelMiner srv E c a w)))"
  using ok DelMiner_safe [OF ok] by (auto simp: sv_DelMiner_def case_prod_beta split: sum.split)

lemma DelSigner_keeps:
  assumes ok: "sys_ok I view (sv_jwt srv) (w_db w)"
  shows "sys_ok I view (sv_jwt srv) (w_db (fst (sv_DelSigner srv E c a w)))"
  using ok DelSigner_safe [OF ok] by (auto simp: sv_DelSigner_def case_prod_beta split: sum.split)

lemma RegisterSigners_loop_keeps:
  "sys_ok I view (sv_jwt srv) s \<Longrightarrow> sys_ok I view (sv_jwt srv) (fst (RegisterSigners_loop srv now n as s))"
proof (induction as arbitrary: s)
  case (Cons a as)
  show ?case
    using Cons.prems Cons.IH RegisterSigner_safe [OF Cons.prems, of a now n]
    by (cases "st_RegisterSigner (sv_store srv) now a n s") (auto split: sum.split)
qed simp

lemma UnregisterSigners_loop_keeps:
  "sys_ok I view (sv_jwt srv) s \<Longrightarrow> sys_ok I view (sv_jwt srv) (fst (UnregisterSigners_loop srv now n as s))"
proof (induction as arbitrary: s)
  case (Cons a as)
  show ?case
    using Cons.prems Cons.IH UnregisterSigner_safe [OF Cons.prems, of now a n]
    by (cases "st_UnregisterSigner (sv_store srv) now a n s") (auto split: sum.split)
qed simp

lemma signer_loops_keep:
  assumes ok: "sys_ok I view (sv_jwt srv) (w_db w)"
  shows "sys_ok I view (sv_jwt srv) (w_db (fst (sv_RegisterSigners srv E c req w)))"
    and "sys_ok I view (sv_jwt srv) (w_db (fst (sv_UnregisterSigners srv E c req w)))"
  using ok RegisterSigners_loop_keeps [OF ok] UnregisterSigners_loop_keeps [OF ok]
  by (auto simp: sv_RegisterSigners_def sv_UnregisterSigners_def case_prod_beta split: sum.split)

lemma Verify_keeps:
  "sys_ok I view (sv_jwt srv) (w_db w) \<Longrightarrow> sys_ok I view (sv_jwt srv) (w_db (fst (sv_Verify srv c t w)))"
  by simp

lemmas operations_keep = GenerateToken_keeps RemoveToken_keeps RecoverToken_keeps CreateUser_keeps
  UpdateUser_keeps DeleteUser_keeps RecoverUser_keeps UpsertUserRateLimit_keeps
  DelUserRateLimit_keeps UpsertMiner_keeps DelMiner_keeps DelSigner_keeps signer_loops_keep

lemma handle_keeps:
  assumes "sys_ok I view (sv_jwt srv) (w_db w)" and "valid_request req"
  shows "sys_ok I view (sv_jwt srv) (w_db (fst (handle srv ver E c req w)))"
proof (cases req)
  case (RVerify b)
  have "w_db (fst (app_Verify srv c b w)) = w_db w"
    by (auto simp: app_Verify_def dest: Verify_db_eq split: prod.split option.split)
  with assms(1) show ?thesis by (simp add: RVerify)
qed (use assms in \<open>auto simp: app_defs case_prod_beta operations_keep split: option.split\<close>)

end

text \<open>The contract of the badger store provides it all.\<close>

sublocale service_on \<subseteq> service_safe srv I view
proof
  fix s
  assume ok: "sys_ok I view (sv_jwt srv) s"
  note I = sys_okD(1) [OF ok] and data = sys_okD(2) [OF ok]
  note keeps = sys_ok_refines [OF _ ok]
  show "signed_token (sv_jwt srv) kp \<Longrightarrow> sys_ok I view (sv_jwt srv) (fst (st_Put (sv_store srv) kp s))" for kp
    by (rule keeps [OF Put [OF I]]) (use data in \<open>auto simp: spec_Put_def data_ok_def tokens_ok_def miners_open_def split: if_splits\<close>)
  show "sys_ok I view (sv_jwt srv) (fst (st_Delete (sv_store srv) now t s))" for now t
    by (rule keeps [OF Delete [OF I]]) (rule spec_Delete_data [OF data])
  show "sys_ok I view (sv_jwt srv) (fst (st_Recover (sv_store srv) t s))" for t
    by (rule keeps [OF Recover [OF I]]) (rule spec_Recover_data [OF data])
  show "sys_ok I view (sv_jwt srv) (fst (st_PutUser (sv_store srv) u s))" for u
    by (rule keeps [OF PutUser [OF I]]) (use data in \<open>auto simp: spec_PutUser_def data_ok_other\<close>)
  show "sys_ok I view (sv_jwt srv) (fst (st_UpdateUser (sv_store srv) u s))" for u
    by (rule keeps [OF UpdateUser [OF I]]) (use data in \<open>auto simp: spec_PutUser_def data_ok_other\<close>)
  show "sys_ok I view (sv_jwt srv) (fst (st_DeleteUser (sv_store srv) now n s))" for now n
    by (rule keeps [OF DeleteUser [OF I]]) (rule spec_DeleteUser_data [OF data])
  show "sys_ok I view (sv_jwt srv) (fst (st_RecoverUser (sv_store srv) n s))" for n
    by (rule keeps [OF RecoverUser [OF I]]) (rule spec_RecoverUser_data [OF data])
  show "sys_ok I view (sv_jwt srv) (fst (st_PutRateLimit (sv_store srv) uuid l s))" for uuid l
    by (rule keeps [OF PutRateLimit [OF I]]) (rule spec_PutRateLimit_data [OF data])
  show "sys_ok I view (sv_jwt srv) (fst (st_DelRateLimit (sv_store srv) n i s))" for n i
    using DelRateLimit [OF I, of n i] data by (auto simp: sys_ok_def data_ok_other)
  show "om \<noteq> None \<Longrightarrow> sys_ok I view (sv_jwt srv) (fst (st_UpsertMiner (sv_store srv) now a n om s))" for now a n om
    by (rule keeps [OF UpsertMiner [OF I]]) (rule spec_UpsertMiner_data [OF data])
  show "sys_ok I view (sv_jwt srv) (fst (st_DelMiner (sv_store srv) now a s))" for now a
    by (rule keeps [OF DelMiner [OF I]]) (rule spec_DelMiner_data [OF data])
  show "IsSignerAddress (sv_addr srv) a \<Longrightarrow>
      sys_ok I view (sv_jwt srv) (fst (st_RegisterSigner (sv_store srv) now a n s))" for now a n
    by (rule keeps [OF RegisterSigner [OF I]]) (use data in \<open>auto simp: spec_RegisterSigner_def data_ok_other split: if_splits\<close>)
  show "sys_ok I view (sv_jwt srv) (fst (st_UnregisterSigner (sv_store srv) now a n s))" for now a n
    by (rule keeps [OF UnregisterSigner [OF I]])
      (use data in \<open>auto simp: spec_UnregisterSigner_def data_ok_other split: option.splits if_splits\<close>)
  show "sys_ok I view (sv_jwt srv) (fst (st_DelSigner (sv_store srv) now a s))" for now a
  proof -
    obtain P where "refines I view (view s) (st_DelSigner (sv_store srv) now a s) (spec_DelSigner now P (view s))"
      using DelSigner [OF I] by blast
    then show ?thesis by (rule keeps) (rule spec_DelSigner_data [OF data])
  qed
qed

end
