(* ===== verification/Auth_Mux.thy ===== *)
theory Auth_Mux
  imports Route
begin

text \<open>
  The package jwtclient, as the other services of the cluster use it: the clients that verify a
  token (inteface.go, local_auth_client.go), and \<open>AuthMux\<close>, the handler that guards the JSON-RPC
  handler of a service with them (auth_mux.go). Proved: when a request gets through to the guarded
  handler, and with which permissions and name; which requests bypass the check; and that the
  order in which Go visits the map of trusted patterns does not matter for that.
\<close>

section \<open>The clients (inteface.go, local_auth_client.go)\<close>

text \<open>
  \<open>IJwtAuthClient\<close> is its one method, \<open>Verify\<close>. A client that is nil, or an interface that holds a
  nil pointer (\<open>isNil\<close>), is \<open>None\<close>.
\<close>

type_synonym jwt_client = "ctx \<Rightarrow> string \<Rightarrow> permission res"

text \<open>\<open>WarpIJwtAuthClient\<close> makes a client of the \<open>Verify\<close> of an \<open>IAuthClient\<close>.\<close>

definition jwtAuthClient_Verify :: "(ctx \<Rightarrow> string \<Rightarrow> jwt_payload res) \<Rightarrow> jwt_client" where
  "jwtAuthClient_Verify cli c token =
     (case cli c token of Inl e \<Rightarrow> Inl e | Inr res \<Rightarrow> Inr (pl_Perm res))"

text \<open>The local client holds the key of an HS256 algorithm.\<close>

record local_auth_client =
  lc_alg :: string

definition LocalAuthClient_Verify :: "jwt_lib \<Rightarrow> local_auth_client \<Rightarrow> jwt_client" where
  "LocalAuthClient_Verify J cl c token =
     (case jwt_Verify J token (lc_alg cl) zero_payload of
        (_, Some e) \<Rightarrow> Inl e
      | (payload, None) \<Rightarrow> Inr (pl_Perm payload))"

definition NewLocalAuthClientWithSecret :: "jwt_lib \<Rightarrow> string \<Rightarrow> local_auth_client \<times> string res" where
  "NewLocalAuthClientWithSecret J secret =
     (let payload = \<lparr>pl_Name = DefaultAdminTokenName, pl_Perm = PermAdmin, pl_Extra = []\<rparr>;
          cl = \<lparr>lc_alg = secret\<rparr>
      in (cl, jwt_Sign J payload (lc_alg cl)))"

text \<open>\<open>config.RandSecret\<close> is the argument \<open>rand\<close>.\<close>

definition NewLocalAuthClient :: "jwt_lib \<Rightarrow> string res \<Rightarrow> (local_auth_client \<times> string res) res" where
  "NewLocalAuthClient J rand =
     (case rand of Inl e \<Rightarrow> Inl e | Inr secret \<Rightarrow> Inr (NewLocalAuthClientWithSecret J secret))"

section \<open>The mux (auth_mux.go)\<close>

text \<open>A regular expression is its \<open>MatchString\<close>.\<close>

type_synonym regexp = "string \<Rightarrow> bool"

record mux_opt =
  o_reg :: "regexp option"

definition RegexpOption :: "regexp \<Rightarrow> mux_opt \<Rightarrow> mux_opt" where
  "RegexpOption reg o' = o'\<lparr>o_reg := Some reg\<rparr>"

record 'h trust_handle =
  th_Handler :: 'h
  th_reg :: "regexp option"

record 'h auth_mux =
  am_handler :: 'h
  am_local :: "jwt_client option"
  am_remote :: "jwt_client option"
  am_trustHandle :: "string \<rightharpoonup> 'h trust_handle"

definition NewAuthMux :: "jwt_client option \<Rightarrow> jwt_client option \<Rightarrow> 'h \<Rightarrow> 'h auth_mux" where
  "NewAuthMux local remote h =
     \<lparr>am_handler = h, am_local = local, am_remote = remote, am_trustHandle = (\<lambda>_. None)\<rparr>"

definition TrustHandle :: "string \<Rightarrow> 'h \<Rightarrow> (mux_opt \<Rightarrow> mux_opt) list \<Rightarrow> 'h auth_mux \<Rightarrow> 'h auth_mux" where
  "TrustHandle pattern h opts mux =
     (let opt = fold (\<lambda>o' opt. o' opt) opts \<lparr>o_reg = None\<rparr>
      in mux\<lparr>am_trustHandle := (am_trustHandle mux)(pattern \<mapsto> \<lparr>th_Handler = h, th_reg = o_reg opt\<rparr>)\<rparr>)"

text \<open>
  Go visits the entries of a map in an order it does not specify: \<open>order\<close> lists the keys in the
  order of this visit. An empty pattern is a prefix of every path, and the index of its last byte
  is out of range.
\<close>

fun trusted_loop :: "(string \<rightharpoonup> 'h trust_handle) \<Rightarrow> string list \<Rightarrow> string \<Rightarrow> 'h trust_handle option res" where
  "trusted_loop th [] uri = Inr None"
| "trusted_loop th (trustedURI # rest) uri =
     (case th trustedURI of
        None \<Rightarrow> trusted_loop th rest uri
      | Some h \<Rightarrow>
          if trustedURI = uri then Inr (Some h)
          else if prefix trustedURI uri
          then (if trustedURI = [] then Inl (Panic ''index out of range [-1]'')
                else if last trustedURI = CHR ''/'' then Inr (Some h)
                else case th_reg h of
                       Some reg \<Rightarrow> if reg uri then Inr (Some h) else trusted_loop th rest uri
                     | None \<Rightarrow> trusted_loop th rest uri)
          else trusted_loop th rest uri)"

definition trustedHandler :: "'h auth_mux \<Rightarrow> string list \<Rightarrow> string \<Rightarrow> 'h trust_handle option res" where
  "trustedHandler mux order uri = trusted_loop (am_trustHandle mux) order uri"

record mux_request = http_request +
  mq_RequestURI :: string
  mq_RemoteAddr :: string

text \<open>The name \<open>JwtUserFromToken\<close> returns beside its error, which the mux ignores.\<close>

definition JwtUserFromToken_name :: "jwt_lib \<Rightarrow> string \<Rightarrow> string" where
  "JwtUserFromToken_name J token =
     (let sks = Split token (CHR ''.'') in
      if length sks < 2 then []
      else case DecodeToBytes (sks ! 1) of
             Inl e \<Rightarrow> []
           | Inr dec \<Rightarrow> pl_Name (fst (json_payload J dec)))"

text \<open>The nested conditions on the two clients; \<open>perm\<close> stays empty when both are nil.\<close>

definition mux_verify :: "'h auth_mux \<Rightarrow> ctx \<Rightarrow> string \<Rightarrow> permission res" where
  "mux_verify mux c token =
     (case am_local mux of
        Some local \<Rightarrow>
          (case local c token of
             Inr perm \<Rightarrow> Inr perm
           | Inl e \<Rightarrow> (case am_remote mux of Some remote \<Rightarrow> remote c token | None \<Rightarrow> Inl e))
      | None \<Rightarrow> (case am_remote mux of Some remote \<Rightarrow> remote c token | None \<Rightarrow> Inr []))"

datatype 'h mux_call =
    Serve 'h ctx
  | Refuse nat
  | Mux_Panic err

definition ServeHTTP :: "jwt_lib \<Rightarrow> 'h auth_mux \<Rightarrow> string list \<Rightarrow> mux_request \<Rightarrow> 'h mux_call" where
  "ServeHTTP J mux order rq =
     (case trustedHandler mux order (mq_RequestURI rq) of
        Inl e \<Rightarrow> Mux_Panic e
      | Inr (Some h) \<Rightarrow> Serve (th_Handler h) (rq_ctx rq)
      | Inr None \<Rightarrow>
          (case bearer_token rq of
             None \<Rightarrow> Refuse 401
           | Some token \<Rightarrow>
               (let c = CtxWithTokenLocation (rq_ctx rq) (mq_RemoteAddr rq) in
                case mux_verify mux c token of
                  Inl e \<Rightarrow> Refuse 401
                | Inr perm \<Rightarrow>
                    (let c = CtxWithPerm c perm;
                         name = JwtUserFromToken_name J token;
                         c = (if length name \<noteq> 0 then CtxWithName c name else c)
                     in Serve (am_handler mux) c))))"

section \<open>Trusted paths\<close>

text \<open>What the comment on \<open>TrustHandle\<close> promises of a pattern.\<close>

definition trusts :: "string \<Rightarrow> regexp option \<Rightarrow> string \<Rightarrow> bool" where
  "trusts pattern reg uri \<longleftrightarrow> pattern = uri \<or>
     prefix pattern uri \<and> (last pattern = CHR ''/'' \<or> (\<exists>r. reg = Some r \<and> r uri))"

lemma trusted_loop_eq:
  assumes "[] \<notin> set order"
  shows "trusted_loop th order uri =
    Inr (Option.bind (find (\<lambda>p. case th p of None \<Rightarrow> False | Some h \<Rightarrow> trusts p (th_reg h) uri) order) th)"
  using assms by (induction order) (auto simp: trusts_def split: option.split)

lemma find_trusted:
  assumes "set order = dom th"
  shows "Option.bind (find (\<lambda>p. case th p of None \<Rightarrow> False | Some h \<Rightarrow> trusts p (th_reg h) uri) order) th = None
      \<longleftrightarrow> (\<forall>p h. th p = Some h \<longrightarrow> \<not> trusts p (th_reg h) uri)" (is "?f = None \<longleftrightarrow> ?none")
    and "Option.bind (find (\<lambda>p. case th p of None \<Rightarrow> False | Some h \<Rightarrow> trusts p (th_reg h) uri) order) th = Some h \<Longrightarrow>
       \<exists>p. th p = Some h \<and> trusts p (th_reg h) uri"
proof -
  let ?P = "\<lambda>p. case th p of None \<Rightarrow> False | Some h \<Rightarrow> trusts p (th_reg h) uri"
  have "(find ?P order = None) = (\<forall>p \<in> dom th. \<not> ?P p)" by (simp add: find_None_iff assms Ball_def)
  also have "\<dots> = ?none" by (auto split: option.split)
  finally have none: "(find ?P order = None) = ?none" .
  have some: "\<exists>h. th p = Some h \<and> trusts p (th_reg h) uri" if "find ?P order = Some p" for p
    using that by (auto simp: find_Some_iff split: option.splits)
  show "?f = None \<longleftrightarrow> ?none" using none some by (cases "find ?P order") auto
  show "\<exists>p. th p = Some h \<and> trusts p (th_reg h) uri" if "?f = Some h"
    using that some by (cases "find ?P order") auto
qed

lemma trustedHandler_iff:
  assumes "set order = dom (am_trustHandle mux)" and "am_trustHandle mux [] = None"
  shows "\<exists>r. trustedHandler mux order uri = Inr r \<and>
    (r = None \<longleftrightarrow> (\<forall>p h. am_trustHandle mux p = Some h \<longrightarrow> \<not> trusts p (th_reg h) uri)) \<and>
    (\<forall>h. r = Some h \<longrightarrow> (\<exists>p. am_trustHandle mux p = Some h \<and> trusts p (th_reg h) uri))"
proof -
  have "[] \<notin> set order" using assms by auto
  then show ?thesis
    using find_trusted [OF assms(1), of uri] by (auto simp: trustedHandler_def trusted_loop_eq)
qed

section \<open>What gets through\<close>

lemma JwtUserFromToken_name_eq: "JwtUserFromToken J token = Inr n \<Longrightarrow> JwtUserFromToken_name J token = n"
  by (auto simp: JwtUserFromToken_def JwtUserFromToken_name_def Let_def split: if_splits sum.splits prod.splits option.splits)

text \<open>One of the clients of the mux has verified the token.\<close>

definition mux_accepts :: "'h auth_mux \<Rightarrow> ctx \<Rightarrow> string \<Rightarrow> permission \<Rightarrow> bool" where
  "mux_accepts mux c token perm \<longleftrightarrow>
     (\<exists>cl. (am_local mux = Some cl \<or> am_remote mux = Some cl) \<and> cl c token = Inr perm)"

lemma mux_verify_accepts:
  assumes "mux_verify mux c token = Inr perm"
  shows "mux_accepts mux c token perm \<or> am_local mux = None \<and> am_remote mux = None \<and> perm = []"
  using assms by (auto simp: mux_verify_def mux_accepts_def split: option.splits sum.splits)

lemma ServeHTTP_cases:
  obtains (panic) e where "ServeHTTP J mux order rq = Mux_Panic e"
      "trustedHandler mux order (mq_RequestURI rq) = Inl e"
  | (trusted) h where "trustedHandler mux order (mq_RequestURI rq) = Inr (Some h)"
      "ServeHTTP J mux order rq = Serve (th_Handler h) (rq_ctx rq)"
  | (refused) "trustedHandler mux order (mq_RequestURI rq) = Inr None"
      "ServeHTTP J mux order rq = Refuse 401"
  | (verified) token perm where "trustedHandler mux order (mq_RequestURI rq) = Inr None"
      "bearer_token rq = Some token"
      "mux_verify mux (CtxWithTokenLocation (rq_ctx rq) (mq_RemoteAddr rq)) token = Inr perm"
      "ServeHTTP J mux order rq = Serve (am_handler mux)
        (let c = CtxWithPerm (CtxWithTokenLocation (rq_ctx rq) (mq_RemoteAddr rq)) perm
         in if JwtUserFromToken_name J token \<noteq> [] then CtxWithName c (JwtUserFromToken_name J token) else c)"
proof (cases "trustedHandler mux order (mq_RequestURI rq)")
  case (Inl e)
  then show thesis by (intro panic) (simp_all add: ServeHTTP_def)
next
  case (Inr r)
  show thesis
  proof (cases r)
    case (Some h)
    with Inr show thesis by (intro trusted) (simp_all add: ServeHTTP_def)
  next
    case None
    note t = Inr [unfolded None]
    show thesis
    proof (cases "bearer_token rq")
      case None
      with t show thesis by (intro refused) (simp_all add: ServeHTTP_def)
    next
      case (Some token)
      show thesis
      proof (cases "mux_verify mux (CtxWithTokenLocation (rq_ctx rq) (mq_RemoteAddr rq)) token")
        case (Inl e)
        with t Some show thesis by (intro refused) (simp_all add: ServeHTTP_def Let_def)
      next
        case (Inr perm)
        with t Some show thesis by (intro verified) (simp add: ServeHTTP_def Let_def)+
      qed
    qed
  qed
qed

end
