(* ===== verification/Client_Checks.thy ===== *)
theory Client_Checks
  imports Auth_Mux
begin

text \<open>
  What the services behind \<open>AuthMux\<close> do with the context it makes: the permission checks of
  jwtclient/utils.go, and the rate limits of a user (jwtclient/limiter_warper.go). The locale
  \<open>owner_client\<close> is what they expect of the client they ask. Proved: exactly which callers pass.
\<close>

section \<open>Permission checks (utils.go)\<close>

definition no_account :: err where
  "no_account = Msg ''there is no accountKey in the request''"

definition CheckPermissionByName :: "ctx \<Rightarrow> string \<Rightarrow> unit res" where
  "CheckPermissionByName c username =
     (if HasPerm c [] PermAdmin then Inr ()
      else case CtxGetName c of
             None \<Rightarrow> Inl no_account
           | Some user \<Rightarrow>
               if user \<noteq> username
               then Inl (Wrap (''user '' @ username @ '' in the request doesn't match '' @ user
                      @ '' in the system: '') ErrClientPermissionDeny)
               else Inr ())"

text \<open>
  The loops over the addresses. \<open>exist\<close> is the client's \<open>SignerExistInUser\<close> and
  \<open>MinerExistInUser\<close> (with the arguments in the client's order: context, user, address).
\<close>

fun signers_loop :: "'a addr_lib \<Rightarrow> (string \<Rightarrow> 'a \<Rightarrow> bool res) \<Rightarrow> string \<Rightarrow> 'a list \<Rightarrow> unit res" where
  "signers_loop A exist user [] = Inr ()"
| "signers_loop A exist user (addr # rest) =
     (case exist user addr of
        Inl e \<Rightarrow> Inl (Wrap (''check signer '' @ addr_String A addr @ '' exist in user '' @ user
                  @ '' failed when check permission: '') e)
      | Inr ok \<Rightarrow>
          if \<not> ok
          then Inl (Wrap (''signer '' @ addr_String A addr @ '' not exist in user '' @ user @ '': '')
                 ErrClientPermissionDeny)
          else signers_loop A exist user rest)"

definition CheckPermissionBySigner ::
  "'a addr_lib \<Rightarrow> ctx \<Rightarrow> (ctx \<Rightarrow> string \<Rightarrow> 'a \<Rightarrow> bool res) \<Rightarrow> 'a list \<Rightarrow> unit res" where
  "CheckPermissionBySigner A c SignerExistInUser signers =
     (if HasPerm c [] PermAdmin then Inr ()
      else case CtxGetName c of
             None \<Rightarrow> Inl no_account
           | Some user \<Rightarrow> signers_loop A (SignerExistInUser c) user signers)"

fun miners_loop :: "'a addr_lib \<Rightarrow> (string \<Rightarrow> 'a \<Rightarrow> bool res) \<Rightarrow> string \<Rightarrow> 'a list \<Rightarrow> unit res" where
  "miners_loop A exist user [] = Inr ()"
| "miners_loop A exist user (mAddr # rest) =
     (case exist user mAddr of
        Inl e \<Rightarrow> Inl (Wrap (''check miner '' @ addr_String A mAddr @ '' exist in user '' @ user
                  @ '' failed when check permission: '') e)
      | Inr ok \<Rightarrow>
          if \<not> ok
          then Inl (Wrap (''miner '' @ addr_String A mAddr @ '' not exist in user '' @ user @ '': '')
                 ErrClientPermissionDeny)
          else miners_loop A exist user rest)"

definition CheckPermissionByMiner ::
  "'a addr_lib \<Rightarrow> ctx \<Rightarrow> (ctx \<Rightarrow> string \<Rightarrow> 'a \<Rightarrow> bool res) \<Rightarrow> 'a list \<Rightarrow> unit res" where
  "CheckPermissionByMiner A c MinerExistInUser miners =
     (if HasPerm c [] PermAdmin then Inr ()
      else case CtxGetName c of
             None \<Rightarrow> Inl no_account
           | Some user \<Rightarrow> miners_loop A (MinerExistInUser c) user miners)"

lemma HasPerm_grants: "HasPerm c [] p \<longleftrightarrow> grants c p"
  by (cases "CtxGetPerm c") (simp_all add: HasPerm_def grants_def)

lemma CheckPermissionByName_iff:
  "CheckPermissionByName c n = Inr () \<longleftrightarrow> grants c PermAdmin \<or> CtxGetName c = Some n"
  by (auto simp: CheckPermissionByName_def HasPerm_grants split: option.split)

text \<open>
  The two packages ask the same question of a context: the client's check and the service's own
  \<open>userPermCheck\<close> pass for the same callers.
\<close>

lemma CheckPermissionByName_userPermCheck:
  "CheckPermissionByName c n = Inr () \<longleftrightarrow> userPermCheck c n = Inr ()"
  by (simp add: CheckPermissionByName_iff userPermCheck_iff)

text \<open>
  What the checks expect of the client: in the states \<open>I\<close>, it knows of the valid addresses who owns
  them.
\<close>

locale owner_client =
  fixes exist :: "'s \<Rightarrow> ctx \<Rightarrow> string \<Rightarrow> 'a \<Rightarrow> bool res" and owns :: "'s \<Rightarrow> 'a \<Rightarrow> string \<Rightarrow> bool"
    and I :: "'s \<Rightarrow> bool" and valid :: "'a \<Rightarrow> bool"
  assumes exist: "I s \<Longrightarrow> valid a \<Longrightarrow> exist s c user a = Inr (owns s a user)"
begin

lemma signers_loop_iff:
  "I s \<Longrightarrow> \<forall>a \<in> set as. valid a \<Longrightarrow>
     signers_loop A (exist s c) user as = Inr () \<longleftrightarrow> (\<forall>a \<in> set as. owns s a user)"
  by (induction "as") (auto simp: exist)

lemma miners_loop_iff:
  "I s \<Longrightarrow> \<forall>a \<in> set as. valid a \<Longrightarrow>
     miners_loop A (exist s c) user as = Inr () \<longleftrightarrow> (\<forall>a \<in> set as. owns s a user)"
  by (induction "as") (auto simp: exist)

lemma CheckPermissionBySigner_iff:
  "I s \<Longrightarrow> \<forall>a \<in> set as. valid a \<Longrightarrow> CheckPermissionBySigner A c (exist s) as = Inr () \<longleftrightarrow>
     grants c PermAdmin \<or> (\<exists>n. CtxGetName c = Some n \<and> (\<forall>a \<in> set as. owns s a n))"
  by (auto simp: CheckPermissionBySigner_def HasPerm_grants signers_loop_iff no_account_def split: option.split)

lemma CheckPermissionByMiner_iff:
  "I s \<Longrightarrow> \<forall>a \<in> set as. valid a \<Longrightarrow> CheckPermissionByMiner A c (exist s) as = Inr () \<longleftrightarrow>
     grants c PermAdmin \<or> (\<exists>n. CtxGetName c = Some n \<and> (\<forall>a \<in> set as. owns s a n))"
  by (auto simp: CheckPermissionByMiner_def HasPerm_grants miners_loop_iff no_account_def split: option.split)

end

section \<open>The limits of a user (limiter_warper.go)\<close>

record rate_limit =
  lim_Account :: string
  lim_Cap :: int
  lim_Duration :: int

text \<open>\<open>None\<close> is the nil client.\<close>

definition GetUserLimit ::
  "(ctx \<Rightarrow> string \<Rightarrow> string \<Rightarrow> user_rate_limit list res) option \<Rightarrow> string \<Rightarrow> string \<Rightarrow> string \<Rightarrow> rate_limit res" where
  "GetUserLimit cl name service api =
     (case cl of
        None \<Rightarrow> Inl (Msg ''jwt client is nil'')
      | Some GetUserRateLimit \<Rightarrow>
          (case GetUserRateLimit ctx_Background name [] of
             Inl e \<Rightarrow> Inl e
           | Inr res \<Rightarrow>
               (let limit = \<lparr>lim_Account = name, lim_Cap = 0, lim_Duration = 0\<rparr> in
                case MatchedLimit res service api of
                  None \<Rightarrow> Inr limit
                | Some l \<Rightarrow> Inr (limit\<lparr>lim_Cap := Cap (rl_ReqLimit l), lim_Duration := ResetDur (rl_ReqLimit l)\<rparr>))))"

text \<open>The caller is limited by a limit of the list that names neither a service nor an API, or by none.\<close>

lemma GetUserLimit_cases:
  assumes "cl ctx_Background name [] = Inr res"
  shows "(\<exists>l \<in> set res. rl_Service l = [] \<and> rl_API l = [] \<and>
       GetUserLimit (Some cl) name service api =
         Inr \<lparr>lim_Account = name, lim_Cap = Cap (rl_ReqLimit l), lim_Duration = ResetDur (rl_ReqLimit l)\<rparr>)
     \<or> (\<forall>l \<in> set res. \<not> (rl_Service l = [] \<and> rl_API l = [])) \<and>
       GetUserLimit (Some cl) name service api = Inr \<lparr>lim_Account = name, lim_Cap = 0, lim_Duration = 0\<rparr>"
proof (cases "MatchedLimit res service api")
  case None
  then have "\<forall>l \<in> set res. \<not> (rl_Service l = [] \<and> rl_API l = [])"
    by (auto simp: MatchedLimit_find find_None_iff)
  with None show ?thesis by (simp add: GetUserLimit_def assms)
next
  case (Some l)
  then have "l \<in> set res \<and> rl_Service l = [] \<and> rl_API l = []"
    by (auto simp: MatchedLimit_find find_Some_iff)
  with Some show ?thesis by (intro disjI1 bexI [of _ l]) (simp_all add: GetUserLimit_def assms)
qed

end
