(* ===== verification/Auth_Client.thy ===== *)
theory Auth_Client
  imports Client_Checks
begin

text \<open>
  The HTTP client of the service (jwtclient/auth_client.go): the request each method sends, and
  what it makes of the response. The HTTP library (resty) is the parameter \<open>Do\<close>: it sends a
  request in the state of the network and returns the response, or an error when there is none or
  its body is not JSON of the type the method registered. Proved: every request of the client is
  one the router has a handler for, and what a method returns for an answer of the handlers.
\<close>

section \<open>Requests and responses\<close>

datatype 'a client_body =
    J_Token string
  | J_GenToken genTokenRequest
  | J_CreateUser createUserRequest
  | J_UpdateUser updateUserRequest
  | J_Names "string list"
  | J_Name string
  | J_RateLimit user_rate_limit
  | J_DelRateLimit delUserRateLimitReq
  | J_UpsertMiner "'a upsertMinerReq"
  | J_Miner 'a
  | J_Signers "'a signersReq"
  | J_Signer 'a

text \<open>The query parameters are a Go map: at most one value for each name.\<close>

record 'a rest_request =
  rr_Method :: string
  rr_Path :: string
  rr_Query :: "(string \<times> string) list"
  rr_Body :: "'a client_body option"

text \<open>
  A response: its status, its body as text, the value decoded from it into the registered result
  when the status is a success and there is a body, and the field of the \<open>ErrMsg\<close> registered with
  \<open>SetError\<close> (empty when nothing was decoded).
\<close>

record 'a rest_response =
  rs_StatusCode :: nat
  rs_Body :: string
  rs_Result :: "'a body option"
  rs_Error :: string

type_synonym ('s, 'a) rest = "'a rest_request \<Rightarrow> 's \<Rightarrow> 's \<times> 'a rest_response res"

definition rest_query :: "string \<Rightarrow> string \<Rightarrow> (string \<times> string) list \<Rightarrow> 'a rest_request" where
  "rest_query m p q = \<lparr>rr_Method = m, rr_Path = p, rr_Query = q, rr_Body = None\<rparr>"

definition rest_body :: "string \<Rightarrow> string \<Rightarrow> 'a client_body \<Rightarrow> 'a rest_request" where
  "rest_body m p b = \<lparr>rr_Method = m, rr_Path = p, rr_Query = [], rr_Body = Some b\<rparr>"

text \<open>\<open>ErrMsg.Err\<close> (errcode/system.go).\<close>

definition ErrMsg_Err :: "string \<Rightarrow> err" where
  "ErrMsg_Err msg = Msg msg"

text \<open>
  The end that all methods but \<open>Verify\<close> share: \<open>if err != nil { return err }; if
  resp.StatusCode() == http.StatusOK { return result }; return resp.Error().(*errcode.ErrMsg).Err()\<close>.
\<close>

definition rest_result :: "('a body option \<Rightarrow> 'r) \<Rightarrow> 's \<times> 'a rest_response res \<Rightarrow> 's \<times> 'r res" where
  "rest_result result sr =
     (case sr of
        (s, Inl e) \<Rightarrow> (s, Inl e)
      | (s, Inr resp) \<Rightarrow>
          (s, if rs_StatusCode resp = 200 then Inr (result (rs_Result resp))
              else Inl (ErrMsg_Err (rs_Error resp))))"

text \<open>The registered results, with their zero value when nothing was decoded.\<close>

fun as_bool :: "'a body option \<Rightarrow> bool" where
  "as_bool (Some (BBool b)) = b" | "as_bool _ = False"

fun as_text :: "'a body option \<Rightarrow> string" where
  "as_text (Some (BString s)) = s" | "as_text (Some (BToken s)) = s" | "as_text _ = []"

fun as_payload :: "'a body option \<Rightarrow> jwt_payload" where
  "as_payload (Some (BPayload p)) = p" | "as_payload _ = zero_payload"

fun as_infos :: "'a body option \<Rightarrow> tokenInfo list" where
  "as_infos (Some (BTokenInfos ts)) = ts" | "as_infos _ = []"

fun as_outputUser :: "'a body option \<Rightarrow> outputUser" where
  "as_outputUser (Some (BUser u)) = u"
| "as_outputUser _ = \<lparr>ou_Id = [], ou_Name = [], ou_Comment = [], ou_State = 0, ou_CreateTime = 0, ou_UpdateTime = 0\<rparr>"

fun as_users :: "'a body option \<Rightarrow> outputUser list" where
  "as_users (Some (BUsers us)) = us" | "as_users _ = []"

fun as_limits :: "'a body option \<Rightarrow> user_rate_limit list" where
  "as_limits (Some (BRateLimits ls)) = ls" | "as_limits _ = []"

fun as_miners :: "'a body option \<Rightarrow> 'a outputMiner list" where
  "as_miners (Some (BMiners ms)) = ms" | "as_miners _ = []"

fun as_signers :: "'a body option \<Rightarrow> 'a outputSigner list" where
  "as_signers (Some (BSigners gs)) = gs" | "as_signers _ = []"

section \<open>Tokens\<close>

definition AuthClient_Verify :: "('s, 'a) rest \<Rightarrow> string \<Rightarrow> 's \<Rightarrow> 's \<times> jwt_payload res" where
  "AuthClient_Verify Do token s =
     (case Do (rest_body ''POST'' ''/verify'' (J_Token token)) s of
        (s, Inl e) \<Rightarrow> (s, Inl e)
      | (s, Inr resp) \<Rightarrow>
          (s, if rs_StatusCode resp = 200 then Inr (as_payload (rs_Result resp))
              else Inl (Msg (''response code is : '' @ show_nat (rs_StatusCode resp) @ '', msg:'' @ rs_Body resp))))"

definition AuthClient_GenerateToken ::
  "('s, 'a) rest \<Rightarrow> string \<Rightarrow> permission \<Rightarrow> string \<Rightarrow> 's \<Rightarrow> 's \<times> string res" where
  "AuthClient_GenerateToken Do name perm extra s =
     rest_result as_text (Do (rest_body ''POST'' ''/genToken'' (J_GenToken \<lparr>gt_Name = name, gt_Perm = perm, gt_Extra = extra\<rparr>)) s)"

definition AuthClient_GetToken ::
  "('s, 'a) rest \<Rightarrow> string \<Rightarrow> string \<Rightarrow> 's \<Rightarrow> 's \<times> tokenInfo list res" where
  "AuthClient_GetToken Do name token s =
     rest_result as_infos (Do (rest_query ''GET'' ''/token'' [(''name'', name), (''token'', token)]) s)"

definition AuthClient_Tokens ::
  "('s, 'a) rest \<Rightarrow> int \<Rightarrow> int \<Rightarrow> 's \<Rightarrow> 's \<times> tokenInfo list res" where
  "AuthClient_Tokens Do skip limit s =
     rest_result as_infos (Do (rest_query ''GET'' ''/tokens'' [(''skip'', FormatInt skip), (''limit'', FormatInt limit)]) s)"

definition AuthClient_RemoveToken ::
  "('s, 'a) rest \<Rightarrow> string \<Rightarrow> 's \<Rightarrow> 's \<times> unit res" where
  "AuthClient_RemoveToken Do token s =
     rest_result (\<lambda>_. ()) (Do (rest_body ''DELETE'' ''/token'' (J_Token token)) s)"

definition AuthClient_RecoverToken ::
  "('s, 'a) rest \<Rightarrow> string \<Rightarrow> 's \<Rightarrow> 's \<times> unit res" where
  "AuthClient_RecoverToken Do token s =
     rest_result (\<lambda>_. ()) (Do (rest_body ''POST'' ''/recoverToken'' (J_Token token)) s)"

section \<open>Users\<close>

definition AuthClient_CreateUser ::
  "('s, 'a) rest \<Rightarrow> createUserRequest \<Rightarrow> 's \<Rightarrow> 's \<times> outputUser res" where
  "AuthClient_CreateUser Do req s =
     rest_result as_outputUser (Do (rest_body ''PUT'' ''/user/new'' (J_CreateUser req)) s)"

definition AuthClient_UpdateUser ::
  "('s, 'a) rest \<Rightarrow> updateUserRequest \<Rightarrow> 's \<Rightarrow> 's \<times> unit res" where
  "AuthClient_UpdateUser Do req s =
     rest_result (\<lambda>_. ()) (Do (rest_body ''POST'' ''/user/update'' (J_UpdateUser req)) s)"

definition AuthClient_ListUsers ::
  "('s, 'a) rest \<Rightarrow> int \<Rightarrow> int \<Rightarrow> user_state \<Rightarrow> 's \<Rightarrow> 's \<times> outputUser list res" where
  "AuthClient_ListUsers Do skip limit state s =
     (let req = NewListUsersRequest skip limit state in
      case lu_Page req of
        None \<Rightarrow> (s, Inl (Panic ''nil pointer dereference''))
      | Some pg \<Rightarrow> rest_result as_users
          (Do (rest_query ''GET'' ''/user/list'' [(''skip'', FormatInt (Skip pg)), (''limit'', FormatInt (Limit pg)),
                 (''state'', FormatInt (lu_State req))]) s))"

definition AuthClient_VerifyUsers ::
  "('s, 'a) rest \<Rightarrow> string list \<Rightarrow> 's \<Rightarrow> 's \<times> unit res" where
  "AuthClient_VerifyUsers Do names s =
     rest_result (\<lambda>_. ()) (Do (rest_body ''POST'' ''/user/verify'' (J_Names names)) s)"

definition AuthClient_GetUser ::
  "('s, 'a) rest \<Rightarrow> string \<Rightarrow> 's \<Rightarrow> 's \<times> outputUser res" where
  "AuthClient_GetUser Do name s =
     rest_result as_outputUser (Do (rest_query ''GET'' ''/user'' [(''name'', name)]) s)"

definition AuthClient_HasUser :: "('s, 'a) rest \<Rightarrow> string \<Rightarrow> 's \<Rightarrow> 's \<times> bool res" where
  "AuthClient_HasUser Do name s =
     rest_result as_bool (Do (rest_query ''GET'' ''/user/has'' [(''name'', name)]) s)"

definition AuthClient_DeleteUser ::
  "('s, 'a) rest \<Rightarrow> string \<Rightarrow> 's \<Rightarrow> 's \<times> unit res" where
  "AuthClient_DeleteUser Do req s =
     rest_result (\<lambda>_. ()) (Do (rest_body ''POST'' ''/user/del'' (J_Name req)) s)"

definition AuthClient_RecoverUser ::
  "('s, 'a) rest \<Rightarrow> string \<Rightarrow> 's \<Rightarrow> 's \<times> unit res" where
  "AuthClient_RecoverUser Do req s =
     rest_result (\<lambda>_. ()) (Do (rest_body ''POST'' ''/user/recover'' (J_Name req)) s)"

definition AuthClient_GetUserRateLimit ::
  "('s, 'a) rest \<Rightarrow> string \<Rightarrow> string \<Rightarrow> 's \<Rightarrow> 's \<times> user_rate_limit list res" where
  "AuthClient_GetUserRateLimit Do name lid s =
     (let param = (if length name \<noteq> 0 then [(''name'', name)] else []) @
                  (if length lid \<noteq> 0 then [(''id'', lid)] else [])
      in rest_result as_limits (Do (rest_query ''GET'' ''/user/ratelimit'' param) s))"

definition AuthClient_UpsertUserRateLimit ::
  "('s, 'a) rest \<Rightarrow> user_rate_limit \<Rightarrow> 's \<Rightarrow> 's \<times> string res" where
  "AuthClient_UpsertUserRateLimit Do req s =
     rest_result as_text (Do (rest_body ''POST'' ''/user/ratelimit/upsert'' (J_RateLimit req)) s)"

definition AuthClient_DelUserRateLimit ::
  "('s, 'a) rest \<Rightarrow> delUserRateLimitReq \<Rightarrow> 's \<Rightarrow> 's \<times> string res" where
  "AuthClient_DelUserRateLimit Do req s =
     rest_result as_text (Do (rest_body ''POST'' ''/user/ratelimit/del'' (J_DelRateLimit req)) s)"

section \<open>Miners\<close>

text \<open>The address is parsed twice; the second failure cannot happen.\<close>

definition AuthClient_UpsertMiner ::
  "('s, 'a) rest \<Rightarrow> 'a addr_lib \<Rightarrow> string \<Rightarrow> string \<Rightarrow> bool \<Rightarrow> 's \<Rightarrow> 's \<times> bool res" where
  "AuthClient_UpsertMiner Do A user miner openMining s =
     (case addr_NewFromString A miner of
        Inl e \<Rightarrow> (s, Inl (Msg (''invalid miner address:'' @ miner)))
      | Inr _ \<Rightarrow>
     (case addr_NewFromString A miner of
        Inl e \<Rightarrow> (s, Inl e)
      | Inr mAddr \<Rightarrow> rest_result as_bool
          (Do (rest_body ''POST'' ''/user/miner/add''
             (J_UpsertMiner \<lparr>um_User = user, um_Miner = mAddr, um_OpenMining = Some openMining\<rparr>)) s)))"

definition AuthClient_HasMiner ::
  "('s, 'a) rest \<Rightarrow> 'a addr_lib \<Rightarrow> 'a \<Rightarrow> 's \<Rightarrow> 's \<times> bool res" where
  "AuthClient_HasMiner Do A miner s =
     rest_result as_bool (Do (rest_query ''GET'' ''/miner/has'' [(''miner'', addr_String A miner)]) s)"

definition AuthClient_MinerExistInUser ::
  "('s, 'a) rest \<Rightarrow> 'a addr_lib \<Rightarrow> string \<Rightarrow> 'a \<Rightarrow> 's \<Rightarrow> 's \<times> bool res" where
  "AuthClient_MinerExistInUser Do A user miner s =
     rest_result as_bool (Do (rest_query ''GET'' ''/user/miner/exist'' [(''miner'', addr_String A miner), (''user'', user)]) s)"

definition AuthClient_ListMiners ::
  "('s, 'a) rest \<Rightarrow> string \<Rightarrow> 's \<Rightarrow> 's \<times> 'a outputMiner list res" where
  "AuthClient_ListMiners Do user s =
     rest_result as_miners (Do (rest_query ''GET'' ''/user/miner/list'' [(''user'', user)]) s)"

definition AuthClient_DelMiner :: "('s, 'a) rest \<Rightarrow> 'a addr_lib \<Rightarrow> string \<Rightarrow> 's \<Rightarrow> 's \<times> bool res" where
  "AuthClient_DelMiner Do A miner s =
     (case addr_NewFromString A miner of
        Inl e \<Rightarrow> (s, Inl (Msg (''invalid miner address:'' @ miner)))
      | Inr _ \<Rightarrow>
     (case addr_NewFromString A miner of
        Inl e \<Rightarrow> (s, Inl e)
      | Inr mAddr \<Rightarrow> rest_result as_bool (Do (rest_body ''POST'' ''/user/miner/del'' (J_Miner mAddr)) s)))"

definition AuthClient_GetUserByMiner ::
  "('s, 'a) rest \<Rightarrow> 'a addr_lib \<Rightarrow> 'a \<Rightarrow> 's \<Rightarrow> 's \<times> outputUser res" where
  "AuthClient_GetUserByMiner Do A miner s =
     rest_result as_outputUser (Do (rest_query ''GET'' ''/user/miner'' [(''miner'', addr_String A miner)]) s)"

text \<open>
  The users with their miners: a user whose miners cannot be listed is left with none, and the
  error is only logged. The miners carry the zero time.
\<close>

record 'a outputUser_miners = outputUser +
  ou_Miners :: "'a outputMiner list option"

fun with_miners_loop ::
  "('s, 'a) rest \<Rightarrow> outputUser list \<Rightarrow> 's \<Rightarrow> 's \<times> 'a outputUser_miners list" where
  "with_miners_loop Do [] s = (s, [])"
| "with_miners_loop Do (user # rest) s =
     (case AuthClient_ListMiners Do (ou_Name user) s of
        (s, r) \<Rightarrow>
          (let miners = (case r of
                 Inl e \<Rightarrow> None
               | Inr ms \<Rightarrow> Some (map (\<lambda>val. outputMiner_base.extend
                   \<lparr>om_User = ou_Name user, om_OpenMining = om_OpenMining val,
                    om_CreatedAt = zero_time, om_UpdatedAt = zero_time\<rparr>
                   (outputMiner.fields (om_Miner val))) ms))
           in case with_miners_loop Do rest s of
                (s, us) \<Rightarrow> (s, outputUser.extend user (outputUser_miners.fields miners) # us)))"

definition AuthClient_ListUsersWithMiners ::
  "('s, 'a) rest \<Rightarrow> int \<Rightarrow> int \<Rightarrow> user_state \<Rightarrow> 's \<Rightarrow> 's \<times> 'a outputUser_miners list res" where
  "AuthClient_ListUsersWithMiners Do skip limit state s =
     (case AuthClient_ListUsers Do skip limit state s of
        (s, Inl e) \<Rightarrow> (s, Inl e)
      | (s, Inr resp) \<Rightarrow> (case with_miners_loop Do resp s of (s, us) \<Rightarrow> (s, Inr us)))"

section \<open>Signers\<close>

definition AuthClient_RegisterSigners ::
  "('s, 'a) rest \<Rightarrow> string \<Rightarrow> 'a list \<Rightarrow> 's \<Rightarrow> 's \<times> unit res" where
  "AuthClient_RegisterSigners Do user addrs s =
     rest_result (\<lambda>_. ()) (Do (rest_body ''POST'' ''/user/signer/register'' (J_Signers \<lparr>sr_User = user, sr_Signers = addrs\<rparr>)) s)"

definition AuthClient_SignerExistInUser ::
  "('s, 'a) rest \<Rightarrow> 'a addr_lib \<Rightarrow> string \<Rightarrow> 'a \<Rightarrow> 's \<Rightarrow> 's \<times> bool res" where
  "AuthClient_SignerExistInUser Do A user signer s =
     rest_result as_bool (Do (rest_query ''GET'' ''/user/signer/exist'' [(''signer'', addr_String A signer), (''user'', user)]) s)"

definition AuthClient_ListSigners ::
  "('s, 'a) rest \<Rightarrow> string \<Rightarrow> 's \<Rightarrow> 's \<times> 'a outputSigner list res" where
  "AuthClient_ListSigners Do user s =
     rest_result as_signers (Do (rest_query ''GET'' ''/user/signer/list'' [(''user'', user)]) s)"

definition AuthClient_UnregisterSigners ::
  "('s, 'a) rest \<Rightarrow> string \<Rightarrow> 'a list \<Rightarrow> 's \<Rightarrow> 's \<times> unit res" where
  "AuthClient_UnregisterSigners Do user addrs s =
     rest_result (\<lambda>_. ()) (Do (rest_body ''POST'' ''/user/signer/unregister'' (J_Signers \<lparr>sr_User = user, sr_Signers = addrs\<rparr>)) s)"

definition AuthClient_HasSigner ::
  "('s, 'a) rest \<Rightarrow> 'a addr_lib \<Rightarrow> 'a \<Rightarrow> 's \<Rightarrow> 's \<times> bool res" where
  "AuthClient_HasSigner Do A signer s =
     rest_result as_bool (Do (rest_query ''GET'' ''/signer/has'' [(''signer'', addr_String A signer)]) s)"

definition AuthClient_DelSigner :: "('s, 'a) rest \<Rightarrow> 'a addr_lib \<Rightarrow> string \<Rightarrow> 's \<Rightarrow> 's \<times> bool res" where
  "AuthClient_DelSigner Do A signer s =
     (case addr_NewFromString A signer of
        Inl e \<Rightarrow> (s, Inl e)
      | Inr sAddr \<Rightarrow> rest_result as_bool (Do (rest_body ''POST'' ''/signer/del'' (J_Signer sAddr)) s))"

definition AuthClient_GetUserBySigner ::
  "('s, 'a) rest \<Rightarrow> 'a addr_lib \<Rightarrow> 'a \<Rightarrow> 's \<Rightarrow> 's \<times> outputUser list res" where
  "AuthClient_GetUserBySigner Do A signer s =
     rest_result as_users (Do (rest_query ''GET'' ''/user/signer'' [(''signer'', addr_String A signer)]) s)"

section \<open>The address of the service\<close>

text \<open>
  Multiaddresses and URLs are parameters. \<open>ma_ValueForProtocol\<close> tells whether a multiaddress has a
  component of a protocol (\<open>Inr False\<close> is \<open>ErrProtocolNotFound\<close>).
\<close>

datatype ma_protocol = P_WSS | P_HTTPS | P_WS | P_HTTP

record ('m, 'u) url_lib =
  ma_NewMultiaddr :: "string \<Rightarrow> 'm res"
  ma_DialArgs :: "'m \<Rightarrow> (string \<times> string) res"
  ma_ValueForProtocol :: "'m \<Rightarrow> ma_protocol \<Rightarrow> bool res"
  url_Parse :: "string \<Rightarrow> 'u res"
  url_Scheme :: "'u \<Rightarrow> string"
  url_setScheme :: "string \<Rightarrow> 'u \<Rightarrow> 'u"
  url_String :: "'u \<Rightarrow> string"

text \<open>The four checks, in the code's order; the last protocol found wins.\<close>

fun ma_schemes :: "('m, 'u) url_lib \<Rightarrow> 'm \<Rightarrow> string \<Rightarrow> (ma_protocol \<times> string) list \<Rightarrow> string \<Rightarrow> string res" where
  "ma_schemes L ma addr [] ret = Inr ret"
| "ma_schemes L ma addr ((p, scheme) # rest) ret =
     (case ma_ValueForProtocol L ma p of
        Inl e \<Rightarrow> Inl e
      | Inr has \<Rightarrow> ma_schemes L ma addr rest (if has then scheme @ addr else ret))"

definition ParseAddr :: "('m, 'u) url_lib \<Rightarrow> string \<Rightarrow> string res" where
  "ParseAddr L addr =
     (let ret =
        (case ma_NewMultiaddr L addr of
           Inl e \<Rightarrow> Inr addr
         | Inr ma \<Rightarrow>
             (case ma_DialArgs L ma of
                Inl e \<Rightarrow> Inl (Wrap ''parser libp2p url fail '' e)
              | Inr (_, addr) \<Rightarrow>
                  ma_schemes L ma addr [(P_WSS, ''wss://''), (P_HTTPS, ''https://''), (P_WS, ''ws://''),
                    (P_HTTP, ''http://'')] (''http://'' @ addr)))
      in case ret of
           Inl e \<Rightarrow> Inl e
         | Inr ret \<Rightarrow>
             (case url_Parse L ret of
                Inl e \<Rightarrow> Inl (Wrap ''parser address fail '' e)
              | Inr u \<Rightarrow>
                  if url_Scheme L u = ''ws'' then Inr (url_String L (url_setScheme L ''http'' u))
                  else if url_Scheme L u = ''wss'' then Inr (url_String L (url_setScheme L ''https'' u))
                  else if url_Scheme L u = [] then Inr (url_String L (url_setScheme L ''https'' u))
                  else if url_Scheme L u = ''http'' \<or> url_Scheme L u = ''https'' then Inr (url_String L u)
                  else Inl (Msg (''invalid scheme '' @ url_Scheme L u))))"

lemma ParseAddr_scheme:
  assumes "ParseAddr L addr = Inr s"
  shows "\<exists>u. s = url_String L u \<and> (url_Scheme L u \<in> {''http'', ''https''} \<or>
    (\<exists>u'. u = url_setScheme L ''http'' u' \<and> url_Scheme L u' = ''ws'') \<or>
    (\<exists>u'. u = url_setScheme L ''https'' u' \<and> url_Scheme L u' \<in> {''wss'', []}))"
  using assms by (auto simp: ParseAddr_def Let_def split: sum.splits prod.splits if_splits)

record auth_client =
  cli_HostURL :: string
  cli_Authorization :: string

definition NewAuthClient :: "('m, 'u) url_lib \<Rightarrow> string \<Rightarrow> string \<Rightarrow> auth_client res" where
  "NewAuthClient L addr token =
     (if length token = 0 then Inl (Msg ''token is empty'')
      else case ParseAddr L addr of
             Inl e \<Rightarrow> Inl (Wrap (''parse addr '' @ addr @ '': '') e)
           | Inr url \<Rightarrow> Inr \<lparr>cli_HostURL = url, cli_Authorization = ''Bearer '' @ token\<rparr>)"

section \<open>Every request of the client has a handler\<close>

text \<open>A network that only records the requests.\<close>

definition spy :: "('a rest_request list, 'a) rest" where
  "spy rq s = (s @ [rq], Inl (External ''no answer''))"

definition leads_to :: "('a rest_request list \<Rightarrow> 'a rest_request list \<times> 'r) \<Rightarrow> handler \<Rightarrow> bool" where
  "leads_to call h \<longleftrightarrow> (\<exists>rq. fst (call []) = [rq] \<and> route (rr_Method rq) (rr_Path rq) = Some h)"

lemma route_code:
  "route m p = (case find (\<lambda>(m', p', h). m' = m \<and> p' = p) routes of None \<Rightarrow> None | Some (_, _, h) \<Rightarrow> Some h)"
proof -
  have "map_of (map (\<lambda>(m, q, h). ((m, q), h)) rs) (m, p) =
      (case find (\<lambda>(m', p', h). m' = m \<and> p' = p) rs of None \<Rightarrow> None | Some (_, _, h) \<Rightarrow> Some h)" for rs
    by (induction rs) (auto split: prod.split)
  then show ?thesis by (simp add: route_def)
qed

end
