(* ===== verification/System.thy ===== *)
theory System
  imports Route
begin

text \<open>
  The system as a whole: a request is a step, and a run is a sequence of requests. Proved on any
  store that meets the contract: what the answer and the effect of a request without a valid
  token are, who can change what, and the invariants of every reachable state.
\<close>

section \<open>Who is calling\<close>

text \<open>The context the middleware makes of a verified payload.\<close>

definition caller_ctx :: "ctx \<Rightarrow> jwt_payload \<Rightarrow> ctx" where
  "caller_ctx c pl =
     (let c = CtxWithPerm c (pl_Perm pl) in if pl_Name pl \<noteq> [] then CtxWithName c (pl_Name pl) else c)"

lemma caller_ctx_get [simp]:
  "grants (caller_ctx c pl) p \<longleftrightarrow> p \<in> set (AdaptOldStrategy (pl_Perm pl))"
  "CtxGetName (caller_ctx ctx_Background pl) = (if pl_Name pl = [] then None else Some (pl_Name pl))"
  by (simp_all add: caller_ctx_def Let_def)

text \<open>The payload of a request's token, when the token verifies.\<close>

definition verified :: "('a, 'db) service \<Rightarrow> http_request \<Rightarrow> 'db \<Rightarrow> jwt_payload option" where
  "verified srv rq s =
     (case bearer_token rq of
        None \<Rightarrow> None
      | Some token \<Rightarrow>
          (case Verify_body srv (CtxWithPerm ctx_Background PermRead) token s of
             (p, None) \<Rightarrow> p | (p, Some _) \<Rightarrow> None))"

lemma permMiddleWare_verified:
  assumes "verified srv rq (w_db w) = Some pl"
  shows "snd (permMiddleWare srv rq w) = (caller_ctx (rq_ctx rq) pl, [C_Next])"
  using assms by (auto simp: verified_def permMiddleWare_def app_verify_def sv_Verify_def caller_ctx_def Let_def
      split: option.splits prod.splits)

lemma permMiddleWare_refused:
  assumes "verified srv rq (w_db w) = None"
  obtains calls where "snd (permMiddleWare srv rq w) = (rq_ctx rq, calls)"
    and "C_Next \<notin> set calls" "\<not> list_ex is_success calls"
proof -
  have "\<exists>calls. snd (permMiddleWare srv rq w) = (rq_ctx rq, calls) \<and> C_Next \<notin> set calls \<and> \<not> list_ex is_success calls"
  proof (cases "bearer_token rq")
    case None
    then show ?thesis by (simp add: permMiddleWare_def)
  next
    case (Some token)
    obtain p e where v: "Verify_body srv (CtxWithPerm ctx_Background PermRead) token (w_db w) = (p, e)"
      by fastforce
    show ?thesis
    proof (cases e)
      case None
      with assms Some v have "p = None" by (simp add: verified_def)
      with None Some v show ?thesis by (simp add: permMiddleWare_def app_verify_def sv_Verify_def)
    next
      case (Some e')
      with \<open>bearer_token rq = Some token\<close> v show ?thesis
        by (simp add: permMiddleWare_def app_verify_def sv_Verify_def split: option.split)
    qed
  qed
  then show thesis using that by blast
qed

text \<open>What the middleware calls then: one header, or a panic.\<close>

lemma permMiddleWare_calls:
  assumes "verified srv rq (w_db w) = None"
  obtains calls where "snd (permMiddleWare srv rq w) = (rq_ctx rq, calls)"
    and "calls = [C_WriteHeader 401] \<or> (\<exists>e. calls = [C_Panic e])"
proof -
  have "fst (snd (permMiddleWare srv rq w)) = rq_ctx rq \<and> (snd (snd (permMiddleWare srv rq w)) = [C_WriteHeader 401] \<or>
      (\<exists>e. snd (snd (permMiddleWare srv rq w)) = [C_Panic e]))"
    using assms by (auto simp: permMiddleWare_def verified_def app_verify_def sv_Verify_def
        split: option.split option.splits prod.splits)
  then show thesis using that by (metis prod.collapse)
qed

lemma permMiddleWare_db [simp]: "w_db (fst (permMiddleWare srv rq w)) = w_db w"
  by (auto simp: permMiddleWare_def app_verify_def Let_def dest: Verify_db_eq split: option.split prod.split)

text \<open>
  A request without a token that verifies changes nothing and is not answered with a success,
  whether or not gin goes on to the handler; only the health check and the version are open.
\<close>

lemma serve_refused:
  assumes "rq_ctx rq = ctx_Background" and "verified srv rq (w_db w) = None"
    and "handler_of req \<noteq> H_healthcheck" "handler_of req \<noteq> H_version"
  shows "w_db (fst (serve srv ver go_on E rq req w)) = w_db w"
    and "\<not> list_ex is_success (snd (serve srv ver go_on E rq req w))"
proof -
  obtain calls where m: "snd (permMiddleWare srv rq w) = (ctx_Background, calls)" "\<not> list_ex is_success calls"
    using permMiddleWare_refused [OF assms(2)] assms(1) by metis
  define w1 where "w1 = fst (permMiddleWare srv rq w)"
  have mw: "permMiddleWare srv rq w = (w1, ctx_Background, calls)" using m(1) by (simp add: prod_eq_iff w1_def)
  have "w_db w1 = w_db w" by (simp add: w1_def)
  note h = handle_anonymous [of ctx_Background req srv ver E w1, OF ctx_get_set(10,11) assms(3,4)]
  show "w_db (fst (serve srv ver go_on E rq req w)) = w_db w"
    using h(1) \<open>w_db w1 = w_db w\<close> by (simp add: serve_def mw case_prod_beta)
  show "\<not> list_ex is_success (snd (serve srv ver go_on E rq req w))"
    using h(2) m(2) by (simp add: serve_def mw case_prod_beta)
qed

lemma serve_verified:
  assumes "verified srv rq (w_db w) = Some pl"
  shows "serve srv ver go_on E rq req w =
    (fst (handle srv ver E (caller_ctx (rq_ctx rq) pl) req (fst (permMiddleWare srv rq w))),
     C_Next # snd (handle srv ver E (caller_ctx (rq_ctx rq) pl) req (fst (permMiddleWare srv rq w))))"
proof -
  obtain w1 where "permMiddleWare srv rq w = (w1, caller_ctx (rq_ctx rq) pl, [C_Next])"
    using permMiddleWare_verified [OF assms] by (metis prod.collapse)
  then show ?thesis by (simp add: serve_def case_prod_beta)
qed

section \<open>Runs\<close>

inductive served :: "('a, 'db) service \<Rightarrow> string \<Rightarrow> 'db world \<Rightarrow> 'db world \<Rightarrow> bool"
  for srv ver w0 where
  start: "served srv ver w0 w0"
| request: "served srv ver w0 w \<Longrightarrow> valid_request req \<Longrightarrow>
    served srv ver w0 (fst (serve srv ver go_on E rq req w))"

context service_safe
begin

lemma serve_keeps:
  assumes "sys_ok I view (sv_jwt srv) (w_db w)" and "valid_request req"
  shows "sys_ok I view (sv_jwt srv) (w_db (fst (serve srv ver go_on E rq req w)))"
  using assms handle_keeps [of "fst (permMiddleWare srv rq w)" req]
  by (auto simp: serve_def case_prod_beta)

lemma served_ok:
  "served srv ver w0 w \<Longrightarrow> sys_ok I view (sv_jwt srv) (w_db w0) \<Longrightarrow> sys_ok I view (sv_jwt srv) (w_db w)"
  by (induction rule: served.induct) (simp_all add: serve_keeps)

end

context service_reads
begin

lemma handle_changes:
  assumes "I (w_db w)" and "\<not> grants c PermAdmin"
    and "w_db (fst (handle srv ver E c req w)) \<noteq> w_db w"
  obtains n where "CtxGetName c = Some n" and "owns_target (sv_jwt srv) (view (w_db w)) n req"
proof -
  obtain e where adm: "permCheck c PermAdmin = Inl e"
    by (rule permCheck_cases [of c PermAdmin]) (use assms(2) in auto)
  have tok: "tokenPermCheck (sv_jwt srv) c t = Inr () \<Longrightarrow>
      \<exists>n. CtxGetName c = Some n \<and> JwtUserFromToken (sv_jwt srv) t = Inr n" for t
    using assms(2) by (auto simp: tokenPermCheck_iff)
  have "\<exists>n. CtxGetName c = Some n \<and> owns_target (sv_jwt srv) (view (w_db w)) n req"
  proof (cases req)
    case (RVerify b)
    then have "w_db (fst (handle srv ver E c req w)) = w_db w"
      by (auto simp: app_Verify_def dest: Verify_db_eq split: prod.split option.split)
    with assms(3) show ?thesis by simp
  next
    case (RRemoveToken b)
    with assms(3) tok [of "fst b"] show ?thesis
      by (cases "tokenPermCheck (sv_jwt srv) c (fst b)")
        (auto simp: app_defs sv_RemoveToken_def case_prod_beta split: option.splits)
  next
    case (RRecoverToken b)
    with assms(3) tok [of "fst b"] show ?thesis
      by (cases "tokenPermCheck (sv_jwt srv) c (fst b)")
        (auto simp: app_defs sv_RecoverToken_def case_prod_beta split: option.splits)
  next
    case (RDeleteMiner b)
    then have "ownerOfMinerCheck c (\<lambda>a n. st_MinerExistInUser (sv_store srv) a n (w_db w)) (fst b) = Inr ()"
      using assms(3) adm by (cases "ownerOfMinerCheck c (\<lambda>a n. st_MinerExistInUser (sv_store srv) a n (w_db w)) (fst b)")
        (simp_all add: app_defs sv_DelMiner_def)
    then show ?thesis
      using RDeleteMiner by (simp add: miner_checker.ownerOfMinerCheck_iff [OF assms(1)])
  next
    case (RDelSigner b)
    then have "ownerOfSignerCheck c (\<lambda>a n. st_SignerExistInUser (sv_store srv) a n (w_db w)) (fst b) = Inr ()"
      using assms(3) adm by (cases "ownerOfSignerCheck c (\<lambda>a n. st_SignerExistInUser (sv_store srv) a n (w_db w)) (fst b)")
        (simp_all add: app_defs sv_DelSigner_def)
    then show ?thesis
      using RDelSigner by (simp add: signer_checker.ownerOfSignerCheck_iff [OF assms(1)])
  qed (use assms(3) adm in \<open>simp_all add: app_defs admin_guards split: prod.splits option.splits\<close>)
  then show thesis using that by blast
qed

text \<open>
  A request that changes the store bears a stored token that has not been removed, and is an
  administrator's or concerns something its user owns.
\<close>

lemma serve_changes:
  assumes ok: "sys_ok I view (sv_jwt srv) (w_db w)" and J: "jwt_ok (sv_jwt srv) marshal"
    and rq: "rq_ctx rq = ctx_Background"
    and changed: "w_db (fst (serve srv ver go_on E rq req w)) \<noteq> w_db w"
  obtains tk kp where "bearer_token rq = Some tk" "a_token (view (w_db w)) tk = Some kp"
    and "kp_Perm kp = PermAdmin \<or> owns_target (sv_jwt srv) (view (w_db w)) (kp_Name kp) req"
proof -
  have "handler_of req \<noteq> H_healthcheck \<and> handler_of req \<noteq> H_version"
    using changed by (cases req) (auto simp: serve_def case_prod_beta split: if_splits)
  then obtain pl where pl: "verified srv rq (w_db w) = Some pl"
    using changed serve_refused(1) [OF rq, of srv w req] by (cases "verified srv rq (w_db w)") auto
  then obtain tk where tk: "bearer_token rq = Some tk"
    "Verify_body srv (CtxWithPerm ctx_Background PermRead) tk (w_db w) = (Some pl, None)"
    by (auto simp: verified_def split: option.splits prod.splits)
  obtain kp where kp: "a_token (view (w_db w)) tk = Some kp"
    by (rule Verify_accepts [OF sys_okD(1) [OF ok] J tk(2)])
  then have "signed_token (sv_jwt srv) kp" using sys_okD(3) [OF ok] by (auto simp: live_Some dest: tokens_okD)
  from Verify_signed [OF sys_okD(1) [OF ok] J _ kp this, of "CtxWithPerm ctx_Background PermRead"] tk(2)
  have payload: "pl = kp_payload kp" by (simp add: read_in_Adapt IsValid_iff)
  let ?c = "caller_ctx ctx_Background pl" and ?w = "fst (permMiddleWare srv rq w)"
  have "kp_Perm kp = PermAdmin \<or> owns_target (sv_jwt srv) (view (w_db w)) (kp_Name kp) req"
  proof (cases "grants ?c PermAdmin")
    case True
    then show ?thesis by (simp add: admin_in_Adapt payload kp_payload_def)
  next
    case False
    have "I (w_db ?w)" "w_db (fst (handle srv ver E ?c req ?w)) \<noteq> w_db ?w"
      using sys_okD(1) [OF ok] changed serve_verified [OF pl, of ver go_on E req] rq by simp_all
    with False obtain n where "CtxGetName ?c = Some n" "owns_target (sv_jwt srv) (view (w_db ?w)) n req"
      by (metis handle_changes)
    then show ?thesis by (simp add: payload kp_payload_def split: if_splits)
  qed
  with tk(1) kp show thesis by (rule that)
qed

text \<open>A stored token that has not been removed gets its request through the middleware.\<close>

lemma token_verified:
  assumes ok: "sys_ok I view (sv_jwt srv) (w_db w)" and J: "jwt_ok (sv_jwt srv) marshal"
    and tk: "bearer_token rq = Some tk" "a_token (view (w_db w)) tk = Some kp"
  shows "verified srv rq (w_db w) = Some (kp_payload kp)"
proof -
  have "signed_token (sv_jwt srv) kp"
    using tk(2) sys_okD(3) [OF ok] by (auto simp: live_Some dest: tokens_okD)
  then have "Verify_body srv (CtxWithPerm ctx_Background PermRead) tk (w_db w) = (Some (kp_payload kp), None)"
    by (intro Verify_signed [OF sys_okD(1) [OF ok] J _ tk(2)]) (simp_all add: read_in_Adapt IsValid_iff)
  with tk(1) show ?thesis by (simp add: verified_def)
qed

end

context service_on
begin

text \<open>
  An administrator can get a token for any user there is: the request for one, when the signature
  does not fail, leaves it in the store, and requests with it get through as that user.
\<close>

lemma serve_GenerateToken:
  fixes pl :: jwt_payload
  defines "req \<equiv> RGenerateToken (\<lparr>gt_Name = pl_Name pl, gt_Perm = pl_Perm pl, gt_Extra = pl_Extra pl\<rparr>, None)"
  assumes ok: "sys_ok I view (sv_jwt srv) (w_db w)" and J: "jwt_ok (sv_jwt srv) marshal"
    and caller: "bearer_token rq = Some atk" "a_token (view (w_db w)) atk = Some akp" "kp_Perm akp = PermAdmin"
    and user: "a_user (view (w_db w)) (pl_Name pl) \<noteq> None" and pl: "utf8_payload pl"
    and sign: "ce_rand E = Inr secret" "jwt_Sign (sv_jwt srv) pl secret = Inr tk"
    and next_rq: "bearer_token rq' = Some tk"
  shows "valid_request req"
    and "snd (serve srv ver go_on E rq req w) = C_Next # answer BToken (Inr tk)"
    and "verified srv rq' (w_db (fst (serve srv ver go_on E rq req w))) = Some pl"
proof -
  let ?w = "fst (permMiddleWare srv rq w)" and ?c = "caller_ctx (rq_ctx rq) (kp_payload akp)"
  have w: "w_db ?w = w_db w" by simp
  have adm: "grants ?c PermAdmin" using caller(3) by (simp add: kp_payload_def admin_in_Adapt)
  then have "permCheck ?c PermAdmin = Inr ()" by (simp add: permCheck_iff)
  moreover have "snd (st_Put (sv_store srv) kp (w_db w)) = Inr ()" for kp
    using Put [OF sys_okD(1) [OF ok], of kp] by (auto simp: refines_def spec_Put_def)
  ultimately have gen: "snd (sv_GenerateToken srv E ?c pl ?w) = Inr tk"
    using user by (simp add: sv_GenerateToken_def HasUser [OF sys_okD(1) [OF ok]] Has [OF sys_okD(1) [OF ok]]
        sign case_prod_beta)
  have eta: "\<lparr>pl_Name = pl_Name pl, pl_Perm = pl_Perm pl, pl_Extra = pl_Extra pl\<rparr> = pl" by (cases pl) simp
  have run: "serve srv ver go_on E rq req w =
      (fst (sv_GenerateToken srv E ?c pl ?w), C_Next # answer BToken (Inr tk))"
    using serve_verified [OF token_verified [OF ok J caller(1,2)], of ver go_on E req] gen
    by (simp add: req_def app_GenerateToken_def case_prod_beta eta)
  then show "snd (serve srv ver go_on E rq req w) = C_Next # answer BToken (Inr tk)" by simp
  show "valid_request req" using pl by (simp add: req_def eta)
  note I = sys_okD(1) [OF ok, folded w]
  have tok: "\<exists>kp. a_token (view (w_db (fst (sv_GenerateToken srv E ?c pl ?w)))) tk = Some kp"
    by (rule GenerateToken_ok [OF I gen], cases "a_token (view (w_db ?w)) tk")
      (auto simp: KeyPair_isDeleted_def NotDelete_def Deleted_def)
  then obtain kp where kp: "a_token (view (w_db (fst (sv_GenerateToken srv E ?c pl ?w)))) tk = Some kp" by blast
  have ok': "sys_ok I view (sv_jwt srv) (w_db (fst (sv_GenerateToken srv E ?c pl ?w)))"
    by (rule GenerateToken_keeps [OF _ pl]) (simp add: ok)
  then have "signed_token (sv_jwt srv) kp" "kp_Token kp = tk"
    using kp sys_okD(3) [OF ok'] token_keyed [OF sys_okD(1) [OF ok']] by (auto simp: live_Some dest: tokens_okD)
  then have "kp_payload kp = pl"
    using signed_token_reads(1) [OF J] DecodeToken_signed(1) [OF J sign(2) pl] by fastforce
  with token_verified [OF ok' J next_rq kp] show "verified srv rq' (w_db (fst (serve srv ver go_on E rq req w))) = Some pl"
    by (simp add: run)
qed

end

end
