(* ===== verification/Client_Server.thy ===== *)
theory Client_Server
  imports Auth_Client System
begin

text \<open>
  The client and the service joined by a network, and what the services behind \<open>AuthMux\<close> get out
  of asking over it. What gin's router and binding make of a request, and what the client's HTTP
  library reads of the calls the handlers made, are the parameter \<open>wire\<close>; \<open>wire_ok\<close> is their
  documented behaviour, on the requests and answers used here. Proved: the ownership questions
  are answered as the store stands, and a token verifies remotely just as it does on the service.
\<close>

section \<open>The network\<close>

record 'a wire =
  wi_bind :: "'a rest_request \<Rightarrow> 'a request option"
  wi_reply :: "'a gin_call list \<Rightarrow> 'a rest_response res"

record ('a, 'db) net =
  n_srv :: "('a, 'db) service"
  n_ver :: string
  n_go_on :: bool
  n_env :: call_env
  n_wire :: "'a wire"
  n_client :: auth_client

text \<open>The client's request reaches the service with the client's header.\<close>

definition client_request :: "auth_client \<Rightarrow> http_request" where
  "client_request cl = \<lparr>rq_Authorization = cli_Authorization cl, rq_FormToken = [], rq_ctx = ctx_Background\<rparr>"

definition Do_server :: "('a, 'db) net \<Rightarrow> ('db world, 'a) rest" where
  "Do_server N rq w =
     (case wi_bind (n_wire N) rq of
        None \<Rightarrow> (w, Inl (External ''404 page not found''))
      | Some req \<Rightarrow>
          (case serve (n_srv N) (n_ver N) (n_go_on N) (n_env N) (client_request (n_client N)) req w of
             (w, calls) \<Rightarrow> (w, wi_reply (n_wire N) calls)))"

section \<open>Documented behaviour of the parameter\<close>

text \<open>Calls that write nothing of the response yet.\<close>

fun silent :: "'a gin_call \<Rightarrow> bool" where
  "silent (C_Error e) = True"
| "silent (C_Set k v) = True"
| "silent (C_WriteHeader n) = True"
| "silent C_Next = True"
| "silent call = False"

text \<open>Bodies that JSON carries over unchanged.\<close>

fun json_safe :: "'a body \<Rightarrow> bool" where
  "json_safe (BBool b) = True"
| "json_safe (BPayload p) = utf8_payload p"
| "json_safe (BString s) = utf8 s"
| "json_safe (BToken s) = utf8 s"
| "json_safe b = False"

definition wire_ok :: "'a addr_lib \<Rightarrow> 'a wire \<Rightarrow> bool" where
  "wire_ok A W \<longleftrightarrow>
     (\<forall>a u. \<not> addr_Empty A a \<longrightarrow>
        wi_bind W (rest_query ''GET'' ''/user/miner/exist'' [(''miner'', addr_String A a), (''user'', u)]) =
          Some (RMinerExistInUser (\<lparr>me_Miner = a, me_User = u\<rparr>, None)) \<and>
        wi_bind W (rest_query ''GET'' ''/user/signer/exist'' [(''signer'', addr_String A a), (''user'', u)]) =
          Some (RSignerExistInUser (\<lparr>se_Signer = a, se_User = u\<rparr>, None))) \<and>
     (\<forall>tk. tk \<noteq> [] \<longrightarrow> utf8 tk \<longrightarrow> wi_bind W (rest_body ''POST'' ''/verify'' (J_Token tk)) = Some (RVerify (tk, None))) \<and>
     (\<forall>pre n b. list_all silent pre \<longrightarrow>
        (\<exists>r. wi_reply W (pre @ [C_JSON n b]) = Inr r \<and> rs_StatusCode r = n \<and>
           (n = 200 \<longrightarrow> json_safe b \<longrightarrow> rs_Result r = Some b))) \<and>
     (\<forall>pre e. list_all silent pre \<longrightarrow> (\<exists>e'. wi_reply W (pre @ [C_Panic e]) = Inl e')) \<and>
     (\<forall>n. \<exists>r. wi_reply W [C_WriteHeader n] = Inr r \<and> rs_StatusCode r = n)"

lemma wire_okD:
  assumes "wire_ok A W"
  shows wire_miner: "\<not> addr_Empty A a \<Longrightarrow>
      wi_bind W (rest_query ''GET'' ''/user/miner/exist'' [(''miner'', addr_String A a), (''user'', u)]) =
        Some (RMinerExistInUser (\<lparr>me_Miner = a, me_User = u\<rparr>, None))"
    and wire_signer: "\<not> addr_Empty A a \<Longrightarrow>
      wi_bind W (rest_query ''GET'' ''/user/signer/exist'' [(''signer'', addr_String A a), (''user'', u)]) =
        Some (RSignerExistInUser (\<lparr>se_Signer = a, se_User = u\<rparr>, None))"
    and wire_verify: "tk \<noteq> [] \<Longrightarrow> utf8 tk \<Longrightarrow>
      wi_bind W (rest_body ''POST'' ''/verify'' (J_Token tk)) = Some (RVerify (tk, None))"
    and wire_json: "list_all silent pre \<Longrightarrow> \<exists>r. wi_reply W (pre @ [C_JSON n b]) = Inr r \<and>
      rs_StatusCode r = n \<and> (n = 200 \<longrightarrow> json_safe b \<longrightarrow> rs_Result r = Some b)"
    and wire_panic: "list_all silent pre \<Longrightarrow> \<exists>e'. wi_reply W (pre @ [C_Panic e]) = Inl e'"
    and wire_header: "\<exists>r. wi_reply W [C_WriteHeader n] = Inr r \<and> rs_StatusCode r = n"
  using assms unfolding wire_ok_def by blast+

text \<open>An answer that succeeds reaches the client with its value, any other as an error.\<close>

lemma wire_answer_ok:
  assumes "wire_ok A W" and "list_all silent pre" and "json_safe b"
  shows "\<exists>r. wi_reply W (pre @ SuccessResponse b) = Inr r \<and> rs_StatusCode r = 200 \<and> rs_Result r = Some b"
  using wire_json [OF assms(1,2), of 200 b] assms(3) by (auto simp: SuccessResponse_def)

lemma wire_answer_bad:
  assumes "wire_ok A W" and "list_all silent pre"
  shows "\<exists>r. wi_reply W (pre @ BadResponse e) = Inr r \<and> rs_StatusCode r = 400"
  using wire_json [OF assms(1), of "pre @ [C_Error e]" 400 "BError (err_Error e)"] assms(2)
  by (auto simp: BadResponse_def)

section \<open>Asking the service\<close>

text \<open>A client whose header carries the stored token of an administrator.\<close>

definition admin_client ::
  "('db \<Rightarrow> bool) \<Rightarrow> ('db \<Rightarrow> 'a astore) \<Rightarrow> jwt_lib \<Rightarrow> (jwt_payload \<Rightarrow> string) \<Rightarrow> auth_client \<Rightarrow> 'db \<Rightarrow> bool" where
  "admin_client I view J marshal cl s \<longleftrightarrow> sys_ok I view J s \<and> jwt_ok J marshal \<and>
     (\<exists>tk kp. cli_Authorization cl = ''Bearer '' @ tk \<and> a_token (view s) tk = Some kp \<and> kp_Perm kp = PermAdmin)"

text \<open>What \<open>Verify\<close> writes: one answer, a payload only when the token is accepted.\<close>

lemma app_Verify_calls:
  obtains (panic) pre e where "snd (app_Verify srv c b w) = pre @ [C_Panic e]" "list_all silent pre"
  | (json) pre n o' where "snd (app_Verify srv c b w) = pre @ [C_JSON n o']" "list_all silent pre"
      "n = 200 \<Longrightarrow> \<exists>p. o' = BPayload p \<and> Verify_body srv c (fst b) (w_db w) = (Some p, None)"
proof -
  obtain req eo where b: "b = (req, eo)" by fastforce
  obtain p e where v: "Verify_body srv c req (w_db w) = (p, e)" by fastforce
  have "(\<exists>pre e. snd (app_Verify srv c b w) = pre @ [C_Panic e] \<and> list_all silent pre) \<or>
      (\<exists>pre n o'. snd (app_Verify srv c b w) = pre @ [C_JSON n o'] \<and> list_all silent pre \<and>
        (n = 200 \<longrightarrow> (\<exists>p. o' = BPayload p \<and> Verify_body srv c req (w_db w) = (Some p, None))))"
  proof (cases eo)
    case (Some e)
    then show ?thesis
      by (intro disjI2 exI [of _ "[C_Error e]"] exI [of _ 400] exI [of _ "BError (err_Error e)"])
        (simp add: b app_Verify_def BadResponse_def)
  next
    case None
    show ?thesis
    proof (cases e)
      case None
      show ?thesis
      proof (cases p)
        case None
        with \<open>eo = None\<close> \<open>e = None\<close> v have "snd (app_Verify srv c b w) = [] @ [C_Panic (Panic ''nil pointer dereference'')]"
          by (simp add: b app_Verify_def sv_Verify_def)
        then show ?thesis by (intro disjI1 exI [of _ "[]"] exI) auto
      next
        case (Some pl)
        with \<open>eo = None\<close> \<open>e = None\<close> v have "snd (app_Verify srv c b w) = [C_Set ''name'' (pl_Name pl)] @ [C_JSON 200 (BPayload pl)]"
          by (simp add: b app_Verify_def sv_Verify_def SuccessResponse_def)
        with Some \<open>e = None\<close> v show ?thesis
          by (intro disjI2 exI [of _ "[C_Set ''name'' (pl_Name pl)]"] exI [of _ 200] exI [of _ "BPayload pl"]) simp
      qed
    next
      case (Some e')
      show ?thesis
      proof (cases "e' = ErrorNonRegisteredToken \<or> e' = ErrorVerificationFailed \<or> \<not> is_panic e'")
        case True
        define n :: nat where "n = (if e' = ErrorNonRegisteredToken \<or> e' = ErrorVerificationFailed then 401 else 400)"
        have "snd (app_Verify srv c b w) = [C_Error e'] @ [C_JSON n (BError (err_Error e'))]"
          using True \<open>eo = None\<close> Some v
          by (cases p) (auto simp: b app_Verify_def sv_Verify_def BadResponse_def n_def)
        moreover have "n \<noteq> 200" by (simp add: n_def)
        ultimately show ?thesis
          by (intro disjI2 exI [of _ "[C_Error e']"] exI [of _ n] exI [of _ "BError (err_Error e')"]) simp
      next
        case False
        with \<open>eo = None\<close> Some v have "snd (app_Verify srv c b w) = [] @ [C_Panic e']"
          by (cases p) (simp_all add: b app_Verify_def sv_Verify_def)
        then show ?thesis by (intro disjI1 exI [of _ "[]"] exI) auto
      qed
    qed
  qed
  then show thesis using that b by fastforce
qed

context service_reads
begin

lemma client_verified:
  assumes ok: "sys_ok I view (sv_jwt srv) (w_db w)" and J: "jwt_ok (sv_jwt srv) marshal"
    and tk: "cli_Authorization cl = ''Bearer '' @ tk" "a_token (view (w_db w)) tk = Some kp" "IsValid (kp_Perm kp)"
  shows "verified srv (client_request cl) (w_db w) = Some (kp_payload kp)"
  by (rule token_verified [OF ok J _ tk(2)]) (simp add: bearer_token_def client_request_def tk(1))

lemma admin_client_serve:
  assumes "admin_client I view (sv_jwt srv) marshal cl (w_db w)"
  obtains c where "grants c PermAdmin" and "snd (serve srv ver go_on E (client_request cl) req w) =
    C_Next # snd (handle srv ver E c req (fst (permMiddleWare srv (client_request cl) w)))"
proof -
  obtain tk kp where tk: "cli_Authorization cl = ''Bearer '' @ tk" "a_token (view (w_db w)) tk = Some kp"
    "kp_Perm kp = PermAdmin" using assms by (auto simp: admin_client_def)
  have "verified srv (client_request cl) (w_db w) = Some (kp_payload kp)"
    using assms tk by (intro client_verified [of w marshal]) (auto simp: admin_client_def IsValid_iff)
  then show thesis
    using tk(3) by (intro that [of "caller_ctx ctx_Background (kp_payload kp)"])
      (simp_all add: serve_verified client_request_def kp_payload_def admin_in_Adapt)
qed

lemma client_MinerExistInUser:
  assumes "admin_client I view (sv_jwt srv) marshal cl (w_db w)" and "wire_ok (sv_addr srv) W" and "\<not> addr_Empty (sv_addr srv) a"
  shows "snd (AuthClient_MinerExistInUser (Do_server
      \<lparr>n_srv = srv, n_ver = ver, n_go_on = go_on, n_env = E, n_wire = W, n_client = cl\<rparr>) (sv_addr srv) u a w) =
    Inr (a_owner (view (w_db w)) a = Some u)"
proof -
  let ?req = "RMinerExistInUser (\<lparr>me_Miner = a, me_User = u\<rparr>, None)"
  obtain c where c: "grants c PermAdmin" "snd (serve srv ver go_on E (client_request cl) ?req w) =
    C_Next # snd (handle srv ver E c ?req (fst (permMiddleWare srv (client_request cl) w)))"
    by (rule admin_client_serve [OF assms(1)])
  have "I (w_db (fst (permMiddleWare srv (client_request cl) w)))"
    using assms(1) by (simp add: admin_client_def sys_ok_def)
  then have "snd (serve srv ver go_on E (client_request cl) ?req w) =
      [C_Next] @ SuccessResponse (BBool (a_owner (view (w_db w)) a = Some u))"
    using c(2) MinerExistInUser_eq [of "fst (permMiddleWare srv (client_request cl) w)" c "\<lparr>me_Miner = a, me_User = u\<rparr>"] c(1)
    by (simp add: app_MinerExistInUser_def answer_def)
  then show ?thesis
    using wire_answer_ok [OF assms(2), of "[C_Next]" "BBool (a_owner (view (w_db w)) a = Some u)"]
    by (auto simp: AuthClient_MinerExistInUser_def Do_server_def wire_miner [OF assms(2,3)] rest_result_def case_prod_beta)
qed

lemma client_SignerExistInUser:
  assumes "admin_client I view (sv_jwt srv) marshal cl (w_db w)" and "wire_ok (sv_addr srv) W"
    and "\<not> addr_Empty (sv_addr srv) a" and "IsSignerAddress (sv_addr srv) a"
  shows "snd (AuthClient_SignerExistInUser (Do_server
      \<lparr>n_srv = srv, n_ver = ver, n_go_on = go_on, n_env = E, n_wire = W, n_client = cl\<rparr>) (sv_addr srv) u a w) =
    Inr (a_signer (view (w_db w)) a u \<noteq> None)"
proof -
  let ?req = "RSignerExistInUser (\<lparr>se_Signer = a, se_User = u\<rparr>, None)"
  obtain c where c: "grants c PermAdmin" "snd (serve srv ver go_on E (client_request cl) ?req w) =
    C_Next # snd (handle srv ver E c ?req (fst (permMiddleWare srv (client_request cl) w)))"
    by (rule admin_client_serve [OF assms(1)])
  have "I (w_db (fst (permMiddleWare srv (client_request cl) w)))"
    using assms(1) by (simp add: admin_client_def sys_ok_def)
  then have "snd (serve srv ver go_on E (client_request cl) ?req w) =
      [C_Next] @ SuccessResponse (BBool (a_signer (view (w_db w)) a u \<noteq> None))"
    using c(2) SignerExistInUser_eq [of "fst (permMiddleWare srv (client_request cl) w)" c "\<lparr>se_Signer = a, se_User = u\<rparr>"]
      c(1) assms(4) by (simp add: app_SignerExistInUser_def answer_def)
  then show ?thesis
    using wire_answer_ok [OF assms(2), of "[C_Next]" "BBool (a_signer (view (w_db w)) a u \<noteq> None)"]
    by (auto simp: AuthClient_SignerExistInUser_def Do_server_def wire_signer [OF assms(2,3)] rest_result_def case_prod_beta)
qed

text \<open>
  The remote \<open>Verify\<close>: what it accepts is a stored token that has not been removed, and the payload
  is the stored one, whatever the client's own token is; and it accepts every such token when the
  client's own is valid.
\<close>

lemma client_Verify_sound:
  assumes ok: "sys_ok I view (sv_jwt srv) (w_db w)" and J: "jwt_ok (sv_jwt srv) marshal"
    and W: "wire_ok (sv_addr srv) W" and tk: "tk \<noteq> []" "utf8 tk"
    and v: "snd (AuthClient_Verify (Do_server
      \<lparr>n_srv = srv, n_ver = ver, n_go_on = go_on, n_env = E, n_wire = W, n_client = cl\<rparr>) tk w) = Inr pl"
  shows "\<exists>kp. a_token (view (w_db w)) tk = Some kp \<and> pl = kp_payload kp"
proof -
  let ?calls = "snd (serve srv ver go_on E (client_request cl) (RVerify (tk, None)) w)"
    and ?w = "fst (permMiddleWare srv (client_request cl) w)"
  obtain r where r: "wi_reply W ?calls = Inr r" "rs_StatusCode r = 200" "pl = as_payload (rs_Result r)"
    using v by (auto simp: AuthClient_Verify_def Do_server_def wire_verify [OF W tk] case_prod_beta
        split: sum.splits if_splits)
  have payload: "\<exists>kp. a_token (view (w_db w)) tk = Some kp \<and> p = kp_payload kp \<and> json_safe (BPayload p)"
    if accepted: "Verify_body srv c tk (w_db w) = (Some p, None)" for c p
  proof -
    obtain kp where kp: "a_token (view (w_db w)) tk = Some kp" "grants c PermRead"
      using Verify_accepts [OF sys_okD(1) [OF ok] J accepted] by metis
    then have "signed_token (sv_jwt srv) kp" using sys_okD(3) [OF ok] by (auto simp: live_Some dest: tokens_okD)
    then show ?thesis
      using Verify_signed [OF sys_okD(1) [OF ok] J kp(2,1)] accepted kp(1) by (auto simp: signed_token_def)
  qed
  have answered: ?thesis if calls: "?calls = pre @ snd (app_Verify srv c (tk, None) ?w)" "list_all silent pre" for pre c
  proof (cases rule: app_Verify_calls [of srv c "(tk, None)" ?w])
    case (panic pre' e)
    then show ?thesis using wire_panic [OF W, of "pre @ pre'" e] calls r(1) by auto
  next
    case (json pre' n o')
    then obtain r' where r': "wi_reply W ?calls = Inr r'" "rs_StatusCode r' = n"
      "n = 200 \<longrightarrow> json_safe o' \<longrightarrow> rs_Result r' = Some o'"
      using wire_json [OF W, of "pre @ pre'" n o'] calls by auto
    with r have "n = 200" "r' = r" by auto
    with json obtain p where "o' = BPayload p" "Verify_body srv c tk (w_db w) = (Some p, None)" by auto
    with payload [OF this(2)] r' r(3) \<open>n = 200\<close> \<open>r' = r\<close> show ?thesis by auto
  qed
  show ?thesis
  proof (cases "verified srv (client_request cl) (w_db w)")
    case (Some p)
    have "?calls = [C_Next] @ snd (app_Verify srv (caller_ctx (rq_ctx (client_request cl)) p) (tk, None) ?w)"
      by (simp add: serve_verified [OF Some])
    then show ?thesis by (rule answered) simp
  next
    case None
    obtain calls where m: "snd (permMiddleWare srv (client_request cl) w) = (ctx_Background, calls)"
      "calls = [C_WriteHeader 401] \<or> (\<exists>e. calls = [C_Panic e])"
      using permMiddleWare_calls [OF None] by (auto simp: client_request_def)
    have mw: "permMiddleWare srv (client_request cl) w = (?w, ctx_Background, calls)"
      using m(1) by (simp add: prod_eq_iff)
    show ?thesis
    proof (cases "go_on \<and> calls = [C_WriteHeader 401]")
      case True
      then have "?calls = calls @ snd (app_Verify srv ctx_Background (tk, None) ?w)"
        by (subst serve_def, subst mw) (simp add: case_prod_beta)
      then show ?thesis by (rule answered) (use True in simp)
    next
      case False
      then have "?calls = calls" using m(2) by (subst serve_def, subst mw) auto
      moreover have "wi_reply W [C_Panic e] \<noteq> Inr r" for e
        using wire_panic [OF W, of "[]" e] by auto
      moreover have "wi_reply W [C_WriteHeader 401] \<noteq> Inr r"
        using wire_header [OF W, of 401] r(2) by auto
      ultimately show ?thesis using m(2) r(1) by auto
    qed
  qed
qed

lemma client_Verify_complete:
  assumes ok: "sys_ok I view (sv_jwt srv) (w_db w)" and J: "jwt_ok (sv_jwt srv) marshal"
    and W: "wire_ok (sv_addr srv) W" and tk: "tk \<noteq> []" "utf8 tk"
    and cl: "cli_Authorization cl = ''Bearer '' @ ct" "a_token (view (w_db w)) ct = Some ckp" "IsValid (kp_Perm ckp)"
    and kp: "a_token (view (w_db w)) tk = Some kp"
  shows "snd (AuthClient_Verify (Do_server
      \<lparr>n_srv = srv, n_ver = ver, n_go_on = go_on, n_env = E, n_wire = W, n_client = cl\<rparr>) tk w) = Inr (kp_payload kp)"
proof -
  let ?w = "fst (permMiddleWare srv (client_request cl) w)"
    and ?c = "caller_ctx ctx_Background (kp_payload ckp)"
  have signed: "signed_token (sv_jwt srv) kp" using kp sys_okD(3) [OF ok] by (auto simp: live_Some dest: tokens_okD)
  have "Verify_body srv ?c tk (w_db ?w) = (Some (kp_payload kp), None)"
    using Verify_signed [OF sys_okD(1) [OF ok] J _ kp signed, of ?c] cl(3)
    by (simp add: kp_payload_def read_in_Adapt)
  then have "snd (serve srv ver go_on E (client_request cl) (RVerify (tk, None)) w) =
      [C_Next, C_Set ''name'' (pl_Name (kp_payload kp))] @ SuccessResponse (BPayload (kp_payload kp))"
    using serve_verified [OF client_verified [OF ok J cl]]
    by (simp add: client_request_def app_Verify_def sv_Verify_def)
  moreover have "json_safe (BPayload (kp_payload kp))" using signed by (simp add: signed_token_def)
  ultimately obtain r where "wi_reply W (snd (serve srv ver go_on E (client_request cl) (RVerify (tk, None)) w)) = Inr r"
    "rs_StatusCode r = 200" "rs_Result r = Some (BPayload (kp_payload kp))"
    using wire_answer_ok [OF W, of "[C_Next, C_Set ''name'' (pl_Name (kp_payload kp))]"] by fastforce
  then show ?thesis
    by (simp add: AuthClient_Verify_def Do_server_def wire_verify [OF W tk] case_prod_beta)
qed

end

end
