(* ===== verification/Gauges.thy ===== *)
theory Gauges
  imports System
begin

text \<open>
  The gauges of core/metrics.go: how \<open>NewOAuthService\<close> (auth/jwt.go, lines 89-136) sets them, and what
  they say while requests are served. Proved on any store that meets the contract: the token gauge
  of a permission is the number of stored tokens with it that have not been removed, at the start
  and after every request. The user gauge is not exact: it is set from a page of one user.
\<close>

section \<open>The start of the service\<close>

text \<open>The counters are Go maps; \<open>++\<close> is on \<open>int64\<close>.\<close>

definition count_up :: "('k \<rightharpoonup> int) \<Rightarrow> 'k \<Rightarrow> 'k \<rightharpoonup> int" where
  "count_up m k = m(k \<mapsto> i64 ((case m k of None \<Rightarrow> 0 | Some n \<Rightarrow> n) + 1))"

definition tokenCount :: "key_pair list \<Rightarrow> (permission \<rightharpoonup> int)" where
  "tokenCount tokens = foldl (\<lambda>m token. count_up m (kp_Perm token))
     [PermRead \<mapsto> 0, PermWrite \<mapsto> 0, PermSign \<mapsto> 0, PermAdmin \<mapsto> 0] tokens"

definition userCount :: "user list \<Rightarrow> (user_state \<rightharpoonup> int)" where
  "userCount users = foldl (\<lambda>m user. count_up m (usr_State user))
     [UserStateUndefined \<mapsto> 0, UserStateEnabled \<mapsto> 0, UserStateDisabled \<mapsto> 0] users"

text \<open>The loops over the counters, in the order in which Go visits the map.\<close>

fun set_gauges :: "('k \<Rightarrow> int \<Rightarrow> metric) \<Rightarrow> ('k \<rightharpoonup> int) \<Rightarrow> 'k list \<Rightarrow> 'db world \<Rightarrow> 'db world" where
  "set_gauges mk m [] w = w"
| "set_gauges mk m (k # ks) w =
     set_gauges mk m ks (case m k of None \<Rightarrow> w | Some n \<Rightarrow> emit (mk k n) w)"

definition NewOAuthService ::
  "(('a, 'db) store_ops \<times> 'db) res \<Rightarrow> (('a, 'db) store_ops \<times> 'db) res \<Rightarrow> 'a addr_lib \<Rightarrow> jwt_lib \<Rightarrow>
     ((permission \<rightharpoonup> int) \<Rightarrow> permission list) \<Rightarrow> ((user_state \<rightharpoonup> int) \<Rightarrow> user_state list) \<Rightarrow>
     time \<Rightarrow> string \<Rightarrow> (('a, 'db) service \<times> 'db world) res option" where
  "NewOAuthService newMySQLStore newBadgerStore A J rng_perm rng_state now cnfType =
     (case NewStore newMySQLStore newBadgerStore now cnfType of
        None \<Rightarrow> None
      | Some (Inl e) \<Rightarrow> Some (Inl e)
      | Some (Inr (S, s)) \<Rightarrow> Some
     (case st_List S 0 0 s of
        Inl e \<Rightarrow> Inl (Wrap ''check token: '' e)
      | Inr tokens \<Rightarrow>
     (let w = set_gauges TokenGauge_Set (tokenCount tokens) (rng_perm (tokenCount tokens))
                \<lparr>w_db = s, w_metrics = []\<rparr> in
      case st_ListUsers S 0 1 UserStateUndefined s of
        Inl e \<Rightarrow> Inl (Wrap ''check user: '' e)
      | Inr users \<Rightarrow>
          Inr (\<lparr>sv_store = S, sv_addr = A, sv_jwt = J\<rparr>,
               set_gauges (\<lambda>state n. UserGauge_Set (UserState_String state) n) (userCount users)
                 (rng_state (userCount users)) w))))"

section \<open>The value of a gauge\<close>

text \<open>The last value set, and what has been added since.\<close>

definition token_step :: "permission \<Rightarrow> int \<Rightarrow> metric \<Rightarrow> int" where
  "token_step p g m = (case m of TokenGauge_Set q n \<Rightarrow> if q = p then n else g
     | TokenGauge_Inc q n \<Rightarrow> if q = p then g + n else g | _ \<Rightarrow> g)"

definition token_gauge :: "'db world \<Rightarrow> permission \<Rightarrow> int" where
  "token_gauge w p = foldl (token_step p) 0 (w_metrics w)"

definition user_step :: "string \<Rightarrow> int \<Rightarrow> metric \<Rightarrow> int" where
  "user_step u g m = (case m of UserGauge_Set q n \<Rightarrow> if q = u then n else g
     | UserGauge_Inc q n \<Rightarrow> if q = u then g + n else g | _ \<Rightarrow> g)"

definition user_gauge :: "'db world \<Rightarrow> string \<Rightarrow> int" where
  "user_gauge w u = foldl (user_step u) 0 (w_metrics w)"

lemma gauge_emit [simp]:
  "token_gauge (emit m w) p = token_step p (token_gauge w p) m"
  "user_gauge (emit m w) u = user_step u (user_gauge w u) m"
  by (simp_all add: token_gauge_def user_gauge_def emit_def)

lemma gauge_db [simp]: "token_gauge (w\<lparr>w_db := s\<rparr>) p = token_gauge w p"
  by (simp add: token_gauge_def)

lemma token_step_simps [simp]:
  "token_step p g (TokenGauge_Set q n) = (if q = p then n else g)"
  "token_step p g (TokenGauge_Inc q n) = (if q = p then g + n else g)"
  "token_step p g (UserGauge_Set u n) = g" "token_step p g (UserGauge_Inc u n) = g"
  "token_step p g (TokenVerifyCounter_Tick t b) = g"
  by (simp_all add: token_step_def)

lemma set_gauges_db [simp]: "w_db (set_gauges mk m ks w) = w_db w"
  by (induction mk m ks w rule: set_gauges.induct) (simp_all split: option.split)

lemma set_gauges_token:
  "token_gauge (set_gauges TokenGauge_Set m ks w) p =
     (case m p of None \<Rightarrow> token_gauge w p | Some n \<Rightarrow> if p \<in> set ks then n else token_gauge w p)"
  by (induction ks arbitrary: w) (auto split: option.split)

lemma set_gauges_user_token [simp]:
  "token_gauge (set_gauges (\<lambda>x n. UserGauge_Set (f x) n) m ks w) p = token_gauge w p"
  by (induction ks arbitrary: w) (auto split: option.split)

lemma set_gauges_token_user [simp]:
  "user_gauge (set_gauges TokenGauge_Set m ks w) u = user_gauge w u"
  by (induction ks arbitrary: w) (auto simp: user_step_def split: option.split)

lemma set_gauges_user_le:
  assumes "\<And>k n. m k = Some n \<Longrightarrow> n \<le> b"
  shows "user_gauge w u \<le> b \<Longrightarrow> user_gauge (set_gauges (\<lambda>x n. UserGauge_Set (f x) n) m ks w) u \<le> b"
  using assms by (induction ks arbitrary: w) (auto simp: user_step_def split: option.split)

section \<open>Counting\<close>

lemma foldl_count_up:
  assumes "\<forall>k. case m k of None \<Rightarrow> True | Some n \<Rightarrow> 0 \<le> n \<and> n + int (length xs) < 2 ^ 63"
    and "length xs < 2 ^ 63"
  shows "foldl (\<lambda>m x. count_up m (f x)) m xs k =
    (if m k = None \<and> k \<notin> f ` set xs then None
     else Some ((case m k of None \<Rightarrow> 0 | Some n \<Rightarrow> n) + int (length (filter (\<lambda>x. f x = k) xs))))"
  using assms
proof (induction xs arbitrary: m)
  case Nil
  then show ?case by (simp split: option.split)
next
  case (Cons x xs)
  let ?n = "case m (f x) of None \<Rightarrow> 0 | Some n \<Rightarrow> n"
  have n: "0 \<le> ?n" "?n + 1 + int (length xs) < 2 ^ 63"
    using Cons.prems(1) [rule_format, of "f x"] Cons.prems(2) by (auto split: option.splits)
  then have up: "count_up m (f x) = m(f x \<mapsto> ?n + 1)"
    by (simp add: count_up_def i64_id is_i64_def)
  have "\<forall>k. case count_up m (f x) k of None \<Rightarrow> True | Some n \<Rightarrow> 0 \<le> n \<and> n + int (length xs) < 2 ^ 63"
  proof
    fix k
    show "case count_up m (f x) k of None \<Rightarrow> True | Some n \<Rightarrow> 0 \<le> n \<and> n + int (length xs) < 2 ^ 63"
      using Cons.prems(1) [rule_format, of k] n by (auto simp: up split: option.splits)
  qed
  note IH = Cons.IH [OF this]
  define m' where "m' = count_up m (f x)"
  have val: "m' k' = (if k' = f x then Some (?n + 1) else m k')" for k'
    by (simp add: up m'_def)
  show ?case
    using IH [folded m'_def] Cons.prems(2) by (cases "k = f x"; cases "m k") (auto simp: val [of k] val [of "f x"] m'_def [symmetric])
qed

lemma finite_count_up: "finite (dom m) \<Longrightarrow> finite (dom (foldl (\<lambda>m x. count_up m (f x)) m xs))"
  by (induction xs arbitrary: m) (simp_all add: count_up_def)

lemma finite_tokenCount: "finite (dom (tokenCount tokens))"
  unfolding tokenCount_def by (rule finite_count_up) simp

lemma tokenCount_eq:
  assumes "length tokens < 2 ^ 63"
  shows "tokenCount tokens p =
    (if IsValid p \<or> p \<in> kp_Perm ` set tokens then Some (int (length (filter (\<lambda>kp. kp_Perm kp = p) tokens))) else None)"
  unfolding tokenCount_def using assms
  by (subst foldl_count_up) (auto simp: IsValid_iff split: if_splits option.splits)

lemma userCount_le:
  assumes "length users \<le> 1" and "userCount users s = Some n"
  shows "0 \<le> n \<and> n \<le> 1"
proof -
  have "length (filter (\<lambda>u. usr_State u = s) users) \<le> 1"
    using le_trans [OF length_filter_le assms(1)] .
  moreover have "userCount users s =
      (if s \<notin> {UserStateUndefined, UserStateEnabled, UserStateDisabled} \<and> s \<notin> usr_State ` set users then None
       else Some (int (length (filter (\<lambda>u. usr_State u = s) users))))"
    unfolding userCount_def using assms(1)
    by (subst foldl_count_up) (auto split: if_splits option.splits)
  ultimately show ?thesis using assms(2) by (auto split: if_splits)
qed

text \<open>The tokens of a permission that have not been removed.\<close>

definition tokens_with :: "'a astore \<Rightarrow> permission \<Rightarrow> string set" where
  "tokens_with st p = {t. \<exists>kp. a_token st t = Some kp \<and> kp_Perm kp = p}"

text \<open>The mark of a token has two values; a gauge that is exact for every permission.\<close>

definition marks_ok :: "'a astore \<Rightarrow> bool" where
  "marks_ok st \<longleftrightarrow> (\<forall>t kp. as_token st t = Some kp \<longrightarrow> kp_IsDeleted kp \<in> {NotDelete, Deleted})"

definition gauge_ok :: "('db \<Rightarrow> 'a astore) \<Rightarrow> 'db world \<Rightarrow> bool" where
  "gauge_ok view w \<longleftrightarrow> marks_ok (view (w_db w)) \<and> (\<forall>p. token_gauge w p = int (card (tokens_with (view (w_db w)) p)))"

lemma tokens_with_new:
  assumes "a_token st t = None" and "\<not> KeyPair_isDeleted kp"
  shows "tokens_with (st\<lparr>as_token := (as_token st)(t \<mapsto> kp)\<rparr>) p =
    (if kp_Perm kp = p then insert t (tokens_with st p) else tokens_with st p)"
    and "t \<notin> tokens_with st p"
  using assms by (auto simp: tokens_with_def)

lemma tokens_with_del:
  assumes "a_token st t = Some kp" and "KeyPair_isDeleted kp'"
  shows "tokens_with (st\<lparr>as_token := (as_token st)(t \<mapsto> kp')\<rparr>) p = tokens_with st p - {t}"
    and "t \<in> tokens_with st p \<longleftrightarrow> kp_Perm kp = p"
  using assms by (auto simp: tokens_with_def)

lemma gauge_new:
  assumes "gauge_ok view w" and "finite (\<Union>p. tokens_with (view (w_db w)) p)"
    and "a_token (view (w_db w)) t = None" "kp_IsDeleted kp = NotDelete"
    and "view s = (view (w_db w))\<lparr>as_token := (as_token (view (w_db w)))(t \<mapsto> kp)\<rparr>"
  shows "gauge_ok view (emit (TokenGauge_Inc (kp_Perm kp) 1) (w\<lparr>w_db := s\<rparr>))"
proof -
  have "finite (tokens_with (view (w_db w)) p)" for p
    by (rule finite_subset [OF _ assms(2)]) blast
  then show ?thesis
    using assms(1,4) tokens_with_new [OF assms(3), of kp]
    by (auto simp: gauge_ok_def marks_ok_def assms(5) KeyPair_isDeleted_def NotDelete_def Deleted_def)
qed

lemma gauge_del:
  assumes "gauge_ok view w" and "finite (\<Union>p. tokens_with (view (w_db w)) p)"
    and "a_token (view (w_db w)) t = Some kp" "kp_IsDeleted kp' = Deleted"
    and "view s = (view (w_db w))\<lparr>as_token := (as_token (view (w_db w)))(t \<mapsto> kp')\<rparr>"
  shows "gauge_ok view (emit (TokenGauge_Inc (kp_Perm kp) (- 1)) (w\<lparr>w_db := s\<rparr>))"
proof -
  have fin: "finite (tokens_with (view (w_db w)) p)" for p
    by (rule finite_subset [OF _ assms(2)]) blast
  have del: "KeyPair_isDeleted kp'" using assms(4) by (simp add: KeyPair_isDeleted_def)
  have "int (card (tokens_with (view (w_db w)) p - {t})) =
      int (card (tokens_with (view (w_db w)) p)) - (if kp_Perm kp = p then 1 else 0)" for p
    using card_Suc_Diff1 [OF fin, of t p] tokens_with_del(2) [OF assms(3) del, of p] by auto
  then show ?thesis
    using assms(1,4) by (simp add: gauge_ok_def marks_ok_def assms(5) tokens_with_del(1) [OF assms(3) del])
qed

lemma gauge_same:
  assumes "gauge_ok view w" and "as_token (view (w_db w')) = as_token (view (w_db w))"
    and "\<And>p. token_gauge w' p = token_gauge w p"
  shows "gauge_ok view w'"
proof -
  have "tokens_with (view (w_db w')) p = tokens_with (view (w_db w)) p" for p
    by (simp only: tokens_with_def assms(2))
  then show ?thesis using assms(1,3) by (simp add: gauge_ok_def marks_ok_def assms(2))
qed

lemma refines_tokens:
  assumes "refines I view st p spec" and "\<And>st' r. spec = Some (st', r) \<Longrightarrow> as_token st' = as_token st"
  shows "as_token (view (fst p)) = as_token st"
  using refines_keeps [OF assms(1), of "\<lambda>st'. as_token st' = as_token st"] assms(2) by blast

section \<open>The token gauge while the service runs\<close>

context service_on
begin

lemma finite_tokens:
  assumes "I s"
  shows "finite (\<Union>p. tokens_with (view s) p)"
proof (cases "finite (dom (as_token (view s)))")
  case True
  then show ?thesis by (rule rev_finite_subset) (auto simp: tokens_with_def live_Some)
next
  case False
  then have "pages 0 0 (st_List (sv_store srv) 0 0 s) {kp. a_token (view s) (kp_Token kp) = Some kp}"
    by (intro List [OF assms]) (simp_all add: is_i64_def)
  then have "finite {kp. a_token (view s) (kp_Token kp) = Some kp}"
    unfolding pages_def by (metis List.finite_set)
  moreover have "(\<Union>p. tokens_with (view s) p) \<subseteq> kp_Token ` {kp. a_token (view s) (kp_Token kp) = Some kp}"
    using token_keyed [OF assms] by (auto simp: tokens_with_def live_Some image_iff)
  ultimately show ?thesis by (rule finite_surj)
qed

lemma GenerateToken_gauge:
  assumes "sys_ok I view (sv_jwt srv) (w_db w)" and "gauge_ok view w"
  shows "gauge_ok view (fst (sv_GenerateToken srv E c pl w))"
proof (cases "fst (sv_GenerateToken srv E c pl w) = w")
  case True
  with assms(2) show ?thesis by simp
next
  case False
  note ok = sys_okD(1) [OF assms(1)]
  let ?kp = "\<lambda>secret tk. \<lparr>kp_Name = pl_Name pl, kp_Perm = pl_Perm pl, kp_Secret = hex_EncodeToString secret,
       kp_Extra = pl_Extra pl, kp_Token = tk, kp_CreateTime = ce_now E, kp_IsDeleted = NotDelete\<rparr>"
  have put: "snd (st_Put (sv_store srv) kp (w_db w)) = Inr ()"
    "view (fst (st_Put (sv_store srv) kp (w_db w))) =
       (view (w_db w))\<lparr>as_token := (as_token (view (w_db w)))(kp_Token kp \<mapsto> kp)\<rparr>" for kp
    using Put [OF ok, of kp] by (simp_all add: refines_def spec_Put_def)
  from False obtain secret tk where new: "a_token (view (w_db w)) tk = None"
    and run: "fst (sv_GenerateToken srv E c pl w) =
      emit (TokenGauge_Inc (pl_Perm pl) 1) (w\<lparr>w_db := fst (st_Put (sv_store srv) (?kp secret tk) (w_db w))\<rparr>)"
    by (auto simp: sv_GenerateToken_def HasUser [OF ok] Has [OF ok] case_prod_beta put(1) split: sum.splits if_splits)
  have "gauge_ok view (emit (TokenGauge_Inc (kp_Perm (?kp secret tk)) 1)
      (w\<lparr>w_db := fst (st_Put (sv_store srv) (?kp secret tk) (w_db w))\<rparr>))"
    by (rule gauge_new [OF assms(2) finite_tokens [OF ok] new])
      (simp_all add: put)
  then show ?thesis by (simp add: run)
qed

lemma RemoveToken_gauge:
  assumes "sys_ok I view (sv_jwt srv) (w_db w)" and "jwt_ok (sv_jwt srv) marshal" and "gauge_ok view w"
  shows "gauge_ok view (fst (sv_RemoveToken srv E c t w))"
proof (cases "tokenPermCheck (sv_jwt srv) c t")
  case (Inl e)
  with assms(3) show ?thesis by (simp add: sv_RemoveToken_def)
next
  case (Inr x)
  note ok = sys_okD [OF assms(1)]
  from Delete [OF ok(1), of "ce_now E" t] show ?thesis
  proof (rule refinesE)
    assume "view (fst (st_Delete (sv_store srv) (ce_now E) t (w_db w))) = view (w_db w)"
      "\<not> is_ok (snd (st_Delete (sv_store srv) (ce_now E) t (w_db w)))"
    with Inr show ?thesis
      by (intro gauge_same [OF assms(3)]) (auto simp: sv_RemoveToken_def case_prod_beta split: sum.splits)
  next
    fix st' r
    assume d: "spec_Delete t (view (w_db w)) = Some (st', r)"
      "view (fst (st_Delete (sv_store srv) (ce_now E) t (w_db w))) = st'"
      "snd (st_Delete (sv_store srv) (ce_now E) t (w_db w)) = Inr r"
    from d(1) obtain kp where kp: "a_token (view (w_db w)) t = Some kp"
      "st' = (view (w_db w))\<lparr>as_token := (as_token (view (w_db w)))(t \<mapsto> kp\<lparr>kp_IsDeleted := Deleted\<rparr>)\<rparr>"
      by (auto simp: spec_Delete_def)
    then have "signed_token (sv_jwt srv) kp" "kp_Token kp = t"
      using ok(3) token_keyed [OF ok(1)] by (auto simp: live_Some dest: tokens_okD)
    from signed_token_reads(1) [OF assms(2) this(1)] this(2)
    have "fst (sv_RemoveToken srv E c t w) = emit (TokenGauge_Inc (kp_Perm kp) (- 1))
        (w\<lparr>w_db := fst (st_Delete (sv_store srv) (ce_now E) t (w_db w))\<rparr>)"
      using Inr d(3) by (simp add: sv_RemoveToken_def case_prod_beta kp_payload_def)
    then show ?thesis
      using gauge_del [OF assms(3) finite_tokens [OF ok(1)] kp(1), of "kp\<lparr>kp_IsDeleted := Deleted\<rparr>"] d(2) kp(2)
      by (simp add: KeyPair_isDeleted_def)
  qed
qed

lemma RecoverToken_gauge:
  assumes "sys_ok I view (sv_jwt srv) (w_db w)" and "jwt_ok (sv_jwt srv) marshal" and "gauge_ok view w"
  shows "gauge_ok view (fst (sv_RecoverToken srv c t w))"
proof (cases "tokenPermCheck (sv_jwt srv) c t")
  case (Inl e)
  with assms(3) show ?thesis by (simp add: sv_RecoverToken_def)
next
  case (Inr x)
  note ok = sys_okD [OF assms(1)]
  from Recover [OF ok(1), of t] show ?thesis
  proof (rule refinesE)
    assume "view (fst (st_Recover (sv_store srv) t (w_db w))) = view (w_db w)"
      "\<not> is_ok (snd (st_Recover (sv_store srv) t (w_db w)))"
    with Inr show ?thesis
      by (intro gauge_same [OF assms(3)]) (auto simp: sv_RecoverToken_def case_prod_beta split: sum.splits)
  next
    fix st' r
    assume d: "spec_Recover t (view (w_db w)) = Some (st', r)"
      "view (fst (st_Recover (sv_store srv) t (w_db w))) = st'"
      "snd (st_Recover (sv_store srv) t (w_db w)) = Inr r"
    from d(1) obtain kp where kp: "as_token (view (w_db w)) t = Some kp" "KeyPair_isDeleted kp"
      "st' = (view (w_db w))\<lparr>as_token := (as_token (view (w_db w)))(t \<mapsto> kp\<lparr>kp_IsDeleted := NotDelete\<rparr>)\<rparr>"
      using assms(3)
      by (auto simp: spec_Recover_def gauge_ok_def marks_ok_def KeyPair_isDeleted_def split: option.splits if_splits)
    then have "signed_token (sv_jwt srv) kp" "kp_Token kp = t"
      using ok(3) token_keyed [OF ok(1)] by (auto dest: tokens_okD)
    from signed_token_reads(1) [OF assms(2) this(1)] this(2)
    have "fst (sv_RecoverToken srv c t w) = emit (TokenGauge_Inc (kp_Perm kp) 1)
        (w\<lparr>w_db := fst (st_Recover (sv_store srv) t (w_db w))\<rparr>)"
      using Inr d(3) by (simp add: sv_RecoverToken_def case_prod_beta kp_payload_def)
    moreover have "a_token (view (w_db w)) t = None" using kp by simp
    ultimately show ?thesis
      using gauge_new [OF assms(3) finite_tokens [OF ok(1)], of t "kp\<lparr>kp_IsDeleted := NotDelete\<rparr>"] d(2) kp(3)
      by (simp add: KeyPair_isDeleted_def NotDelete_def Deleted_def)
  qed
qed

text \<open>The other operations leave the tokens and their gauge alone.\<close>

lemma users_same_tokens:
  assumes ok: "I (w_db w)"
  shows "as_token (view (w_db (fst (sv_CreateUser srv E c cu w)))) = as_token (view (w_db w))"
    and "as_token (view (w_db (fst (sv_UpdateUser srv E c uu w)))) = as_token (view (w_db w))"
    and "as_token (view (w_db (fst (sv_DeleteUser srv E c n w)))) = as_token (view (w_db w))"
    and "as_token (view (w_db (fst (sv_RecoverUser srv c n w)))) = as_token (view (w_db w))"
    and "as_token (view (w_db (fst (sv_UpsertUserRateLimit srv uuid c l w)))) = as_token (view (w_db w))"
    and "as_token (view (w_db (fst (sv_DelUserRateLimit srv c dl w)))) = as_token (view (w_db w))"
proof -
  show "as_token (view (w_db (fst (sv_CreateUser srv E c cu w)))) = as_token (view (w_db w))"
    by (rule refines_tokens [OF CreateUser_refines [OF ok], unfolded fst_conv]) (auto simp: Let_def split: if_splits)
  show "as_token (view (w_db (fst (sv_UpdateUser srv E c uu w)))) = as_token (view (w_db w))"
    by (rule refines_tokens [OF UpdateUser_refines [OF ok], unfolded fst_conv]) (auto split: if_splits)
  show "as_token (view (w_db (fst (sv_DeleteUser srv E c n w)))) = as_token (view (w_db w))"
    by (rule refines_tokens [OF DeleteUser_refines [OF ok], unfolded fst_conv]) (auto simp: spec_DeleteUser_def split: if_splits)
  show "as_token (view (w_db (fst (sv_RecoverUser srv c n w)))) = as_token (view (w_db w))"
    by (rule refines_tokens [OF RecoverUser_refines [OF ok], unfolded fst_conv]) (auto simp: spec_RecoverUser_def split: if_splits option.splits)
  show "as_token (view (w_db (fst (sv_UpsertUserRateLimit srv uuid c l w)))) = as_token (view (w_db w))"
    by (rule refines_tokens [OF UpsertUserRateLimit_refines [OF ok], unfolded fst_conv]) (auto simp: spec_PutRateLimit_def Let_def split: if_splits)
  show "as_token (view (w_db (fst (sv_DelUserRateLimit srv c dl w)))) = as_token (view (w_db w))"
    by (rule DelUserRateLimit_does [OF ok, of c dl]) simp
qed

lemma spec_loops_same_tokens:
  "as_token (fst (spec_RegisterSigners ok now n as st)) = as_token st"
  "as_token (fst (spec_UnregisterSigners ok now n as st)) = as_token st"
proof -
  show "as_token (fst (spec_RegisterSigners ok now n as st)) = as_token st"
    by (induction ok now n as st rule: spec_RegisterSigners.induct)
      (auto simp: spec_RegisterSigner_def split: option.split)
  show "as_token (fst (spec_UnregisterSigners ok now n as st)) = as_token st"
    by (induction ok now n as st rule: spec_UnregisterSigners.induct)
      (auto simp: spec_UnregisterSigner_def split: option.split)
qed

lemma miners_same_tokens:
  assumes ok: "I (w_db w)"
  shows "as_token (view (w_db (fst (sv_UpsertMiner srv E c um w)))) = as_token (view (w_db w))"
    and "as_token (view (w_db (fst (sv_DelMiner srv E c a w)))) = as_token (view (w_db w))"
    and "as_token (view (w_db (fst (sv_DelSigner srv E c a w)))) = as_token (view (w_db w))"
    and "as_token (view (w_db (fst (sv_RegisterSigners srv E c sr w)))) = as_token (view (w_db w))"
    and "as_token (view (w_db (fst (sv_UnregisterSigners srv E c sr w)))) = as_token (view (w_db w))"
proof -
  show "as_token (view (w_db (fst (sv_UpsertMiner srv E c um w)))) = as_token (view (w_db w))"
    by (rule refines_tokens [OF UpsertMiner_refines [OF ok], unfolded fst_conv]) (auto simp: spec_UpsertMiner_def split: if_splits)
  show "as_token (view (w_db (fst (sv_DelMiner srv E c a w)))) = as_token (view (w_db w))"
    by (rule refines_tokens [OF DelMiner_refines [OF ok], unfolded fst_conv]) (auto simp: spec_DelMiner_def split: if_splits option.splits)
  show "as_token (view (w_db (fst (sv_DelSigner srv E c a w)))) = as_token (view (w_db w))"
  proof -
    obtain P where "refines I view (view (w_db w)) (st_DelSigner (sv_store srv) (ce_now E) a (w_db w))
        (spec_DelSigner (ce_now E) P (view (w_db w)))" using DelSigner [OF ok] by blast
    then show ?thesis
      by (rule refines_tokens [OF DelSigner_refines [OF ok], unfolded fst_conv]) (auto simp: spec_DelSigner_def split: if_splits)
  qed
  show "as_token (view (w_db (fst (sv_RegisterSigners srv E c sr w)))) = as_token (view (w_db w))"
    by (use RegisterSigners_does(2) [OF ok, of E c sr] in \<open>simp add: prod_eq_iff spec_loops_same_tokens\<close>)
  show "as_token (view (w_db (fst (sv_UnregisterSigners srv E c sr w)))) = as_token (view (w_db w))"
    by (use UnregisterSigners_does(2) [OF ok, of E c sr] in \<open>simp add: prod_eq_iff spec_loops_same_tokens\<close>)
qed

lemma other_gauges:
  "token_gauge (fst (sv_CreateUser srv E c cu w)) p = token_gauge w p"
  "token_gauge (fst (sv_UpdateUser srv E c uu w)) p = token_gauge w p"
  "token_gauge (fst (sv_DeleteUser srv E c n w)) p = token_gauge w p"
  "token_gauge (fst (sv_RecoverUser srv c n w)) p = token_gauge w p"
  "token_gauge (fst (sv_UpsertUserRateLimit srv uuid c l w)) p = token_gauge w p"
  "token_gauge (fst (sv_DelUserRateLimit srv c dl w)) p = token_gauge w p"
  "token_gauge (fst (sv_UpsertMiner srv E c um w)) p = token_gauge w p"
  "token_gauge (fst (sv_DelMiner srv E c a w)) p = token_gauge w p"
  "token_gauge (fst (sv_DelSigner srv E c a w)) p = token_gauge w p"
  "token_gauge (fst (sv_RegisterSigners srv E c sr w)) p = token_gauge w p"
  "token_gauge (fst (sv_UnregisterSigners srv E c sr w)) p = token_gauge w p"
  "token_gauge (fst (sv_Verify srv c t w)) p = token_gauge w p"
  by (auto simp: sv_CreateUser_def sv_UpdateUser_def sv_DeleteUser_def sv_RecoverUser_def sv_UpsertUserRateLimit_def
      sv_DelUserRateLimit_def sv_UpsertMiner_def sv_DelMiner_def sv_DelSigner_def sv_RegisterSigners_def
      sv_UnregisterSigners_def sv_Verify_def case_prod_beta Let_def split: sum.split option.split)

lemma permMiddleWare_gauge: "token_gauge (fst (permMiddleWare srv rq w)) p = token_gauge w p"
  by (auto simp: permMiddleWare_def app_verify_def sv_Verify_def Let_def case_prod_beta split: option.split)

lemma handle_gauge:
  assumes "sys_ok I view (sv_jwt srv) (w_db w)" and "jwt_ok (sv_jwt srv) marshal" and "gauge_ok view w"
  shows "gauge_ok view (fst (handle srv ver E c req w))"
proof -
  note ok = sys_okD(1) [OF assms(1)]
  note same = gauge_same [OF assms(3) users_same_tokens(1) [OF ok] other_gauges(1)]
    gauge_same [OF assms(3) users_same_tokens(2) [OF ok] other_gauges(2)]
    gauge_same [OF assms(3) users_same_tokens(3) [OF ok] other_gauges(3)]
    gauge_same [OF assms(3) users_same_tokens(4) [OF ok] other_gauges(4)]
    gauge_same [OF assms(3) users_same_tokens(5) [OF ok] other_gauges(5)]
    gauge_same [OF assms(3) users_same_tokens(6) [OF ok] other_gauges(6)]
    gauge_same [OF assms(3) miners_same_tokens(1) [OF ok] other_gauges(7)]
    gauge_same [OF assms(3) miners_same_tokens(2) [OF ok] other_gauges(8)]
    gauge_same [OF assms(3) miners_same_tokens(3) [OF ok] other_gauges(9)]
    gauge_same [OF assms(3) miners_same_tokens(4) [OF ok] other_gauges(10)]
    gauge_same [OF assms(3) miners_same_tokens(5) [OF ok] other_gauges(11)]
    GenerateToken_gauge [OF assms(1,3)] RemoveToken_gauge [OF assms] RecoverToken_gauge [OF assms]
  show ?thesis
  proof (cases req)
    case (RVerify b)
    have "fst (app_Verify srv c b w) = w \<or> fst (app_Verify srv c b w) = fst (sv_Verify srv c (fst b) w)"
      by (auto simp: app_Verify_def split: prod.split option.split)
    then show ?thesis
      using gauge_same [OF assms(3) _ other_gauges(12), of c "fst b"] assms(3) by (auto simp: RVerify)
  qed (use assms(3) same in \<open>auto simp: app_defs case_prod_beta split: option.split\<close>)
qed

lemma served_gauge:
  assumes "jwt_ok (sv_jwt srv) marshal" and "sys_ok I view (sv_jwt srv) (w_db w0)" and "gauge_ok view w0"
  shows "served srv ver w0 w \<Longrightarrow> gauge_ok view w"
proof (induction rule: served.induct)
  case (request w req go_on E rq)
  have "sys_ok I view (sv_jwt srv) (w_db w)" by (rule served_ok [OF request.hyps(1) assms(2)])
  moreover have "gauge_ok view (fst (permMiddleWare srv rq w))"
    by (rule gauge_same [OF request.IH])
      (simp_all add: permMiddleWare_gauge)
  ultimately show ?case
    using handle_gauge [of "fst (permMiddleWare srv rq w)", OF _ assms(1)]
    by (auto simp: serve_def case_prod_beta)
qed (rule assms(3))

text \<open>What \<open>NewOAuthService\<close> makes of a store: exact token gauges, from a full listing.\<close>

lemma start_gauges:
  assumes "I s" and "marks_ok (view s)" and "\<And>m. finite (dom m) \<Longrightarrow> set (rng m) = dom m"
    and "finite (dom (as_token (view s)))" "int (card (dom (as_token (view s)))) < 2 ^ 63"
    and "int (card (dom (as_user (view s)))) < 2 ^ 63"
  obtains tokens users where "st_List (sv_store srv) 0 0 s = Inr tokens"
    and "st_ListUsers (sv_store srv) 0 1 UserStateUndefined s = Inr users" "length users \<le> 1"
    and "gauge_ok view (set_gauges TokenGauge_Set (tokenCount tokens) (rng (tokenCount tokens)) \<lparr>w_db = s, w_metrics = []\<rparr>)"
proof -
  let ?kps = "{kp. a_token (view s) (kp_Token kp) = Some kp}"
  obtain tokens where tokens: "st_List (sv_store srv) 0 0 s = Inr tokens" "set tokens = ?kps" "distinct tokens"
    using List [OF assms(1), of 0 0] assms(5) by (auto simp: pages_def is_i64_def)
  obtain us where us: "st_ListUsers (sv_store srv) 0 1 UserStateUndefined s = Inr (page_of 0 1 us)"
    using ListUsers [OF assms(1), of 0 1 UserStateUndefined] assms(6) by (auto simp: pages_def is_i64_def)
  have inj: "inj_on kp_Token (set tokens)" by (rule inj_onI) (auto simp: tokens(2))
  have with_p: "tokens_with (view s) p = kp_Token ` {kp \<in> set tokens. kp_Perm kp = p}" for p
    using token_keyed [OF assms(1)] by (auto simp: tokens_with_def tokens(2) live_Some image_iff)
  have "length tokens = card (kp_Token ` set tokens)"
    by (simp add: card_image [OF inj] distinct_card [OF tokens(3)])
  also have "\<dots> \<le> card (dom (as_token (view s)))"
    by (rule card_mono [OF assms(4)]) (auto simp: tokens(2) live_Some)
  finally have few: "length tokens < 2 ^ 63" using assms(5) by simp
  have count: "int (card (tokens_with (view s) p)) = int (length (filter (\<lambda>kp. kp_Perm kp = p) tokens))" for p
  proof -
    have "card (tokens_with (view s) p) = card {kp \<in> set tokens. kp_Perm kp = p}"
      unfolding with_p by (rule card_image [OF inj_on_subset [OF inj]]) blast
    also have "\<dots> = length (filter (\<lambda>kp. kp_Perm kp = p) tokens)"
      using distinct_card [OF distinct_filter [OF tokens(3), of "\<lambda>kp. kp_Perm kp = p"]] by simp
    finally show ?thesis by simp
  qed
  show thesis
  proof (rule that [OF tokens(1) us])
    show "length (page_of 0 1 us) \<le> 1" using length_page_of [of 1 0 us] by simp
    show "gauge_ok view (set_gauges TokenGauge_Set (tokenCount tokens) (rng (tokenCount tokens)) \<lparr>w_db = s, w_metrics = []\<rparr>)"
      unfolding gauge_ok_def
    proof (intro conjI allI)
      fix p
      have zero: "token_gauge \<lparr>w_db = s, w_metrics = []\<rparr> p = 0" by (simp add: token_gauge_def)
      have "p \<notin> kp_Perm ` set tokens \<Longrightarrow> filter (\<lambda>kp. kp_Perm kp = p) tokens = []"
        by (auto simp: filter_empty_conv)
      then show "token_gauge (set_gauges TokenGauge_Set (tokenCount tokens) (rng (tokenCount tokens)) \<lparr>w_db = s, w_metrics = []\<rparr>) p =
          int (card (tokens_with (view (w_db (set_gauges TokenGauge_Set (tokenCount tokens) (rng (tokenCount tokens)) \<lparr>w_db = s, w_metrics = []\<rparr>))) p))"
        using few by (auto simp: set_gauges_token zero count assms(3) [OF finite_tokenCount] tokenCount_eq dom_def split: option.split)
    qed (simp add: assms(2))
  qed
qed

end

end
