(* ===== verification/Default_Token.thy ===== *)
theory Default_Token
  imports Gauges
begin

text \<open>
  The token of the default administrator on a store that keeps the contract (\<open>GetDefaultAdminToken\<close> of
  auth/app.go): what the call returns is stored, the next call returns the same, and the data stays
  well-formed.
\<close>

lemma admin_token_loop_cases:
  "case admin_token_loop ts of
     None \<Rightarrow> \<forall>ti \<in> set ts. ti_Perm ti \<noteq> PermAdmin
   | Some t \<Rightarrow> \<exists>ti \<in> set ts. ti_Perm ti = PermAdmin \<and> ti_Token ti = t"
  by (induction ts) (auto split: option.splits)

lemma utf8_default: "utf8_payload \<lparr>pl_Name = DefaultAdminTokenName, pl_Perm = PermAdmin, pl_Extra = []\<rparr>"
  by (simp add: utf8_payload_def DefaultAdminTokenName_def perm_defs)

context service_safe
begin

lemma GetDefaultAdminToken_keeps:
  assumes ok: "sys_ok I view (sv_jwt srv) (w_db w)"
  shows "sys_ok I view (sv_jwt srv) (w_db (fst (app_GetDefaultAdminToken srv E w)))"
proof -
  let ?c = "CtxWithPerm ctx_Background PermAdmin"
  let ?req = "\<lparr>cu_Name = DefaultAdminTokenName, cu_Comment = None, cu_State = UserStateUndefined\<rparr>"
    and ?pl = "\<lparr>pl_Name = DefaultAdminTokenName, pl_Perm = PermAdmin, pl_Extra = []\<rparr>"
  define w1 where "w1 = fst (sv_CreateUser srv E ?c ?req w)"
  have w1: "sys_ok I view (sv_jwt srv) (w_db w1)" unfolding w1_def by (rule CreateUser_keeps [OF ok])
  have "sys_ok I view (sv_jwt srv) (w_db (fst (sv_GenerateToken srv E ?c ?pl w1)))"
    by (rule GenerateToken_keeps [OF w1 utf8_default])
  with ok w1 show ?thesis
    by (auto simp: app_GetDefaultAdminToken_def Let_def case_prod_beta w1_def split: sum.split option.split)
qed

end

context service_on
begin

text \<open>An administrator's token of the default user.\<close>

lemma default_tokens:
  assumes "sys_ok I view (sv_jwt srv) (w_db w)" and "jwt_ok (sv_jwt srv) marshal"
  obtains ts where "sv_GetTokenByName srv (CtxWithPerm ctx_Background PermAdmin) DefaultAdminTokenName w = Inr ts"
    and "\<And>t. (\<exists>ti \<in> set ts. ti_Perm ti = PermAdmin \<and> ti_Token ti = t) \<longleftrightarrow>
      (\<exists>kp. a_token (view (w_db w)) t = Some kp \<and> kp_Name kp = DefaultAdminTokenName \<and> kp_Perm kp = PermAdmin)"
proof -
  note ok = sys_okD [OF assms(1)]
  obtain kps where kps: "sv_GetTokenByName srv (CtxWithPerm ctx_Background PermAdmin)
      DefaultAdminTokenName w = Inr (map kp_info kps)"
    "set kps = {kp. a_token (view (w_db w)) (kp_Token kp) = Some kp \<and> kp_Name kp = DefaultAdminTokenName}"
    by (rule GetTokenByName_eq [OF ok(1), where marshal = marshal and
        c = "CtxWithPerm ctx_Background PermAdmin" and n = DefaultAdminTokenName])
      (use assms(2) ok(3) in \<open>simp_all add: admin_in_Adapt\<close>)
  show thesis
  proof (rule that [OF kps(1)])
    show "(\<exists>ti \<in> set (map kp_info kps). ti_Perm ti = PermAdmin \<and> ti_Token ti = t) \<longleftrightarrow>
      (\<exists>kp. a_token (view (w_db w)) t = Some kp \<and> kp_Name kp = DefaultAdminTokenName \<and> kp_Perm kp = PermAdmin)" for t
      using token_keyed [OF ok(1)] by (auto simp: kps(2) kp_info_def live_Some)
  qed
qed

lemma default_token_run:
  assumes "sys_ok I view (sv_jwt srv) (w_db w)" and "jwt_ok (sv_jwt srv) marshal"
    and "snd (app_GetDefaultAdminToken srv E w) = Inr tk"
  shows "let w' = fst (app_GetDefaultAdminToken srv E w) in
    (\<exists>kp. a_token (view (w_db w')) tk = Some kp \<and> kp_Name kp = DefaultAdminTokenName \<and> kp_Perm kp = PermAdmin)
    \<and> app_GetDefaultAdminToken srv E' w' = (w', Inr tk)"
proof -
  let ?c = "CtxWithPerm ctx_Background PermAdmin"
  let ?req = "\<lparr>cu_Name = DefaultAdminTokenName, cu_Comment = None, cu_State = UserStateUndefined\<rparr>"
    and ?pl = "\<lparr>pl_Name = DefaultAdminTokenName, pl_Perm = PermAdmin, pl_Extra = []\<rparr>"
  let ?good = "\<lambda>w t. \<exists>kp. a_token (view (w_db w)) t = Some kp \<and> kp_Name kp = DefaultAdminTokenName \<and> kp_Perm kp = PermAdmin"
  have run: "app_GetDefaultAdminToken srv E w = (w, Inr t) \<and> ?good w t"
    if "sv_GetTokenByName srv ?c DefaultAdminTokenName w = Inr ts" "admin_token_loop ts = Some t"
      "\<And>t. (\<exists>ti \<in> set ts. ti_Perm ti = PermAdmin \<and> ti_Token ti = t) \<longleftrightarrow> ?good w t" for E w ts t
    using that admin_token_loop_cases [of ts] by (simp add: app_GetDefaultAdminToken_def Let_def)
  obtain ts where ts: "sv_GetTokenByName srv ?c DefaultAdminTokenName w = Inr ts"
    "\<And>t. (\<exists>ti \<in> set ts. ti_Perm ti = PermAdmin \<and> ti_Token ti = t) \<longleftrightarrow> ?good w t"
    using default_tokens [OF assms(1,2)] by blast
  show ?thesis
  proof (cases "admin_token_loop ts")
    case (Some t)
    from run [OF ts(1) Some ts(2)] assms(3) have "t = tk" by (metis Inr_inject snd_conv)
    with run [OF ts(1) Some ts(2)] show ?thesis by (simp add: Let_def)
  next
    case None
    then have none: "\<not> ?good w t" for t
      using admin_token_loop_cases [of ts] ts(2) [of t] by auto
    obtain w1 u where w1: "sv_CreateUser srv E ?c ?req w = (w1, Inr u)"
      using assms(3) ts(1) None
      by (cases "sv_CreateUser srv E ?c ?req w"; cases "snd (sv_CreateUser srv E ?c ?req w)")
        (auto simp: app_GetDefaultAdminToken_def Let_def)
    obtain w2 where w2: "sv_GenerateToken srv E ?c ?pl w1 = (w2, Inr tk)"
      using assms(3) ts(1) None w1
      by (cases "sv_GenerateToken srv E ?c ?pl w1"; cases "snd (sv_GenerateToken srv E ?c ?pl w1)")
        (auto simp: app_GetDefaultAdminToken_def Let_def)
    have fin: "fst (app_GetDefaultAdminToken srv E w) = w2"
      by (simp add: app_GetDefaultAdminToken_def Let_def ts(1) None w1 w2)
    have sys1: "sys_ok I view (sv_jwt srv) (w_db w1)"
      using CreateUser_keeps [OF assms(1), of E ?c ?req] w1 by simp
    have same: "as_token (view (w_db w1)) = as_token (view (w_db w))"
      using users_same_tokens(1) [OF sys_okD(1) [OF assms(1)], of E ?c ?req] w1 by simp
    have snd2: "snd (sv_GenerateToken srv E ?c ?pl w1) = Inr tk" by (simp add: w2)
    obtain secret where sign: "jwt_Sign (sv_jwt srv) ?pl secret = Inr tk"
      and new: "a_token (view (w_db w1)) tk = None \<Longrightarrow> view (w_db w2) =
        (view (w_db w1))\<lparr>as_token := (as_token (view (w_db w1)))(tk \<mapsto>
          \<lparr>kp_Name = DefaultAdminTokenName, kp_Perm = PermAdmin, kp_Secret = hex_EncodeToString secret, kp_Extra = [],
           kp_Token = tk, kp_CreateTime = ce_now E, kp_IsDeleted = NotDelete\<rparr>)\<rparr>"
      by (rule GenerateToken_ok [OF sys_okD(1) [OF sys1] snd2]) (simp_all add: w2)
    have "a_token (view (w_db w1)) tk = None"
    proof (rule ccontr)
      assume "a_token (view (w_db w1)) tk \<noteq> None"
      then obtain kp where kp: "a_token (view (w_db w1)) tk = Some kp" by blast
      then have signed: "signed_token (sv_jwt srv) kp" "kp_Token kp = tk"
        using sys_okD(3) [OF sys1] token_keyed [OF sys_okD(1) [OF sys1]] by (auto simp: live_Some dest: tokens_okD)
      have "kp_payload kp = ?pl"
        using signed_token_reads(1) [OF assms(2) signed(1)] signed(2) DecodeToken_signed(1) [OF assms(2) sign utf8_default]
        by simp
      then show False using none [of tk] kp by (simp add: kp_payload_def same)
    qed
    from new [OF this] have good2: "?good w2 t \<longleftrightarrow> t = tk" for t
      using none [of t] by (auto simp: same KeyPair_isDeleted_def NotDelete_def Deleted_def)
    have sys2: "sys_ok I view (sv_jwt srv) (w_db w2)"
      using GenerateToken_keeps [OF sys1 utf8_default, of E ?c] w2 by simp
    obtain ts' where ts': "sv_GetTokenByName srv ?c DefaultAdminTokenName w2 = Inr ts'"
      "\<And>t. (\<exists>ti \<in> set ts'. ti_Perm ti = PermAdmin \<and> ti_Token ti = t) \<longleftrightarrow> ?good w2 t"
      using default_tokens [OF sys2 assms(2)] by blast
    then obtain t where t: "admin_token_loop ts' = Some t"
      using admin_token_loop_cases [of ts'] good2 [of tk] ts'(2) [of tk] by (auto split: option.splits)
    with run [OF ts'(1) t ts'(2)] good2 show ?thesis by (simp add: Let_def fin)
  qed
qed

lemmas default_token_stored = default_token_run [unfolded Let_def, THEN conjunct1]
lemmas default_token_again = default_token_run [unfolded Let_def, THEN conjunct2]

end

end
