(* ===== verification/Badger.thy ===== *)
theory Badger
  imports Store_Types
begin

text \<open>
  The key-value engine (package badger) as a parameter: the calls the store makes on a
  transaction, the two ways the store runs a transaction (\<open>db.View\<close>, \<open>db.Update\<close>), and the
  documented behaviour the proofs rely on, as the predicate \<open>badger_ok\<close>. Also an instance in
  memory that satisfies it, with which concrete runs are evaluated.
\<close>

section \<open>The calls\<close>

text \<open>
  Reading records the key in the transaction (badger detects conflicts by it), so the reading
  calls return the transaction too. \<open>txn_Iterate t p\<close> stands for a new iterator with the default
  options, \<open>Seek(p)\<close>, and \<open>Next\<close> while \<open>ValidForPrefix(p)\<close>: the items it meets, in order.
\<close>

record ('v, 'db, 'txn) badger =
  NewTransaction :: "'db \<Rightarrow> 'txn"
  txn_Get :: "'txn \<Rightarrow> key \<Rightarrow> 'v res \<times> 'txn"
  txn_Set :: "'txn \<Rightarrow> key \<Rightarrow> 'v \<Rightarrow> 'txn res"
  txn_Delete :: "'txn \<Rightarrow> key \<Rightarrow> 'txn res"
  txn_Iterate :: "'txn \<Rightarrow> key \<Rightarrow> (key \<times> 'v) list \<times> 'txn"
  txn_Commit :: "'db \<Rightarrow> 'txn \<Rightarrow> 'db res"

text \<open>
  \<open>db.View(fn)\<close>: run \<open>fn\<close> in a read-only transaction. \<open>db.Update(fn)\<close>: run \<open>fn\<close> in a
  transaction; if it returns an error the transaction is discarded, else it is committed and the
  error of the commit is returned. In \<open>db_Update_nested\<close> the function passed also commits
  transactions of its own to the database while the outer one is open.
\<close>

definition db_View :: "('v, 'db, 'txn) badger \<Rightarrow> 'db \<Rightarrow> ('txn \<Rightarrow> 'r res) \<Rightarrow> 'r res" where
  "db_View K s fn = fn (NewTransaction K s)"

definition db_Update_nested ::
  "('v, 'db, 'txn) badger \<Rightarrow> 'db \<Rightarrow> ('txn \<Rightarrow> 'db \<Rightarrow> 'db \<times> ('r \<times> 'txn) res) \<Rightarrow> 'db \<times> 'r res" where
  "db_Update_nested K s fn =
     (case fn (NewTransaction K s) s of
        (s1, Inl e) \<Rightarrow> (s1, Inl e)
      | (s1, Inr (r, t)) \<Rightarrow>
          (case txn_Commit K s1 t of Inl e \<Rightarrow> (s1, Inl e) | Inr s2 \<Rightarrow> (s2, Inr r)))"

definition db_Update ::
  "('v, 'db, 'txn) badger \<Rightarrow> 'db \<Rightarrow> ('txn \<Rightarrow> ('r \<times> 'txn) res) \<Rightarrow> 'db \<times> 'r res" where
  "db_Update K s fn = db_Update_nested K s (\<lambda>t s1. (s1, fn t))"

text \<open>A transaction that fails, in its body or in its commit, leaves the database as it was.\<close>

lemma db_Update_atomic: "snd (db_Update K s fn) = Inl e \<Longrightarrow> fst (db_Update K s fn) = s"
  by (auto simp: db_Update_def db_Update_nested_def split: sum.splits prod.splits)

section \<open>Documented behaviour\<close>

text \<open>What a fresh transaction reads: the content of the database.\<close>

definition db_content :: "('v, 'db, 'txn) badger \<Rightarrow> 'db \<Rightarrow> (key \<rightharpoonup> 'v)" where
  "db_content K s k =
     (case fst (txn_Get K (NewTransaction K s) k) of Inl _ \<Rightarrow> None | Inr v \<Rightarrow> Some v)"

text \<open>
  The transaction of \<open>base\<close>, \<open>writes\<close>, \<open>reads\<close> (the database it started from, its pending writes
  where \<open>None\<close> is a delete, the keys it has read) sees its own writes over its snapshot.
\<close>

definition txn_view ::
  "('v, 'db, 'txn) badger \<Rightarrow> ('txn \<Rightarrow> 'db) \<Rightarrow> ('txn \<Rightarrow> key \<rightharpoonup> 'v option) \<Rightarrow> 'txn \<Rightarrow> (key \<rightharpoonup> 'v)" where
  "txn_view K base writes t k =
     (case writes t k of Some w \<Rightarrow> w | None \<Rightarrow> db_content K (base t) k)"

text \<open>
  The laws, for an engine without I/O failures and transactions within its size limits: snapshot
  isolation with read-your-writes; \<open>ErrKeyNotFound\<close> for a missing key; iteration in ascending
  byte order of the keys under the prefix; a commit succeeds if no key the transaction has read
  has changed since its snapshot, and then applies exactly its writes.
\<close>

definition badger_laws ::
  "('v, 'db, 'txn) badger \<Rightarrow> ('txn \<Rightarrow> 'db) \<Rightarrow> ('txn \<Rightarrow> key \<rightharpoonup> 'v option) \<Rightarrow> ('txn \<Rightarrow> key set) \<Rightarrow> bool" where
  "badger_laws K base writes reads \<longleftrightarrow>
     (\<forall>s. base (NewTransaction K s) = s \<and> writes (NewTransaction K s) = Map.empty
        \<and> reads (NewTransaction K s) = {}) \<and>
     (\<forall>t k. \<exists>t'. txn_Get K t k =
          ((case txn_view K base writes t k of None \<Rightarrow> Inl ErrKeyNotFound | Some v \<Rightarrow> Inr v), t')
        \<and> base t' = base t \<and> writes t' = writes t \<and> reads t' \<subseteq> insert k (reads t)) \<and>
     (\<forall>t k v. \<exists>t'. txn_Set K t k v = Inr t'
        \<and> base t' = base t \<and> writes t' = (writes t)(k \<mapsto> Some v) \<and> reads t' \<subseteq> reads t) \<and>
     (\<forall>t k. \<exists>t'. txn_Delete K t k = Inr t'
        \<and> base t' = base t \<and> writes t' = (writes t)(k \<mapsto> None) \<and> reads t' \<subseteq> reads t) \<and>
     (\<forall>t p. \<exists>xs t'. txn_Iterate K t p = (xs, t')
        \<and> sorted (map fst xs) \<and> distinct (map fst xs)
        \<and> set xs = {(k, v). txn_view K base writes t k = Some v \<and> prefix p k}
        \<and> base t' = base t \<and> writes t' = writes t \<and> reads t' \<subseteq> reads t \<union> fst ` set xs) \<and>
     (\<forall>s t. (\<forall>k \<in> reads t. db_content K s k = db_content K (base t) k) \<longrightarrow>
        (\<exists>s'. txn_Commit K s t = Inr s' \<and>
           db_content K s' = (\<lambda>k. case writes t k of Some w \<Rightarrow> w | None \<Rightarrow> db_content K s k)))"

definition badger_ok :: "('v, 'db, 'txn) badger \<Rightarrow> bool" where
  "badger_ok K \<longleftrightarrow> (\<exists>base writes reads. badger_laws K base writes reads)"

lemma badger_lawsD:
  assumes "badger_laws K base writes reads"
  shows laws_new: "base (NewTransaction K s) = s" "writes (NewTransaction K s) = Map.empty"
      "reads (NewTransaction K s) = {}"
    and laws_get: "\<exists>t'. txn_Get K t k =
        ((case txn_view K base writes t k of None \<Rightarrow> Inl ErrKeyNotFound | Some v \<Rightarrow> Inr v), t')
      \<and> base t' = base t \<and> writes t' = writes t \<and> reads t' \<subseteq> insert k (reads t)"
    and laws_set: "\<exists>t'. txn_Set K t k v = Inr t' \<and> base t' = base t
      \<and> writes t' = (writes t)(k \<mapsto> Some v) \<and> reads t' \<subseteq> reads t"
    and laws_delete: "\<exists>t'. txn_Delete K t k = Inr t' \<and> base t' = base t
      \<and> writes t' = (writes t)(k \<mapsto> None) \<and> reads t' \<subseteq> reads t"
    and laws_iterate: "\<exists>xs t'. txn_Iterate K t p = (xs, t')
      \<and> sorted (map fst xs) \<and> distinct (map fst xs)
      \<and> set xs = {(k, v). txn_view K base writes t k = Some v \<and> prefix p k}
      \<and> base t' = base t \<and> writes t' = writes t \<and> reads t' \<subseteq> reads t \<union> fst ` set xs"
    and laws_commit: "(\<And>k. k \<in> reads t \<Longrightarrow> db_content K s k = db_content K (base t) k) \<Longrightarrow>
      \<exists>s'. txn_Commit K s t = Inr s' \<and>
        db_content K s' = (\<lambda>k. case writes t k of Some w \<Rightarrow> w | None \<Rightarrow> db_content K s k)"
  using assms unfolding badger_laws_def by blast+

lemma txn_view_new: "badger_laws K base writes reads \<Longrightarrow>
    txn_view K base writes (NewTransaction K s) = db_content K s"
  by (rule ext) (simp add: txn_view_def laws_new)

text \<open>
  \<open>txn_at K s t W R\<close>: the transaction \<open>t\<close> started from \<open>s\<close>, has the pending writes \<open>W\<close> and has
  read keys of \<open>R\<close> only, however the laws are met. The lemmas step through a transaction.
\<close>

definition txn_at ::
  "('v, 'db, 'txn) badger \<Rightarrow> 'db \<Rightarrow> 'txn \<Rightarrow> (key \<rightharpoonup> 'v option) \<Rightarrow> key set \<Rightarrow> bool" where
  "txn_at K s t W R \<longleftrightarrow> badger_ok K \<and>
     (\<forall>base writes reads. badger_laws K base writes reads \<longrightarrow>
        base t = s \<and> writes t = W \<and> reads t \<subseteq> R)"

definition overlay :: "(key \<rightharpoonup> 'v option) \<Rightarrow> (key \<rightharpoonup> 'v) \<Rightarrow> (key \<rightharpoonup> 'v)" where
  "overlay W c k = (case W k of Some w \<Rightarrow> w | None \<Rightarrow> c k)"

lemma overlay_simps [simp]:
  "overlay Map.empty c = c"
  "overlay (W(k \<mapsto> Some v)) c = (overlay W c)(k \<mapsto> v)"
  "overlay (W(k \<mapsto> None)) c = (overlay W c)(k := None)"
  by (auto simp: overlay_def fun_eq_iff)

lemma at_ok: "txn_at K s t W R \<Longrightarrow> badger_ok K"
  by (simp add: txn_at_def)

lemma at_laws:
  assumes "txn_at K s t W R"
  obtains base writes reads where "badger_laws K base writes reads"
    and "base t = s" "writes t = W" "reads t \<subseteq> R"
  using assms unfolding txn_at_def badger_ok_def by blast

lemma at_view: "badger_laws K base writes reads \<Longrightarrow> txn_at K s t W R \<Longrightarrow>
    txn_view K base writes t = overlay W (db_content K s)"
  by (rule ext) (simp add: txn_at_def txn_view_def overlay_def)

lemma at_New: "badger_ok K \<Longrightarrow> txn_at K s (NewTransaction K s) Map.empty {}"
  by (simp add: txn_at_def laws_new)

lemma at_Get:
  assumes at: "txn_at K s t W R"
  obtains t' where "txn_Get K t k =
      ((case overlay W (db_content K s) k of None \<Rightarrow> Inl ErrKeyNotFound | Some v \<Rightarrow> Inr v), t')"
    and "txn_at K s t' W (insert k R)"
proof (rule that)
  from at obtain base writes reads where L: "badger_laws K base writes reads" by (rule at_laws)
  from laws_get [OF L, of t k]
  show "txn_Get K t k =
      ((case overlay W (db_content K s) k of None \<Rightarrow> Inl ErrKeyNotFound | Some v \<Rightarrow> Inr v),
       snd (txn_Get K t k))"
    by (auto simp: at_view [OF L at])
  show "txn_at K s (snd (txn_Get K t k)) W (insert k R)"
    unfolding txn_at_def
  proof (intro conjI allI impI)
    fix base writes reads
    assume L: "badger_laws K base writes reads"
    show "base (snd (txn_Get K t k)) = s" "writes (snd (txn_Get K t k)) = W"
      "reads (snd (txn_Get K t k)) \<subseteq> insert k R"
      using laws_get [OF L, of t k] at L by (auto simp: txn_at_def) blast+
  qed (use at in \<open>simp add: at_ok\<close>)
qed

lemma at_Set:
  assumes at: "txn_at K s t W R"
  obtains t' where "txn_Set K t k v = Inr t'" and "txn_at K s t' (W(k \<mapsto> Some v)) R"
proof -
  obtain t' where t': "txn_Set K t k v = Inr t'"
    using at by (rule at_laws) (use laws_set [of K _ _ _ t k v] in blast)
  moreover have "txn_at K s t' (W(k \<mapsto> Some v)) R"
    unfolding txn_at_def
  proof (intro conjI allI impI)
    fix base writes reads
    assume L: "badger_laws K base writes reads"
    show "base t' = s" "writes t' = W(k \<mapsto> Some v)" "reads t' \<subseteq> R"
      using laws_set [OF L, of t k v] at L t' by (auto simp: txn_at_def) blast
  qed (use at in \<open>simp add: at_ok\<close>)
  ultimately show thesis by (rule that)
qed

lemma at_Delete:
  assumes at: "txn_at K s t W R"
  obtains t' where "txn_Delete K t k = Inr t'" and "txn_at K s t' (W(k \<mapsto> None)) R"
proof -
  obtain t' where t': "txn_Delete K t k = Inr t'"
    using at by (rule at_laws) (use laws_delete [of K _ _ _ t k] in blast)
  moreover have "txn_at K s t' (W(k \<mapsto> None)) R"
    unfolding txn_at_def
  proof (intro conjI allI impI)
    fix base writes reads
    assume L: "badger_laws K base writes reads"
    show "base t' = s" "writes t' = W(k \<mapsto> None)" "reads t' \<subseteq> R"
      using laws_delete [OF L, of t k] at L t' by (auto simp: txn_at_def) blast
  qed (use at in \<open>simp add: at_ok\<close>)
  ultimately show thesis by (rule that)
qed

lemma at_Commit:
  assumes at: "txn_at K s t W R"
    and same: "\<And>k. k \<in> R \<Longrightarrow> db_content K cur k = db_content K s k"
  obtains s' where "txn_Commit K cur t = Inr s'"
    and "db_content K s' = overlay W (db_content K cur)"
proof -
  from at obtain base writes reads where L: "badger_laws K base writes reads"
    and t: "base t = s" "writes t = W" "reads t \<subseteq> R" by (rule at_laws)
  have "\<exists>s'. txn_Commit K cur t = Inr s' \<and>
      db_content K s' = (\<lambda>k. case writes t k of Some w \<Rightarrow> w | None \<Rightarrow> db_content K cur k)"
    by (rule laws_commit [OF L]) (use t same in auto)
  with t show thesis by (auto intro!: that simp: overlay_def fun_eq_iff)
qed

lemma at_Iterate:
  assumes at: "txn_at K s t W R"
  obtains t' where "txn_Iterate K t p = (fst (txn_Iterate K t p), t')"
    and "txn_at K s t' W (R \<union> fst ` set (fst (txn_Iterate K t p)))"
proof (rule that [of "snd (txn_Iterate K t p)"])
  show "txn_at K s (snd (txn_Iterate K t p)) W (R \<union> fst ` set (fst (txn_Iterate K t p)))"
    unfolding txn_at_def
  proof (intro conjI allI impI)
    fix base writes reads
    assume L: "badger_laws K base writes reads"
    from laws_iterate [OF L, of t p] obtain xs t' where it: "txn_Iterate K t p = (xs, t')"
      "base t' = base t" "writes t' = writes t" "reads t' \<subseteq> reads t \<union> fst ` set xs" by blast
    have t: "base t = s" "writes t = W" "reads t \<subseteq> R" using at L by (auto simp: txn_at_def)
    show "base (snd (txn_Iterate K t p)) = s" "writes (snd (txn_Iterate K t p)) = W"
      using it t by simp_all
    show "reads (snd (txn_Iterate K t p)) \<subseteq> R \<union> fst ` set (fst (txn_Iterate K t p))"
      using it(1,4) t(3) by auto
  qed (use at in \<open>simp add: at_ok\<close>)
qed simp

text \<open>What one read-only transaction gets and walks.\<close>

lemma fresh_Get:
  assumes "badger_ok K"
  shows "fst (txn_Get K (NewTransaction K s) k) =
    (case db_content K s k of None \<Rightarrow> Inl ErrKeyNotFound | Some v \<Rightarrow> Inr v)"
  using at_New [OF assms, of s] by (rule at_Get [where k = k]) simp

definition scan :: "('v, 'db, 'txn) badger \<Rightarrow> 'db \<Rightarrow> key \<Rightarrow> (key \<times> 'v) list" where
  "scan K s p = fst (txn_Iterate K (NewTransaction K s) p)"

lemma scan_ok:
  assumes "badger_ok K"
  shows scan_set: "set (scan K s p) = {(k, v). db_content K s k = Some v \<and> prefix p k}"
    and scan_sorted: "sorted (map fst (scan K s p))"
    and scan_distinct: "distinct (map fst (scan K s p))"
proof -
  from assms obtain base writes reads where L: "badger_laws K base writes reads"
    by (auto simp: badger_ok_def)
  from laws_iterate [OF L, of "NewTransaction K s" p]
  show "set (scan K s p) = {(k, v). db_content K s k = Some v \<and> prefix p k}"
    "sorted (map fst (scan K s p))" "distinct (map fst (scan K s p))"
    by (auto simp: scan_def txn_view_new [OF L])
qed

text \<open>Databases with the same content are walked in the same way.\<close>

lemma scan_cong:
  assumes "badger_ok K" and "\<And>k. prefix p k \<Longrightarrow> db_content K s k = db_content K s' k"
  shows "scan K s p = scan K s' p"
proof (rule sorted_keys_unique)
  show "set (scan K s p) = set (scan K s' p)"
    using assms by (auto simp: scan_set)
qed (use assms(1) in \<open>simp_all add: scan_sorted scan_distinct\<close>)

section \<open>An instance in memory\<close>

text \<open>
  A database is a list of key-value pairs, read from its head. A transaction holds the list it
  started from, its writes (latest first) and the keys it has read.
\<close>

record 'v mem_txn =
  mt_base :: "(key \<times> 'v) list"
  mt_writes :: "(key \<times> 'v option) list"
  mt_reads :: "key list"

definition mem_view :: "'v mem_txn \<Rightarrow> key \<Rightarrow> 'v option" where
  "mem_view t k = (case map_of (mt_writes t) k of Some w \<Rightarrow> w | None \<Rightarrow> map_of (mt_base t) k)"

definition mem_items :: "'v mem_txn \<Rightarrow> key \<Rightarrow> (key \<times> 'v) list" where
  "mem_items t p =
     map (\<lambda>k. (k, the (mem_view t k)))
       (filter (\<lambda>k. prefix p k \<and> mem_view t k \<noteq> None)
         (sort (remdups (map fst (mt_writes t) @ map fst (mt_base t)))))"

definition mem_apply :: "(key \<times> 'v option) list \<Rightarrow> (key \<times> 'v) list \<Rightarrow> (key \<times> 'v) list" where
  "mem_apply w s =
     List.map_filter (\<lambda>k. map_option (Pair k) (Option.bind (map_of w k) (\<lambda>x. x)))
       (remdups (map fst w)) @
     filter (\<lambda>(k, _). map_of w k = None) s"

definition mem_badger :: "('v, (key \<times> 'v) list, 'v mem_txn) badger" where
  "mem_badger = \<lparr>
     NewTransaction = (\<lambda>s. \<lparr>mt_base = s, mt_writes = [], mt_reads = []\<rparr>),
     txn_Get = (\<lambda>t k. ((case mem_view t k of None \<Rightarrow> Inl ErrKeyNotFound | Some v \<Rightarrow> Inr v),
        t\<lparr>mt_reads := k # mt_reads t\<rparr>)),
     txn_Set = (\<lambda>t k v. Inr (t\<lparr>mt_writes := (k, Some v) # mt_writes t\<rparr>)),
     txn_Delete = (\<lambda>t k. Inr (t\<lparr>mt_writes := (k, None) # mt_writes t\<rparr>)),
     txn_Iterate = (\<lambda>t p. (mem_items t p,
        t\<lparr>mt_reads := map fst (mem_items t p) @ mt_reads t\<rparr>)),
     txn_Commit = (\<lambda>s t.
        if list_all (\<lambda>k. map_of s k = map_of (mt_base t) k) (mt_reads t)
        then Inr (mem_apply (mt_writes t) s)
        else Inl (External ''Transaction Conflict. Please retry''))\<rparr>"

lemma mem_content: "db_content mem_badger s = map_of s"
  by (rule ext) (auto simp: db_content_def mem_badger_def mem_view_def split: option.splits)

lemma map_of_map_filter_keys:
  "distinct ks \<Longrightarrow> map_of (List.map_filter (\<lambda>k. map_option (Pair k) (f k)) ks) k =
     (if k \<in> set ks then f k else None)"
proof (induction ks)
  case Nil
  then show ?case by (simp add: map_filter_simps)
next
  case (Cons a ks)
  then show ?case by (auto simp: map_filter_simps split: option.splits)
qed

lemma map_of_filter_keys: "map_of (filter (\<lambda>(k, _). P k) s) k = (if P k then map_of s k else None)"
  by (induction s) auto

lemma mem_apply_content:
  "map_of (mem_apply w s) k = (case map_of w k of Some x \<Rightarrow> x | None \<Rightarrow> map_of s k)"
  by (auto simp: mem_apply_def map_add_def map_of_map_filter_keys map_of_filter_keys
      split: option.splits dest: map_of_SomeD image_eqI [where f = fst, OF fst_conv [symmetric]]
      simp: map_of_eq_None_iff)

lemma mem_items_ok:
  shows "sorted (map fst (mem_items t p))" and "distinct (map fst (mem_items t p))"
    and "set (mem_items t p) = {(k, v). mem_view t k = Some v \<and> prefix p k}"
proof -
  have keys: "map fst (mem_items t p) = filter (\<lambda>k. prefix p k \<and> mem_view t k \<noteq> None)
      (sort (remdups (map fst (mt_writes t) @ map fst (mt_base t))))"
    by (simp add: mem_items_def comp_def)
  show "sorted (map fst (mem_items t p))"
    unfolding keys by (intro sorted_wrt_filter) simp
  show "distinct (map fst (mem_items t p))"
    unfolding keys by simp
  have dom: "k \<in> fst ` set (mt_writes t) \<union> fst ` set (mt_base t)" if "mem_view t k = Some v" for k v
    using that by (cases "map_of (mt_writes t) k")
      (auto simp: mem_view_def dest!: map_of_SomeD intro: rev_image_eqI)
  have "(k, v) \<in> set (mem_items t p) \<longleftrightarrow> mem_view t k = Some v \<and> prefix p k" for k v
    using dom [of k v] unfolding mem_items_def by (simp add: image_iff) (metis option.sel option.exhaust)
  then show "set (mem_items t p) = {(k, v). mem_view t k = Some v \<and> prefix p k}"
    by auto
qed

lemma mem_badger_ok: "badger_ok (mem_badger :: ('a, (key \<times> 'a) list, 'a mem_txn) badger)"
proof -
  let ?w = "\<lambda>t :: 'a mem_txn. map_of (mt_writes t)" and ?r = "\<lambda>t :: 'a mem_txn. set (mt_reads t)"
  have view: "txn_view mem_badger mt_base ?w t = mem_view t" for t
    by (rule ext) (auto simp: txn_view_def mem_content mem_view_def split: option.split)
  have "badger_laws mem_badger mt_base ?w ?r"
    unfolding badger_laws_def view mem_content
  proof (intro conjI allI impI)
    fix s :: "(key \<times> 'a) list" and t :: "'a mem_txn"
    assume "\<forall>k \<in> ?r t. map_of s k = map_of (mt_base t) k"
    then show "\<exists>s'. txn_Commit mem_badger s t = Inr s' \<and>
        map_of s' = (\<lambda>k. case ?w t k of None \<Rightarrow> map_of s k | Some w \<Rightarrow> w)"
      by (auto simp: mem_badger_def list_all_iff mem_apply_content fun_eq_iff)
  next
    fix t :: "'a mem_txn" and p
    show "\<exists>xs t'. txn_Iterate mem_badger t p = (xs, t')
        \<and> sorted (map fst xs) \<and> distinct (map fst xs)
        \<and> set xs = {(k, v). mem_view t k = Some v \<and> prefix p k}
        \<and> mt_base t' = mt_base t \<and> ?w t' = ?w t \<and> ?r t' \<subseteq> ?r t \<union> fst ` set xs"
      using mem_items_ok [of t p] by (simp add: mem_badger_def)
  qed (auto simp: mem_badger_def)
  then show ?thesis by (auto simp: badger_ok_def)
qed

end
