(* ===== verification/Badger_Helper.thy ===== *)
theory Badger_Helper
  imports Badger
begin

text \<open>
  The object layer of the badger store (storage/badger_helper.go): read, write, delete and
  soft-delete one object, and walk through the objects under a key prefix. Each helper is
  characterised by what it does to the content of the database; the locale \<open>soft_object\<close> is the
  contract of the interface \<open>softDelete\<close> and proves once what the helpers guarantee for every
  struct that implements it.
\<close>

section \<open>The helpers\<close>

definition delObj :: "('v, 'db, 'txn) badger \<Rightarrow> key \<Rightarrow> 'db \<Rightarrow> 'db \<times> unit res" where
  "delObj K k s = db_Update K s (\<lambda>t.
     case txn_Get K t k of
       (Inl e, _) \<Rightarrow> Inl e
     | (Inr _, t) \<Rightarrow> (case txn_Delete K t k of Inl e \<Rightarrow> Inl e | Inr t \<Rightarrow> Inr ((), t)))"

definition softDelObj ::
  "('v, 'db, 'txn) badger \<Rightarrow> time \<Rightarrow> ('o, 'v, 'm) softDelete_scheme \<Rightarrow> 'o \<Rightarrow> 'db \<Rightarrow> 'db \<times> unit res" where
  "softDelObj K now M x s = db_Update K s (\<lambda>t.
     let k = obj_key M x in
     case txn_Get K t k of
       (Inl e, _) \<Rightarrow> Inl e
     | (Inr val, t) \<Rightarrow>
         (case FromBytes M val of
            Inl e \<Rightarrow> Inl e
          | Inr x \<Rightarrow>
              if isDeleted M x then Inl (Msg ''not exist'')
              else (case txn_Set K t k (Bytes M (setDeleted M now x)) of
                      Inl e \<Rightarrow> Inl e | Inr t \<Rightarrow> Inr ((), t))))"

definition isExist ::
  "('v, 'db, 'txn) badger \<Rightarrow> ('o, 'v, 'm) deleteVerify_scheme \<Rightarrow> 'o \<Rightarrow> 'db \<Rightarrow> bool res" where
  "isExist K M x s = db_View K s (\<lambda>t.
     case fst (txn_Get K t (obj_key M x)) of
       Inl e \<Rightarrow> if errors_Is e ErrKeyNotFound then Inr False
                else Inl (Msg (''get key failed:'' @ err_Error e))
     | Inr val \<Rightarrow>
         (case FromBytes M val of Inl e \<Rightarrow> Inl e | Inr x \<Rightarrow> Inr (\<not> isDeleted M x)))"

definition put ::
  "('v, 'db, 'txn) badger \<Rightarrow> ('o, 'v, 'm) iStreamableObj_scheme \<Rightarrow> key \<Rightarrow> 'o \<Rightarrow> 'db \<Rightarrow> 'db \<times> unit res" where
  "put K M k val s =
     (let data = Bytes M val
      in db_Update K s (\<lambda>t.
           case txn_Set K t k data of Inl e \<Rightarrow> Inl e | Inr t \<Rightarrow> Inr ((), t)))"

definition putBadgerObj ::
  "('v, 'db, 'txn) badger \<Rightarrow> ('o, 'v, 'm) iBadgerObj_scheme \<Rightarrow> 'o \<Rightarrow> 'db \<Rightarrow> 'db \<times> unit res" where
  "putBadgerObj K M x s = put K M (obj_key M x) x s"

definition getUsableObj ::
  "('v, 'db, 'txn) badger \<Rightarrow> ('o, 'v, 'm) deleteVerify_scheme \<Rightarrow> key \<Rightarrow> 'db \<Rightarrow> 'o res" where
  "getUsableObj K M k s = db_View K s (\<lambda>t.
     case fst (txn_Get K t k) of
       Inl e \<Rightarrow> Inl e
     | Inr val \<Rightarrow>
         (case FromBytes M val of
            Inl e \<Rightarrow> Inl e
          | Inr x \<Rightarrow> if isDeleted M x then Inl ErrKeyNotFound else Inr x))"

definition getObj ::
  "('v, 'db, 'txn) badger \<Rightarrow> ('o, 'v, 'm) iStreamableObj_scheme \<Rightarrow> key \<Rightarrow> 'db \<Rightarrow> 'o res" where
  "getObj K M k s = db_View K s (\<lambda>t.
     case fst (txn_Get K t k) of Inl e \<Rightarrow> Inl e | Inr val \<Rightarrow> FromBytes M val)"

text \<open>
  The walk calls its callback on one item after the other. What the Go closure changes outside
  itself is the state \<open>'st\<close>; the callback returns whether to go on, or an error.
\<close>

fun walk_items ::
  "(key \<times> 'v \<Rightarrow> 'st \<Rightarrow> 'st \<times> bool res) \<Rightarrow> (key \<times> 'v) list \<Rightarrow> 'st \<Rightarrow> 'st \<times> unit res" where
  "walk_items callback [] st = (st, Inr ())"
| "walk_items callback (item # items) st =
     (case callback item st of
        (st', Inl e) \<Rightarrow> (st', Inl e)
      | (st', Inr isContinue) \<Rightarrow>
          if isContinue then walk_items callback items st' else (st', Inr ()))"

definition walkThroughPrefix ::
  "('v, 'db, 'txn) badger \<Rightarrow> 'db \<Rightarrow> key \<Rightarrow> (key \<times> 'v \<Rightarrow> 'st \<Rightarrow> 'st \<times> bool res) \<Rightarrow> 'st \<Rightarrow> 'st \<times> unit res" where
  "walkThroughPrefix K s pre callback st =
     (case txn_Iterate K (NewTransaction K s) pre of (items, _) \<Rightarrow> walk_items callback items st)"

section \<open>What the helpers do to the content\<close>

text \<open>The observable outcome of an operation: the content it leaves and its result.\<close>

definition obs :: "('v, 'db, 'txn) badger \<Rightarrow> 'db \<times> 'r \<Rightarrow> (key \<rightharpoonup> 'v) \<times> 'r" where
  "obs K p = (db_content K (fst p), snd p)"

lemma obs_simps [simp]: "fst (obs K p) = db_content K (fst p)" "snd (obs K p) = snd p"
  "obs K (s, r) = (db_content K s, r)"
  by (simp_all add: obs_def)

lemma content_after: "obs K p = q \<Longrightarrow> db_content K (fst p) = fst q"
  and result_of: "obs K p = q \<Longrightarrow> snd p = snd q"
  by (auto simp: obs_def)

lemma db_Update_fail: "fn (NewTransaction K s) = Inl e \<Longrightarrow> obs K (db_Update K s fn) = (db_content K s, Inl e)"
  by (simp add: db_Update_def db_Update_nested_def)

lemma db_Update_commit:
  assumes "fn (NewTransaction K s) = Inr (r, t)" and "txn_at K s t W R"
  shows "obs K (db_Update K s fn) = (overlay W (db_content K s), Inr r)"
proof -
  obtain s' where "txn_Commit K s t = Inr s'" "db_content K s' = overlay W (db_content K s)"
    by (rule at_Commit [OF assms(2), where cur = s]) auto
  with assms(1) show ?thesis by (simp add: db_Update_def db_Update_nested_def)
qed

lemma put_obs:
  assumes "badger_ok K"
  shows "obs K (put K M k x s) = ((db_content K s)(k \<mapsto> Bytes M x), Inr ())"
proof -
  obtain t where "txn_Set K (NewTransaction K s) k (Bytes M x) = Inr t"
    and "txn_at K s t [k \<mapsto> Some (Bytes M x)] {}"
    by (rule at_Set [OF at_New [OF assms]])
  then show ?thesis
    by (simp add: put_def db_Update_commit [where t = t])
qed

lemma delObj_obs:
  assumes "badger_ok K"
  shows "obs K (delObj K k s) =
    (case db_content K s k of
       None \<Rightarrow> (db_content K s, Inl ErrKeyNotFound)
     | Some v \<Rightarrow> ((db_content K s)(k := None), Inr ()))"
proof (rule at_Get [OF at_New [OF assms], where k = k])
  fix t
  assume get: "txn_Get K (NewTransaction K s) k =
      ((case overlay Map.empty (db_content K s) k of None \<Rightarrow> Inl ErrKeyNotFound | Some v \<Rightarrow> Inr v), t)"
    and at: "txn_at K s t Map.empty {k}"
  obtain t' where "txn_Delete K t k = Inr t'" "txn_at K s t' [k \<mapsto> None] {k}"
    by (rule at_Delete [OF at])
  with get show ?thesis
    by (auto simp: delObj_def db_Update_fail db_Update_commit [where t = t'] split: option.splits)
qed

lemma softDelObj_obs:
  assumes "badger_ok K"
  shows "obs K (softDelObj K now M x s) =
    (case db_content K s (obj_key M x) of
       None \<Rightarrow> (db_content K s, Inl ErrKeyNotFound)
     | Some v \<Rightarrow>
         (case FromBytes M v of
            Inl e \<Rightarrow> (db_content K s, Inl e)
          | Inr y \<Rightarrow>
              if isDeleted M y then (db_content K s, Inl (Msg ''not exist''))
              else ((db_content K s)(obj_key M x \<mapsto> Bytes M (setDeleted M now y)), Inr ())))"
proof (rule at_Get [OF at_New [OF assms], where k = "obj_key M x"])
  let ?k = "obj_key M x"
  fix t
  assume get: "txn_Get K (NewTransaction K s) ?k =
      ((case overlay Map.empty (db_content K s) ?k of None \<Rightarrow> Inl ErrKeyNotFound | Some v \<Rightarrow> Inr v), t)"
    and at: "txn_at K s t Map.empty {?k}"
  have commit: "obs K (db_Update K s fn) = ((db_content K s)(?k \<mapsto> w), Inr ())"
    if "fn (NewTransaction K s) = (case txn_Set K t ?k w of Inl e \<Rightarrow> Inl e | Inr t \<Rightarrow> Inr ((), t))" for fn w
  proof -
    obtain t' where "txn_Set K t ?k w = Inr t'" "txn_at K s t' [?k \<mapsto> Some w] {?k}"
      by (rule at_Set [OF at])
    with that show ?thesis by (simp add: db_Update_commit [where t = t'])
  qed
  from get show ?thesis
    by (auto simp: softDelObj_def Let_def db_Update_fail commit split: option.splits sum.splits)
qed

lemma isExist_content:
  assumes "badger_ok K"
  shows "isExist K M x s =
    (case db_content K s (obj_key M x) of
       None \<Rightarrow> Inr False
     | Some v \<Rightarrow> (case FromBytes M v of Inl e \<Rightarrow> Inl e | Inr y \<Rightarrow> Inr (\<not> isDeleted M y)))"
  by (simp add: isExist_def db_View_def fresh_Get [OF assms] split: option.split)

lemma getUsableObj_content:
  assumes "badger_ok K"
  shows "getUsableObj K M k s =
    (case db_content K s k of
       None \<Rightarrow> Inl ErrKeyNotFound
     | Some v \<Rightarrow>
         (case FromBytes M v of
            Inl e \<Rightarrow> Inl e
          | Inr y \<Rightarrow> if isDeleted M y then Inl ErrKeyNotFound else Inr y))"
  by (simp add: getUsableObj_def db_View_def fresh_Get [OF assms] split: option.split)

lemma getObj_content:
  assumes "badger_ok K"
  shows "getObj K M k s =
    (case db_content K s k of None \<Rightarrow> Inl ErrKeyNotFound | Some v \<Rightarrow> FromBytes M v)"
  by (simp add: getObj_def db_View_def fresh_Get [OF assms] split: option.split)

lemma walkThroughPrefix_scan: "walkThroughPrefix K s pre callback st = walk_items callback (scan K s pre) st"
  by (simp add: walkThroughPrefix_def scan_def split: prod.split)

lemma walk_items_append:
  assumes "\<And>item st. item \<in> set xs \<Longrightarrow> callback item st = (g item st, Inr True)"
  shows "walk_items callback (xs @ ys) st = walk_items callback ys (fold g xs st)"
  using assms by (induction xs arbitrary: st) auto

lemma walk_items_fold:
  assumes "\<And>item st. item \<in> set xs \<Longrightarrow> callback item st = (g item st, Inr True)"
  shows "walk_items callback xs st = (fold g xs st, Inr ())"
  using walk_items_append [of xs callback g "[]", OF assms] by simp

lemma fold_collect: "fold (\<lambda>x acc. if P x then acc @ [f x] else acc) xs acc = acc @ map f (filter P xs)"
  by (induction xs arbitrary: acc) auto

text \<open>A walk that looks for one item and stops when it has found it.\<close>

lemma walk_items_any:
  assumes "\<And>item. item \<in> set xs \<Longrightarrow> callback item False = (P item, Inr (\<not> P item))"
  shows "walk_items callback xs False = ((\<exists>item \<in> set xs. P item), Inr ())"
  using assms by (induction xs) auto

text \<open>The paging loop of \<open>List\<close> and \<open>ListUsers\<close>.\<close>

lemma page_walk_aux:
  assumes "\<And>item n acc. item \<in> set items \<Longrightarrow> callback item (n, acc) =
      (let n' = (if P item then i64 (n + 1) else n);
           acc' = (if P item \<and> \<not> n' \<le> skip then acc @ [f item] else acc)
       in ((n', acc'), Inr (limit = 0 \<or> i64 (n' - skip) < limit)))"
    and "0 \<le> skip" "is_i64 skip" "0 \<le> limit" "0 \<le> n" "n + int (length items) < 2 ^ 63"
    and "limit = 0 \<or> n - skip < limit"
  shows "\<exists>n'. walk_items callback items (n, acc) =
    ((n', acc @ (let ys = drop (nat (skip - n)) (map f (filter P items))
                 in if limit = 0 then ys else take (nat (limit - max 0 (n - skip))) ys)), Inr ())"
  using assms
proof (induction items arbitrary: n acc)
  case Nil
  then show ?case by simp
next
  case (Cons item items)
  define n' where "n' = (if P item then n + 1 else n)"
  have n': "0 \<le> n'" "n' + int (length items) < 2 ^ 63" and i1: "i64 (n + 1) = n + 1"
    and i2: "i64 (n' - skip) = n' - skip"
    using Cons.prems(2-6) by (auto simp: n'_def is_i64_def intro!: i64_id)
  define acc' where "acc' = (if P item \<and> \<not> n' \<le> skip then acc @ [f item] else acc)"
  have cb: "callback item (n, acc) = ((n', acc'), Inr (limit = 0 \<or> n' - skip < limit))"
    using Cons.prems(1) [of item n acc] i1 i2 by (cases "P item") (simp_all add: n'_def acc'_def Let_def)
  show ?case
  proof (cases "limit = 0 \<or> n' - skip < limit")
    case True
    from Cons.IH [of n' acc'] Cons.prems n' True obtain m where
      "walk_items callback items (n', acc') = ((m, acc' @
        (let ys = drop (nat (skip - n')) (map f (filter P items))
         in if limit = 0 then ys else take (nat (limit - max 0 (n' - skip))) ys)), Inr ())"
      by fastforce
    then have walk: "walk_items callback (item # items) (n, acc) = ((m, acc' @
        (let ys = drop (nat (skip - n')) (map f (filter P items))
         in if limit = 0 then ys else take (nat (limit - max 0 (n' - skip))) ys)), Inr ())"
      using cb True by simp
    consider "\<not> P item" | "P item" "n' \<le> skip" | "P item" "\<not> n' \<le> skip" by blast
    then show ?thesis
    proof cases
      case 1
      then have "n' = n" "acc' = acc" by (simp_all add: n'_def acc'_def)
      with walk show ?thesis unfolding \<open>n' = n\<close> \<open>acc' = acc\<close> using 1 by simp
    next
      case 2
      then have suc: "nat (skip - n) = Suc (nat (skip - n'))" and m: "max 0 (n - skip) = max 0 (n' - skip)"
        by (simp_all add: n'_def nat_eq_iff)
      show ?thesis unfolding m using 2 walk suc by (simp add: acc'_def)
    next
      case 3
      then have "nat (skip - n) = 0" "nat (skip - n') = 0"
        "limit \<noteq> 0 \<Longrightarrow> nat (limit - max 0 (n - skip)) = Suc (nat (limit - max 0 (n' - skip)))"
        using Cons.prems(4,7) True by (auto simp: n'_def nat_eq_iff max_def)
      with 3 walk show ?thesis by (simp add: acc'_def Let_def)
    qed
  next
    case False
    with Cons.prems(7) have P: "P item" and "n' = n + 1" and lim: "limit \<noteq> 0" "n - skip = limit - 1"
      by (auto simp: n'_def split: if_splits)
    with Cons.prems(4) False have "\<not> n' \<le> skip" "nat (skip - n) = 0" "nat (limit - max 0 (n - skip)) = 1"
      by (auto simp: max_def)
    with P lim cb False show ?thesis by (simp add: acc'_def)
  qed
qed

lemma page_walk:
  assumes "\<And>item n acc. item \<in> set items \<Longrightarrow> callback item (n, acc) =
      (let n' = (if P item then i64 (n + 1) else n);
           acc' = (if P item \<and> \<not> n' \<le> skip then acc @ [f item] else acc)
       in ((n', acc'), Inr (limit = 0 \<or> i64 (n' - skip) < limit)))"
    and "0 \<le> skip" "is_i64 skip" "0 \<le> limit" "int (length items) < 2 ^ 63"
  shows "\<exists>n'. walk_items callback items (0, []) =
    ((n', page_of skip limit (map f (filter P items))), Inr ())"
proof -
  have eqs: "nat (limit - max 0 (0 - skip)) = nat limit" "nat (skip - 0) = nat skip"
    and start: "limit = 0 \<or> 0 - skip < limit"
    using assms(2,4) by auto
  have "0 + int (length items) < 2 ^ 63" using assms(5) by simp
  from page_walk_aux [of items callback P skip f limit 0 "[]", OF assms(1-4) _ this start, unfolded eqs]
  show ?thesis by (simp add: page_of_def)
qed

section \<open>The contract of soft-deletable objects\<close>

locale soft_object =
  fixes M :: "('o, 'v) softDelete"
  assumes decode_encode: "FromBytes M (Bytes M x) = Inr x"
    and deleted_after_set: "now \<noteq> zero_time \<Longrightarrow> isDeleted M (setDeleted M now x)"
    and key_after_set: "obj_key M (setDeleted M now x) = obj_key M x"
begin

lemma get_after_put:
  assumes "badger_ok K" and "\<not> isDeleted M x"
  shows "getUsableObj K M (obj_key M x) (fst (putBadgerObj K M x s)) = Inr x"
proof -
  have "db_content K (fst (putBadgerObj K M x s)) = (db_content K s)(obj_key M x \<mapsto> Bytes M x)"
    using put_obs [OF assms(1), of M "obj_key M x" x s] by (simp add: putBadgerObj_def obs_def)
  with assms show ?thesis by (simp add: getUsableObj_content decode_encode)
qed

lemma softDel_content:
  assumes "badger_ok K" and "snd (softDelObj K now M x s) = Inr ()"
  obtains y where "getUsableObj K M (obj_key M x) s = Inr y"
    and "db_content K (fst (softDelObj K now M x s)) =
      (db_content K s)(obj_key M x \<mapsto> Bytes M (setDeleted M now y))"
  using softDelObj_obs [OF assms(1), of now M x s] assms(2)
  by (auto simp: obs_def getUsableObj_content [OF assms(1)] split: option.splits sum.splits if_splits)

lemma gone_after_softDel:
  assumes "badger_ok K" and "now \<noteq> zero_time" and "snd (softDelObj K now M x s) = Inr ()"
  shows "getUsableObj K M (obj_key M x) (fst (softDelObj K now M x s)) = Inl ErrKeyNotFound"
    and "isExist K M x (fst (softDelObj K now M x s)) = Inr False"
    and "snd (softDelObj K now' M x (fst (softDelObj K now M x s))) = Inl (Msg ''not exist'')"
proof -
  from assms(1,3) obtain y where "db_content K (fst (softDelObj K now M x s)) =
      (db_content K s)(obj_key M x \<mapsto> Bytes M (setDeleted M now y))"
    by (rule softDel_content)
  with assms(1,2) show
    "getUsableObj K M (obj_key M x) (fst (softDelObj K now M x s)) = Inl ErrKeyNotFound"
    "isExist K M x (fst (softDelObj K now M x s)) = Inr False"
    "snd (softDelObj K now' M x (fst (softDelObj K now M x s))) = Inl (Msg ''not exist'')"
    using softDelObj_obs [OF assms(1), of now' M x "fst (softDelObj K now M x s)"]
    by (simp_all add: getUsableObj_content isExist_content decode_encode deleted_after_set obs_def
        prod_eq_iff)
qed

lemma softDel_succeeds_iff:
  assumes "badger_ok K"
  shows "snd (softDelObj K now M x s) = Inr () \<longleftrightarrow> is_ok (getUsableObj K M (obj_key M x) s)"
  using softDelObj_obs [OF assms, of now M x s]
  by (auto simp: obs_def getUsableObj_content [OF assms] split: option.splits sum.splits if_splits)

lemma isExist_iff_usable:
  assumes "badger_ok K" and "isExist K M x s = Inr b"
  shows "b \<longleftrightarrow> is_ok (getUsableObj K M (obj_key M x) s)"
  using assms by (auto simp: getUsableObj_content isExist_content split: option.splits sum.splits)

end

text \<open>The four structs that implement \<open>softDelete\<close> meet the contract.\<close>

lemma decode_encode_structs:
  "KeyPair_FromBytes (KeyPair_Bytes kp) = Inr kp" "User_FromBytes (User_Bytes u) = Inr u"
  "Miner_FromBytes (Miner_Bytes m) = Inr m" "Signer_FromBytes (Signer_Bytes g) = Inr g"
  by (simp_all add: codec_defs)

interpretation keypair: soft_object KeyPair_obj
  by unfold_locales (simp_all add: KeyPair_obj_def decode_encode_structs deleted_defs obj_key_defs)

interpretation usr: soft_object User_obj
  by unfold_locales (simp_all add: User_obj_def decode_encode_structs deleted_defs obj_key_defs)

interpretation mnr: soft_object "Miner_obj A" for A
  by unfold_locales
    (simp_all add: Miner_obj_def decode_encode_structs deleted_defs obj_key_defs IsZero_def zero_time_def)

interpretation sgn: soft_object "Signer_obj A" for A
  by unfold_locales
    (simp_all add: Signer_obj_def decode_encode_structs deleted_defs obj_key_defs IsZero_def zero_time_def)

end
