(* ===== verification/Badger_Token.thy ===== *)
theory Badger_Token
  imports Badger_Helper
begin

text \<open>
  The token methods of the badger store (storage/badger.go, lines 44-132) and the invariant of
  the key space. Proved: each method against the content of the database, the life cycle of a
  token (put, delete, recover), and the paging of \<open>List\<close>. A method \<open>M\<close> of \<open>badgerStore\<close> is
  \<open>bs_M\<close>.
\<close>

section \<open>The typed key space\<close>

text \<open>
  Every document sits under the key its own fields determine: a token under \<open>TOKEN:\<close> and its
  string, a user under \<open>USER:\<close> and its name, and so on.
\<close>

definition well_keyed :: "'a addr_lib \<Rightarrow> key \<Rightarrow> 'a obj \<Rightarrow> bool" where
  "well_keyed A k v =
     (case v of
        KeyPairObj kp \<Rightarrow> k = KeyPair_key kp
      | UserObj u _ \<Rightarrow> k = User_key u
      | MinerObj m \<Rightarrow> k = Miner_key A m
      | SignerObj g \<Rightarrow> k = Signer_key A g
      | RateLimitObj mr \<Rightarrow> distinct (map fst mr) \<and>
          (\<exists>n. k = rateLimitKey n \<and> (\<forall>(i, l) \<in> set mr. rl_Id l = i \<and> rl_Name l = n))
      | VersionObj v \<Rightarrow> k = storeVersionKey)"

definition keyspace_ok :: "'a addr_lib \<Rightarrow> (key \<rightharpoonup> 'a obj) \<Rightarrow> bool" where
  "keyspace_ok A c \<longleftrightarrow> (\<forall>k v. c k = Some v \<longrightarrow> well_keyed A k v)"

lemma keyspace_okD: "keyspace_ok A c \<Longrightarrow> c k = Some v \<Longrightarrow> well_keyed A k v"
  by (simp add: keyspace_ok_def)

lemma keyspace_ok_empty: "keyspace_ok A Map.empty"
  by (simp add: keyspace_ok_def)

lemma keyspace_ok_upd: "keyspace_ok A c \<Longrightarrow> well_keyed A k v \<Longrightarrow> keyspace_ok A (c(k \<mapsto> v))"
  by (simp add: keyspace_ok_def)

lemma keyspace_ok_del: "keyspace_ok A c \<Longrightarrow> keyspace_ok A (c(k := None))"
  by (simp add: keyspace_ok_def)

text \<open>What the keys and the prefixes hold.\<close>

lemma well_keyed_simps [simp]:
  "well_keyed A (tokenKey t) v \<longleftrightarrow> (\<exists>kp. v = KeyPairObj kp \<and> kp_Token kp = t)"
  "well_keyed A (userKey n) v \<longleftrightarrow> (\<exists>u l. v = UserObj u l \<and> usr_Name u = n)"
  "well_keyed A (minerKey x) v \<longleftrightarrow> (\<exists>m. v = MinerObj m \<and> addr_String A (mn_Miner m) = x)"
  by (auto simp: well_keyed_def obj_key_defs split: obj.splits)

lemma well_keyed_signer:
  assumes "addr_ok A"
  shows "well_keyed A (signerForUserKey (addr_String A a) u) v \<longleftrightarrow>
    (\<exists>g. v = SignerObj g \<and> sn_Signer g = a \<and> sn_User g = u)"
  using assms by (auto simp: well_keyed_def obj_key_defs signerForUserKey_inject addr_ok_colon
      addr_ok_inj split: obj.splits)

lemma well_keyed_prefix:
  assumes "well_keyed A k v"
  shows "prefix PrefixToken k \<Longrightarrow> \<exists>kp. v = KeyPairObj kp \<and> k = tokenKey (kp_Token kp)"
    and "prefix PrefixUser k \<Longrightarrow> \<exists>u l. v = UserObj u l \<and> k = userKey (usr_Name u)"
    and "prefix PrefixMiner k \<Longrightarrow> \<exists>m. v = MinerObj m \<and> k = minerKey (addr_String A (mn_Miner m))"
    and "prefix PrefixSigner k \<Longrightarrow> \<exists>g. v = SignerObj g \<and> k = Signer_key A g"
    and "prefix (signerKey x) k \<Longrightarrow> \<exists>g. v = SignerObj g \<and> k = Signer_key A g"
  using assms by (auto simp: well_keyed_def obj_key_defs split: obj.splits)

text \<open>Every item a walk meets has the shape that its prefix demands.\<close>

lemma scan_typed:
  assumes "badger_ok K" and "keyspace_ok A (db_content K s)"
    and "\<And>k v. well_keyed A k v \<Longrightarrow> prefix p k \<Longrightarrow> \<exists>x. v = C x \<and> k = f x"
  obtains xs where "scan K s p = map (\<lambda>x. (f x, C x)) xs"
proof -
  have "\<exists>x. item = (f x, C x)" if "item \<in> set (scan K s p)" for item
  proof -
    from that have "db_content K s (fst item) = Some (snd item)" "prefix p (fst item)"
      by (auto simp: scan_set [OF assms(1)])
    then show ?thesis using assms(3) [OF keyspace_okD [OF assms(2)]] by (metis prod.collapse)
  qed
  then show thesis using ex_map_conv [of "scan K s p" "\<lambda>x. (f x, C x)"] that by blast
qed

lemma map_typed_set:
  assumes "xs = map (\<lambda>x. (f x, C x)) ys" and "inj C"
  shows "y \<in> set ys \<longleftrightarrow> (f y, C y) \<in> set xs"
  using assms by (auto dest: injD)

section \<open>The methods\<close>

text \<open>A \<open>KeyPair\<close> composite literal with the token only.\<close>

definition KeyPair_of_token :: "string \<Rightarrow> key_pair" where
  "KeyPair_of_token token = \<lparr>kp_Name = [], kp_Perm = [], kp_Secret = [], kp_Extra = [],
     kp_Token = token, kp_CreateTime = zero_time, kp_IsDeleted = 0\<rparr>"

definition bs_Put ::
  "('a obj, 'db, 'txn) badger \<Rightarrow> key_pair \<Rightarrow> 'db \<Rightarrow> 'db \<times> unit res" where
  "bs_Put K kp s = putBadgerObj K KeyPair_obj kp s"

definition bs_Delete ::
  "('a obj, 'db, 'txn) badger \<Rightarrow> time \<Rightarrow> string \<Rightarrow> 'db \<Rightarrow> 'db \<times> unit res" where
  "bs_Delete K now token s =
     (let kp = KeyPair_of_token token in softDelObj K now KeyPair_obj kp s)"

definition bs_Recover ::
  "('a obj, 'db, 'txn) badger \<Rightarrow> string \<Rightarrow> 'db \<Rightarrow> 'db \<times> unit res" where
  "bs_Recover K token s =
     (case getObj K KeyPair_obj (tokenKey token) s of
        Inl e \<Rightarrow> (s, Inl e)
      | Inr kp \<Rightarrow>
          if kp_IsDeleted kp = NotDelete then (s, Inl (Msg ''token is not deleted''))
          else putBadgerObj K KeyPair_obj (kp\<lparr>kp_IsDeleted := NotDelete\<rparr>) s)"

definition bs_Has :: "('a obj, 'db, 'txn) badger \<Rightarrow> string \<Rightarrow> 'db \<Rightarrow> bool res" where
  "bs_Has K token s =
     (let kp = KeyPair_of_token token in isExist K KeyPair_obj kp s)"

definition bs_Get :: "('a obj, 'db, 'txn) badger \<Rightarrow> string \<Rightarrow> 'db \<Rightarrow> key_pair res" where
  "bs_Get K token s = getUsableObj K KeyPair_obj (tokenKey token) s"

definition bs_ByName :: "('a obj, 'db, 'txn) badger \<Rightarrow> string \<Rightarrow> 'db \<Rightarrow> key_pair list res" where
  "bs_ByName K name s =
     (case walkThroughPrefix K s PrefixToken
         (\<lambda>(_, val) kps.
            (case KeyPair_FromBytes val of
               Inl e \<Rightarrow> (kps, Inl e)
             | Inr kp \<Rightarrow>
                 (if kp_Name kp = name \<and> \<not> KeyPair_isDeleted kp then kps @ [kp] else kps, Inr True)))
         [] of
        (_, Inl e) \<Rightarrow> Inl e
      | (kps, Inr _) \<Rightarrow> Inr kps)"

definition bs_UpdateToken ::
  "('a obj, 'db, 'txn) badger \<Rightarrow> key_pair \<Rightarrow> 'db \<Rightarrow> 'db \<times> unit res" where
  "bs_UpdateToken K kp s = putBadgerObj K KeyPair_obj kp s"

definition bs_List :: "('a obj, 'db, 'txn) badger \<Rightarrow> int \<Rightarrow> int \<Rightarrow> 'db \<Rightarrow> key_pair list res" where
  "bs_List K skip limit s =
     (let continue = (\<lambda>offset. limit = 0 \<or> i64 (offset - skip) < limit) in
      case walkThroughPrefix K s PrefixToken
         (\<lambda>(_, val) (offset, kps).
            (case KeyPair_FromBytes val of
               Inl e \<Rightarrow> ((offset, kps), Inl e)
             | Inr kp \<Rightarrow>
                 if KeyPair_isDeleted kp then ((offset, kps), Inr (continue offset))
                 else
                   let offset = i64 (offset + 1) in
                   if offset \<le> skip then ((offset, kps), Inr (continue offset))
                   else ((offset, kps @ [kp]), Inr (continue offset))))
         (0, []) of
        (_, Inl e) \<Rightarrow> Inl e
      | ((_, kps), Inr _) \<Rightarrow> Inr kps)"

section \<open>The methods against the content\<close>

lemma KeyPair_table [simp]:
  "FromBytes KeyPair_obj = KeyPair_FromBytes" "Bytes KeyPair_obj = KeyPair_Bytes"
  "obj_key KeyPair_obj = KeyPair_key" "isDeleted KeyPair_obj = KeyPair_isDeleted"
  "setDeleted KeyPair_obj = KeyPair_setDeleted" "KeyPair_key (KeyPair_of_token t) = tokenKey t"
  by (simp_all add: KeyPair_obj_def KeyPair_key_def KeyPair_of_token_def)

text \<open>The token document under a token's key, deleted or not.\<close>

definition token_doc :: "(key \<rightharpoonup> 'a obj) \<Rightarrow> string \<Rightarrow> key_pair option" where
  "token_doc c t = (case c (tokenKey t) of Some (KeyPairObj kp) \<Rightarrow> Some kp | _ \<Rightarrow> None)"

lemma token_doc_upd [simp]:
  "token_doc (c(tokenKey t \<mapsto> KeyPairObj kp)) = (token_doc c)(t \<mapsto> kp)"
  "token_doc (c(userKey n \<mapsto> v)) = token_doc c" "token_doc (c(minerKey n \<mapsto> v)) = token_doc c"
  "token_doc (c(signerForUserKey n u \<mapsto> v)) = token_doc c"
  "token_doc (c(rateLimitKey n := w)) = token_doc c"
  "token_doc (c(storeVersionKey \<mapsto> v)) = token_doc c"
  by (auto simp: token_doc_def fun_eq_iff)

lemma content_token:
  assumes "keyspace_ok A c"
  shows "c (tokenKey t) = map_option KeyPairObj (token_doc c t)"
    and "token_doc c t = Some kp \<Longrightarrow> kp_Token kp = t"
  using keyspace_okD [OF assms, of "tokenKey t"]
  by (auto simp: token_doc_def split: option.splits obj.splits)

lemma bs_Put_obs:
  "badger_ok K \<Longrightarrow> obs K (bs_Put K kp s) =
     ((db_content K s)(tokenKey (kp_Token kp) \<mapsto> KeyPairObj kp), Inr ())"
  by (simp add: bs_Put_def putBadgerObj_def put_obs KeyPair_key_def KeyPair_Bytes_def)

lemma bs_Delete_obs:
  assumes "badger_ok K" and "keyspace_ok A (db_content K s)"
  shows "obs K (bs_Delete K now token s) =
    (case token_doc (db_content K s) token of
       None \<Rightarrow> (db_content K s, Inl ErrKeyNotFound)
     | Some kp \<Rightarrow>
         if KeyPair_isDeleted kp then (db_content K s, Inl (Msg ''not exist''))
         else ((db_content K s)(tokenKey token \<mapsto> KeyPairObj (kp\<lparr>kp_IsDeleted := Deleted\<rparr>)), Inr ()))"
  using assms(1) by (simp add: bs_Delete_def softDelObj_obs content_token [OF assms(2)] codec_defs
      KeyPair_setDeleted_def split: option.split)

lemma bs_Recover_obs:
  assumes "badger_ok K" and "keyspace_ok A (db_content K s)"
  shows "obs K (bs_Recover K token s) =
    (case token_doc (db_content K s) token of
       None \<Rightarrow> (db_content K s, Inl ErrKeyNotFound)
     | Some kp \<Rightarrow>
         if kp_IsDeleted kp = NotDelete then (db_content K s, Inl (Msg ''token is not deleted''))
         else ((db_content K s)(tokenKey token \<mapsto> KeyPairObj (kp\<lparr>kp_IsDeleted := NotDelete\<rparr>)), Inr ()))"
  using assms(1) content_token(2) [OF assms(2), of token]
  by (auto simp: bs_Recover_def getObj_content putBadgerObj_def put_obs content_token [OF assms(2)]
      codec_defs KeyPair_key_def split: option.split)

lemma bs_Has_content:
  assumes "badger_ok K" and "keyspace_ok A (db_content K s)"
  shows "bs_Has K token s = Inr (case token_doc (db_content K s) token of
      None \<Rightarrow> False | Some kp \<Rightarrow> \<not> KeyPair_isDeleted kp)"
  using assms(1) by (simp add: bs_Has_def isExist_content content_token [OF assms(2)] codec_defs
      split: option.split)

lemma bs_Get_content:
  assumes "badger_ok K" and "keyspace_ok A (db_content K s)"
  shows "bs_Get K token s = (case token_doc (db_content K s) token of
      None \<Rightarrow> Inl ErrKeyNotFound
    | Some kp \<Rightarrow> if KeyPair_isDeleted kp then Inl ErrKeyNotFound else Inr kp)"
  using assms(1) by (simp add: bs_Get_def getUsableObj_content content_token [OF assms(2)] codec_defs
      split: option.split)

text \<open>The live tokens, in the order of the walk.\<close>

definition tokens_of :: "(key \<times> 'a obj) list \<Rightarrow> key_pair list" where
  "tokens_of items = List.map_filter
     (\<lambda>(_, v). case v of KeyPairObj kp \<Rightarrow> Some kp | _ \<Rightarrow> None) items"

definition live_tokens :: "('a obj, 'db, 'txn) badger \<Rightarrow> 'db \<Rightarrow> key_pair list" where
  "live_tokens K s = filter (\<lambda>kp. \<not> KeyPair_isDeleted kp) (tokens_of (scan K s PrefixToken))"

lemma tokens_of_scan:
  assumes "badger_ok K" and "keyspace_ok A (db_content K s)"
  obtains kps where "scan K s PrefixToken = map (\<lambda>kp. (tokenKey (kp_Token kp), KeyPairObj kp)) kps"
    and "tokens_of (scan K s PrefixToken) = kps"
proof (rule scan_typed [OF assms well_keyed_prefix(1)])
  fix kps
  assume kps: "scan K s PrefixToken = map (\<lambda>kp. (tokenKey (kp_Token kp), KeyPairObj kp)) kps"
  have "tokens_of (map (\<lambda>kp. (tokenKey (kp_Token kp), KeyPairObj kp)) kps) = kps" for kps
    by (induction kps) (auto simp: tokens_of_def map_filter_simps)
  with kps show thesis by (intro that [OF kps]) simp
qed

lemma live_tokens_set:
  assumes "badger_ok K" and "keyspace_ok A (db_content K s)"
  shows "set (live_tokens K s) =
    {kp. token_doc (db_content K s) (kp_Token kp) = Some kp \<and> \<not> KeyPair_isDeleted kp}"
proof (rule tokens_of_scan [OF assms])
  fix kps
  assume kps: "scan K s PrefixToken = map (\<lambda>kp. (tokenKey (kp_Token kp), KeyPairObj kp)) kps"
    "tokens_of (scan K s PrefixToken) = kps"
  have "kp \<in> set kps \<longleftrightarrow> (tokenKey (kp_Token kp), KeyPairObj kp) \<in> set (scan K s PrefixToken)" for kp
    unfolding kps(1) by auto
  then show ?thesis
    using kps(2) by (auto simp: live_tokens_def scan_set [OF assms(1)] content_token(1) [OF assms(2)])
qed

lemma bs_ByName_eq:
  assumes "badger_ok K" and "keyspace_ok A (db_content K s)"
  shows "bs_ByName K name s = Inr (filter (\<lambda>kp. kp_Name kp = name) (live_tokens K s))"
proof (rule tokens_of_scan [OF assms])
  fix kps
  assume kps: "scan K s PrefixToken = map (\<lambda>kp. (tokenKey (kp_Token kp), KeyPairObj kp)) kps"
    "tokens_of (scan K s PrefixToken) = kps"
  have fold: "fold (\<lambda>(_, v) acc. case v of KeyPairObj kp \<Rightarrow>
        if kp_Name kp = name \<and> \<not> KeyPair_isDeleted kp then acc @ [kp] else acc)
      (map (\<lambda>kp. (tokenKey (kp_Token kp), KeyPairObj kp)) kps) acc =
      acc @ filter (\<lambda>kp. \<not> KeyPair_isDeleted kp \<and> kp_Name kp = name) kps" for acc
    by (induction kps arbitrary: acc) auto
  show ?thesis
    unfolding bs_ByName_def walkThroughPrefix_scan kps(1)
    by (subst walk_items_fold [where g = "\<lambda>(_, v) acc. case v of KeyPairObj kp \<Rightarrow>
        if kp_Name kp = name \<and> \<not> KeyPair_isDeleted kp then acc @ [kp] else acc"])
      (auto simp: codec_defs fold live_tokens_def kps(2))
qed

lemma bs_List_eq:
  assumes "badger_ok K" and "keyspace_ok A (db_content K s)"
    and "0 \<le> skip" "is_i64 skip" "0 \<le> limit" "int (length (scan K s PrefixToken)) < 2 ^ 63"
  shows "bs_List K skip limit s = Inr (page_of skip limit (live_tokens K s))"
proof (rule tokens_of_scan [OF assms(1,2)])
  let ?items = "scan K s PrefixToken"
  let ?kp = "\<lambda>item. case snd item of KeyPairObj kp \<Rightarrow> kp"
  let ?cb = "\<lambda>(_, val) (offset, kps).
            (case KeyPair_FromBytes val of
               Inl e \<Rightarrow> ((offset, kps), Inl e)
             | Inr kp \<Rightarrow>
                 if KeyPair_isDeleted kp then ((offset, kps), Inr (limit = 0 \<or> i64 (offset - skip) < limit))
                 else
                   let offset = i64 (offset + 1) in
                   if offset \<le> skip then ((offset, kps), Inr (limit = 0 \<or> i64 (offset - skip) < limit))
                   else ((offset, kps @ [kp]), Inr (limit = 0 \<or> i64 (offset - skip) < limit)))"
  fix kps
  assume kps: "?items = map (\<lambda>kp. (tokenKey (kp_Token kp), KeyPairObj kp)) kps" "tokens_of ?items = kps"
  have "?cb item (n, acc) =
      (let n' = (if \<not> KeyPair_isDeleted (?kp item) then i64 (n + 1) else n);
           acc' = (if \<not> KeyPair_isDeleted (?kp item) \<and> \<not> n' \<le> skip then acc @ [?kp item] else acc)
       in ((n', acc'), Inr (limit = 0 \<or> i64 (n' - skip) < limit)))"
    if "item \<in> set ?items" for item n acc
    using that unfolding kps(1) by (auto simp: codec_defs Let_def)
  from page_walk [of ?items ?cb "\<lambda>item. \<not> KeyPair_isDeleted (?kp item)" skip ?kp limit, OF this assms(3-6)]
  have "\<exists>n'. walk_items ?cb ?items (0, []) = ((n', page_of skip limit
      (map ?kp (filter (\<lambda>item. \<not> KeyPair_isDeleted (?kp item)) ?items))), Inr ())" .
  moreover have "map ?kp (filter (\<lambda>item. \<not> KeyPair_isDeleted (?kp item)) ?items) = live_tokens K s"
    unfolding live_tokens_def kps(2) unfolding kps(1) by (simp add: filter_map comp_def)
  ultimately show ?thesis
    unfolding bs_List_def walkThroughPrefix_scan Let_def by (auto simp: case_prod_beta)
qed

end
