(* ===== verification/Badger_User.thy ===== *)
theory Badger_User
  imports Badger_Token
begin

text \<open>
  The user methods of the badger store except \<open>DeleteUser\<close> (storage/badger.go, lines 134-191 and
  276-289), each against the content of the database, and the paging of \<open>ListUsers\<close>.
\<close>

section \<open>The methods\<close>

definition bs_GetUser :: "('a obj, 'db, 'txn) badger \<Rightarrow> string \<Rightarrow> 'db \<Rightarrow> user res" where
  "bs_GetUser K name s = getUsableObj K User_obj (userKey name) s"

fun bs_VerifyUsers :: "('a obj, 'db, 'txn) badger \<Rightarrow> string list \<Rightarrow> 'db \<Rightarrow> unit res" where
  "bs_VerifyUsers K [] s = Inr ()"
| "bs_VerifyUsers K (name # names) s =
     (case getUsableObj K User_obj (userKey name) s of
        Inl e \<Rightarrow> Inl (Wrap (''verify '' @ name @ '': '') e)
      | Inr _ \<Rightarrow> bs_VerifyUsers K names s)"

definition bs_UpdateUser :: "('a obj, 'db, 'txn) badger \<Rightarrow> user \<Rightarrow> 'db \<Rightarrow> 'db \<times> unit res" where
  "bs_UpdateUser K u s = putBadgerObj K User_obj u s"

text \<open>A \<open>User\<close> composite literal with the name only.\<close>

definition User_of_name :: "string \<Rightarrow> user" where
  "User_of_name name = \<lparr>usr_Id = [], usr_Name = name, usr_Comment = [], usr_State = 0,
     usr_CreateTime = zero_time, usr_UpdateTime = zero_time, usr_IsDeleted = 0\<rparr>"

definition bs_HasUser :: "('a obj, 'db, 'txn) badger \<Rightarrow> string \<Rightarrow> 'db \<Rightarrow> bool res" where
  "bs_HasUser K name s = (let u = User_of_name name in isExist K User_obj u s)"

definition bs_PutUser :: "('a obj, 'db, 'txn) badger \<Rightarrow> user \<Rightarrow> 'db \<Rightarrow> 'db \<times> unit res" where
  "bs_PutUser K u s = putBadgerObj K User_obj u s"

definition bs_ListUsers ::
  "('a obj, 'db, 'txn) badger \<Rightarrow> int \<Rightarrow> int \<Rightarrow> user_state \<Rightarrow> 'db \<Rightarrow> user list res" where
  "bs_ListUsers K skip limit state s =
     (let continue = (\<lambda>satisfiedItemCount. limit = 0 \<or> i64 (satisfiedItemCount - skip) < limit) in
      case walkThroughPrefix K s PrefixUser
         (\<lambda>(_, val) (satisfiedItemCount, users).
            (case User_FromBytes val of
               Inl e \<Rightarrow> ((satisfiedItemCount, users), Inl e)
             | Inr u \<Rightarrow>
                 if state \<noteq> UserStateUndefined \<and> usr_State u \<noteq> state
                 then ((satisfiedItemCount, users), Inr (continue satisfiedItemCount))
                 else if User_isDeleted u
                 then ((satisfiedItemCount, users), Inr (continue satisfiedItemCount))
                 else
                   let satisfiedItemCount = i64 (satisfiedItemCount + 1) in
                   if satisfiedItemCount \<le> skip
                   then ((satisfiedItemCount, users), Inr (continue satisfiedItemCount))
                   else ((satisfiedItemCount, users @ [u]), Inr (continue satisfiedItemCount))))
         (0, []) of
        (_, Inl e) \<Rightarrow> Inl e
      | ((_, users), Inr _) \<Rightarrow> Inr users)"

definition bs_RecoverUser :: "('a obj, 'db, 'txn) badger \<Rightarrow> string \<Rightarrow> 'db \<Rightarrow> 'db \<times> unit res" where
  "bs_RecoverUser K name s =
     (case getObj K User_obj (userKey name) s of
        Inl e \<Rightarrow> (s, Inl e)
      | Inr u \<Rightarrow>
          if usr_IsDeleted u = NotDelete then (s, Inl (Msg ''user is not deleted''))
          else putBadgerObj K User_obj (u\<lparr>usr_IsDeleted := NotDelete\<rparr>) s)"

section \<open>The methods against the content\<close>

lemma User_table [simp]:
  "FromBytes User_obj = User_FromBytes" "Bytes User_obj = User_Bytes"
  "obj_key User_obj = User_key" "isDeleted User_obj = User_isDeleted"
  "setDeleted User_obj = User_setDeleted" "User_key (User_of_name n) = userKey n"
  by (simp_all add: User_obj_def User_key_def User_of_name_def)

definition user_doc :: "(key \<rightharpoonup> 'a obj) \<Rightarrow> string \<Rightarrow> user option" where
  "user_doc c n = (case c (userKey n) of Some (UserObj u _) \<Rightarrow> Some u | _ \<Rightarrow> None)"

lemma user_doc_upd [simp]:
  "user_doc (c(userKey n \<mapsto> UserObj u l)) = (user_doc c)(n \<mapsto> u)"
  "user_doc (c(tokenKey t \<mapsto> v)) = user_doc c" "user_doc (c(minerKey t \<mapsto> v)) = user_doc c"
  "user_doc (c(signerForUserKey t x \<mapsto> v)) = user_doc c"
  "user_doc (c(rateLimitKey t := w)) = user_doc c"
  "user_doc (c(storeVersionKey \<mapsto> v)) = user_doc c"
  by (auto simp: user_doc_def fun_eq_iff)

lemma content_user:
  assumes "keyspace_ok A c"
  obtains "c (userKey n) = None" "user_doc c n = None"
  | u l where "c (userKey n) = Some (UserObj u l)" "user_doc c n = Some u" "usr_Name u = n"
  using keyspace_okD [OF assms, of "userKey n"]
  by (cases "c (userKey n)") (auto simp: user_doc_def)

lemma content_user_None:
  assumes "keyspace_ok A c"
  shows "c (userKey n) = None \<longleftrightarrow> user_doc c n = None"
  by (rule content_user [OF assms, of n]) auto

lemma user_doc_name: "keyspace_ok A c \<Longrightarrow> user_doc c n = Some u \<Longrightarrow> usr_Name u = n"
  by (rule content_user [of A c n]) auto

text \<open>A user who is registered and not deleted.\<close>

definition live_user :: "(key \<rightharpoonup> 'a obj) \<Rightarrow> string \<Rightarrow> user option" where
  "live_user c n = (case user_doc c n of None \<Rightarrow> None | Some u \<Rightarrow> if User_isDeleted u then None else Some u)"

lemma bs_GetUser_content:
  assumes "badger_ok K" and "keyspace_ok A (db_content K s)"
  shows "bs_GetUser K name s =
    (case live_user (db_content K s) name of None \<Rightarrow> Inl ErrKeyNotFound | Some u \<Rightarrow> Inr u)"
  by (rule content_user [OF assms(2), of name])
    (auto simp: bs_GetUser_def getUsableObj_content [OF assms(1)] live_user_def codec_defs)

lemma bs_HasUser_content:
  assumes "badger_ok K" and "keyspace_ok A (db_content K s)"
  shows "bs_HasUser K name s = Inr (live_user (db_content K s) name \<noteq> None)"
  by (rule content_user [OF assms(2), of name])
    (auto simp: bs_HasUser_def isExist_content [OF assms(1)] live_user_def codec_defs)

lemma bs_PutUser_obs:
  "badger_ok K \<Longrightarrow> obs K (bs_PutUser K u s) =
     ((db_content K s)(userKey (usr_Name u) \<mapsto> UserObj u None), Inr ())"
  by (simp add: bs_PutUser_def putBadgerObj_def put_obs User_key_def User_Bytes_def)

lemma bs_UpdateUser_obs:
  "badger_ok K \<Longrightarrow> obs K (bs_UpdateUser K u s) =
     ((db_content K s)(userKey (usr_Name u) \<mapsto> UserObj u None), Inr ())"
  by (simp add: bs_UpdateUser_def putBadgerObj_def put_obs User_key_def User_Bytes_def)

lemma bs_RecoverUser_obs:
  assumes "badger_ok K" and "keyspace_ok A (db_content K s)"
  shows "obs K (bs_RecoverUser K name s) =
    (case user_doc (db_content K s) name of
       None \<Rightarrow> (db_content K s, Inl ErrKeyNotFound)
     | Some u \<Rightarrow>
         if usr_IsDeleted u = NotDelete then (db_content K s, Inl (Msg ''user is not deleted''))
         else ((db_content K s)(userKey name \<mapsto> UserObj (u\<lparr>usr_IsDeleted := NotDelete\<rparr>) None), Inr ()))"
  by (rule content_user [OF assms(2), of name])
    (auto simp: bs_RecoverUser_def getObj_content [OF assms(1)] putBadgerObj_def
      put_obs [OF assms(1)] codec_defs User_key_def)

lemma bs_VerifyUsers_ok:
  assumes "badger_ok K" and "keyspace_ok A (db_content K s)"
  shows "bs_VerifyUsers K names s = Inr () \<longleftrightarrow>
    (\<forall>n \<in> set names. live_user (db_content K s) n \<noteq> None)"
proof (induction names)
  case (Cons n names)
  then show ?case
    using bs_GetUser_content [OF assms, of n]
    by (auto simp: bs_GetUser_def split: option.splits sum.splits)
qed simp

text \<open>The first user that is missing is the one the error names.\<close>

lemma bs_VerifyUsers_error:
  assumes "badger_ok K" and "keyspace_ok A (db_content K s)"
    and "live_user (db_content K s) n = None" "\<forall>m \<in> set ms. live_user (db_content K s) m \<noteq> None"
  shows "bs_VerifyUsers K (ms @ n # ns) s = Inl (Wrap (''verify '' @ n @ '': '') ErrKeyNotFound)"
  using assms(4)
proof (induction ms)
  case Nil
  then show ?case
    using bs_GetUser_content [OF assms(1,2), of n] assms(3) by (simp add: bs_GetUser_def)
next
  case (Cons m ms)
  then show ?case
    using bs_GetUser_content [OF assms(1,2), of m] by (auto simp: bs_GetUser_def split: option.splits)
qed

definition users_of :: "(key \<times> 'a obj) list \<Rightarrow> user list" where
  "users_of items = List.map_filter
     (\<lambda>(_, v). case v of UserObj u _ \<Rightarrow> Some u | _ \<Rightarrow> None) items"

definition live_users :: "('a obj, 'db, 'txn) badger \<Rightarrow> 'db \<Rightarrow> user list" where
  "live_users K s = filter (\<lambda>u. \<not> User_isDeleted u) (users_of (scan K s PrefixUser))"

lemma users_of_scan:
  assumes "badger_ok K" and "keyspace_ok A (db_content K s)"
  obtains us where "scan K s PrefixUser = map (\<lambda>(u, l). (userKey (usr_Name u), UserObj u l)) us"
    and "users_of (scan K s PrefixUser) = map fst us"
proof -
  let ?items = "scan K s PrefixUser" and ?f = "\<lambda>(u, l). (userKey (usr_Name u), UserObj u l)"
  have "\<exists>ul. item = ?f ul" if "item \<in> set ?items" for item
  proof -
    obtain k v where item: "item = (k, v)" by (cases item)
    with that have "db_content K s k = Some v" "prefix PrefixUser k" by (simp_all add: scan_set [OF assms(1)])
    then obtain u l where "v = UserObj u l" "k = userKey (usr_Name u)"
      using well_keyed_prefix(2) [OF keyspace_okD [OF assms(2)]] by metis
    with item show ?thesis by (intro exI [of _ "(u, l)"]) simp
  qed
  then obtain us where us: "?items = map ?f us"
    using ex_map_conv [of ?items ?f] by blast
  have "users_of (map ?f us) = map fst us" for us
    by (induction us) (auto simp: users_of_def map_filter_simps)
  with us show thesis by (intro that [OF us]) simp
qed

lemma live_users_set:
  assumes "badger_ok K" and "keyspace_ok A (db_content K s)"
  shows "set (live_users K s) = {u. live_user (db_content K s) (usr_Name u) = Some u}"
proof -
  let ?S = "set (scan K s PrefixUser)"
  have "u \<in> set (users_of (scan K s PrefixUser)) \<longleftrightarrow> (\<exists>l. (userKey (usr_Name u), UserObj u l) \<in> ?S)" for u
  proof (rule users_of_scan [OF assms])
    fix us
    assume us: "scan K s PrefixUser = map (\<lambda>(u, l). (userKey (usr_Name u), UserObj u l)) us"
      "users_of (scan K s PrefixUser) = map fst us"
    show ?thesis unfolding us(2) unfolding us(1) by (auto simp: image_iff) force+
  qed
  moreover have "(\<exists>l. (userKey (usr_Name u), UserObj u l) \<in> ?S) \<longleftrightarrow>
      user_doc (db_content K s) (usr_Name u) = Some u" for u
    by (rule content_user [OF assms(2), of "usr_Name u"]) (auto simp: scan_set [OF assms(1)])
  ultimately show ?thesis
    by (auto simp: live_users_def live_user_def split: option.splits)
qed

lemma bs_ListUsers_eq:
  assumes "badger_ok K" and "keyspace_ok A (db_content K s)"
    and "0 \<le> skip" "is_i64 skip" "0 \<le> limit" "int (length (scan K s PrefixUser)) < 2 ^ 63"
  shows "bs_ListUsers K skip limit state s =
    Inr (page_of skip limit (filter (\<lambda>u. state = UserStateUndefined \<or> usr_State u = state) (live_users K s)))"
proof (rule users_of_scan [OF assms(1,2)])
  let ?items = "scan K s PrefixUser"
  let ?u = "\<lambda>item. case snd item of UserObj u _ \<Rightarrow> u"
  let ?P = "\<lambda>item. (state = UserStateUndefined \<or> usr_State (?u item) = state) \<and> \<not> User_isDeleted (?u item)"
  let ?cb = "\<lambda>(_, val) (n, users).
            (case User_FromBytes val of
               Inl e \<Rightarrow> ((n, users), Inl e)
             | Inr u \<Rightarrow>
                 if state \<noteq> UserStateUndefined \<and> usr_State u \<noteq> state
                 then ((n, users), Inr (limit = 0 \<or> i64 (n - skip) < limit))
                 else if User_isDeleted u
                 then ((n, users), Inr (limit = 0 \<or> i64 (n - skip) < limit))
                 else
                   let n = i64 (n + 1) in
                   if n \<le> skip then ((n, users), Inr (limit = 0 \<or> i64 (n - skip) < limit))
                   else ((n, users @ [u]), Inr (limit = 0 \<or> i64 (n - skip) < limit)))"
  fix us
  assume us: "?items = map (\<lambda>(u, l). (userKey (usr_Name u), UserObj u l)) us" "users_of ?items = map fst us"
  have "?cb item (n, acc) =
      (let n' = (if ?P item then i64 (n + 1) else n);
           acc' = (if ?P item \<and> \<not> n' \<le> skip then acc @ [?u item] else acc)
       in ((n', acc'), Inr (limit = 0 \<or> i64 (n' - skip) < limit)))"
    if "item \<in> set ?items" for item n acc
    using that unfolding us(1) by (auto simp: codec_defs Let_def)
  from page_walk [of ?items ?cb ?P skip ?u limit, OF this assms(3-6)]
  have "\<exists>n'. walk_items ?cb ?items (0, []) = ((n', page_of skip limit
      (map ?u (filter ?P ?items))), Inr ())" .
  moreover have "map ?u (filter ?P ?items) =
      filter (\<lambda>u. state = UserStateUndefined \<or> usr_State u = state) (live_users K s)"
    unfolding live_users_def us(2) unfolding us(1)
    by (auto simp: filter_map comp_def case_prod_beta intro!: arg_cong [where f = "map fst"] filter_cong)
  ultimately show ?thesis
    unfolding bs_ListUsers_def walkThroughPrefix_scan Let_def by (auto simp: case_prod_beta)
qed

end
