(* ===== verification/Badger_Miner.thy ===== *)
theory Badger_Miner
  imports Badger_User
begin

text \<open>
  The miner methods of the badger store (storage/badger.go, lines 368-491). A miner document is
  under the key of its address, so a miner has one owner; upserting moves it.
\<close>

section \<open>The methods\<close>

definition bs_getMiner ::
  "('a obj, 'db, 'txn) badger \<Rightarrow> 'a addr_lib \<Rightarrow> 'a \<Rightarrow> 'db \<Rightarrow> 'a miner res" where
  "bs_getMiner K A mAddr s = getUsableObj K (Miner_obj A) (minerKey (addr_String A mAddr)) s"

definition bs_GetUserByMiner ::
  "('a obj, 'db, 'txn) badger \<Rightarrow> 'a addr_lib \<Rightarrow> 'a \<Rightarrow> 'db \<Rightarrow> user res" where
  "bs_GetUserByMiner K A mAddr s =
     (case bs_getMiner K A mAddr s of
        Inl e \<Rightarrow> Inl e
      | Inr miner \<Rightarrow> bs_GetUser K (mn_User miner) s)"

text \<open>The new miner document of \<open>UpsertMiner\<close>, before the fields set on both paths.\<close>

definition new_miner :: "time \<Rightarrow> 'a \<Rightarrow> 'a miner" where
  "new_miner now mAddr = \<lparr>CreatedAt = now, UpdatedAt = zero_time, DeletedAt = zero_deleted_at,
     mn_ID = 0, mn_Miner = mAddr, mn_User = [], mn_OpenMining = None\<rparr>"

definition upserted_miner :: "time \<Rightarrow> string \<Rightarrow> bool option \<Rightarrow> 'a miner \<Rightarrow> 'a miner" where
  "upserted_miner now userName openMining miner =
     miner\<lparr>mn_User := userName, mn_OpenMining := openMining, UpdatedAt := now,
       DeletedAt := \<lparr>da_Time = zero_time, da_Valid = True\<rparr>\<rparr>"

text \<open>
  \<open>return isCreate, s.db.Update(...)\<close>: the flag returned is the one the function has set.
  The user's key is read for existence only; its document is not looked at.
\<close>

definition bs_UpsertMiner ::
  "('a obj, 'db, 'txn) badger \<Rightarrow> 'a addr_lib \<Rightarrow> time \<Rightarrow> 'a \<Rightarrow> string \<Rightarrow> bool option \<Rightarrow> 'db \<Rightarrow> 'db \<times> bool res" where
  "bs_UpsertMiner K A now mAddr userName openMining s =
     (let userkey = userKey userName; minerkey = minerKey (addr_String A mAddr) in
      db_Update K s (\<lambda>t.
        case txn_Get K t userkey of
          (Inl e, _) \<Rightarrow>
            if errors_Is e ErrKeyNotFound
            then Inl (Msg (''can't bind miner:'' @ addr_String A mAddr @ '' to not exist user:'' @ userName))
            else Inl (Wrap (''bound miner:'' @ addr_String A mAddr @ '' to user:'' @ userName @ '' failed, '') e)
        | (Inr _, t) \<Rightarrow>
            (case txn_Get K t minerkey of
               (r, t) \<Rightarrow>
                 (case (case r of
                          Inl e \<Rightarrow> if errors_Is e ErrKeyNotFound then Inr (new_miner now mAddr, True) else Inl e
                        | Inr val \<Rightarrow>
                            (case Miner_FromBytes val of Inl e \<Rightarrow> Inl e | Inr miner \<Rightarrow> Inr (miner, False))) of
                    Inl e \<Rightarrow> Inl e
                  | Inr (miner, isCreate) \<Rightarrow>
                      let val = Miner_Bytes (upserted_miner now userName openMining miner) in
                      (case txn_Set K t minerkey val of
                         Inl e \<Rightarrow> Inl e | Inr t \<Rightarrow> Inr (isCreate, t))))))"

text \<open>A \<open>Miner\<close> composite literal with the address only.\<close>

definition Miner_of_addr :: "'a \<Rightarrow> 'a miner" where
  "Miner_of_addr mAddr = \<lparr>CreatedAt = zero_time, UpdatedAt = zero_time, DeletedAt = zero_deleted_at,
     mn_ID = 0, mn_Miner = mAddr, mn_User = [], mn_OpenMining = None\<rparr>"

definition bs_HasMiner ::
  "('a obj, 'db, 'txn) badger \<Rightarrow> 'a addr_lib \<Rightarrow> 'a \<Rightarrow> 'db \<Rightarrow> bool res" where
  "bs_HasMiner K A mAddr s = (let miner = Miner_of_addr mAddr in isExist K (Miner_obj A) miner s)"

definition bs_MinerExistInUser ::
  "('a obj, 'db, 'txn) badger \<Rightarrow> 'a addr_lib \<Rightarrow> 'a \<Rightarrow> string \<Rightarrow> 'db \<Rightarrow> bool res" where
  "bs_MinerExistInUser K A mAddr userName s =
     (case walkThroughPrefix K s PrefixMiner
         (\<lambda>(_, val) bExist.
            (case Miner_FromBytes val of
               Inl e \<Rightarrow> (bExist, Inl e)
             | Inr miner \<Rightarrow>
                 let bExist =
                   (if mn_User miner = userName \<and> addr_String A (mn_Miner miner) = addr_String A mAddr
                       \<and> \<not> Miner_isDeleted miner then True else bExist)
                 in (bExist, Inr (\<not> bExist))))
         False of
        (_, Inl e) \<Rightarrow> Inl e
      | (bExist, Inr _) \<Rightarrow> Inr bExist)"

definition bs_ListMiners ::
  "('a obj, 'db, 'txn) badger \<Rightarrow> string \<Rightarrow> 'db \<Rightarrow> 'a miner list res" where
  "bs_ListMiners K usr s =
     (case walkThroughPrefix K s PrefixMiner
         (\<lambda>(_, val) miners.
            (case Miner_FromBytes val of
               Inl e \<Rightarrow> (miners, Inl e)
             | Inr m \<Rightarrow>
                 (if mn_User m = usr \<and> \<not> Miner_isDeleted m then miners @ [m] else miners, Inr True)))
         [] of
        (_, Inl e) \<Rightarrow> Inl e
      | (miners, Inr _) \<Rightarrow> Inr miners)"

definition bs_DelMiner ::
  "('a obj, 'db, 'txn) badger \<Rightarrow> 'a addr_lib \<Rightarrow> time \<Rightarrow> 'a \<Rightarrow> 'db \<Rightarrow> 'db \<times> bool res" where
  "bs_DelMiner K A now miner s =
     (let m = Miner_of_addr miner in
      case softDelObj K now (Miner_obj A) m s of
        (s, Inl e) \<Rightarrow> if errors_Is e ErrKeyNotFound then (s, Inr False) else (s, Inl e)
      | (s, Inr _) \<Rightarrow> (s, Inr True))"

section \<open>The methods against the content\<close>

lemma Miner_table [simp]:
  "FromBytes (Miner_obj A) = Miner_FromBytes" "Bytes (Miner_obj A) = Miner_Bytes"
  "obj_key (Miner_obj A) = Miner_key A" "isDeleted (Miner_obj A) = Miner_isDeleted"
  "setDeleted (Miner_obj A) = Miner_setDeleted"
  "Miner_key A (Miner_of_addr a) = minerKey (addr_String A a)"
  by (simp_all add: Miner_obj_def Miner_key_def Miner_of_addr_def)

definition miner_doc :: "'a addr_lib \<Rightarrow> (key \<rightharpoonup> 'a obj) \<Rightarrow> 'a \<Rightarrow> 'a miner option" where
  "miner_doc A c a = (case c (minerKey (addr_String A a)) of Some (MinerObj m) \<Rightarrow> Some m | _ \<Rightarrow> None)"

text \<open>The user a miner is bound to, if its binding is not deleted.\<close>

definition miner_owner :: "'a addr_lib \<Rightarrow> (key \<rightharpoonup> 'a obj) \<Rightarrow> 'a \<Rightarrow> string option" where
  "miner_owner A c a =
     (case miner_doc A c a of
        None \<Rightarrow> None | Some m \<Rightarrow> if Miner_isDeleted m then None else Some (mn_User m))"

lemma miner_doc_upd:
  assumes "addr_ok A"
  shows "miner_doc A (c(minerKey (addr_String A a) \<mapsto> MinerObj m)) = (miner_doc A c)(a \<mapsto> m)"
  using assms by (auto simp: miner_doc_def fun_eq_iff addr_ok_inj)

lemma miner_doc_other [simp]:
  "miner_doc A (c(tokenKey t \<mapsto> v)) = miner_doc A c" "miner_doc A (c(userKey t \<mapsto> v)) = miner_doc A c"
  "miner_doc A (c(signerForUserKey t x \<mapsto> v)) = miner_doc A c"
  "miner_doc A (c(rateLimitKey t := w)) = miner_doc A c"
  "miner_doc A (c(storeVersionKey \<mapsto> v)) = miner_doc A c"
  by (auto simp: miner_doc_def fun_eq_iff)

lemma content_miner:
  assumes "addr_ok A" and "keyspace_ok A c"
  shows "c (minerKey (addr_String A a)) = map_option MinerObj (miner_doc A c a)"
    and "miner_doc A c a = Some m \<Longrightarrow> mn_Miner m = a"
  using keyspace_okD [OF assms(2), of "minerKey (addr_String A a)"] assms(1)
  by (auto simp: miner_doc_def addr_ok_inj split: option.splits obj.splits)

lemma bs_getMiner_content:
  assumes "badger_ok K" and "addr_ok A" and "keyspace_ok A (db_content K s)"
  shows "bs_getMiner K A a s =
    (case miner_doc A (db_content K s) a of
       None \<Rightarrow> Inl ErrKeyNotFound
     | Some m \<Rightarrow> if Miner_isDeleted m then Inl ErrKeyNotFound else Inr m)"
  by (simp add: bs_getMiner_def getUsableObj_content [OF assms(1)] content_miner [OF assms(2,3)]
      codec_defs split: option.split)

lemma bs_GetUserByMiner_content:
  assumes "badger_ok K" and "addr_ok A" and "keyspace_ok A (db_content K s)"
  shows "bs_GetUserByMiner K A a s =
    (case Option.bind (miner_owner A (db_content K s) a) (live_user (db_content K s)) of
       None \<Rightarrow> Inl ErrKeyNotFound | Some u \<Rightarrow> Inr u)"
  by (simp add: bs_GetUserByMiner_def bs_getMiner_content [OF assms]
      bs_GetUser_content [OF assms(1,3)] miner_owner_def split: option.split)

lemma bs_HasMiner_content:
  assumes "badger_ok K" and "addr_ok A" and "keyspace_ok A (db_content K s)"
  shows "bs_HasMiner K A a s = Inr (miner_owner A (db_content K s) a \<noteq> None)"
  by (simp add: bs_HasMiner_def isExist_content [OF assms(1)] content_miner [OF assms(2,3)]
      codec_defs miner_owner_def split: option.split)

lemma miners_scan:
  assumes "badger_ok K" and "keyspace_ok A (db_content K s)"
  obtains ms where "scan K s PrefixMiner =
      map (\<lambda>m. (minerKey (addr_String A (mn_Miner m)), MinerObj m)) ms"
    and "\<And>m. m \<in> set ms \<longleftrightarrow> miner_doc A (db_content K s) (mn_Miner m) = Some m"
proof (rule scan_typed [OF assms well_keyed_prefix(3)])
  fix ms
  assume ms: "scan K s PrefixMiner = map (\<lambda>m. (minerKey (addr_String A (mn_Miner m)), MinerObj m)) ms"
  have "m \<in> set ms \<longleftrightarrow> miner_doc A (db_content K s) (mn_Miner m) = Some m" for m
  proof -
    have "m \<in> set ms \<longleftrightarrow> (minerKey (addr_String A (mn_Miner m)), MinerObj m) \<in> set (scan K s PrefixMiner)"
      unfolding ms by auto
    then show ?thesis by (auto simp: scan_set [OF assms(1)] miner_doc_def split: option.splits obj.splits)
  qed
  with ms show thesis by (rule that)
qed

lemma bs_MinerExistInUser_content:
  assumes "badger_ok K" and "addr_ok A" and "keyspace_ok A (db_content K s)"
  shows "bs_MinerExistInUser K A a userName s = Inr (miner_owner A (db_content K s) a = Some userName)"
proof (rule miners_scan [OF assms(1,3)])
  fix ms
  assume ms: "scan K s PrefixMiner = map (\<lambda>m. (minerKey (addr_String A (mn_Miner m)), MinerObj m)) ms"
    and set_ms: "\<And>m. m \<in> set ms \<longleftrightarrow> miner_doc A (db_content K s) (mn_Miner m) = Some m"
  let ?P = "\<lambda>m. mn_User m = userName \<and> addr_String A (mn_Miner m) = addr_String A a \<and> \<not> Miner_isDeleted m"
  have "bs_MinerExistInUser K A a userName s =
      Inr (\<exists>item \<in> set (scan K s PrefixMiner). case snd item of MinerObj m \<Rightarrow> ?P m)"
    unfolding bs_MinerExistInUser_def walkThroughPrefix_scan ms
    by (subst walk_items_any [where P = "\<lambda>item. case snd item of MinerObj m \<Rightarrow> ?P m"])
      (auto simp: codec_defs Let_def)
  also have "(\<exists>item \<in> set (scan K s PrefixMiner). case snd item of MinerObj m \<Rightarrow> ?P m) \<longleftrightarrow>
      (\<exists>m. miner_doc A (db_content K s) (mn_Miner m) = Some m \<and> ?P m)"
    unfolding ms by (auto simp: set_ms)
  also have "\<dots> \<longleftrightarrow> (\<exists>m. miner_doc A (db_content K s) a = Some m \<and> mn_User m = userName \<and> \<not> Miner_isDeleted m)"
    using content_miner(2) [OF assms(2,3)] by (metis addr_ok_inj [OF assms(2)])
  also have "\<dots> \<longleftrightarrow> miner_owner A (db_content K s) a = Some userName"
    by (auto simp: miner_owner_def split: option.splits)
  finally show ?thesis .
qed

text \<open>The live miners of a user, in the order of the walk.\<close>

definition miners_of :: "(key \<times> 'a obj) list \<Rightarrow> 'a miner list" where
  "miners_of items = List.map_filter (\<lambda>(_, v). case v of MinerObj m \<Rightarrow> Some m | _ \<Rightarrow> None) items"

definition user_miners :: "('a obj, 'db, 'txn) badger \<Rightarrow> string \<Rightarrow> 'db \<Rightarrow> 'a miner list" where
  "user_miners K n s =
     filter (\<lambda>m. mn_User m = n \<and> \<not> Miner_isDeleted m) (miners_of (scan K s PrefixMiner))"

lemma miners_of_map [simp]: "miners_of (map (\<lambda>m. (f m, MinerObj m)) ms) = ms"
  by (induction ms) (auto simp: miners_of_def map_filter_simps)

lemma user_miners_set:
  assumes "badger_ok K" and "addr_ok A" and "keyspace_ok A (db_content K s)"
  shows "set (user_miners K n s) =
    {m. miner_doc A (db_content K s) (mn_Miner m) = Some m \<and>
        miner_owner A (db_content K s) (mn_Miner m) = Some n}"
  by (rule miners_scan [OF assms(1,3)])
    (auto simp: user_miners_def miner_owner_def split: option.splits if_splits)

lemma user_miners_distinct:
  assumes "badger_ok K" and "keyspace_ok A (db_content K s)"
  shows "distinct (map mn_Miner (user_miners K n s))"
proof (rule miners_scan [OF assms])
  fix ms
  assume ms: "scan K s PrefixMiner = map (\<lambda>m. (minerKey (addr_String A (mn_Miner m)), MinerObj m)) ms"
  have "distinct (map (\<lambda>m. minerKey (addr_String A (mn_Miner m))) ms)"
    using scan_distinct [OF assms(1), of s PrefixMiner] unfolding ms by (simp add: comp_def)
  then have "distinct (map mn_Miner ms)"
    by (auto simp: distinct_map inj_on_def)
  then show ?thesis unfolding user_miners_def ms by (simp add: distinct_map_filter)
qed

lemma bs_ListMiners_eq:
  assumes "badger_ok K" and "keyspace_ok A (db_content K s)"
  shows "bs_ListMiners K n s = Inr (user_miners K n s)"
proof (rule miners_scan [OF assms])
  fix ms
  assume ms: "scan K s PrefixMiner = map (\<lambda>m. (minerKey (addr_String A (mn_Miner m)), MinerObj m)) ms"
  have fold: "fold (\<lambda>(_, v) acc. case v of MinerObj m \<Rightarrow>
        if mn_User m = n \<and> \<not> Miner_isDeleted m then acc @ [m] else acc)
      (map (\<lambda>m. (minerKey (addr_String A (mn_Miner m)), MinerObj m)) ms) acc =
      acc @ filter (\<lambda>m. mn_User m = n \<and> \<not> Miner_isDeleted m) ms" for acc
    by (induction ms arbitrary: acc) auto
  show ?thesis
    unfolding bs_ListMiners_def walkThroughPrefix_scan user_miners_def ms
    by (subst walk_items_fold [where g = "\<lambda>(_, v) acc. case v of MinerObj m \<Rightarrow>
        if mn_User m = n \<and> \<not> Miner_isDeleted m then acc @ [m] else acc"])
      (auto simp: codec_defs fold)
qed

lemma bs_DelMiner_obs:
  assumes "badger_ok K" and "addr_ok A" and "keyspace_ok A (db_content K s)"
  shows "obs K (bs_DelMiner K A now a s) =
    (case miner_doc A (db_content K s) a of
       None \<Rightarrow> (db_content K s, Inr False)
     | Some m \<Rightarrow>
         if Miner_isDeleted m then (db_content K s, Inl (Msg ''not exist''))
         else ((db_content K s)(minerKey (addr_String A a) \<mapsto> MinerObj (Miner_setDeleted now m)), Inr True))"
  using softDelObj_obs [OF assms(1), of now "Miner_obj A" "Miner_of_addr a" s]
  by (auto simp: bs_DelMiner_def Let_def obs_def content_miner [OF assms(2,3)] codec_defs
      split: prod.splits sum.splits option.splits if_splits)

lemma bs_UpsertMiner_obs:
  assumes "badger_ok K" and "addr_ok A" and "keyspace_ok A (db_content K s)"
  shows "obs K (bs_UpsertMiner K A now a n om s) =
    (if user_doc (db_content K s) n = None
     then (db_content K s,
       Inl (Msg (''can't bind miner:'' @ addr_String A a @ '' to not exist user:'' @ n)))
     else let (m, isCreate) = (case miner_doc A (db_content K s) a of
                None \<Rightarrow> (new_miner now a, True) | Some m \<Rightarrow> (m, False))
          in ((db_content K s)(minerKey (addr_String A a) \<mapsto> MinerObj (upserted_miner now n om m)),
              Inr isCreate))"
proof (rule at_Get [OF at_New [OF assms(1)], where k = "userKey n"])
  let ?c = "db_content K s" and ?k = "minerKey (addr_String A a)"
  fix t
  assume get: "txn_Get K (NewTransaction K s) (userKey n) =
      ((case overlay Map.empty ?c (userKey n) of None \<Rightarrow> Inl ErrKeyNotFound | Some v \<Rightarrow> Inr v), t)"
    and at: "txn_at K s t Map.empty {userKey n}"
  obtain t' where get': "txn_Get K t ?k =
      ((case overlay Map.empty ?c ?k of None \<Rightarrow> Inl ErrKeyNotFound | Some v \<Rightarrow> Inr v), t')"
    and at': "txn_at K s t' Map.empty {?k, userKey n}"
    by (rule at_Get [OF at])
  have commit: "obs K (db_Update K s fn) = (?c(?k \<mapsto> w), Inr r)"
    if "fn (NewTransaction K s) = (case txn_Set K t' ?k w of Inl e \<Rightarrow> Inl e | Inr t \<Rightarrow> Inr (r, t))" for fn w r
  proof -
    obtain t'' where "txn_Set K t' ?k w = Inr t''" "txn_at K s t'' [?k \<mapsto> Some w] {?k, userKey n}"
      by (rule at_Set [OF at'])
    with that show ?thesis by (simp add: db_Update_commit [where t = t''])
  qed
  show ?thesis
  proof (cases "user_doc ?c n")
    case None
    then show ?thesis
      using get by (simp add: bs_UpsertMiner_def Let_def db_Update_fail
          content_user_None [OF assms(3), symmetric])
  next
    case (Some u)
    then obtain v where v: "?c (userKey n) = Some v"
      using content_user_None [OF assms(3), of n] by auto
    show ?thesis
    proof (cases "miner_doc A ?c a")
      case None
      then show ?thesis
        unfolding bs_UpsertMiner_def Let_def
        by (subst commit) (use get get' v Some in \<open>simp_all add: content_miner [OF assms(2,3)] Miner_Bytes_def\<close>)
    next
      case (Some m)
      then show ?thesis
        unfolding bs_UpsertMiner_def Let_def
        by (subst commit [of _ False "Miner_Bytes (upserted_miner now n om m)"])
          (use get get' v \<open>user_doc ?c n = Some u\<close> in
            \<open>simp_all add: content_miner [OF assms(2,3)] codec_defs\<close>)
    qed
  qed
qed

text \<open>Who owns which miner after the updates.\<close>

lemma miner_owner_upsert:
  assumes "badger_ok K" and "addr_ok A" and "keyspace_ok A (db_content K s)"
    and "snd (bs_UpsertMiner K A now a n om s) = Inr b"
  shows "miner_owner A (db_content K (fst (bs_UpsertMiner K A now a n om s))) =
    (miner_owner A (db_content K s))(a \<mapsto> n)"
proof -
  note obs = bs_UpsertMiner_obs [OF assms(1-3), of now a n om]
  have "user_doc (db_content K s) n \<noteq> None"
    using result_of [OF obs] assms(4) by (auto split: if_splits)
  then obtain m where *: "db_content K (fst (bs_UpsertMiner K A now a n om s)) =
      (db_content K s)(minerKey (addr_String A a) \<mapsto> MinerObj (upserted_miner now n om m))"
    using content_after [OF obs] by (auto split: prod.splits)
  show ?thesis
    unfolding * by (rule ext) (simp add: miner_owner_def miner_doc_upd [OF assms(2)] upserted_miner_def Miner_isDeleted_def)
qed

lemma miner_owner_del:
  assumes "badger_ok K" and "addr_ok A" and "keyspace_ok A (db_content K s)"
    and "snd (bs_DelMiner K A now a s) = Inr b" and "now \<noteq> zero_time"
  shows "miner_owner A (db_content K (fst (bs_DelMiner K A now a s))) =
    (miner_owner A (db_content K s))(a := None)"
proof (cases "miner_doc A (db_content K s) a")
  case None
  then show ?thesis
    using content_after [OF bs_DelMiner_obs [OF assms(1-3), of now a]] by (auto simp: miner_owner_def)
next
  case (Some m)
  note obs = bs_DelMiner_obs [OF assms(1-3), of now a, unfolded Some option.case]
  have "\<not> Miner_isDeleted m"
    using result_of [OF obs] assms(4) by (auto split: if_splits)
  then have *: "db_content K (fst (bs_DelMiner K A now a s)) =
      (db_content K s)(minerKey (addr_String A a) \<mapsto> MinerObj (Miner_setDeleted now m))"
    using content_after [OF obs] by simp
  show ?thesis
    unfolding * using assms(5) by (intro ext) (simp add: miner_owner_def miner_doc_upd [OF assms(2)] deleted_defs
        IsZero_def zero_time_def)
qed

end
