(* ===== verification/Badger_Signer.thy ===== *)
theory Badger_Signer
  imports Badger_Miner
begin

text \<open>
  The signer methods of the badger store (storage/badger.go, lines 493-661). A signer may be
  registered for many users, one document per pair under the key \<open>SIGNERS:signer:user\<close>; what is
  asked of a signer alone walks the keys that start with \<open>SIGNERS:signer\<close>.
\<close>

section \<open>The methods\<close>

definition new_signer :: "time \<Rightarrow> 'a \<Rightarrow> 'a signer" where
  "new_signer now addr = \<lparr>CreatedAt = now, UpdatedAt = zero_time, DeletedAt = zero_deleted_at,
     sn_ID = 0, sn_Signer = addr, sn_User = []\<rparr>"

definition registered_signer :: "time \<Rightarrow> string \<Rightarrow> 'a signer \<Rightarrow> 'a signer" where
  "registered_signer now userName signer =
     signer\<lparr>sn_User := userName, UpdatedAt := now,
       DeletedAt := \<lparr>da_Time = zero_time, da_Valid = True\<rparr>\<rparr>"

definition bs_RegisterSigner ::
  "('a obj, 'db, 'txn) badger \<Rightarrow> 'a addr_lib \<Rightarrow> time \<Rightarrow> 'a \<Rightarrow> string \<Rightarrow> 'db \<Rightarrow> 'db \<times> unit res" where
  "bs_RegisterSigner K A now addr userName s =
     (let userkey = userKey userName; signerkey = signerForUserKey (addr_String A addr) userName in
      db_Update K s (\<lambda>t.
        case txn_Get K t userkey of
          (Inl e, _) \<Rightarrow>
            if errors_Is e ErrKeyNotFound
            then Inl (Msg (''can't bind signer:'' @ addr_String A addr @ '' to not exist user:'' @ userName))
            else Inl (Wrap (''bound signer:'' @ addr_String A addr @ '' to user:'' @ userName @ '' failed, '') e)
        | (Inr _, t) \<Rightarrow>
            (case txn_Get K t signerkey of
               (r, t) \<Rightarrow>
                 (case (case r of
                          Inl e \<Rightarrow> if errors_Is e ErrKeyNotFound then Inr (new_signer now addr) else Inl e
                        | Inr val \<Rightarrow> Signer_FromBytes val) of
                    Inl e \<Rightarrow> Inl e
                  | Inr signer \<Rightarrow>
                      let val = Signer_Bytes (registered_signer now userName signer) in
                      (case txn_Set K t signerkey val of
                         Inl e \<Rightarrow> Inl e | Inr t \<Rightarrow> Inr ((), t))))))"

text \<open>A \<open>Signer\<close> composite literal with the address and the user.\<close>

definition Signer_of :: "'a \<Rightarrow> string \<Rightarrow> 'a signer" where
  "Signer_of addr userName = \<lparr>CreatedAt = zero_time, UpdatedAt = zero_time,
     DeletedAt = zero_deleted_at, sn_ID = 0, sn_Signer = addr, sn_User = userName\<rparr>"

definition bs_SignerExistInUser ::
  "('a obj, 'db, 'txn) badger \<Rightarrow> 'a addr_lib \<Rightarrow> 'a \<Rightarrow> string \<Rightarrow> 'db \<Rightarrow> bool res" where
  "bs_SignerExistInUser K A addr userName s =
     (let signer = Signer_of addr userName in isExist K (Signer_obj A) signer s)"

definition bs_ListSigner ::
  "('a obj, 'db, 'txn) badger \<Rightarrow> string \<Rightarrow> 'db \<Rightarrow> 'a signer list res" where
  "bs_ListSigner K userName s =
     (case walkThroughPrefix K s PrefixSigner
         (\<lambda>(_, val) signers.
            (case Signer_FromBytes val of
               Inl e \<Rightarrow> (signers, Inl e)
             | Inr signer \<Rightarrow>
                 (if sn_User signer = userName \<and> \<not> Signer_isDeleted signer
                  then signers @ [signer] else signers, Inr True)))
         [] of
        (_, Inl e) \<Rightarrow> Inl e
      | (signers, Inr _) \<Rightarrow> Inr signers)"

definition bs_innerUnregisterSigner ::
  "('a obj, 'db, 'txn) badger \<Rightarrow> 'a addr_lib \<Rightarrow> time \<Rightarrow> 'a \<Rightarrow> string \<Rightarrow> 'db \<Rightarrow> 'db \<times> unit res" where
  "bs_innerUnregisterSigner K A now addr userName s =
     (let signer = Signer_of addr userName in
      case softDelObj K now (Signer_obj A) signer s of
        (s, Inl e) \<Rightarrow> if \<not> errors_Is e ErrKeyNotFound then (s, Inl e) else (s, Inr ())
      | (s, Inr _) \<Rightarrow> (s, Inr ()))"

definition bs_UnregisterSigner ::
  "('a obj, 'db, 'txn) badger \<Rightarrow> 'a addr_lib \<Rightarrow> time \<Rightarrow> 'a \<Rightarrow> string \<Rightarrow> 'db \<Rightarrow> 'db \<times> unit res" where
  "bs_UnregisterSigner K A now addr userName s = bs_innerUnregisterSigner K A now addr userName s"

definition bs_HasSigner :: "('a obj, 'db, 'txn) badger \<Rightarrow> 'a addr_lib \<Rightarrow> 'a \<Rightarrow> 'db \<Rightarrow> bool res" where
  "bs_HasSigner K A addr s =
     (case walkThroughPrefix K s (signerKey (addr_String A addr))
         (\<lambda>(_, val) exist.
            (case Signer_FromBytes val of
               Inl e \<Rightarrow> (exist, Inl e)
             | Inr signer \<Rightarrow>
                 let exist = (if \<not> Signer_isDeleted signer then True else exist)
                 in (exist, Inr (\<not> exist))))
         False of
        (_, Inl e) \<Rightarrow> Inl e
      | (exist, Inr _) \<Rightarrow> Inr exist)"

text \<open>
  The walk reads the snapshot it opened; each deletion is a transaction of its own on the
  database, which is part of the state that the callback changes.
\<close>

definition bs_DelSigner ::
  "('a obj, 'db, 'txn) badger \<Rightarrow> 'a addr_lib \<Rightarrow> time \<Rightarrow> 'a \<Rightarrow> 'db \<Rightarrow> 'db \<times> bool res" where
  "bs_DelSigner K A now addr s =
     (case walkThroughPrefix K s (signerKey (addr_String A addr))
         (\<lambda>(_, val) (s, count).
            (case Signer_FromBytes val of
               Inl e \<Rightarrow> ((s, count), Inl e)
             | Inr signer \<Rightarrow>
                 if Signer_isDeleted signer then ((s, count), Inr True)
                 else
                   let count = count + 1 in
                   (case db_Update K s (\<lambda>t.
                            let signer = Signer_setDeleted now signer in
                            (case txn_Set K t (Signer_key A signer) (Signer_Bytes signer) of
                               Inl e \<Rightarrow> Inl e | Inr t \<Rightarrow> Inr ((), t))) of
                      (s, Inl e) \<Rightarrow> ((s, count), Inl e)
                    | (s, Inr _) \<Rightarrow> ((s, count), Inr True))))
         (s, 0 :: nat) of
        ((s, _), Inl e) \<Rightarrow> (s, Inl e)
      | ((s, count), Inr _) \<Rightarrow> (s, Inr (count > 0)))"

definition bs_GetUserBySigner ::
  "('a obj, 'db, 'txn) badger \<Rightarrow> 'a addr_lib \<Rightarrow> 'a \<Rightarrow> 'db \<Rightarrow> user list res" where
  "bs_GetUserBySigner K A addr s =
     (case walkThroughPrefix K s (signerKey (addr_String A addr))
         (\<lambda>(_, val) users.
            (case Signer_FromBytes val of
               Inl e \<Rightarrow> (users, Inl e)
             | Inr signer \<Rightarrow>
                 (case bs_GetUser K (sn_User signer) s of
                    Inl e \<Rightarrow> (users, Inl (Wrap (''get user '' @ sn_User signer @ '': '') e))
                  | Inr user \<Rightarrow>
                      (if \<not> User_isDeleted user then users @ [user] else users, Inr True))))
         [] of
        (_, Inl e) \<Rightarrow> Inl e
      | (users, Inr _) \<Rightarrow> Inr users)"

section \<open>The methods against the content\<close>

lemma Signer_table [simp]:
  "FromBytes (Signer_obj A) = Signer_FromBytes" "Bytes (Signer_obj A) = Signer_Bytes"
  "obj_key (Signer_obj A) = Signer_key A" "isDeleted (Signer_obj A) = Signer_isDeleted"
  "setDeleted (Signer_obj A) = Signer_setDeleted"
  "Signer_key A (Signer_of a n) = signerForUserKey (addr_String A a) n"
  "Signer_key A (Signer_setDeleted now g) = Signer_key A g"
  by (simp_all add: Signer_obj_def Signer_key_def Signer_of_def Signer_setDeleted_def)

definition signer_doc :: "'a addr_lib \<Rightarrow> (key \<rightharpoonup> 'a obj) \<Rightarrow> 'a \<Rightarrow> string \<Rightarrow> 'a signer option" where
  "signer_doc A c a n =
     (case c (signerForUserKey (addr_String A a) n) of Some (SignerObj g) \<Rightarrow> Some g | _ \<Rightarrow> None)"

text \<open>A signer is bound to a user if the pair is registered and not deleted.\<close>

definition signer_bound :: "'a addr_lib \<Rightarrow> (key \<rightharpoonup> 'a obj) \<Rightarrow> 'a \<Rightarrow> string \<Rightarrow> bool" where
  "signer_bound A c a n \<longleftrightarrow> (case signer_doc A c a n of None \<Rightarrow> False | Some g \<Rightarrow> \<not> Signer_isDeleted g)"

lemma signer_doc_upd:
  assumes "addr_ok A"
  shows "signer_doc A (c(signerForUserKey (addr_String A a) n \<mapsto> SignerObj g)) b m =
    (if b = a \<and> m = n then Some g else signer_doc A c b m)"
  using assms by (auto simp: signer_doc_def signerForUserKey_inject addr_ok_colon addr_ok_inj)

lemma signer_doc_other [simp]:
  "signer_doc A (c(tokenKey t \<mapsto> v)) = signer_doc A c" "signer_doc A (c(userKey t \<mapsto> v)) = signer_doc A c"
  "signer_doc A (c(minerKey t \<mapsto> v)) = signer_doc A c"
  "signer_doc A (c(rateLimitKey t := w)) = signer_doc A c"
  "signer_doc A (c(storeVersionKey \<mapsto> v)) = signer_doc A c"
  by (auto simp: signer_doc_def fun_eq_iff)

lemma docs_signer_upd [simp]:
  "token_doc (c(signerForUserKey x n \<mapsto> v)) = token_doc c"
  by simp

lemma content_signer:
  assumes "addr_ok A" and "keyspace_ok A c"
  shows "c (signerForUserKey (addr_String A a) n) = map_option SignerObj (signer_doc A c a n)"
    and "signer_doc A c a n = Some g \<Longrightarrow> sn_Signer g = a \<and> sn_User g = n"
  using keyspace_okD [OF assms(2), of "signerForUserKey (addr_String A a) n"]
  by (auto simp: signer_doc_def well_keyed_signer [OF assms(1)] split: option.splits obj.splits)

lemma bs_SignerExistInUser_content:
  assumes "badger_ok K" and "addr_ok A" and "keyspace_ok A (db_content K s)"
  shows "bs_SignerExistInUser K A a n s = Inr (signer_bound A (db_content K s) a n)"
  by (simp add: bs_SignerExistInUser_def isExist_content [OF assms(1)] content_signer [OF assms(2,3)]
      codec_defs signer_bound_def split: option.split)

text \<open>What a walk under \<open>SIGNERS:\<close> meets, and one under \<open>SIGNERS:signer\<close>.\<close>

lemma signers_scan_gen:
  assumes "badger_ok K" and "keyspace_ok A (db_content K s)"
    and "\<And>k. prefix p k \<Longrightarrow> prefix PrefixSigner k"
  obtains gs where "scan K s p = map (\<lambda>g. (Signer_key A g, SignerObj g)) gs"
    and "\<And>g. g \<in> set gs \<longleftrightarrow>
      signer_doc A (db_content K s) (sn_Signer g) (sn_User g) = Some g \<and> prefix p (Signer_key A g)"
proof (rule scan_typed [OF assms(1,2)])
  show "\<exists>g. v = SignerObj g \<and> k = Signer_key A g" if "well_keyed A k v" "prefix p k" for k v
    using that assms(3) well_keyed_prefix(4) by blast
next
  fix gs
  assume gs: "scan K s p = map (\<lambda>g. (Signer_key A g, SignerObj g)) gs"
  have "g \<in> set gs \<longleftrightarrow>
      signer_doc A (db_content K s) (sn_Signer g) (sn_User g) = Some g \<and> prefix p (Signer_key A g)" for g
  proof -
    have "g \<in> set gs \<longleftrightarrow> (Signer_key A g, SignerObj g) \<in> set (scan K s p)"
      unfolding gs by auto
    then show ?thesis
      by (auto simp: scan_set [OF assms(1)] signer_doc_def Signer_key_def split: option.splits obj.splits)
  qed
  with gs show thesis by (rule that)
qed

lemma signers_scan:
  assumes "badger_ok K" and "keyspace_ok A (db_content K s)"
  obtains gs where "scan K s PrefixSigner = map (\<lambda>g. (Signer_key A g, SignerObj g)) gs"
    and "\<And>g. g \<in> set gs \<longleftrightarrow> signer_doc A (db_content K s) (sn_Signer g) (sn_User g) = Some g"
  by (rule signers_scan_gen [OF assms, of PrefixSigner]) (auto simp: Signer_key_def)

lemma prefix_Signer_key:
  assumes "addr_ok A"
  shows "prefix (signerKey (addr_String A a)) (Signer_key A g) \<longleftrightarrow>
    prefix (addr_String A a) (addr_String A (sn_Signer g))"
  using prefix_no_sep [of "addr_String A a" "addr_String A (sn_Signer g)"] addr_ok_colon [OF assms]
  by (auto simp: Signer_key_def)

lemma signer_scan:
  assumes "badger_ok K" and "addr_ok A" and "keyspace_ok A (db_content K s)"
  obtains gs where
    "scan K s (signerKey (addr_String A a)) = map (\<lambda>g. (Signer_key A g, SignerObj g)) gs"
    and "\<And>g. g \<in> set gs \<longleftrightarrow> signer_doc A (db_content K s) (sn_Signer g) (sn_User g) = Some g \<and>
      prefix (addr_String A a) (addr_String A (sn_Signer g))"
proof (rule signers_scan_gen [OF assms(1,3), of "signerKey (addr_String A a)"])
  show "prefix PrefixSigner k" if "prefix (signerKey (addr_String A a)) k" for k
    using that by (auto simp: signerKey_def prefix_def)
qed (auto simp: prefix_Signer_key [OF assms(2)] intro: that)

lemma signer_scan_bound:
  assumes "badger_ok K" and "addr_ok A" and "keyspace_ok A (db_content K s)"
  shows "(\<exists>k g. (k, SignerObj g) \<in> set (scan K s (signerKey (addr_String A a))) \<and> \<not> Signer_isDeleted g) \<longleftrightarrow>
    (\<exists>b n. prefix (addr_String A a) (addr_String A b) \<and> signer_bound A (db_content K s) b n)"
    (is "?L = ?R")
proof (rule signer_scan [OF assms, of a])
  fix gs
  assume gs: "scan K s (signerKey (addr_String A a)) = map (\<lambda>g. (Signer_key A g, SignerObj g)) gs"
    and set_gs: "\<And>g. g \<in> set gs \<longleftrightarrow> signer_doc A (db_content K s) (sn_Signer g) (sn_User g) = Some g \<and>
      prefix (addr_String A a) (addr_String A (sn_Signer g))"
  have "?L \<longleftrightarrow> (\<exists>g \<in> set gs. \<not> Signer_isDeleted g)" (is "_ \<longleftrightarrow> ?M")
    unfolding gs by auto
  also have "?M \<longleftrightarrow> ?R"
  proof
    assume ?M
    then obtain g where g: "g \<in> set gs" "\<not> Signer_isDeleted g" by blast
    then show ?R
      using set_gs [of g] by (intro exI [of _ "sn_Signer g"] exI [of _ "sn_User g"]) (simp add: signer_bound_def)
  next
    assume ?R
    then obtain b n g where g: "prefix (addr_String A a) (addr_String A b)"
      "signer_doc A (db_content K s) b n = Some g" "\<not> Signer_isDeleted g"
      by (auto simp: signer_bound_def split: option.splits)
    then have "g \<in> set gs"
      using content_signer(2) [OF assms(2,3) g(2)] set_gs [of g] by simp
    with g(3) show ?M by blast
  qed
  finally show ?thesis .
qed

lemma bs_HasSigner_content:
  assumes "badger_ok K" and "addr_ok A" and "keyspace_ok A (db_content K s)"
  shows "bs_HasSigner K A a s = Inr (\<exists>b n. prefix (addr_String A a) (addr_String A b) \<and>
    signer_bound A (db_content K s) b n)"
proof (rule signer_scan [OF assms, of a])
  fix gs
  assume gs: "scan K s (signerKey (addr_String A a)) = map (\<lambda>g. (Signer_key A g, SignerObj g)) gs"
  have "bs_HasSigner K A a s = Inr (\<exists>item \<in> set (scan K s (signerKey (addr_String A a))).
      case snd item of SignerObj g \<Rightarrow> \<not> Signer_isDeleted g)"
    unfolding bs_HasSigner_def walkThroughPrefix_scan gs
    by (subst walk_items_any [where P = "\<lambda>item. case snd item of SignerObj g \<Rightarrow> \<not> Signer_isDeleted g"])
      (auto simp: codec_defs Let_def)
  also have "(\<exists>item \<in> set (scan K s (signerKey (addr_String A a))).
      case snd item of SignerObj g \<Rightarrow> \<not> Signer_isDeleted g) \<longleftrightarrow>
      (\<exists>k g. (k, SignerObj g) \<in> set (scan K s (signerKey (addr_String A a))) \<and> \<not> Signer_isDeleted g)"
    unfolding gs by auto
  finally show ?thesis unfolding signer_scan_bound [OF assms] .
qed

text \<open>The live bindings of a user, in the order of the walk.\<close>

definition signers_of :: "(key \<times> 'a obj) list \<Rightarrow> 'a signer list" where
  "signers_of items = List.map_filter (\<lambda>(_, v). case v of SignerObj g \<Rightarrow> Some g | _ \<Rightarrow> None) items"

definition user_signers :: "('a obj, 'db, 'txn) badger \<Rightarrow> string \<Rightarrow> 'db \<Rightarrow> 'a signer list" where
  "user_signers K n s =
     filter (\<lambda>g. sn_User g = n \<and> \<not> Signer_isDeleted g) (signers_of (scan K s PrefixSigner))"

lemma signers_of_map [simp]: "signers_of (map (\<lambda>g. (f g, SignerObj g)) gs) = gs"
  by (induction gs) (auto simp: signers_of_def map_filter_simps)

lemma user_signers_set:
  assumes "badger_ok K" and "keyspace_ok A (db_content K s)"
  shows "set (user_signers K n s) =
    {g. signer_doc A (db_content K s) (sn_Signer g) (sn_User g) = Some g \<and> sn_User g = n \<and>
        signer_bound A (db_content K s) (sn_Signer g) n}"
  by (rule signers_scan [OF assms])
    (auto simp: user_signers_def signer_bound_def split: option.splits)

lemma bs_ListSigner_eq:
  assumes "badger_ok K" and "keyspace_ok A (db_content K s)"
  shows "bs_ListSigner K n s = Inr (user_signers K n s)"
proof (rule signers_scan [OF assms])
  fix gs
  assume gs: "scan K s PrefixSigner = map (\<lambda>g. (Signer_key A g, SignerObj g)) gs"
  have fold: "fold (\<lambda>(_, v) acc. case v of SignerObj g \<Rightarrow>
        if sn_User g = n \<and> \<not> Signer_isDeleted g then acc @ [g] else acc)
      (map (\<lambda>g. (Signer_key A g, SignerObj g)) gs) acc =
      acc @ filter (\<lambda>g. sn_User g = n \<and> \<not> Signer_isDeleted g) gs" for acc
    by (induction gs arbitrary: acc) auto
  show ?thesis
    unfolding bs_ListSigner_def walkThroughPrefix_scan user_signers_def gs
    by (subst walk_items_fold [where g = "\<lambda>(_, v) acc. case v of SignerObj g \<Rightarrow>
        if sn_User g = n \<and> \<not> Signer_isDeleted g then acc @ [g] else acc"])
      (auto simp: codec_defs fold)
qed

lemma bs_RegisterSigner_obs:
  assumes "badger_ok K" and "addr_ok A" and "keyspace_ok A (db_content K s)"
  shows "obs K (bs_RegisterSigner K A now a n s) =
    (if user_doc (db_content K s) n = None
     then (db_content K s,
       Inl (Msg (''can't bind signer:'' @ addr_String A a @ '' to not exist user:'' @ n)))
     else ((db_content K s)(signerForUserKey (addr_String A a) n \<mapsto>
              SignerObj (registered_signer now n
                (case signer_doc A (db_content K s) a n of None \<Rightarrow> new_signer now a | Some g \<Rightarrow> g))),
           Inr ()))"
proof (rule at_Get [OF at_New [OF assms(1)], where k = "userKey n"])
  let ?c = "db_content K s" and ?k = "signerForUserKey (addr_String A a) n"
  fix t
  assume get: "txn_Get K (NewTransaction K s) (userKey n) =
      ((case overlay Map.empty ?c (userKey n) of None \<Rightarrow> Inl ErrKeyNotFound | Some v \<Rightarrow> Inr v), t)"
    and at: "txn_at K s t Map.empty {userKey n}"
  obtain t' where get': "txn_Get K t ?k =
      ((case overlay Map.empty ?c ?k of None \<Rightarrow> Inl ErrKeyNotFound | Some v \<Rightarrow> Inr v), t')"
    and at': "txn_at K s t' Map.empty {?k, userKey n}"
    by (rule at_Get [OF at])
  have commit: "obs K (db_Update K s fn) = (?c(?k \<mapsto> w), Inr ())"
    if "fn (NewTransaction K s) = (case txn_Set K t' ?k w of Inl e \<Rightarrow> Inl e | Inr t \<Rightarrow> Inr ((), t))" for fn w
  proof -
    obtain t'' where "txn_Set K t' ?k w = Inr t''" "txn_at K s t'' [?k \<mapsto> Some w] {?k, userKey n}"
      by (rule at_Set [OF at'])
    with that show ?thesis by (simp add: db_Update_commit [where t = t''])
  qed
  show ?thesis
  proof (cases "user_doc ?c n")
    case None
    then show ?thesis
      using get by (simp add: bs_RegisterSigner_def Let_def db_Update_fail
          content_user_None [OF assms(3), symmetric])
  next
    case (Some u)
    then obtain v where v: "?c (userKey n) = Some v"
      using content_user_None [OF assms(3), of n] by auto
    define g where "g = (case signer_doc A ?c a n of None \<Rightarrow> new_signer now a | Some g \<Rightarrow> g)"
    have "obs K (bs_RegisterSigner K A now a n s) =
        (?c(?k \<mapsto> Signer_Bytes (registered_signer now n g)), Inr ())"
      unfolding bs_RegisterSigner_def Let_def
      by (rule commit) (use get get' v in \<open>simp add: content_signer [OF assms(2,3)] g_def codec_defs
          split: option.split\<close>)
    with Some show ?thesis by (simp add: g_def Signer_Bytes_def)
  qed
qed

lemma bs_innerUnregisterSigner_obs:
  assumes "badger_ok K" and "addr_ok A" and "keyspace_ok A (db_content K s)"
  shows "obs K (bs_innerUnregisterSigner K A now a n s) =
    (case signer_doc A (db_content K s) a n of
       None \<Rightarrow> (db_content K s, Inr ())
     | Some g \<Rightarrow>
         if Signer_isDeleted g then (db_content K s, Inl (Msg ''not exist''))
         else ((db_content K s)(signerForUserKey (addr_String A a) n \<mapsto>
                 SignerObj (Signer_setDeleted now g)), Inr ()))"
  using softDelObj_obs [OF assms(1), of now "Signer_obj A" "Signer_of a n" s]
  by (auto simp: bs_innerUnregisterSigner_def Let_def obs_def content_signer [OF assms(2,3)] codec_defs
      split: prod.splits sum.splits option.splits if_splits)

subsection \<open>Deleting many bindings\<close>

text \<open>The content in which every live binding that satisfies \<open>P\<close> has been deleted.\<close>

definition del_signers ::
  "time \<Rightarrow> ('a signer \<Rightarrow> bool) \<Rightarrow> (key \<rightharpoonup> 'a obj) \<Rightarrow> (key \<rightharpoonup> 'a obj)" where
  "del_signers now P c k =
     (case c k of
        Some (SignerObj g) \<Rightarrow>
          if P g \<and> \<not> Signer_isDeleted g then Some (SignerObj (Signer_setDeleted now g)) else c k
      | _ \<Rightarrow> c k)"

text \<open>
  A walk whose callback deletes, one by one, the bindings that satisfy \<open>P\<close>; \<open>cont\<close> is the
  content of the database in the callback's state, \<open>hit\<close> whether a binding has been met.
\<close>

lemma walk_del_signers:
  assumes "distinct (map fst xs)"
    and "\<And>k v. (k, v) \<in> set xs \<Longrightarrow> (\<exists>g. v = SignerObj g) \<and> cont st k = Some v"
    and "\<And>k g st. (k, SignerObj g) \<in> set xs \<Longrightarrow> cont st k = Some (SignerObj g) \<Longrightarrow>
      \<exists>st'. callback (k, SignerObj g) st = (st', Inr True) \<and>
        cont st' = (if P g \<and> \<not> Signer_isDeleted g
                    then (cont st)(k \<mapsto> SignerObj (Signer_setDeleted now g)) else cont st) \<and>
        hit st' = (hit st \<or> P g \<and> \<not> Signer_isDeleted g)"
  shows "\<exists>st'. walk_items callback xs st = (st', Inr ()) \<and>
    cont st' = (\<lambda>k. if k \<in> fst ` set xs then del_signers now P (cont st) k else cont st k) \<and>
    hit st' = (hit st \<or> (\<exists>k g. (k, SignerObj g) \<in> set xs \<and> P g \<and> \<not> Signer_isDeleted g))"
  using assms
proof (induction xs arbitrary: st)
  case Nil
  then show ?case by (intro exI [of _ st]) simp
next
  case (Cons item xs)
  obtain k v where item: "item = (k, v)" by (cases item)
  with Cons.prems(2) obtain g where g: "v = SignerObj g" "cont st k = Some (SignerObj g)" by fastforce
  with Cons.prems(3) [of k g st] item obtain st1 where st1:
    "callback (k, SignerObj g) st = (st1, Inr True)"
    "cont st1 = (if P g \<and> \<not> Signer_isDeleted g
                 then (cont st)(k \<mapsto> SignerObj (Signer_setDeleted now g)) else cont st)"
    "hit st1 = (hit st \<or> P g \<and> \<not> Signer_isDeleted g)" by auto
  have k: "k \<notin> fst ` set xs" using Cons.prems(1) item by simp
  have same: "cont st1 k' = cont st k'" if "k' \<noteq> k" for k' using st1(2) that by simp
  have "\<exists>st'. walk_items callback xs st1 = (st', Inr ()) \<and>
      cont st' = (\<lambda>k. if k \<in> fst ` set xs then del_signers now P (cont st1) k else cont st1 k) \<and>
      hit st' = (hit st1 \<or> (\<exists>k g. (k, SignerObj g) \<in> set xs \<and> P g \<and> \<not> Signer_isDeleted g))"
  proof (rule Cons.IH)
    show "distinct (map fst xs)" using Cons.prems(1) by simp
    show "(\<exists>g. v = SignerObj g) \<and> cont st1 k' = Some v" if "(k', v) \<in> set xs" for k' v
    proof -
      have "k' \<noteq> k" using that k by force
      with Cons.prems(2) [of k' v] same [of k'] that show ?thesis by auto
    qed
  qed (use Cons.prems(3) in auto)
  then obtain st' where st': "walk_items callback xs st1 = (st', Inr ())"
    "cont st' = (\<lambda>k. if k \<in> fst ` set xs then del_signers now P (cont st1) k else cont st1 k)"
    "hit st' = (hit st1 \<or> (\<exists>k g. (k, SignerObj g) \<in> set xs \<and> P g \<and> \<not> Signer_isDeleted g))"
    by blast
  have at_k: "cont st1 k = del_signers now P (cont st) k"
    using g(2) st1(2) by (simp add: del_signers_def)
  have off_k: "del_signers now P (cont st1) k' = del_signers now P (cont st) k'" if "k' \<noteq> k" for k'
    by (simp only: del_signers_def same [OF that])
  have "cont st' k' = (if k' \<in> fst ` set (item # xs) then del_signers now P (cont st) k' else cont st k')" for k'
    using st'(2) k item at_k off_k [of k'] same [of k'] by (cases "k' = k") auto
  then show ?case
    using st1 st'(1,3) item g(1) by (intro exI [of _ st']) (auto simp: fun_eq_iff)
qed

lemma del_signers_scan:
  assumes "badger_ok K" and "keyspace_ok A (db_content K s)" and "\<And>g. P g \<Longrightarrow> prefix p (Signer_key A g)"
  shows "(\<lambda>k. if k \<in> fst ` set (scan K s p) then del_signers now P (db_content K s) k
      else db_content K s k) = del_signers now P (db_content K s)"
proof (rule ext)
  fix k
  have "del_signers now P (db_content K s) k = db_content K s k" if "k \<notin> fst ` set (scan K s p)"
  proof (cases "db_content K s k")
    case (Some v)
    show ?thesis
    proof (cases v)
      case (SignerObj g)
      then have "k = Signer_key A g"
        using keyspace_okD [OF assms(2) Some] by (simp add: well_keyed_def)
      then have "\<not> P g"
        using that assms(3) [of g] Some by (force simp: scan_set [OF assms(1)])
      with Some SignerObj show ?thesis by (simp add: del_signers_def)
    qed (simp_all add: del_signers_def Some)
  qed (simp add: del_signers_def)
  then show "(if k \<in> fst ` set (scan K s p) then del_signers now P (db_content K s) k
      else db_content K s k) = del_signers now P (db_content K s) k" by simp
qed

lemma db_Update_put_obs:
  assumes "badger_ok K"
  shows "obs K (db_Update K s (\<lambda>t. case txn_Set K t k v of Inl e \<Rightarrow> Inl e | Inr t \<Rightarrow> Inr ((), t))) =
    ((db_content K s)(k \<mapsto> v), Inr ())"
proof -
  obtain t where "txn_Set K (NewTransaction K s) k v = Inr t" and "txn_at K s t [k \<mapsto> Some v] {}"
    by (rule at_Set [OF at_New [OF assms]])
  then show ?thesis by (simp add: db_Update_commit [where t = t])
qed

text \<open>Deleting a signer deletes its bindings to all users, each in its own transaction.\<close>

lemma bs_DelSigner_obs:
  assumes "badger_ok K" and "addr_ok A" and "keyspace_ok A (db_content K s)"
  shows "obs K (bs_DelSigner K A now a s) =
    (del_signers now (\<lambda>g. prefix (addr_String A a) (addr_String A (sn_Signer g))) (db_content K s),
     Inr (\<exists>b n. prefix (addr_String A a) (addr_String A b) \<and> signer_bound A (db_content K s) b n))"
proof (rule signer_scan [OF assms, of a])
  let ?c = "db_content K s" and ?p = "signerKey (addr_String A a)"
  let ?P = "\<lambda>g. prefix (addr_String A a) (addr_String A (sn_Signer g))"
  let ?cb = "\<lambda>(_, val) (s, count :: nat).
            (case Signer_FromBytes val of
               Inl e \<Rightarrow> ((s, count), Inl e)
             | Inr signer \<Rightarrow>
                 if Signer_isDeleted signer then ((s, count), Inr True)
                 else
                   let count = count + 1 in
                   (case db_Update K s (\<lambda>t.
                            let signer = Signer_setDeleted now signer in
                            (case txn_Set K t (Signer_key A signer) (Signer_Bytes signer) of
                               Inl e \<Rightarrow> Inl e | Inr t \<Rightarrow> Inr ((), t))) of
                      (s, Inl e) \<Rightarrow> ((s, count), Inl e)
                    | (s, Inr _) \<Rightarrow> ((s, count), Inr True)))"
  fix gs
  assume gs: "scan K s ?p = map (\<lambda>g. (Signer_key A g, SignerObj g)) gs"
    and set_gs: "\<And>g. g \<in> set gs \<longleftrightarrow> signer_doc A ?c (sn_Signer g) (sn_User g) = Some g \<and> ?P g"
  have step: "\<exists>st'. ?cb (k, SignerObj g) st = (st', Inr True) \<and>
        db_content K (fst st') = (if ?P g \<and> \<not> Signer_isDeleted g
           then (db_content K (fst st))(k \<mapsto> SignerObj (Signer_setDeleted now g))
           else db_content K (fst st)) \<and>
        (0 < snd st') = (0 < snd st \<or> ?P g \<and> \<not> Signer_isDeleted g)"
    if "(k, SignerObj g) \<in> set (scan K s ?p)" for k g st
  proof -
    have k: "k = Signer_key A g" and P: "?P g" using that set_gs unfolding gs by auto
    obtain s1 count where st: "st = (s1, count)" by (cases st)
    obtain s2 where "db_Update K s1 (\<lambda>t. case txn_Set K t k (SignerObj (Signer_setDeleted now g)) of
        Inl e \<Rightarrow> Inl e | Inr t \<Rightarrow> Inr ((), t)) = (s2, Inr ())"
      and "db_content K s2 = (db_content K s1)(k \<mapsto> SignerObj (Signer_setDeleted now g))"
      using db_Update_put_obs [OF assms(1), of s1 k "SignerObj (Signer_setDeleted now g)"]
      by (auto simp: obs_def prod_eq_iff)
    then show ?thesis
      unfolding st by (cases "Signer_isDeleted g") (simp_all add: P k codec_defs Let_def)
  qed
  have typed: "(\<exists>g. v = SignerObj g) \<and> db_content K (fst (s, 0 :: nat)) k = Some v"
    if "(k, v) \<in> set (scan K s ?p)" for k v
  proof
    show "\<exists>g. v = SignerObj g" using that unfolding gs by auto
    show "db_content K (fst (s, 0 :: nat)) k = Some v" using that by (simp add: scan_set [OF assms(1)])
  qed
  have all: "(\<lambda>k. if k \<in> fst ` set (scan K s ?p) then del_signers now ?P ?c k else ?c k) =
      del_signers now ?P ?c"
    by (rule del_signers_scan [OF assms(1,3)]) (simp add: prefix_Signer_key [OF assms(2)])
  have "\<exists>st'. walk_items ?cb (scan K s ?p) (s, 0) = (st', Inr ()) \<and>
      db_content K (fst st') =
        (\<lambda>k. if k \<in> fst ` set (scan K s ?p) then del_signers now ?P (db_content K (fst (s, 0 :: nat))) k
             else db_content K (fst (s, 0 :: nat)) k) \<and>
      (0 < snd st') = (0 < snd (s, 0 :: nat) \<or>
        (\<exists>k g. (k, SignerObj g) \<in> set (scan K s ?p) \<and> ?P g \<and> \<not> Signer_isDeleted g))"
    by (rule walk_del_signers [OF scan_distinct [OF assms(1)] typed step])
  then obtain st' where "walk_items ?cb (scan K s ?p) (s, 0) = (st', Inr ())"
    and "db_content K (fst st') = del_signers now ?P ?c"
    and "(0 < snd st') = (0 < (0 :: nat) \<or>
      (\<exists>k g. (k, SignerObj g) \<in> set (scan K s ?p) \<and> ?P g \<and> \<not> Signer_isDeleted g))"
    unfolding fst_conv snd_conv all
    by (elim exE conjE) (rule that, assumption+)
  moreover have "(\<exists>k g. (k, SignerObj g) \<in> set (scan K s ?p) \<and> ?P g \<and> \<not> Signer_isDeleted g) \<longleftrightarrow>
      (\<exists>k g. (k, SignerObj g) \<in> set (scan K s ?p) \<and> \<not> Signer_isDeleted g)"
    using set_gs unfolding gs by auto
  ultimately show ?thesis
    unfolding bs_DelSigner_def walkThroughPrefix_scan signer_scan_bound [OF assms, symmetric]
    by (simp add: case_prod_beta obs_def)
qed

lemma bs_GetUserBySigner_eq:
  assumes "badger_ok K" and "addr_ok A" and "keyspace_ok A (db_content K s)"
  shows "bs_GetUserBySigner K A a s =
    (let gs = signers_of (scan K s (signerKey (addr_String A a))) in
     case find (\<lambda>g. live_user (db_content K s) (sn_User g) = None) gs of
       Some g \<Rightarrow> Inl (Wrap (''get user '' @ sn_User g @ '': '') ErrKeyNotFound)
     | None \<Rightarrow> Inr (map (\<lambda>g. the (live_user (db_content K s) (sn_User g))) gs))"
proof (rule signer_scan [OF assms, of a])
  let ?c = "db_content K s"
  let ?cb = "\<lambda>(_, val) users.
            (case Signer_FromBytes val of
               Inl e \<Rightarrow> (users, Inl e)
             | Inr signer \<Rightarrow>
                 (case bs_GetUser K (sn_User signer) s of
                    Inl e \<Rightarrow> (users, Inl (Wrap (''get user '' @ sn_User signer @ '': '') e))
                  | Inr user \<Rightarrow>
                      (if \<not> User_isDeleted user then users @ [user] else users, Inr True)))"
  have live: "\<not> User_isDeleted u" if "live_user ?c n = Some u" for n u
    using that by (auto simp: live_user_def split: option.splits if_splits)
  have walk: "\<exists>us'. walk_items ?cb (map (\<lambda>g. (Signer_key A g, SignerObj g)) gs) us =
    (us', case find (\<lambda>g. live_user ?c (sn_User g) = None) gs of
       Some g \<Rightarrow> Inl (Wrap (''get user '' @ sn_User g @ '': '') ErrKeyNotFound) | None \<Rightarrow> Inr ())
     \<and> (find (\<lambda>g. live_user ?c (sn_User g) = None) gs = None \<longrightarrow>
          us' = us @ map (\<lambda>g. the (live_user ?c (sn_User g))) gs)" for gs us
  proof (induction gs arbitrary: us)
    case (Cons g gs)
    show ?case
    proof (cases "live_user ?c (sn_User g)")
      case (Some u)
      then show ?thesis
        using Cons [of "us @ [u]"] live [OF Some]
        by (auto simp: codec_defs bs_GetUser_content [OF assms(1,3)])
    qed (simp add: codec_defs bs_GetUser_content [OF assms(1,3)])
  qed simp
  fix gs
  assume gs: "scan K s (signerKey (addr_String A a)) = map (\<lambda>g. (Signer_key A g, SignerObj g)) gs"
  show ?thesis
    unfolding bs_GetUserBySigner_def walkThroughPrefix_scan gs Let_def
    using walk [of gs "[]"] by (auto split: option.splits)
qed

end
