(* ===== verification/Badger_DeleteUser.thy ===== *)
theory Badger_DeleteUser
  imports Badger_Signer
begin

text \<open>
  \<open>DeleteUser\<close> of the badger store (storage/badger.go, lines 193-274): one transaction marks the
  user and the user's miners as deleted; while it is open, a walk over the signers unregisters
  those of the user, each in a transaction of its own. Proved: run alone, the outer transaction
  does commit, and then exactly the user, the user's miners and the user's signers are deleted;
  when it does not commit, the signers are deleted all the same.
\<close>

section \<open>The method\<close>

fun DeleteUser_miners ::
  "('a obj, 'db, 'txn) badger \<Rightarrow> 'a addr_lib \<Rightarrow> time \<Rightarrow> 'a miner list \<Rightarrow> 'txn \<Rightarrow> 'txn res" where
  "DeleteUser_miners K A now [] t = Inr t"
| "DeleteUser_miners K A now (miner # miners) t =
     (let mKey = minerKey (addr_String A (mn_Miner miner)) in
      case txn_Get K t mKey of
        (Inl e, _) \<Rightarrow> Inl e
      | (Inr val, t) \<Rightarrow>
          (case Miner_FromBytes val of
             Inl e \<Rightarrow> Inl e
           | Inr m \<Rightarrow>
               (case txn_Set K t mKey (Miner_Bytes (Miner_setDeleted now m)) of
                  Inl e \<Rightarrow> Inl e
                | Inr t \<Rightarrow> DeleteUser_miners K A now miners t)))"

text \<open>The callback of the walk over the signers; its state is the database.\<close>

definition DeleteUser_signer ::
  "('a obj, 'db, 'txn) badger \<Rightarrow> 'a addr_lib \<Rightarrow> time \<Rightarrow> string \<Rightarrow> key \<times> 'a obj \<Rightarrow> 'db \<Rightarrow> 'db \<times> bool res" where
  "DeleteUser_signer K A now name item s =
     (case Signer_FromBytes (snd item) of
        Inl e \<Rightarrow> (s, Inl e)
      | Inr signer \<Rightarrow>
          if sn_User signer = name \<and> \<not> Signer_isDeleted signer
          then (case bs_innerUnregisterSigner K A now (sn_Signer signer) name s of
                  (s, Inl e) \<Rightarrow> (s, Inl e)
                | (s, Inr _) \<Rightarrow> (s, Inr True))
          else (s, Inr True))"

definition bs_DeleteUser ::
  "('a obj, 'db, 'txn) badger \<Rightarrow> 'a addr_lib \<Rightarrow> time \<Rightarrow> string \<Rightarrow> 'db \<Rightarrow> 'db \<times> unit res" where
  "bs_DeleteUser K A now name s = db_Update_nested K s (\<lambda>t s.
     let key = userKey name in
     case txn_Get K t key of
       (Inl e, _) \<Rightarrow> (s, Inl e)
     | (Inr val, t) \<Rightarrow>
         (case User_FromBytes val of
            Inl e \<Rightarrow> (s, Inl e)
          | Inr user \<Rightarrow>
              if User_isDeleted user then (s, Inl (Msg ''user not exist''))
              else
                (case txn_Set K t key (User_Bytes (User_setDeleted now user)) of
                   Inl e \<Rightarrow> (s, Inl e)
                 | Inr t \<Rightarrow>
                     (case bs_ListMiners K name s of
                        Inl e \<Rightarrow> (s, Inl e)
                      | Inr miners \<Rightarrow>
                          (case DeleteUser_miners K A now miners t of
                             Inl e \<Rightarrow> (s, Inl e)
                           | Inr t \<Rightarrow>
                               (case walkThroughPrefix K s PrefixSigner (DeleteUser_signer K A now name) s of
                                  (s, Inl e) \<Rightarrow> (s, Inl e)
                                | (s, Inr _) \<Rightarrow> (s, Inr ((), t))))))))"

section \<open>What it does to the content\<close>

definition del_miners ::
  "time \<Rightarrow> ('a miner \<Rightarrow> bool) \<Rightarrow> (key \<rightharpoonup> 'a obj) \<Rightarrow> (key \<rightharpoonup> 'a obj)" where
  "del_miners now P c k =
     (case c k of
        Some (MinerObj m) \<Rightarrow>
          if P m \<and> \<not> Miner_isDeleted m then Some (MinerObj (Miner_setDeleted now m)) else c k
      | _ \<Rightarrow> c k)"

lemma DeleteUser_miners_at:
  assumes "txn_at K s t W R" and "distinct (map (\<lambda>m. minerKey (addr_String A (mn_Miner m))) ms)"
    and "\<And>m. m \<in> set ms \<Longrightarrow>
      overlay W (db_content K s) (minerKey (addr_String A (mn_Miner m))) = Some (MinerObj m)"
  shows "\<exists>t' W'. DeleteUser_miners K A now ms t = Inr t' \<and>
    txn_at K s t' W' (R \<union> (\<lambda>m. minerKey (addr_String A (mn_Miner m))) ` set ms) \<and>
    (\<forall>m \<in> set ms. W' (minerKey (addr_String A (mn_Miner m))) =
        Some (Some (MinerObj (Miner_setDeleted now m)))) \<and>
    (\<forall>k. k \<notin> (\<lambda>m. minerKey (addr_String A (mn_Miner m))) ` set ms \<longrightarrow> W' k = W k)"
  using assms
proof (induction ms arbitrary: t W R)
  case Nil
  then show ?case by auto
next
  case (Cons m ms)
  let ?key = "\<lambda>m. minerKey (addr_String A (mn_Miner m))"
  let ?w = "MinerObj (Miner_setDeleted now m)"
  obtain t1 where t1: "txn_Get K t (?key m) = (Inr (MinerObj m), t1)"
    and at1: "txn_at K s t1 W (insert (?key m) R)"
    by (rule at_Get [OF Cons.prems(1), where k = "?key m"]) (use Cons.prems(3) in auto)
  obtain t2 where t2: "txn_Set K t1 (?key m) ?w = Inr t2"
    and at2: "txn_at K s t2 (W(?key m \<mapsto> Some ?w)) (insert (?key m) R)"
    by (rule at_Set [OF at1])
  have "overlay (W(?key m \<mapsto> Some ?w)) (db_content K s) (?key x) = Some (MinerObj x)"
    if "x \<in> set ms" for x
  proof -
    have "?key x \<in> ?key ` set ms" using that by (rule imageI)
    moreover have "?key m \<notin> ?key ` set ms" using Cons.prems(2) by simp
    ultimately have "?key x \<noteq> ?key m" by metis
    then show ?thesis using Cons.prems(3) [of x] that by simp
  qed
  from Cons.IH [OF at2 _ this] Cons.prems(2) obtain t' W' where t': "DeleteUser_miners K A now ms t2 = Inr t'"
    and at': "txn_at K s t' W' (insert (?key m) R \<union> ?key ` set ms)"
    and W': "\<forall>m \<in> set ms. W' (?key m) = Some (Some (MinerObj (Miner_setDeleted now m)))"
      "\<forall>k. k \<notin> ?key ` set ms \<longrightarrow> W' k = (W(?key m \<mapsto> Some ?w)) k" by auto
  have "W' (?key m) = Some (Some ?w)" using W'(2) Cons.prems(2) by auto
  moreover have "DeleteUser_miners K A now (m # ms) t = Inr t'"
    using t1 t2 t' by (simp add: codec_defs)
  moreover have "txn_at K s t' W' (R \<union> ?key ` set (m # ms))" using at' by simp
  ultimately show ?case
    using W' by (intro exI [of _ t'] exI [of _ W']) auto
qed

lemma DeleteUser_signers_walk:
  assumes "badger_ok K" and "keyspace_ok A (db_content K s)"
  shows "\<exists>s'. walkThroughPrefix K s PrefixSigner (DeleteUser_signer K A now n) s = (s', Inr ()) \<and>
    db_content K s' = del_signers now (\<lambda>g. sn_User g = n) (db_content K s)"
proof (rule signers_scan [OF assms])
  let ?P = "\<lambda>g. sn_User g = n"
  fix gs
  assume gs: "scan K s PrefixSigner = map (\<lambda>g. (Signer_key A g, SignerObj g)) gs"
  have step: "\<exists>st'. DeleteUser_signer K A now n (k, SignerObj g) st = (st', Inr True) \<and>
      db_content K st' = (if ?P g \<and> \<not> Signer_isDeleted g
        then (db_content K st)(k \<mapsto> SignerObj (Signer_setDeleted now g)) else db_content K st) \<and>
      True = (True \<or> ?P g \<and> \<not> Signer_isDeleted g)"
    if "(k, SignerObj g) \<in> set (scan K s PrefixSigner)" "db_content K st k = Some (SignerObj g)" for k g st
  proof (cases "?P g \<and> \<not> Signer_isDeleted g")
    case True
    have k: "k = Signer_key A g" using that(1) unfolding gs by auto
    with True have k': "Signer_key A (Signer_of (sn_Signer g) n) = k"
      by (auto simp: Signer_key_def Signer_of_def)
    have "obs K (softDelObj K now (Signer_obj A) (Signer_of (sn_Signer g) n) st) =
        ((db_content K st)(k \<mapsto> SignerObj (Signer_setDeleted now g)), Inr ())"
      using softDelObj_obs [OF assms(1), of now "Signer_obj A" "Signer_of (sn_Signer g) n" st] True
      unfolding Signer_table(3) k' that(2) by (simp add: codec_defs)
    then obtain s' where "softDelObj K now (Signer_obj A) (Signer_of (sn_Signer g) n) st = (s', Inr ())"
      and "db_content K s' = (db_content K st)(k \<mapsto> SignerObj (Signer_setDeleted now g))"
      by (cases "softDelObj K now (Signer_obj A) (Signer_of (sn_Signer g) n) st") auto
    with True show ?thesis
      by (simp add: DeleteUser_signer_def codec_defs bs_innerUnregisterSigner_def)
  qed (auto simp: DeleteUser_signer_def codec_defs)
  have typed: "(\<exists>g. v = SignerObj g) \<and> db_content K s k = Some v"
    if "(k, v) \<in> set (scan K s PrefixSigner)" for k v
  proof
    show "\<exists>g. v = SignerObj g" using that unfolding gs by auto
    show "db_content K s k = Some v" using that by (simp add: scan_set [OF assms(1)])
  qed
  have all: "(\<lambda>k. if k \<in> fst ` set (scan K s PrefixSigner) then del_signers now ?P (db_content K s) k
      else db_content K s k) = del_signers now ?P (db_content K s)"
    by (rule del_signers_scan [OF assms]) (simp add: Signer_key_def)
    have "\<exists>st'. walk_items (DeleteUser_signer K A now n) (scan K s PrefixSigner) s = (st', Inr ()) \<and>
      db_content K st' = (\<lambda>k. if k \<in> fst ` set (scan K s PrefixSigner)
        then del_signers now ?P (db_content K s) k else db_content K s k) \<and>
      True = (True \<or> (\<exists>k g. (k, SignerObj g) \<in> set (scan K s PrefixSigner) \<and> ?P g \<and> \<not> Signer_isDeleted g))"
    by (rule walk_del_signers [OF scan_distinct [OF assms(1)] typed step])
  then obtain s' where "walk_items (DeleteUser_signer K A now n) (scan K s PrefixSigner) s = (s', Inr ())"
    and "db_content K s' = del_signers now ?P (db_content K s)"
    unfolding all by (elim exE conjE) (rule that, assumption+)
  then show ?thesis unfolding walkThroughPrefix_scan by (intro exI conjI)
qed

text \<open>The content after a user has been deleted with all that belongs to the user.\<close>

definition user_deleted :: "time \<Rightarrow> string \<Rightarrow> user \<Rightarrow> (key \<rightharpoonup> 'a obj) \<Rightarrow> (key \<rightharpoonup> 'a obj)" where
  "user_deleted now n u c =
     (del_miners now (\<lambda>m. mn_User m = n) (del_signers now (\<lambda>g. sn_User g = n) c))
       (userKey n \<mapsto> UserObj (User_setDeleted now u) None)"

lemma user_docs_deleted:
  "user_doc (user_deleted now n u c) = (user_doc c)(n \<mapsto> User_setDeleted now u)"
  "token_doc (user_deleted now n u c) = token_doc c"
  by (auto simp: user_deleted_def user_doc_def token_doc_def del_miners_def del_signers_def fun_eq_iff
      split: option.split obj.split)

lemma del_signers_miner [simp]:
  "del_signers now P c k = Some (MinerObj m) \<longleftrightarrow> c k = Some (MinerObj m)"
  "del_signers now P c k = Some (UserObj u l) \<longleftrightarrow> c k = Some (UserObj u l)"
  "del_signers now P c k = Some (KeyPairObj kp) \<longleftrightarrow> c k = Some (KeyPairObj kp)"
  "del_signers now P c k = None \<longleftrightarrow> c k = None"
  by (auto simp: del_signers_def split: option.splits obj.splits)

text \<open>The pending writes over the content, once the signers are deleted.\<close>

lemma overlay_user_deleted:
  assumes "badger_ok K" and "addr_ok A" and "keyspace_ok A (db_content K s)"
    and c1: "c1 = del_signers now (\<lambda>g. sn_User g = n) (db_content K s)"
    and W: "\<And>m. m \<in> set (user_miners K n s) \<Longrightarrow>
        W (minerKey (addr_String A (mn_Miner m))) = Some (Some (MinerObj (Miner_setDeleted now m)))"
      "\<And>k. k \<notin> (\<lambda>m. minerKey (addr_String A (mn_Miner m))) ` set (user_miners K n s) \<Longrightarrow>
        W k = [userKey n \<mapsto> Some (UserObj (User_setDeleted now u) None)] k"
    and key_ms: "\<And>m. m \<in> set (user_miners K n s) \<Longrightarrow>
      db_content K s (minerKey (addr_String A (mn_Miner m))) = Some (MinerObj m) \<and> mn_User m = n \<and> \<not> Miner_isDeleted m"
  shows "overlay W c1 = user_deleted now n u (db_content K s)"
proof
  fix k
  let ?c = "db_content K s" and ?ms = "user_miners K n s" and ?key = "\<lambda>m. minerKey (addr_String A (mn_Miner m))"
  show "overlay W c1 k = user_deleted now n u ?c k"
  proof (cases "k \<in> ?key ` set ?ms")
    case True
    then obtain m where m: "m \<in> set ?ms" "k = ?key m" by blast
    then have d: "del_signers now (\<lambda>g. sn_User g = n) ?c (?key m) = Some (MinerObj m)"
      using key_ms by simp
    show ?thesis
      using W(1) [OF m(1)] key_ms [OF m(1)] m(2) by (simp add: overlay_def user_deleted_def del_miners_def d)
  next
    case False
    have "m \<in> set ?ms" if "?c k = Some (MinerObj m)" "mn_User m = n" "\<not> Miner_isDeleted m" for m
      using that keyspace_okD [OF assms(3), of k "MinerObj m"]
      by (auto simp: user_miners_set [OF assms(1-3)] miner_doc_def miner_owner_def well_keyed_def Miner_key_def)
    moreover have "k = ?key m" if "?c k = Some (MinerObj m)" for m
      using that keyspace_okD [OF assms(3), of k "MinerObj m"] by (simp add: well_keyed_def Miner_key_def)
    ultimately have "del_miners now (\<lambda>m. mn_User m = n) c1 k = c1 k"
      using False by (auto simp: del_miners_def c1 split: option.split obj.split)
    then show ?thesis
      using W(2) [OF False] by (simp add: overlay_def user_deleted_def c1)
  qed
qed

text \<open>
  The closure of \<open>DeleteUser\<close> on a user who is there, up to the commit: what the transaction has
  written, and what the database holds by then, with the signers already deleted.
\<close>

lemma DeleteUser_until_commit:
  assumes "badger_ok K" and "addr_ok A" and "keyspace_ok A (db_content K s)"
    and "user_doc (db_content K s) n = Some u"
  obtains l t0 t1 t2 s1 W where "db_content K s (userKey n) = Some (UserObj u l)"
    and "txn_Get K (NewTransaction K s) (userKey n) = (Inr (UserObj u l), t0)"
    and "txn_Set K t0 (userKey n) (UserObj (User_setDeleted now u) None) = Inr t1"
    and "DeleteUser_miners K A now (user_miners K n s) t1 = Inr t2"
    and "walkThroughPrefix K s PrefixSigner (DeleteUser_signer K A now n) s = (s1, Inr ())"
    and "db_content K s1 = del_signers now (\<lambda>g. sn_User g = n) (db_content K s)"
    and "txn_at K s t2 W (insert (userKey n) ((\<lambda>m. minerKey (addr_String A (mn_Miner m))) ` set (user_miners K n s)))"
    and "W (userKey n) = Some (Some (UserObj (User_setDeleted now u) None))"
    and "overlay W (db_content K s1) = user_deleted now n u (db_content K s)"
proof (rule at_Get [OF at_New [OF assms(1)], where k = "userKey n"])
  let ?c = "db_content K s" and ?k = "userKey n" and ?ms = "user_miners K n s"
  let ?key = "\<lambda>m. minerKey (addr_String A (mn_Miner m))" and ?w = "UserObj (User_setDeleted now u) None"
  fix t
  assume get: "txn_Get K (NewTransaction K s) ?k =
      ((case overlay Map.empty ?c ?k of None \<Rightarrow> Inl ErrKeyNotFound | Some v \<Rightarrow> Inr v), t)"
    and at: "txn_at K s t Map.empty {?k}"
  obtain l where ck: "?c ?k = Some (UserObj u l)"
    using content_user [OF assms(3), of n] assms(4) by (metis option.distinct(1) option.inject)
  obtain t1 where t1: "txn_Set K t ?k ?w = Inr t1" and at1: "txn_at K s t1 [?k \<mapsto> Some ?w] {?k}"
    by (rule at_Set [OF at])
  have "distinct (map ?key ?ms)"
    using user_miners_distinct [OF assms(1,3), of n]
    by (auto simp: distinct_map inj_on_def addr_ok_inj [OF assms(2)])
  moreover have key_ms: "?c (?key m) = Some (MinerObj m) \<and> mn_User m = n \<and> \<not> Miner_isDeleted m"
    if "m \<in> set ?ms" for m
    using that content_miner(1) [OF assms(2,3), of "mn_Miner m"] user_miners_set [OF assms(1-3), of n]
    by (auto simp: miner_owner_def split: if_splits)
  ultimately obtain t2 W where t2: "DeleteUser_miners K A now ?ms t1 = Inr t2"
    and at2: "txn_at K s t2 W ({?k} \<union> ?key ` set ?ms)"
    and W: "\<And>m. m \<in> set ?ms \<Longrightarrow> W (?key m) = Some (Some (MinerObj (Miner_setDeleted now m)))"
      "\<And>k. k \<notin> ?key ` set ?ms \<Longrightarrow> W k = [?k \<mapsto> Some ?w] k"
    using DeleteUser_miners_at [OF at1, of A ?ms now] by auto
  obtain s1 where s1: "walkThroughPrefix K s PrefixSigner (DeleteUser_signer K A now n) s = (s1, Inr ())"
    and c1: "db_content K s1 = del_signers now (\<lambda>g. sn_User g = n) ?c"
    using DeleteUser_signers_walk [OF assms(1,3)] by metis
  have "overlay W (db_content K s1) = user_deleted now n u ?c"
    by (rule overlay_user_deleted [OF assms(1-3) c1 W]) (use key_ms in auto)
  moreover have "W ?k = Some (Some ?w)"
    by (subst W(2)) (use key_ms ck in auto)
  ultimately show thesis
    using that [OF ck _ t1 t2 s1 c1, of W] get ck at2 by simp
qed

lemma bs_DeleteUser_obs:
  assumes "badger_ok K" and "addr_ok A" and "keyspace_ok A (db_content K s)"
  shows "obs K (bs_DeleteUser K A now n s) =
    (case user_doc (db_content K s) n of
       None \<Rightarrow> (db_content K s, Inl ErrKeyNotFound)
     | Some u \<Rightarrow>
         if User_isDeleted u then (db_content K s, Inl (Msg ''user not exist''))
         else (user_deleted now n u (db_content K s), Inr ()))"
proof (cases "user_doc (db_content K s) n")
  case None
  then have "db_content K s (userKey n) = None"
    using content_user [OF assms(3), of n] by (metis option.distinct(1))
  with fresh_Get [OF assms(1), of s "userKey n"] None show ?thesis
    by (cases "txn_Get K (NewTransaction K s) (userKey n)") (simp add: bs_DeleteUser_def db_Update_nested_def)
next
  case (Some u)
  show ?thesis
  proof (rule DeleteUser_until_commit [OF assms Some, of now])
    let ?c = "db_content K s" and ?k = "userKey n" and ?ms = "user_miners K n s"
    let ?key = "\<lambda>m. minerKey (addr_String A (mn_Miner m))"
    fix l t0 t1 t2 s1 W
    assume ck: "?c ?k = Some (UserObj u l)" and get: "txn_Get K (NewTransaction K s) ?k = (Inr (UserObj u l), t0)"
      and t: "txn_Set K t0 ?k (UserObj (User_setDeleted now u) None) = Inr t1"
        "DeleteUser_miners K A now ?ms t1 = Inr t2"
      and s1: "walkThroughPrefix K s PrefixSigner (DeleteUser_signer K A now n) s = (s1, Inr ())"
      and c1: "db_content K s1 = del_signers now (\<lambda>g. sn_User g = n) ?c"
      and at2: "txn_at K s t2 W (insert ?k (?key ` set ?ms))"
      and over: "overlay W (db_content K s1) = user_deleted now n u ?c"
    obtain s2 where s2: "txn_Commit K s1 t2 = Inr s2" "db_content K s2 = overlay W (db_content K s1)"
    proof (rule at_Commit [OF at2])
      fix k assume "k \<in> insert ?k (?key ` set ?ms)"
      then show "db_content K s1 k = ?c k"
        using ck content_miner(1) [OF assms(2,3)] user_miners_set [OF assms, of n]
        by (auto simp: c1 miner_owner_def split: if_splits)
    qed
    show ?thesis
      using get t s1 s2 over Some
      by (simp add: bs_DeleteUser_def db_Update_nested_def codec_defs bs_ListMiners_eq [OF assms(1,3)])
  qed
qed

section \<open>When its commit fails\<close>

text \<open>
  The engine \<open>K\<close> but that a commit which would change the document under \<open>k\<close> fails with \<open>e\<close>, as badger's
  commit does when another transaction has written that document in the meantime, or on an error of
  the disk. It keeps every law of \<open>K\<close> but that one: a commit is refused or carried out in full
  (\<open>failing_commit_laws\<close>), and those that leave the document alone are carried out.
\<close>

definition failing_commit :: "('v, 'db, 'txn) badger \<Rightarrow> key \<Rightarrow> err \<Rightarrow> ('v, 'db, 'txn) badger" where
  "failing_commit K k e = K\<lparr>txn_Commit := (\<lambda>s t.
     if fst (txn_Get K t k) = fst (txn_Get K (NewTransaction K s) k) then txn_Commit K s t else Inl e)\<rparr>"

lemma failing_sel [simp]:
  "NewTransaction (failing_commit K k e) = NewTransaction K" "txn_Get (failing_commit K k e) = txn_Get K"
  "txn_Set (failing_commit K k e) = txn_Set K" "txn_Iterate (failing_commit K k e) = txn_Iterate K"
  by (simp_all add: failing_commit_def)

lemma failing_commit_laws:
  assumes "badger_laws K base writes reads" and "\<forall>k' \<in> reads t. db_content K s k' = db_content K (base t) k'"
  shows "db_content (failing_commit K k e) = db_content K"
    and "txn_Delete (failing_commit K k e) = txn_Delete K"
    and "txn_Commit (failing_commit K k e) s t = Inl e \<or>
      (\<exists>s'. txn_Commit (failing_commit K k e) s t = Inr s' \<and>
        db_content K s' = (\<lambda>k'. case writes t k' of Some v \<Rightarrow> v | None \<Rightarrow> db_content K s k'))"
    and "txn_view K base writes t k = db_content K s k \<Longrightarrow>
      txn_Commit (failing_commit K k e) s t = txn_Commit K s t"
proof -
  show "db_content (failing_commit K k e) = db_content K" "txn_Delete (failing_commit K k e) = txn_Delete K"
    by (simp_all add: failing_commit_def db_content_def fun_eq_iff)
  show "txn_Commit (failing_commit K k e) s t = Inl e \<or>
      (\<exists>s'. txn_Commit (failing_commit K k e) s t = Inr s' \<and>
        db_content K s' = (\<lambda>k'. case writes t k' of Some v \<Rightarrow> v | None \<Rightarrow> db_content K s k'))"
    using laws_commit [OF assms(1), of t s] assms(2) by (simp add: failing_commit_def)
  assume view: "txn_view K base writes t k = db_content K s k"
  have "txn_view K base writes (NewTransaction K s) k = db_content K s k"
    by (simp add: txn_view_new [OF assms(1)])
  with view laws_get [OF assms(1), of t k] laws_get [OF assms(1), of "NewTransaction K s" k]
  show "txn_Commit (failing_commit K k e) s t = txn_Commit K s t" by (auto simp: failing_commit_def)
qed

lemma failing_reads [simp]:
  "walkThroughPrefix (failing_commit K k e) = walkThroughPrefix K"
  "bs_ListMiners (failing_commit K k e) = bs_ListMiners K"
  "DeleteUser_miners (failing_commit K k e) A now ms t = DeleteUser_miners K A now ms t"
proof -
  show w: "walkThroughPrefix (failing_commit K k e) = walkThroughPrefix K"
    by (intro ext) (simp add: walkThroughPrefix_def)
  show "bs_ListMiners (failing_commit K k e) = bs_ListMiners K"
    by (intro ext) (simp add: bs_ListMiners_def w)
  show "DeleteUser_miners (failing_commit K k e) A now ms t = DeleteUser_miners K A now ms t"
    by (induction ms arbitrary: t) (simp_all add: Let_def split: prod.split sum.split)
qed

text \<open>Commits that leave the document alone are those of \<open>K\<close>.\<close>

lemma failing_same:
  assumes "txn_at K s t W R" and "W k = None"
  shows "txn_Commit (failing_commit K k e) s t = txn_Commit K s t"
proof -
  have "fst (txn_Get K t k) = (case db_content K s k of None \<Rightarrow> Inl ErrKeyNotFound | Some v \<Rightarrow> Inr v)"
    by (rule at_Get [OF assms(1), of k]) (simp add: overlay_def assms(2))
  with fresh_Get [OF at_ok [OF assms(1)], of s k] show ?thesis by (simp add: failing_commit_def)
qed

lemma failing_softDel:
  assumes "badger_ok K" and "obj_key M x \<noteq> k"
  shows "softDelObj (failing_commit K k e) now M x s = softDelObj K now M x s"
proof (rule at_Get [OF at_New [OF assms(1)], where k = "obj_key M x"])
  fix t
  assume get: "txn_Get K (NewTransaction K s) (obj_key M x) = ((case overlay Map.empty (db_content K s) (obj_key M x) of
      None \<Rightarrow> Inl ErrKeyNotFound | Some v \<Rightarrow> Inr v), t)" and at: "txn_at K s t Map.empty {obj_key M x}"
  have commit: "txn_Commit (failing_commit K k e) s t' = txn_Commit K s t'"
    if "txn_Set K t (obj_key M x) v = Inr t'" for v t'
  proof (rule at_Set [OF at, where k = "obj_key M x" and v = v])
    fix t''
    assume "txn_Set K t (obj_key M x) v = Inr t''" "txn_at K s t'' [obj_key M x \<mapsto> Some v] {obj_key M x}"
    with that have "txn_at K s t' [obj_key M x \<mapsto> Some v] {obj_key M x}" by simp
    then show ?thesis by (rule failing_same) (use assms(2) in simp)
  qed
  show ?thesis
    using get commit
    by (auto simp: softDelObj_def db_Update_def db_Update_nested_def Let_def split: sum.split option.split)
qed

lemma DeleteUser_commit_fails:
  assumes "badger_ok K" and "addr_ok A" and "keyspace_ok A (db_content K s)"
    and "user_doc (db_content K s) n = Some u" and "\<not> User_isDeleted u"
  shows "\<exists>s'. bs_DeleteUser (failing_commit K (userKey n) e) A now n s = (s', Inl e) \<and>
    db_content K s' = del_signers now (\<lambda>g. sn_User g = n) (db_content K s)"
proof (rule DeleteUser_until_commit [OF assms(1-4), of now])
  let ?c = "db_content K s" and ?k = "userKey n" and ?K = "failing_commit K (userKey n) e"
  let ?w = "UserObj (User_setDeleted now u) None"
  fix l t0 t1 t2 s1 W R
  assume ck: "?c ?k = Some (UserObj u l)" and get: "txn_Get K (NewTransaction K s) ?k = (Inr (UserObj u l), t0)"
    and t: "txn_Set K t0 ?k ?w = Inr t1" "DeleteUser_miners K A now (user_miners K n s) t1 = Inr t2"
    and s1: "walkThroughPrefix K s PrefixSigner (DeleteUser_signer K A now n) s = (s1, Inr ())"
    and c1: "db_content K s1 = del_signers now (\<lambda>g. sn_User g = n) ?c"
    and at2: "txn_at K s t2 W (insert ?k ((\<lambda>m. minerKey (addr_String A (mn_Miner m))) ` set (user_miners K n s)))"
    and W: "W ?k = Some (Some ?w)"
  have "bs_innerUnregisterSigner ?K A now a n st = bs_innerUnregisterSigner K A now a n st" for a st
    by (simp add: bs_innerUnregisterSigner_def Let_def failing_softDel [OF assms(1)])
  then have "DeleteUser_signer ?K A now n = DeleteUser_signer K A now n"
    by (auto simp: DeleteUser_signer_def fun_eq_iff cong: if_cong sum.case_cong)
  with s1 have walk: "walkThroughPrefix K s PrefixSigner (DeleteUser_signer ?K A now n) s = (s1, Inr ())"
    by simp
  have "fst (txn_Get K t2 ?k) = Inr ?w"
    by (rule at_Get [OF at2, of ?k]) (simp add: overlay_def W)
  moreover have "fst (txn_Get K (NewTransaction K s1) ?k) = Inr (UserObj u l)"
    using ck del_signers_miner(2) [of now "\<lambda>g. sn_User g = n" ?c ?k u l] by (simp add: fresh_Get [OF assms(1)] c1 del: del_signers_miner)
  moreover have "User_isDeleted (User_setDeleted now u)"
    by (simp add: User_isDeleted_def User_setDeleted_def Deleted_def)
  then have "User_setDeleted now u \<noteq> u" using assms(5) by auto
  ultimately have "txn_Commit ?K s1 t2 = Inl e" by (simp add: failing_commit_def)
  then have "bs_DeleteUser ?K A now n s = (s1, Inl e)"
    using get t walk assms(5)
    by (simp add: bs_DeleteUser_def db_Update_nested_def codec_defs bs_ListMiners_eq [OF assms(1,3)])
  then show ?thesis using c1 by blast
qed

end
