(* ===== verification/Badger_RateLimit.thy ===== *)
theory Badger_RateLimit
  imports Badger_DeleteUser "HOL-Library.AList" "HOL-Library.Multiset"
begin

text \<open>
  The rate-limit methods of the badger store (storage/badger.go, lines 291-365). All limits of a
  user are one document, a map from ids to limits, under \<open>ReqLimit:\<close> and the user's name.

  \<open>rng\<close> is the order in which Go ranges over a map, which the language leaves open: some
  permutation of the entries.
\<close>

section \<open>The methods\<close>

definition bs_listRateLimits ::
  "('a obj, 'db, 'txn) badger \<Rightarrow> string \<Rightarrow> string \<Rightarrow> 'db \<Rightarrow> maped_ratelimit res" where
  "bs_listRateLimits K usr i s =
     (case getObj K mapedRatelimit_obj (rateLimitKey usr) s of
        Inl e \<Rightarrow> Inl e
      | Inr mRateLimits \<Rightarrow>
          if length i \<noteq> 0
          then Inr (case map_of mRateLimits i of Some rl \<Rightarrow> [(i, rl)] | None \<Rightarrow> [])
          else Inr mRateLimits)"

definition bs_updateUserRateLimit ::
  "('a obj, 'db, 'txn) badger \<Rightarrow> string \<Rightarrow> maped_ratelimit \<Rightarrow> 'db \<Rightarrow> 'db \<times> unit res" where
  "bs_updateUserRateLimit K name limits s = put K mapedRatelimit_obj (rateLimitKey name) limits s"

definition bs_GetRateLimits ::
  "('a obj, 'db, 'txn) badger \<Rightarrow> (maped_ratelimit \<Rightarrow> maped_ratelimit) \<Rightarrow> string \<Rightarrow> string \<Rightarrow> 'db \<Rightarrow>
     user_rate_limit list res" where
  "bs_GetRateLimits K rng name i s =
     (case bs_listRateLimits K name i s of
        Inl e \<Rightarrow> if errors_Is e ErrKeyNotFound then Inr [] else Inl e
      | Inr mRateLimits \<Rightarrow> Inr (map snd (rng mRateLimits)))"

text \<open>\<open>uuid\<close> is the identifier that \<open>uuid.NewString\<close> returns.\<close>

definition bs_PutRateLimit ::
  "('a obj, 'db, 'txn) badger \<Rightarrow> string \<Rightarrow> user_rate_limit \<Rightarrow> 'db \<Rightarrow> 'db \<times> string res" where
  "bs_PutRateLimit K uuid limit s =
     (let limit = (if rl_Id limit = [] then limit\<lparr>rl_Id := uuid\<rparr> else limit) in
      case (case bs_listRateLimits K (rl_Name limit) [] s of
              Inl e \<Rightarrow> if \<not> errors_Is e ErrKeyNotFound then Inl e else Inr []
            | Inr limits \<Rightarrow> Inr limits) of
        Inl e \<Rightarrow> (s, Inl e)
      | Inr limits \<Rightarrow>
          let limits = AList.update (rl_Id limit) limit limits in
          (case bs_updateUserRateLimit K (rl_Name limit) limits s of
             (s, Inl e) \<Rightarrow> (s, Inl e)
           | (s, Inr _) \<Rightarrow> (s, Inr (rl_Id limit))))"

definition bs_DelRateLimit ::
  "('a obj, 'db, 'txn) badger \<Rightarrow> string \<Rightarrow> string \<Rightarrow> 'db \<Rightarrow> 'db \<times> unit res" where
  "bs_DelRateLimit K name i s =
     (if length name = 0 \<or> length i = 0
      then (s, Inl (Msg ''user and rate-limit id is required for removing rate limit regulation''))
      else
        case bs_listRateLimits K name i s of
          Inl e \<Rightarrow> (s, Inl e)
        | Inr mRateLimit \<Rightarrow>
            (case map_of mRateLimit i of
               None \<Rightarrow> (s, Inr ())
             | Some _ \<Rightarrow>
                 let mRateLimit = AList.delete i mRateLimit in
                 if length mRateLimit = 0 then delObj K (rateLimitKey name) s
                 else bs_updateUserRateLimit K name mRateLimit s))"

section \<open>The methods against the content\<close>

lemma mapedRatelimit_table [simp]:
  "FromBytes mapedRatelimit_obj = mapedRatelimit_FromBytes"
  "Bytes mapedRatelimit_obj = mapedRatelimit_Bytes"
  by (simp_all add: mapedRatelimit_obj_def)

definition limits_doc :: "(key \<rightharpoonup> 'a obj) \<Rightarrow> string \<Rightarrow> maped_ratelimit option" where
  "limits_doc c n = (case c (rateLimitKey n) of Some (RateLimitObj mr) \<Rightarrow> Some mr | _ \<Rightarrow> None)"

text \<open>The limits of a user, by id.\<close>

definition user_limits :: "(key \<rightharpoonup> 'a obj) \<Rightarrow> string \<Rightarrow> (string \<rightharpoonup> user_rate_limit)" where
  "user_limits c n = (case limits_doc c n of None \<Rightarrow> Map.empty | Some mr \<Rightarrow> map_of mr)"

lemma limits_doc_upd [simp]:
  "limits_doc (c(rateLimitKey n := Some (RateLimitObj mr))) = (limits_doc c)(n \<mapsto> mr)"
  "limits_doc (c(rateLimitKey n := None)) = (limits_doc c)(n := None)"
  "limits_doc (c(tokenKey t \<mapsto> v)) = limits_doc c" "limits_doc (c(userKey t \<mapsto> v)) = limits_doc c"
  "limits_doc (c(minerKey t \<mapsto> v)) = limits_doc c"
  "limits_doc (c(signerForUserKey t x \<mapsto> v)) = limits_doc c"
  by (auto simp: limits_doc_def fun_eq_iff)

lemma user_limits_upd [simp]:
  "user_limits (c(tokenKey t \<mapsto> v)) = user_limits c" "user_limits (c(userKey t \<mapsto> v)) = user_limits c"
  "user_limits (c(minerKey t \<mapsto> v)) = user_limits c"
  "user_limits (c(signerForUserKey t x \<mapsto> v)) = user_limits c"
  "user_limits (c(rateLimitKey n \<mapsto> RateLimitObj mr)) = (user_limits c)(n := map_of mr)"
  "user_limits (c(rateLimitKey n := None)) = (user_limits c)(n := Map.empty)"
  by (simp_all add: user_limits_def fun_eq_iff)

lemma well_keyed_limits [simp]:
  "well_keyed A (rateLimitKey n) v \<longleftrightarrow> (\<exists>mr. v = RateLimitObj mr \<and> distinct (map fst mr) \<and>
     (\<forall>(i, l) \<in> set mr. rl_Id l = i \<and> rl_Name l = n))"
  by (auto simp: well_keyed_def obj_key_defs split: obj.splits)

lemma content_limits:
  assumes "keyspace_ok A c"
  shows "c (rateLimitKey n) = map_option RateLimitObj (limits_doc c n)"
    and "limits_doc c n = Some mr \<Longrightarrow> distinct (map fst mr)"
    and "limits_doc c n = Some mr \<Longrightarrow> (i, l) \<in> set mr \<Longrightarrow> rl_Id l = i \<and> rl_Name l = n"
  using keyspace_okD [OF assms, of "rateLimitKey n"]
  by (auto simp: limits_doc_def split: option.splits obj.splits)

lemma bs_listRateLimits_content:
  assumes "badger_ok K" and "keyspace_ok A (db_content K s)"
  shows "bs_listRateLimits K n i s =
    (case limits_doc (db_content K s) n of
       None \<Rightarrow> Inl ErrKeyNotFound
     | Some mr \<Rightarrow>
         Inr (if i = [] then mr else case map_of mr i of None \<Rightarrow> [] | Some l \<Rightarrow> [(i, l)]))"
  by (simp add: bs_listRateLimits_def getObj_content [OF assms(1)] content_limits [OF assms(2)]
      codec_defs split: option.split)

lemma bs_GetRateLimits_content:
  assumes "badger_ok K" and "keyspace_ok A (db_content K s)" and "\<And>mr. mset (rng mr) = mset mr"
  obtains ls where "bs_GetRateLimits K rng n i s = Inr ls"
    and "set ls = {l. user_limits (db_content K s) n (rl_Id l) = Some l \<and> (i = [] \<or> rl_Id l = i)}"
    and "distinct ls"
proof (cases "limits_doc (db_content K s) n")
  case None
  then show thesis
    by (intro that [of "[]"])
      (simp_all add: bs_GetRateLimits_def bs_listRateLimits_content [OF assms(1,2)] user_limits_def)
next
  case (Some mr)
  define mr' where "mr' = (if i = [] then mr else case map_of mr i of None \<Rightarrow> [] | Some l \<Rightarrow> [(i, l)])"
  have rng: "set (rng mr') = set mr'" "distinct (rng mr') = distinct mr'"
    by (rule mset_eq_setD [OF assms(3)], rule mset_eq_imp_distinct_iff [OF assms(3)])
  note ids = content_limits(2) [OF assms(2) Some] content_limits(3) [OF assms(2) Some]
  have mr': "set mr' = {(j, l). map_of mr j = Some l \<and> (i = [] \<or> j = i)}" "distinct (map fst mr')"
    using ids(1) by (auto simp: mr'_def map_of_eq_Some_iff split: option.splits)
  have key: "j = rl_Id l" if "(j, l) \<in> set mr'" for j l
    using that mr'(1) ids(2) [of j l] map_of_SomeD [of mr j l] by simp
  then have inj: "inj_on snd (set mr')"
    by (metis (mono_tags, lifting) inj_onI prod.collapse)
  show thesis
  proof (rule that)
    show "bs_GetRateLimits K rng n i s = Inr (map snd (rng mr'))"
      by (simp add: bs_GetRateLimits_def bs_listRateLimits_content [OF assms(1,2)] Some mr'_def)
    have "snd ` set mr' = {l. (rl_Id l, l) \<in> set mr'}"
    proof (intro equalityI subsetI)
      fix l assume "l \<in> snd ` set mr'"
      then obtain j where "(j, l) \<in> set mr'" by (metis imageE prod.collapse)
      with key [OF this] show "l \<in> {l. (rl_Id l, l) \<in> set mr'}" by simp
    next
      fix l assume "l \<in> {l. (rl_Id l, l) \<in> set mr'}"
      then show "l \<in> snd ` set mr'" by (metis (no_types) image_eqI mem_Collect_eq snd_conv)
    qed
    then show "set (map snd (rng mr')) =
        {l. user_limits (db_content K s) n (rl_Id l) = Some l \<and> (i = [] \<or> rl_Id l = i)}"
      by (simp only: set_map rng(1) mr'(1) user_limits_def Some option.case mem_Collect_eq prod.case)
    show "distinct (map snd (rng mr'))"
      using mr'(2) inj by (auto simp: distinct_map rng)
  qed
qed

lemma bs_PutRateLimit_obs:
  assumes "badger_ok K" and "keyspace_ok A (db_content K s)"
  shows "obs K (bs_PutRateLimit K uuid l s) =
    (let l = (if rl_Id l = [] then l\<lparr>rl_Id := uuid\<rparr> else l);
         mr = (case limits_doc (db_content K s) (rl_Name l) of None \<Rightarrow> [] | Some mr \<Rightarrow> mr)
     in ((db_content K s)(rateLimitKey (rl_Name l) \<mapsto> RateLimitObj (AList.update (rl_Id l) l mr)),
         Inr (rl_Id l)))"
proof -
  let ?put = "\<lambda>n mr. put K mapedRatelimit_obj (rateLimitKey n) mr s"
  have put: "snd (?put n mr) = Inr ()"
    "db_content K (fst (?put n mr)) = (db_content K s)(rateLimitKey n \<mapsto> RateLimitObj mr)" for n mr
    using put_obs [OF assms(1), of mapedRatelimit_obj "rateLimitKey n" mr s]
    by (simp_all add: obs_def prod_eq_iff codec_defs)
  define l' where "l' = (if rl_Id l = [] then l\<lparr>rl_Id := uuid\<rparr> else l)"
  define mr where "mr = (case limits_doc (db_content K s) (rl_Name l') of None \<Rightarrow> [] | Some mr \<Rightarrow> mr)"
  have "bs_PutRateLimit K uuid l s =
      (fst (?put (rl_Name l') (AList.update (rl_Id l') l' mr)), Inr (rl_Id l'))"
    unfolding bs_PutRateLimit_def l'_def [symmetric] Let_def bs_updateUserRateLimit_def
      bs_listRateLimits_content [OF assms] mr_def
    by (cases "limits_doc (db_content K s) (rl_Name l')")
      (simp_all add: case_prod_beta put(1))
  then show ?thesis
    unfolding l'_def [symmetric] Let_def mr_def [symmetric] by (simp add: obs_def put(2))
qed

text \<open>
  \<open>listRateLimits\<close> with an id returns that one limit only; so \<open>DelRateLimit\<close> always finds its map
  empty after the removal, and deletes the document with all limits of the user.
\<close>

lemma bs_DelRateLimit_obs:
  assumes "badger_ok K" and "keyspace_ok A (db_content K s)"
  shows "obs K (bs_DelRateLimit K n i s) =
    (if n = [] \<or> i = []
     then (db_content K s, Inl (Msg ''user and rate-limit id is required for removing rate limit regulation''))
     else
       case limits_doc (db_content K s) n of
         None \<Rightarrow> (db_content K s, Inl ErrKeyNotFound)
       | Some mr \<Rightarrow>
           if map_of mr i = None then (db_content K s, Inr ())
           else ((db_content K s)(rateLimitKey n := None), Inr ()))"
  by (auto simp: bs_DelRateLimit_def bs_listRateLimits_content [OF assms] delObj_obs [OF assms(1)]
      content_limits(1) [OF assms(2)] split: option.split)

end
