(* ===== verification/Badger_Migrate.thy ===== *)
theory Badger_Migrate
  imports Badger_RateLimit
begin

text \<open>
  The version of the badger store and its three migrations (storage/badger_helper.go, lines
  174-281). Each succeeds on a store with documents of the right types, sets its version, and
  leaves tokens, users, signers and rate limits as they are; the second sets \<open>OpenMining\<close> in
  every miner, provided the addresses in the version-0 user documents were in the form in which
  addresses are printed.
\<close>

section \<open>The methods\<close>

definition bs_Version :: "('a obj, 'db, 'txn) badger \<Rightarrow> 'db \<Rightarrow> nat res" where
  "bs_Version K s =
     (case getObj K StoreVersion_obj storeVersionKey s of
        Inl e \<Rightarrow> if errors_Is e ErrKeyNotFound then Inr 0 else Inl e
      | Inr version \<Rightarrow> Inr (sv_Version version))"

text \<open>\<open>struct { Miner, Name string }\<close>: a member that the document lacks is the empty string.\<close>

definition legacy_user :: "'a obj \<Rightarrow> (string \<times> string) res" where
  "legacy_user val =
     (case val of
        UserObj u l \<Rightarrow> Inr (case l of None \<Rightarrow> [] | Some miner \<Rightarrow> miner, usr_Name u)
      | _ \<Rightarrow> Inl decode_error)"

fun MigrateToV1_users :: "(key \<times> 'a obj) list \<Rightarrow> (string \<times> string) list \<Rightarrow> (string \<times> string) list res" where
  "MigrateToV1_users [] users = Inr users"
| "MigrateToV1_users ((_, val) # items) users =
     (case legacy_user val of Inl e \<Rightarrow> Inl e | Inr u \<Rightarrow> MigrateToV1_users items (users @ [u]))"

definition legacy_miner :: "time \<Rightarrow> 'a \<Rightarrow> string \<Rightarrow> 'a miner" where
  "legacy_miner now mAddr name = \<lparr>CreatedAt = now, UpdatedAt = now, DeletedAt = zero_deleted_at,
     mn_ID = 0, mn_Miner = mAddr, mn_User = name, mn_OpenMining = None\<rparr>"

fun MigrateToV1_loop ::
  "('a obj, 'db, 'txn) badger \<Rightarrow> 'a addr_lib \<Rightarrow> time \<Rightarrow> (string \<times> string) list \<Rightarrow> 'txn \<Rightarrow> 'txn res" where
  "MigrateToV1_loop K A now [] t = Inr t"
| "MigrateToV1_loop K A now ((miner, name) # users) t =
     (case addr_NewFromString A miner of
        Inl _ \<Rightarrow> MigrateToV1_loop K A now users t
      | Inr mAddr \<Rightarrow>
          if addr_Empty A mAddr then MigrateToV1_loop K A now users t
          else (case txn_Set K t (minerKey miner) (Miner_Bytes (legacy_miner now mAddr name)) of
                  Inl e \<Rightarrow> Inl e
                | Inr t \<Rightarrow> MigrateToV1_loop K A now users t))"

definition version_doc :: "nat \<Rightarrow> 'a obj" where
  "version_doc v = StoreVersion_Bytes \<lparr>sv_ID = 1, sv_Version = v\<rparr>"

definition bs_MigrateToV1 ::
  "('a obj, 'db, 'txn) badger \<Rightarrow> 'a addr_lib \<Rightarrow> time \<Rightarrow> 'db \<Rightarrow> 'db \<times> unit res" where
  "bs_MigrateToV1 K A now s = db_Update K s (\<lambda>t.
     case txn_Iterate K t PrefixUser of
       (items, t) \<Rightarrow>
         (case MigrateToV1_users items [] of
            Inl e \<Rightarrow> Inl e
          | Inr users \<Rightarrow>
              (case MigrateToV1_loop K A now users t of
                 Inl e \<Rightarrow> Inl e
               | Inr t \<Rightarrow>
                   (case txn_Set K t storeVersionKey (version_doc 1) of
                      Inl e \<Rightarrow> Inl e | Inr t \<Rightarrow> Inr ((), t)))))"

fun MigrateToV2_loop ::
  "('a obj, 'db, 'txn) badger \<Rightarrow> 'a addr_lib \<Rightarrow> (key \<times> 'a obj) list \<Rightarrow> 'txn \<Rightarrow> 'txn res" where
  "MigrateToV2_loop K A [] t = Inr t"
| "MigrateToV2_loop K A ((_, val) # items) t =
     (case Miner_FromBytes val of
        Inl e \<Rightarrow> Inl e
      | Inr m \<Rightarrow>
          let m = m\<lparr>mn_OpenMining := Some True\<rparr> in
          (case txn_Set K t (minerKey (addr_String A (mn_Miner m))) (Miner_Bytes m) of
             Inl e \<Rightarrow> Inl e
           | Inr t \<Rightarrow> MigrateToV2_loop K A items t))"

definition bs_MigrateToV2 ::
  "('a obj, 'db, 'txn) badger \<Rightarrow> 'a addr_lib \<Rightarrow> 'db \<Rightarrow> 'db \<times> unit res" where
  "bs_MigrateToV2 K A s = db_Update K s (\<lambda>t.
     case txn_Iterate K t PrefixMiner of
       (items, t) \<Rightarrow>
         (case MigrateToV2_loop K A items t of
            Inl e \<Rightarrow> Inl e
          | Inr t \<Rightarrow>
              (case txn_Set K t storeVersionKey (version_doc 2) of
                 Inl e \<Rightarrow> Inl e | Inr t \<Rightarrow> Inr ((), t))))"

definition bs_MigrateToV3 :: "('a obj, 'db, 'txn) badger \<Rightarrow> 'db \<Rightarrow> 'db \<times> unit res" where
  "bs_MigrateToV3 K s = db_Update K s (\<lambda>t.
     case txn_Set K t storeVersionKey (version_doc 3) of Inl e \<Rightarrow> Inl e | Inr t \<Rightarrow> Inr ((), t))"

section \<open>What a migration does to the content\<close>

lemma StoreVersion_table [simp]:
  "FromBytes StoreVersion_obj = StoreVersion_FromBytes" "Bytes StoreVersion_obj = StoreVersion_Bytes"
  by (simp_all add: StoreVersion_obj_def)

lemma well_keyed_version [simp]: "well_keyed A storeVersionKey v \<longleftrightarrow> (\<exists>sv. v = VersionObj sv)"
  by (auto simp: well_keyed_def obj_key_defs split: obj.splits)

definition stored_version :: "(key \<rightharpoonup> 'a obj) \<Rightarrow> nat" where
  "stored_version c = (case c storeVersionKey of Some (VersionObj sv) \<Rightarrow> sv_Version sv | _ \<Rightarrow> 0)"

lemma bs_Version_content:
  assumes "badger_ok K"
  shows "bs_Version K s =
    (case db_content K s storeVersionKey of
       None \<Rightarrow> Inr 0 | Some (VersionObj sv) \<Rightarrow> Inr (sv_Version sv) | Some _ \<Rightarrow> Inl decode_error)"
  by (simp add: bs_Version_def getObj_content [OF assms] codec_defs decode_error_def
      split: option.split obj.split)

lemma bs_Version_stored:
  assumes "badger_ok K" and "keyspace_ok A (db_content K s)"
  shows "bs_Version K s = Inr (stored_version (db_content K s))"
  using keyspace_okD [OF assms(2), of storeVersionKey]
  by (auto simp: bs_Version_content [OF assms(1)] stored_version_def split: option.split)

lemma bs_MigrateToV3_obs:
  "badger_ok K \<Longrightarrow> obs K (bs_MigrateToV3 K s) =
     ((db_content K s)(storeVersionKey \<mapsto> version_doc 3), Inr ())"
  by (simp add: bs_MigrateToV3_def db_Update_put_obs)

text \<open>The writes of the two loops, as updates of the content.\<close>

definition V2_write :: "'a addr_lib \<Rightarrow> 'a miner \<Rightarrow> (key \<rightharpoonup> 'a obj) \<Rightarrow> (key \<rightharpoonup> 'a obj)" where
  "V2_write A m c = c(minerKey (addr_String A (mn_Miner m)) \<mapsto> MinerObj (m\<lparr>mn_OpenMining := Some True\<rparr>))"

definition V1_write :: "'a addr_lib \<Rightarrow> time \<Rightarrow> string \<times> string \<Rightarrow> (key \<rightharpoonup> 'a obj) \<Rightarrow> (key \<rightharpoonup> 'a obj)" where
  "V1_write A now u c =
     (case addr_NewFromString A (fst u) of
        Inl _ \<Rightarrow> c
      | Inr a \<Rightarrow> if addr_Empty A a then c
                else c(minerKey (fst u) \<mapsto> MinerObj (legacy_miner now a (snd u))))"

lemma MigrateToV1_loop_at:
  assumes "txn_at K s t W R"
  shows "\<exists>t' W'. MigrateToV1_loop K A now us t = Inr t' \<and> txn_at K s t' W' R \<and>
    (\<forall>c. overlay W' c = fold (V1_write A now) us (overlay W c))"
  using assms
proof (induction us arbitrary: t W)
  case Nil
  then show ?case by auto
next
  case (Cons u us)
  obtain miner name where u: "u = (miner, name)" by (cases u)
  show ?case
  proof (cases "addr_NewFromString A miner")
    case (Inl e)
    with Cons.IH [OF Cons.prems] show ?thesis by (simp add: u V1_write_def)
  next
    case (Inr a)
    show ?thesis
    proof (cases "addr_Empty A a")
      case True
      with Inr Cons.IH [OF Cons.prems] show ?thesis by (simp add: u V1_write_def)
    next
      case False
      let ?v = "MinerObj (legacy_miner now a name)"
      obtain t1 where "txn_Set K t (minerKey miner) ?v = Inr t1"
        and at1: "txn_at K s t1 (W(minerKey miner \<mapsto> Some ?v)) R"
        by (rule at_Set [OF Cons.prems])
      moreover from Cons.IH [OF at1] obtain t' W' where
        "MigrateToV1_loop K A now us t1 = Inr t'" "txn_at K s t' W' R"
        and "\<And>c. overlay W' c = fold (V1_write A now) us (overlay (W(minerKey miner \<mapsto> Some ?v)) c)"
        by blast
      moreover have "overlay (W(minerKey miner \<mapsto> Some ?v)) c = V1_write A now u (overlay W c)" for c
        using Inr False by (simp add: u V1_write_def)
      ultimately show ?thesis
        using Inr False by (intro exI [of _ t'] exI [of _ W']) (simp add: u Miner_Bytes_def)
    qed
  qed
qed

lemma MigrateToV2_loop_at:
  assumes "txn_at K s t W R" and "\<And>k v. (k, v) \<in> set items \<Longrightarrow> \<exists>m. v = MinerObj m"
  shows "\<exists>t' W'. MigrateToV2_loop K A items t = Inr t' \<and> txn_at K s t' W' R \<and>
    (\<forall>c. overlay W' c = fold (V2_write A) (miners_of items) (overlay W c))"
  using assms
proof (induction items arbitrary: t W)
  case Nil
  then show ?case by (auto simp: miners_of_def map_filter_simps)
next
  case (Cons item items)
  from Cons.prems(2) obtain k m where item: "item = (k, MinerObj m)" by (cases item) auto
  let ?v = "MinerObj (m\<lparr>mn_OpenMining := Some True\<rparr>)" and ?k = "minerKey (addr_String A (mn_Miner m))"
  obtain t1 where "txn_Set K t ?k ?v = Inr t1" and at1: "txn_at K s t1 (W(?k \<mapsto> Some ?v)) R"
    by (rule at_Set [OF Cons.prems(1)])
  moreover from Cons.IH [OF at1] Cons.prems(2) obtain t' W' where
    "MigrateToV2_loop K A items t1 = Inr t'" "txn_at K s t' W' R"
    and "\<And>c. overlay W' c = fold (V2_write A) (miners_of items) (overlay (W(?k \<mapsto> Some ?v)) c)"
    by (metis list.set_intros(2))
  moreover have "overlay (W(?k \<mapsto> Some ?v)) c = V2_write A m (overlay W c)" for c
    by (simp add: V2_write_def)
  ultimately show ?case
    by (intro exI [of _ t'] exI [of _ W']) (simp add: item codec_defs miners_of_def map_filter_simps)
qed

text \<open>
  What the migrations need of a store: users under \<open>USER:\<close>, miners under \<open>MINERS:\<close>, a version
  under the version key. This is weaker than the invariant of the key space, which version 0
  data may break.
\<close>

definition typed_ok :: "(key \<rightharpoonup> 'a obj) \<Rightarrow> bool" where
  "typed_ok c \<longleftrightarrow>
     (\<forall>k v. c k = Some v \<longrightarrow>
        (prefix PrefixUser k \<longrightarrow> (\<exists>u l. v = UserObj u l)) \<and>
        (prefix PrefixMiner k \<longrightarrow> (\<exists>m. v = MinerObj m)) \<and>
        (k = storeVersionKey \<longrightarrow> (\<exists>sv. v = VersionObj sv)))"

lemma keyspace_typed: "keyspace_ok A c \<Longrightarrow> typed_ok c"
  unfolding typed_ok_def by (metis keyspace_okD well_keyed_prefix(2,3) well_keyed_version)

lemma typed_version: "typed_ok c \<Longrightarrow> badger_ok K \<Longrightarrow> db_content K s = c \<Longrightarrow>
    bs_Version K s = Inr (stored_version c)"
  by (cases "c storeVersionKey") (force simp: typed_ok_def bs_Version_content stored_version_def)+

definition legacy_users :: "(key \<times> 'a obj) list \<Rightarrow> (string \<times> string) list" where
  "legacy_users items = List.map_filter
     (\<lambda>(_, v). case legacy_user v of Inl _ \<Rightarrow> None | Inr u \<Rightarrow> Some u) items"

lemma MigrateToV1_users_eq:
  assumes "\<And>k v. (k, v) \<in> set items \<Longrightarrow> \<exists>u l. v = UserObj u l"
  shows "MigrateToV1_users items us = Inr (us @ legacy_users items)"
  using assms
proof (induction items arbitrary: us)
  case (Cons item items)
  obtain k v where item: "item = (k, v)" by (cases item)
  with Cons.prems [of k v] obtain u l where "item = (k, UserObj u l)" by auto
  moreover have "MigrateToV1_users items us = Inr (us @ legacy_users items)" for us
    by (rule Cons.IH) (rule Cons.prems, erule list.set_intros(2))
  ultimately show ?case
    by (simp add: legacy_users_def legacy_user_def map_filter_simps)
qed (simp add: legacy_users_def map_filter_simps)

lemma bs_MigrateToV1_obs:
  assumes "badger_ok K" and "typed_ok (db_content K s)"
  shows "obs K (bs_MigrateToV1 K A now s) =
    ((fold (V1_write A now) (legacy_users (scan K s PrefixUser)) (db_content K s))
       (storeVersionKey \<mapsto> version_doc 1), Inr ())"
proof -
  let ?items = "scan K s PrefixUser"
  obtain t1 where t1: "txn_Iterate K (NewTransaction K s) PrefixUser = (?items, t1)"
    and at1: "txn_at K s t1 Map.empty ({} \<union> fst ` set ?items)"
    using at_Iterate [OF at_New [OF assms(1)], of s PrefixUser] unfolding scan_def by blast
  have items: "\<exists>u l. v = UserObj u l" if "(k, v) \<in> set ?items" for k v
    using that assms(2) by (auto simp: scan_set [OF assms(1)] typed_ok_def)
  obtain t2 W where t2: "MigrateToV1_loop K A now (legacy_users ?items) t1 = Inr t2"
    and at2: "txn_at K s t2 W ({} \<union> fst ` set ?items)"
    and W: "\<And>c. overlay W c = fold (V1_write A now) (legacy_users ?items) (overlay Map.empty c)"
    using MigrateToV1_loop_at [OF at1] by blast
  obtain t3 where t3: "txn_Set K t2 storeVersionKey (version_doc 1) = Inr t3"
    and at3: "txn_at K s t3 (W(storeVersionKey \<mapsto> Some (version_doc 1))) ({} \<union> fst ` set ?items)"
    by (rule at_Set [OF at2])
  have users: "MigrateToV1_users ?items [] = Inr (legacy_users ?items)"
    using MigrateToV1_users_eq [of ?items "[]"] items by simp
  have "obs K (bs_MigrateToV1 K A now s) =
      (overlay (W(storeVersionKey \<mapsto> Some (version_doc 1))) (db_content K s), Inr ())"
    unfolding bs_MigrateToV1_def
    by (rule db_Update_commit [OF _ at3]) (simp add: t1 users t2 t3 del: One_nat_def)
  then show ?thesis by (simp only: overlay_simps W)
qed

lemma bs_MigrateToV2_obs:
  assumes "badger_ok K" and "typed_ok (db_content K s)"
  shows "obs K (bs_MigrateToV2 K A s) =
    ((fold (V2_write A) (miners_of (scan K s PrefixMiner)) (db_content K s))
       (storeVersionKey \<mapsto> version_doc 2), Inr ())"
proof -
  let ?items = "scan K s PrefixMiner"
  obtain t1 where t1: "txn_Iterate K (NewTransaction K s) PrefixMiner = (?items, t1)"
    and at1: "txn_at K s t1 Map.empty ({} \<union> fst ` set ?items)"
    using at_Iterate [OF at_New [OF assms(1)], of s PrefixMiner] unfolding scan_def by blast
  have items: "\<exists>m. v = MinerObj m" if "(k, v) \<in> set ?items" for k v
    using that assms(2) by (auto simp: scan_set [OF assms(1)] typed_ok_def)
  obtain t2 W where t2: "MigrateToV2_loop K A ?items t1 = Inr t2"
    and at2: "txn_at K s t2 W ({} \<union> fst ` set ?items)"
    and W: "\<And>c. overlay W c = fold (V2_write A) (miners_of ?items) (overlay Map.empty c)"
    using MigrateToV2_loop_at [OF at1, of ?items A] items by metis
  obtain t3 where t3: "txn_Set K t2 storeVersionKey (version_doc 2) = Inr t3"
    and at3: "txn_at K s t3 (W(storeVersionKey \<mapsto> Some (version_doc 2))) ({} \<union> fst ` set ?items)"
    by (rule at_Set [OF at2])
  have "obs K (bs_MigrateToV2 K A s) =
      (overlay (W(storeVersionKey \<mapsto> Some (version_doc 2))) (db_content K s), Inr ())"
    unfolding bs_MigrateToV2_def by (rule db_Update_commit [OF _ at3]) (simp add: t1 t2 t3)
  then show ?thesis by (simp only: overlay_simps W)
qed

text \<open>Both loops write to \<open>MINERS:\<close> only, miner documents only, and so keep the store typed.\<close>

lemma fold_writes:
  assumes "\<And>x c k. x \<in> set xs \<Longrightarrow> W x c k = c k \<or> (\<exists>m a. k = minerKey a \<and> W x c k = Some (MinerObj m))"
  shows "fold W xs c k = c k \<or> (\<exists>m a. k = minerKey a \<and> fold W xs c k = Some (MinerObj m))"
  using assms
proof (induction xs arbitrary: c)
  case (Cons x xs)
  then have "fold W xs (W x c) k = W x c k \<or> (\<exists>m a. k = minerKey a \<and> fold W xs (W x c) k = Some (MinerObj m))"
    by simp
  with Cons.prems [of x c k] show ?case by auto
qed simp

lemma V1_writes: "V1_write A now x c k = c k \<or> (\<exists>m a. k = minerKey a \<and> V1_write A now x c k = Some (MinerObj m))"
  by (auto simp: V1_write_def split: sum.split)

lemma V2_writes: "V2_write A x c k = c k \<or> (\<exists>m a. k = minerKey a \<and> V2_write A x c k = Some (MinerObj m))"
  by (auto simp: V2_write_def)

text \<open>A migration to version \<open>v\<close> leaves everything but miners and the version alone.\<close>

definition migrated :: "nat \<Rightarrow> (key \<rightharpoonup> 'a obj) \<Rightarrow> (key \<rightharpoonup> 'a obj) \<Rightarrow> bool" where
  "migrated v c c' \<longleftrightarrow> typed_ok c' \<and> stored_version c' = v \<and>
     (\<forall>k. \<not> prefix PrefixMiner k \<and> k \<noteq> storeVersionKey \<longrightarrow> c' k = c k)"

lemma migratedI:
  assumes "typed_ok c" and "\<And>k. d k = c k \<or> (\<exists>m a. k = minerKey a \<and> d k = Some (MinerObj m))"
  shows "migrated v c (d(storeVersionKey \<mapsto> version_doc v))"
  unfolding migrated_def
proof (intro conjI allI impI)
  show "typed_ok (d(storeVersionKey \<mapsto> version_doc v))"
    unfolding typed_ok_def
  proof (intro allI impI)
    fix k w
    assume w: "(d(storeVersionKey \<mapsto> version_doc v)) k = Some w"
    show "(prefix PrefixUser k \<longrightarrow> (\<exists>u l. w = UserObj u l)) \<and>
        (prefix PrefixMiner k \<longrightarrow> (\<exists>m. w = MinerObj m)) \<and> (k = storeVersionKey \<longrightarrow> (\<exists>sv. w = VersionObj sv))"
    proof (cases "k = storeVersionKey")
      case True
      with w show ?thesis by (auto simp: version_doc_def StoreVersion_Bytes_def)
    next
      case False
      with w have "d k = Some w" by simp
      with assms(2) [of k] assms(1) show ?thesis by (auto simp: typed_ok_def)
    qed
  qed
  show "stored_version (d(storeVersionKey \<mapsto> version_doc v)) = v"
    by (simp add: stored_version_def version_doc_def StoreVersion_Bytes_def)
  fix k
  assume "\<not> prefix PrefixMiner k \<and> k \<noteq> storeVersionKey"
  with assms(2) [of k] show "(d(storeVersionKey \<mapsto> version_doc v)) k = c k" by auto
qed

lemma migrated_steps:
  assumes "badger_ok K" and "typed_ok (db_content K s)"
  shows "snd (bs_MigrateToV1 K A now s) = Inr ()"
    and "migrated 1 (db_content K s) (db_content K (fst (bs_MigrateToV1 K A now s)))"
    and "snd (bs_MigrateToV2 K A s) = Inr ()"
    and "migrated 2 (db_content K s) (db_content K (fst (bs_MigrateToV2 K A s)))"
    and "snd (bs_MigrateToV3 K s) = Inr ()"
    and "migrated 3 (db_content K s) (db_content K (fst (bs_MigrateToV3 K s)))"
proof -
  note obs = bs_MigrateToV1_obs [OF assms, of A now] bs_MigrateToV2_obs [OF assms, of A]
    bs_MigrateToV3_obs [OF assms(1), of s]
  show "snd (bs_MigrateToV1 K A now s) = Inr ()" "snd (bs_MigrateToV2 K A s) = Inr ()"
    "snd (bs_MigrateToV3 K s) = Inr ()"
    using obs [THEN result_of] by simp_all
  show "migrated 1 (db_content K s) (db_content K (fst (bs_MigrateToV1 K A now s)))"
    unfolding content_after [OF obs(1)] fst_conv
    by (rule migratedI [OF assms(2)]) (rule fold_writes, rule V1_writes)
  show "migrated 2 (db_content K s) (db_content K (fst (bs_MigrateToV2 K A s)))"
    unfolding content_after [OF obs(2)] fst_conv
    by (rule migratedI [OF assms(2)]) (rule fold_writes, rule V2_writes)
  show "migrated 3 (db_content K s) (db_content K (fst (bs_MigrateToV3 K s)))"
    unfolding content_after [OF obs(3)] fst_conv by (rule migratedI [OF assms(2)]) simp
qed

text \<open>
  The version-0 addresses are canonical if each is the printed form of the address it parses
  to. Version 1 stores a miner under the string of the version-0 document.
\<close>

definition legacy_canonical :: "'a addr_lib \<Rightarrow> (key \<rightharpoonup> 'a obj) \<Rightarrow> bool" where
  "legacy_canonical A c \<longleftrightarrow>
     (\<forall>k v miner name a. c k = Some v \<longrightarrow> legacy_user v = Inr (miner, name) \<longrightarrow>
        addr_NewFromString A miner = Inr a \<longrightarrow> \<not> addr_Empty A a \<longrightarrow> addr_String A a = miner)"

lemma fold_inv: "P c \<Longrightarrow> (\<And>x c. x \<in> set xs \<Longrightarrow> P c \<Longrightarrow> P (W x c)) \<Longrightarrow> P (fold W xs c)"
  by (induction xs arbitrary: c) auto

lemma keyspace_V1:
  assumes "badger_ok K" and "legacy_canonical A (db_content K s)" and "keyspace_ok A (db_content K s)"
  shows "keyspace_ok A (fold (V1_write A now) (legacy_users (scan K s PrefixUser)) (db_content K s))"
proof (rule fold_inv [where P = "keyspace_ok A", OF assms(3)])
  fix u c
  assume u: "u \<in> set (legacy_users (scan K s PrefixUser))" and c: "keyspace_ok A c"
  then obtain k v where "db_content K s k = Some v" "legacy_user v = Inr u"
    by (auto simp: legacy_users_def map_filter_def scan_set [OF assms(1)] split: sum.splits)
  then have "addr_String A a = fst u" if "addr_NewFromString A (fst u) = Inr a" "\<not> addr_Empty A a" for a
    using that assms(2) unfolding legacy_canonical_def by (metis prod.collapse)
  then show "keyspace_ok A (V1_write A now u c)"
    using c by (auto simp: V1_write_def legacy_miner_def intro!: keyspace_ok_upd split: sum.split)
qed

lemma keyspace_V2: "keyspace_ok A c \<Longrightarrow> keyspace_ok A (fold (V2_write A) ms c)"
  by (rule fold_inv [where P = "keyspace_ok A"]) (auto simp: V2_write_def intro!: keyspace_ok_upd)

lemma V2_opens:
  "(\<exists>m. fold (V2_write A) ms c k = Some (MinerObj m) \<and> mn_OpenMining m = Some True) \<or>
   fold (V2_write A) ms c k = c k \<and> (\<forall>m \<in> set ms. k \<noteq> minerKey (addr_String A (mn_Miner m)))"
proof (induction ms arbitrary: c)
  case (Cons m ms)
  then show ?case
    using Cons.IH [of "V2_write A m c"] by (auto simp: V2_write_def)
qed simp

definition all_open :: "(key \<rightharpoonup> 'a obj) \<Rightarrow> bool" where
  "all_open c \<longleftrightarrow> (\<forall>k m. c k = Some (MinerObj m) \<longrightarrow> mn_OpenMining m = Some True)"

lemma MigrateToV2_all_open:
  assumes "badger_ok K" and "keyspace_ok A (db_content K s)"
  shows "all_open (db_content K (fst (bs_MigrateToV2 K A s)))"
    and "keyspace_ok A (db_content K (fst (bs_MigrateToV2 K A s)))"
proof -
  note c' = content_after [OF bs_MigrateToV2_obs [OF assms(1) keyspace_typed [OF assms(2)], of A], unfolded fst_conv]
  show "all_open (db_content K (fst (bs_MigrateToV2 K A s)))"
    unfolding all_open_def
  proof (intro allI impI, rule ccontr)
    fix k m
    assume k: "db_content K (fst (bs_MigrateToV2 K A s)) k = Some (MinerObj m)"
      and "mn_OpenMining m \<noteq> Some True"
    then have "db_content K s k = Some (MinerObj m)"
      and "\<forall>m \<in> set (miners_of (scan K s PrefixMiner)). k \<noteq> minerKey (addr_String A (mn_Miner m))"
      using V2_opens [of A "miners_of (scan K s PrefixMiner)" "db_content K s" k]
      by (auto simp: c' version_doc_def StoreVersion_Bytes_def split: if_splits)
    moreover from this(1) have "k = minerKey (addr_String A (mn_Miner m))"
      using keyspace_okD [OF assms(2)] by (force simp: well_keyed_def Miner_key_def)
    moreover from calculation have "(k, MinerObj m) \<in> set (scan K s PrefixMiner)"
      by (simp add: scan_set [OF assms(1)])
    then have "m \<in> set (miners_of (scan K s PrefixMiner))"
      by (force simp: miners_of_def map_filter_def)
    ultimately show False by blast
  qed
  show "keyspace_ok A (db_content K (fst (bs_MigrateToV2 K A s)))"
    unfolding c' by (intro keyspace_ok_upd keyspace_V2 assms(2))
      (simp add: version_doc_def StoreVersion_Bytes_def)
qed

lemma all_open_migrated: "all_open c \<Longrightarrow> all_open (c(storeVersionKey \<mapsto> version_doc v))"
  by (simp add: all_open_def version_doc_def StoreVersion_Bytes_def)

lemma keyspace_version: "keyspace_ok A c \<Longrightarrow> keyspace_ok A (c(storeVersionKey \<mapsto> version_doc v))"
  by (rule keyspace_ok_upd) (simp_all add: version_doc_def StoreVersion_Bytes_def)

end
