(* ===== verification/Badger_Store.thy ===== *)
theory Badger_Store
  imports Badger_Migrate Store_Spec
begin

text \<open>
  The badger store as a \<open>Store\<close>: its method table, its invariant and abstract state, and the two
  interpretations that show it to meet the contract of a store and of migration.
\<close>

definition badgerStore ::
  "('a obj, 'db, 'txn) badger \<Rightarrow> 'a addr_lib \<Rightarrow> (maped_ratelimit \<Rightarrow> maped_ratelimit) \<Rightarrow> ('a, 'db) store_ops" where
  "badgerStore K A rng = \<lparr>
     st_Get = bs_Get K, st_ByName = bs_ByName K, st_Put = bs_Put K, st_Delete = bs_Delete K,
     st_Recover = bs_Recover K, st_Has = bs_Has K, st_List = bs_List K,
     st_UpdateToken = bs_UpdateToken K,
     st_HasUser = bs_HasUser K, st_GetUser = bs_GetUser K, st_VerifyUsers = bs_VerifyUsers K,
     st_PutUser = bs_PutUser K, st_UpdateUser = bs_UpdateUser K, st_ListUsers = bs_ListUsers K,
     st_DeleteUser = bs_DeleteUser K A, st_RecoverUser = bs_RecoverUser K,
     st_GetRateLimits = bs_GetRateLimits K rng, st_PutRateLimit = bs_PutRateLimit K,
     st_DelRateLimit = bs_DelRateLimit K,
     st_UpsertMiner = bs_UpsertMiner K A, st_HasMiner = bs_HasMiner K A,
     st_MinerExistInUser = bs_MinerExistInUser K A, st_GetUserByMiner = bs_GetUserByMiner K A,
     st_ListMiners = bs_ListMiners K, st_DelMiner = bs_DelMiner K A,
     st_RegisterSigner = bs_RegisterSigner K A, st_SignerExistInUser = bs_SignerExistInUser K A,
     st_ListSigner = bs_ListSigner K, st_UnregisterSigner = bs_UnregisterSigner K A,
     st_HasSigner = bs_HasSigner K A, st_DelSigner = bs_DelSigner K A,
     st_GetUserBySigner = bs_GetUserBySigner K A,
     st_Version = bs_Version K, st_MigrateToV1 = bs_MigrateToV1 K A,
     st_MigrateToV2 = bs_MigrateToV2 K A, st_MigrateToV3 = bs_MigrateToV3 K\<rparr>"

lemma badgerStore_ops [simp]:
  "st_Get (badgerStore K A rng) = bs_Get K" "st_ByName (badgerStore K A rng) = bs_ByName K"
  "st_Put (badgerStore K A rng) = bs_Put K" "st_Delete (badgerStore K A rng) = bs_Delete K"
  "st_Recover (badgerStore K A rng) = bs_Recover K" "st_Has (badgerStore K A rng) = bs_Has K"
  "st_List (badgerStore K A rng) = bs_List K" "st_UpdateToken (badgerStore K A rng) = bs_UpdateToken K"
  "st_HasUser (badgerStore K A rng) = bs_HasUser K" "st_GetUser (badgerStore K A rng) = bs_GetUser K"
  "st_VerifyUsers (badgerStore K A rng) = bs_VerifyUsers K" "st_PutUser (badgerStore K A rng) = bs_PutUser K"
  "st_UpdateUser (badgerStore K A rng) = bs_UpdateUser K" "st_ListUsers (badgerStore K A rng) = bs_ListUsers K"
  "st_DeleteUser (badgerStore K A rng) = bs_DeleteUser K A" "st_RecoverUser (badgerStore K A rng) = bs_RecoverUser K"
  "st_GetRateLimits (badgerStore K A rng) = bs_GetRateLimits K rng"
  "st_PutRateLimit (badgerStore K A rng) = bs_PutRateLimit K"
  "st_DelRateLimit (badgerStore K A rng) = bs_DelRateLimit K"
  "st_UpsertMiner (badgerStore K A rng) = bs_UpsertMiner K A" "st_HasMiner (badgerStore K A rng) = bs_HasMiner K A"
  "st_MinerExistInUser (badgerStore K A rng) = bs_MinerExistInUser K A"
  "st_GetUserByMiner (badgerStore K A rng) = bs_GetUserByMiner K A"
  "st_ListMiners (badgerStore K A rng) = bs_ListMiners K" "st_DelMiner (badgerStore K A rng) = bs_DelMiner K A"
  "st_RegisterSigner (badgerStore K A rng) = bs_RegisterSigner K A"
  "st_SignerExistInUser (badgerStore K A rng) = bs_SignerExistInUser K A"
  "st_ListSigner (badgerStore K A rng) = bs_ListSigner K"
  "st_UnregisterSigner (badgerStore K A rng) = bs_UnregisterSigner K A"
  "st_HasSigner (badgerStore K A rng) = bs_HasSigner K A" "st_DelSigner (badgerStore K A rng) = bs_DelSigner K A"
  "st_GetUserBySigner (badgerStore K A rng) = bs_GetUserBySigner K A"
  "st_Version (badgerStore K A rng) = bs_Version K" "st_MigrateToV1 (badgerStore K A rng) = bs_MigrateToV1 K A"
  "st_MigrateToV2 (badgerStore K A rng) = bs_MigrateToV2 K A" "st_MigrateToV3 (badgerStore K A rng) = bs_MigrateToV3 K"
  by (simp_all add: badgerStore_def)

section \<open>Invariant and abstract state\<close>

text \<open>
  What is assumed of the parameters: the engine obeys its laws, addresses print as they should,
  and ranging over a map meets each entry once.
\<close>

definition store_env ::
  "('a obj, 'db, 'txn) badger \<Rightarrow> 'a addr_lib \<Rightarrow> (maped_ratelimit \<Rightarrow> maped_ratelimit) \<Rightarrow> bool" where
  "store_env K A rng \<longleftrightarrow>
     badger_ok K \<and> addr_ok A \<and> (\<forall>mr. mset (rng mr) = mset mr)"

lemma store_envD:
  assumes "store_env K A rng"
  shows "badger_ok K" "addr_ok A" "mset (rng mr) = mset mr"
  using assms by (simp_all add: store_env_def)

definition signers_ok :: "'a addr_lib \<Rightarrow> (key \<rightharpoonup> 'a obj) \<Rightarrow> bool" where
  "signers_ok A c \<longleftrightarrow> (\<forall>k g. c k = Some (SignerObj g) \<longrightarrow> IsSignerAddress A (sn_Signer g))"

definition badger_inv ::
  "('a obj, 'db, 'txn) badger \<Rightarrow> 'a addr_lib \<Rightarrow> (maped_ratelimit \<Rightarrow> maped_ratelimit) \<Rightarrow> 'db \<Rightarrow> bool" where
  "badger_inv K A rng s \<longleftrightarrow>
     store_env K A rng \<and> keyspace_ok A (db_content K s) \<and> signers_ok A (db_content K s)"

definition cview :: "'a addr_lib \<Rightarrow> (key \<rightharpoonup> 'a obj) \<Rightarrow> 'a astore" where
  "cview A c = \<lparr>as_token = token_doc c, as_user = user_doc c, as_miner = miner_doc A c,
     as_signer = signer_doc A c, as_limit = user_limits c\<rparr>"

definition badger_view :: "('a obj, 'db, 'txn) badger \<Rightarrow> 'a addr_lib \<Rightarrow> 'db \<Rightarrow> 'a astore" where
  "badger_view K A s = cview A (db_content K s)"

lemma cview_sel [simp]:
  "as_token (cview A c) = token_doc c" "as_user (cview A c) = user_doc c"
  "as_miner (cview A c) = miner_doc A c" "as_signer (cview A c) = signer_doc A c"
  "as_limit (cview A c) = user_limits c"
  by (simp_all add: cview_def)

lemma live_user_live: "live_user c n = live User_isDeleted (user_doc c n)"
  by (simp add: live_user_def live_def)

lemma miner_owner_live: "miner_owner A c a = map_option mn_User (live Miner_isDeleted (miner_doc A c a))"
  by (simp add: miner_owner_def live_def split: option.split)

lemma signer_bound_live: "signer_bound A c a n \<longleftrightarrow> live Signer_isDeleted (signer_doc A c a n) \<noteq> None"
  by (simp add: signer_bound_def live_def split: option.split)

lemma keyspace_signer_upd:
  assumes "keyspace_ok A c" and "addr_ok A" and "sn_Signer g = a" "sn_User g = n"
  shows "keyspace_ok A (c(signerForUserKey (addr_String A a) n \<mapsto> SignerObj g))"
  using assms by (intro keyspace_ok_upd) (simp_all add: well_keyed_signer)

lemma signers_ok_upd:
  "signers_ok A c \<Longrightarrow> signers_ok A (c(k \<mapsto> KeyPairObj kp))"
  "signers_ok A c \<Longrightarrow> signers_ok A (c(k \<mapsto> UserObj u l))"
  "signers_ok A c \<Longrightarrow> signers_ok A (c(k \<mapsto> MinerObj m))"
  "signers_ok A c \<Longrightarrow> signers_ok A (c(k \<mapsto> RateLimitObj mr))"
  "signers_ok A c \<Longrightarrow> signers_ok A (c(k := None))"
  "signers_ok A c \<Longrightarrow> IsSignerAddress A (sn_Signer g) \<Longrightarrow> signers_ok A (c(k \<mapsto> SignerObj g))"
  by (auto simp: signers_ok_def)

section \<open>The methods refine their meaning\<close>

lemma badger_invD:
  assumes "badger_inv K A rng s"
  shows "store_env K A rng" "badger_ok K" "addr_ok A"
    "keyspace_ok A (db_content K s)" "signers_ok A (db_content K s)"
  using assms by (auto simp: badger_inv_def store_env_def)

text \<open>\<open>badger_refines\<close> for the invariant \<open>I\<close> and the state before the call.\<close>

abbreviation brefines where
  "brefines K A rng s p spec \<equiv> refines (badger_inv K A rng) (badger_view K A) (badger_view K A s) p spec"

lemma brefines_fail:
  assumes "badger_inv K A rng s" and "obs K p = (db_content K s, Inl e)" and "spec = None"
  shows "brefines K A rng s p spec"
  using assms by (simp add: refines_def badger_inv_def badger_view_def obs_def)

lemma brefines_ok:
  assumes "badger_inv K A rng s" and "obs K p = (c', Inr x)"
    and "keyspace_ok A c'" and "signers_ok A c'" and "spec = Some (cview A c', x)"
  shows "brefines K A rng s p spec"
  using assms by (simp add: refines_def badger_inv_def badger_view_def obs_def)

lemmas spec_view = spec_defs badger_view_def

lemma cview_upd [simp]:
  "cview A (c(tokenKey t \<mapsto> KeyPairObj kp)) = (cview A c)\<lparr>as_token := (token_doc c)(t \<mapsto> kp)\<rparr>"
  "cview A (c(userKey n \<mapsto> UserObj u l)) = (cview A c)\<lparr>as_user := (user_doc c)(n \<mapsto> u)\<rparr>"
  by (simp_all add: cview_def user_limits_def fun_eq_iff)

lemma cview_upd_miner:
  "addr_ok A \<Longrightarrow> cview A (c(minerKey (addr_String A a) \<mapsto> MinerObj m)) =
     (cview A c)\<lparr>as_miner := (miner_doc A c)(a \<mapsto> m)\<rparr>"
  by (simp add: cview_def user_limits_def miner_doc_upd fun_eq_iff)

lemma cview_upd_signer:
  "addr_ok A \<Longrightarrow> cview A (c(signerForUserKey (addr_String A a) n \<mapsto> SignerObj g)) =
     (cview A c)\<lparr>as_signer := (signer_doc A c)(a := (signer_doc A c a)(n \<mapsto> g))\<rparr>"
  by (auto simp: cview_def user_limits_def signer_doc_upd fun_eq_iff)

lemma ref_Put:
  assumes inv: "badger_inv K A rng s"
  shows "brefines K A rng s (bs_Put K kp s) (spec_Put kp (badger_view K A s))"
  by (rule brefines_ok [OF inv bs_Put_obs [OF badger_invD(2) [OF inv]]])
    (simp_all add: badger_invD [OF inv] keyspace_ok_upd signers_ok_upd spec_view)

lemma ref_UpdateToken:
  assumes inv: "badger_inv K A rng s"
  shows "brefines K A rng s (bs_UpdateToken K kp s) (spec_Put kp (badger_view K A s))"
  using ref_Put [OF inv, of kp] by (simp add: bs_UpdateToken_def bs_Put_def)

lemma ref_Delete:
  assumes inv: "badger_inv K A rng s"
  shows "brefines K A rng s (bs_Delete K now t s) (spec_Delete t (badger_view K A s))"
proof (cases "a_token (badger_view K A s) t")
  case None
  then have "obs K (bs_Delete K now t s) = (db_content K s, Inl (if token_doc (db_content K s) t = None
      then ErrKeyNotFound else Msg ''not exist''))"
    using bs_Delete_obs [OF badger_invD(2,4) [OF inv], of now t]
    by (auto simp: badger_view_def live_def split: option.splits if_splits)
  then show ?thesis by (rule brefines_fail [OF inv]) (use None in \<open>simp add: spec_Delete_def\<close>)
next
  case (Some kp)
  then have kp: "token_doc (db_content K s) t = Some kp" "\<not> KeyPair_isDeleted kp"
    by (simp_all add: live_Some badger_view_def)
  have key: "kp_Token kp = t" by (rule content_token(2) [OF badger_invD(4) [OF inv] kp(1)])
  show ?thesis
    by (rule brefines_ok [OF inv bs_Delete_obs [OF badger_invD(2,4) [OF inv], of now t,
          unfolded kp(1) option.case if_not_P [OF kp(2)]]])
      (simp_all add: badger_invD [OF inv] keyspace_ok_upd signers_ok_upd spec_view kp key)
qed

lemma ref_Recover:
  assumes inv: "badger_inv K A rng s"
  shows "brefines K A rng s (bs_Recover K t s) (spec_Recover t (badger_view K A s))"
proof (cases "token_doc (db_content K s) t")
  case None
  show ?thesis
    by (rule brefines_fail [OF inv bs_Recover_obs [OF badger_invD(2,4) [OF inv], of t, unfolded None option.case]])
      (simp add: spec_view None)
next
  case (Some kp)
  note obs = bs_Recover_obs [OF badger_invD(2,4) [OF inv], of t, unfolded Some option.case]
  have key: "kp_Token kp = t" by (rule content_token(2) [OF badger_invD(4) [OF inv] Some])
  show ?thesis
  proof (cases "kp_IsDeleted kp = NotDelete")
    case True
    show ?thesis
      by (rule brefines_fail [OF inv obs [unfolded if_P [OF True]]]) (simp add: spec_view Some True)
  next
    case False
    show ?thesis
      by (rule brefines_ok [OF inv obs [unfolded if_not_P [OF False]]])
        (simp_all add: badger_invD [OF inv] keyspace_ok_upd signers_ok_upd spec_view Some False key)
  qed
qed

lemma ref_PutUser:
  assumes inv: "badger_inv K A rng s"
  shows "brefines K A rng s (bs_PutUser K u s) (spec_PutUser u (badger_view K A s))"
  by (rule brefines_ok [OF inv bs_PutUser_obs [OF badger_invD(2) [OF inv]]])
    (simp_all add: badger_invD [OF inv] keyspace_ok_upd signers_ok_upd spec_view)

lemma ref_UpdateUser:
  assumes inv: "badger_inv K A rng s"
  shows "brefines K A rng s (bs_UpdateUser K u s) (spec_PutUser u (badger_view K A s))"
  using ref_PutUser [OF inv, of u] by (simp add: bs_UpdateUser_def bs_PutUser_def)

lemma ref_RecoverUser:
  assumes inv: "badger_inv K A rng s"
  shows "brefines K A rng s (bs_RecoverUser K n s) (spec_RecoverUser n (badger_view K A s))"
proof (cases "user_doc (db_content K s) n")
  case None
  show ?thesis
    by (rule brefines_fail [OF inv bs_RecoverUser_obs [OF badger_invD(2,4) [OF inv], of n, unfolded None option.case]])
      (simp add: spec_view None)
next
  case (Some u)
  note obs = bs_RecoverUser_obs [OF badger_invD(2,4) [OF inv], of n, unfolded Some option.case]
  have key: "usr_Name u = n" by (rule user_doc_name [OF badger_invD(4) [OF inv] Some])
  show ?thesis
  proof (cases "usr_IsDeleted u = NotDelete")
    case True
    show ?thesis
      by (rule brefines_fail [OF inv obs [unfolded if_P [OF True]]]) (simp add: spec_view Some True)
  next
    case False
    show ?thesis
      by (rule brefines_ok [OF inv obs [unfolded if_not_P [OF False]]])
        (simp_all add: badger_invD [OF inv] keyspace_ok_upd signers_ok_upd spec_view Some False key)
  qed
qed

lemma ref_DelMiner:
  assumes inv: "badger_inv K A rng s"
  shows "brefines K A rng s (bs_DelMiner K A now a s) (spec_DelMiner now a (badger_view K A s))"
proof (cases "miner_doc A (db_content K s) a")
  case None
  show ?thesis
    by (rule brefines_ok [OF inv bs_DelMiner_obs [OF badger_invD(2,3,4) [OF inv], of now a, unfolded None option.case]])
      (simp_all add: badger_invD [OF inv] spec_view None)
next
  case (Some m)
  note obs = bs_DelMiner_obs [OF badger_invD(2,3,4) [OF inv], of now a, unfolded Some option.case]
  have key: "mn_Miner m = a" by (rule content_miner(2) [OF badger_invD(3,4) [OF inv] Some])
  show ?thesis
  proof (cases "Miner_isDeleted m")
    case True
    show ?thesis
      by (rule brefines_fail [OF inv obs [unfolded if_P [OF True]]]) (simp add: spec_view Some True)
  next
    case False
    show ?thesis
      by (rule brefines_ok [OF inv obs [unfolded if_not_P [OF False]]])
        (simp_all add: badger_invD [OF inv] keyspace_ok_upd signers_ok_upd spec_view Some False key
          cview_upd_miner Miner_setDeleted_def)
  qed
qed

lemma ref_UpsertMiner:
  assumes inv: "badger_inv K A rng s"
  shows "brefines K A rng s (bs_UpsertMiner K A now a n om s) (spec_UpsertMiner now a n om (badger_view K A s))"
proof (cases "user_doc (db_content K s) n = None")
  case True
  show ?thesis
    by (rule brefines_fail [OF inv bs_UpsertMiner_obs [OF badger_invD(2,3,4) [OF inv], of now a n om, unfolded if_P [OF True]]])
      (simp add: spec_view True)
next
  case False
  let ?c = "db_content K s"
  have m: "upserted_miner now n om (case miner_doc A ?c a of None \<Rightarrow> new_miner now a | Some m \<Rightarrow> m) =
      bind_miner now a n om (miner_doc A ?c a)"
    using content_miner(2) [OF badger_invD(3,4) [OF inv], of a]
    by (auto simp: upserted_miner_def bind_miner_def new_miner_def split: option.split)
  have obs: "obs K (bs_UpsertMiner K A now a n om s) =
      (?c(minerKey (addr_String A a) \<mapsto> MinerObj (bind_miner now a n om (miner_doc A ?c a))),
       Inr (miner_doc A ?c a = None))"
    using False m bs_UpsertMiner_obs [OF badger_invD(2,3,4) [OF inv], of now a n om]
    by (cases "miner_doc A ?c a") auto
  have "mn_Miner (bind_miner now a n om old) = a" for old by (simp add: bind_miner_def)
  then show ?thesis
    by (intro brefines_ok [OF inv obs])
      (use False in \<open>simp_all add: badger_invD [OF inv] keyspace_ok_upd signers_ok_upd spec_view cview_upd_miner\<close>)
qed

lemma signer_doc_ok:
  assumes inv: "badger_inv K A rng s" and g: "signer_doc A (db_content K s) a n = Some g"
  shows "sn_Signer g = a" "sn_User g = n" "IsSignerAddress A a"
proof -
  show "sn_Signer g = a" "sn_User g = n"
    using content_signer(2) [OF badger_invD(3,4) [OF inv] g] by simp_all
  moreover have "IsSignerAddress A (sn_Signer g)"
    using g badger_invD(5) [OF inv] unfolding signers_ok_def signer_doc_def
    by (auto split: option.splits obj.splits)
  ultimately show "IsSignerAddress A a" by simp
qed

lemma ref_RegisterSigner:
  assumes inv: "badger_inv K A rng s" and "IsSignerAddress A a"
  shows "brefines K A rng s (bs_RegisterSigner K A now a n s) (spec_RegisterSigner now a n (badger_view K A s))"
proof (cases "user_doc (db_content K s) n = None")
  case True
  show ?thesis
    by (rule brefines_fail [OF inv bs_RegisterSigner_obs [OF badger_invD(2,3,4) [OF inv], of now a n, unfolded if_P [OF True]]])
      (simp add: spec_view True)
next
  case False
  let ?c = "db_content K s"
  have g: "registered_signer now n (case signer_doc A ?c a n of None \<Rightarrow> new_signer now a | Some g \<Rightarrow> g) =
      bind_signer now a n (signer_doc A ?c a n)"
    using content_signer(2) [OF badger_invD(3,4) [OF inv], of a n]
    by (auto simp: registered_signer_def bind_signer_def new_signer_def split: option.split)
  have key: "sn_Signer (bind_signer now a n old) = a" "sn_User (bind_signer now a n old) = n" for old
    by (simp_all add: bind_signer_def)
  show ?thesis
    by (rule brefines_ok [OF inv bs_RegisterSigner_obs [OF badger_invD(2,3,4) [OF inv], of now a n,
          unfolded if_not_P [OF False] g]])
      (use False assms(2) in \<open>simp_all add: badger_invD [OF inv] keyspace_signer_upd signers_ok_upd spec_view
        cview_upd_signer key\<close>)
qed

lemma ref_UnregisterSigner:
  assumes inv: "badger_inv K A rng s"
  shows "brefines K A rng s (bs_UnregisterSigner K A now a n s) (spec_UnregisterSigner now a n (badger_view K A s))"
proof (cases "signer_doc A (db_content K s) a n")
  case None
  show ?thesis
    unfolding bs_UnregisterSigner_def
    by (rule brefines_ok [OF inv bs_innerUnregisterSigner_obs [OF badger_invD(2,3,4) [OF inv], of now a n,
          unfolded None option.case]])
      (simp_all add: badger_invD [OF inv] spec_view None)
next
  case (Some g)
  note obs = bs_innerUnregisterSigner_obs [OF badger_invD(2,3,4) [OF inv], of now a n, unfolded Some option.case]
  have key: "sn_Signer g = a" "sn_User g = n"
    by (rule signer_doc_ok [OF inv Some])+
  have "IsSignerAddress A a"
    by (rule signer_doc_ok(3) [OF inv Some])
  then show ?thesis
    unfolding bs_UnregisterSigner_def
  proof (cases "Signer_isDeleted g")
    case True
    show "brefines K A rng s (bs_innerUnregisterSigner K A now a n s) (spec_UnregisterSigner now a n (badger_view K A s))"
      by (rule brefines_fail [OF inv obs [unfolded if_P [OF True]]]) (simp add: spec_view Some True)
  next
    case False
    assume "IsSignerAddress A a"
    then show "brefines K A rng s (bs_innerUnregisterSigner K A now a n s) (spec_UnregisterSigner now a n (badger_view K A s))"
      by (intro brefines_ok [OF inv obs [unfolded if_not_P [OF False]]])
        (simp_all add: badger_invD [OF inv] keyspace_signer_upd signers_ok_upd spec_view Some False key
          cview_upd_signer Signer_setDeleted_def)
  qed
qed

text \<open>Deleting many bindings, or miners, at once.\<close>

lemma keyspace_del_signers: "keyspace_ok A c \<Longrightarrow> keyspace_ok A (del_signers now P c)"
  by (auto simp: keyspace_ok_def del_signers_def well_keyed_def split: option.splits obj.splits if_splits)

lemma signers_ok_del_signers: "signers_ok A c \<Longrightarrow> signers_ok A (del_signers now P c)"
  unfolding signers_ok_def
proof (intro allI impI)
  fix k g
  assume c: "\<forall>k g. c k = Some (SignerObj g) \<longrightarrow> IsSignerAddress A (sn_Signer g)"
    and "del_signers now P c k = Some (SignerObj g)"
  then obtain g' where "c k = Some (SignerObj g')" "sn_Signer g = sn_Signer g'"
    by (auto simp: del_signers_def Signer_setDeleted_def split: option.splits obj.splits if_splits)
  with c show "IsSignerAddress A (sn_Signer g)" by simp
qed

lemma keyspace_del_miners: "keyspace_ok A c \<Longrightarrow> keyspace_ok A (del_miners now P c)"
  by (auto simp: keyspace_ok_def del_miners_def well_keyed_def Miner_key_def Miner_setDeleted_def
      split: option.splits obj.splits if_splits)

lemma signers_ok_del_miners: "signers_ok A c \<Longrightarrow> signers_ok A (del_miners now P c)"
  unfolding signers_ok_def by (auto simp: del_miners_def split: option.splits obj.splits if_splits)

lemma signer_doc_del_signers:
  "signer_doc A (del_signers now P c) a n =
     map_option (\<lambda>g. if P g then del_signer now g else g) (signer_doc A c a n)"
  by (auto simp: signer_doc_def del_signers_def del_signer_def split: option.split obj.split)

lemma miner_doc_del_miners:
  "miner_doc A (del_miners now P c) a =
     map_option (\<lambda>m. if P m then del_miner now m else m) (miner_doc A c a)"
  by (auto simp: miner_doc_def del_miners_def del_miner_def split: option.split obj.split)

lemma docs_del:
  "token_doc (del_signers now P c) = token_doc c" "user_doc (del_signers now P c) = user_doc c"
  "miner_doc A (del_signers now P c) = miner_doc A c" "user_limits (del_signers now P c) = user_limits c"
  "token_doc (del_miners now Q c) = token_doc c" "user_doc (del_miners now Q c) = user_doc c"
  "signer_doc A (del_miners now Q c) = signer_doc A c" "user_limits (del_miners now Q c) = user_limits c"
  by (auto simp: fun_eq_iff token_doc_def user_doc_def miner_doc_def signer_doc_def user_limits_def
      limits_doc_def del_signers_def del_miners_def split: option.split obj.split)

lemma cview_del_signers:
  assumes "\<And>a n g. signer_doc A c a n = Some g \<Longrightarrow> P g \<longleftrightarrow> Q a n"
  shows "cview A (del_signers now P c) = (cview A c)\<lparr>as_signer := (\<lambda>a n.
    if Q a n then map_option (del_signer now) (signer_doc A c a n) else signer_doc A c a n)\<rparr>"
proof -
  have "map_option (\<lambda>g. if P g then del_signer now g else g) (signer_doc A c a n) =
      (if Q a n then map_option (del_signer now) (signer_doc A c a n) else signer_doc A c a n)" for a n
    using assms [of a n] by (cases "signer_doc A c a n") auto
  then show ?thesis by (simp add: cview_def docs_del signer_doc_del_signers fun_eq_iff)
qed

text \<open>
  What is asked of a signer walks the keys that begin with the signer's, and takes in every signer
  whose text begins with the text of that one. Among bound signers it is the only such one when
  \<open>signer_alone\<close>, as all are that have texts of one length.
\<close>

abbreviation extends :: "'a addr_lib \<Rightarrow> 'a \<Rightarrow> 'a \<Rightarrow> bool" where
  "extends A a b \<equiv> prefix (addr_String A a) (addr_String A b)"

definition signer_alone :: "'a addr_lib \<Rightarrow> 'a \<Rightarrow> 'a astore \<Rightarrow> bool" where
  "signer_alone A a st \<longleftrightarrow> (\<forall>b n. a_signer st b n \<noteq> None \<longrightarrow> extends A a b \<longrightarrow> b = a)"

lemma one_length_alone:
  assumes "addr_ok A" and "\<And>b n. a_signer st b n \<noteq> None \<Longrightarrow> length (addr_String A b) = length (addr_String A a)"
  shows "signer_alone A a st"
  unfolding signer_alone_def
proof (intro allI impI)
  fix b n
  assume "a_signer st b n \<noteq> None" and "extends A a b"
  then have "addr_String A a = addr_String A b" using assms(2) [of b n] by (auto simp: prefix_def)
  then show "b = a" using addr_ok_inj [OF assms(1)] by metis
qed

lemma alone_ex:
  assumes "signer_alone A a st"
  shows "(\<exists>b n. extends A a b \<and> a_signer st b n \<noteq> None) \<longleftrightarrow> (\<exists>b n. b = a \<and> a_signer st b n \<noteq> None)"
proof
  assume "\<exists>b n. extends A a b \<and> a_signer st b n \<noteq> None"
  then obtain b n where "extends A a b" "a_signer st b n \<noteq> None" by blast
  moreover from this have "b = a" using assms unfolding signer_alone_def by blast
  ultimately show "\<exists>b n. b = a \<and> a_signer st b n \<noteq> None" by blast
qed blast

lemma spec_DelSigner_alone:
  assumes "signer_alone A a st"
  shows "spec_DelSigner now (extends A a) st = spec_DelSigner now (\<lambda>b. b = a) st"
proof -
  have "map_option (del_signer now) (as_signer st b n) = as_signer st b n" if "extends A a b" "b \<noteq> a" for b n
  proof -
    have "a_signer st b n = None" using assms that unfolding signer_alone_def by blast
    then show ?thesis by (cases "as_signer st b n") (auto simp: live_def del_signer_def split: if_splits)
  qed
  then have "(\<lambda>b n. if extends A a b then map_option (del_signer now) (as_signer st b n) else as_signer st b n) =
      (\<lambda>b n. if b = a then map_option (del_signer now) (as_signer st b n) else as_signer st b n)"
    by (auto simp: fun_eq_iff)
  then show ?thesis by (simp only: spec_DelSigner_def alone_ex [OF assms])
qed

lemma ref_DelSigner:
  assumes inv: "badger_inv K A rng s"
  shows "brefines K A rng s (bs_DelSigner K A now a s) (spec_DelSigner now (extends A a) (badger_view K A s))"
proof -
  let ?c = "db_content K s"
  have P: "extends A a (sn_Signer g) \<longleftrightarrow> extends A a b" if "signer_doc A ?c b n = Some g" for b n g
    using content_signer(2) [OF badger_invD(3,4) [OF inv] that] by simp
  show ?thesis
    by (intro brefines_ok [OF inv bs_DelSigner_obs [OF badger_invD(2,3,4) [OF inv], of now a]])
      (simp_all add: badger_invD [OF inv] keyspace_del_signers signers_ok_del_signers spec_view signer_bound_live
        cview_del_signers [where Q = "\<lambda>b n. extends A a b", OF P] cong: if_cong)
qed

lemma law_DelSigner:
  "badger_inv K A rng s \<Longrightarrow>
     \<exists>P. P a \<and> brefines K A rng s (bs_DelSigner K A now a s) (spec_DelSigner now P (badger_view K A s))"
  by (intro exI [of _ "extends A a"] conjI ref_DelSigner) simp_all

lemma ref_DeleteUser:
  assumes inv: "badger_inv K A rng s"
  shows "brefines K A rng s (bs_DeleteUser K A now n s) (spec_DeleteUser now n (badger_view K A s))"
proof -
  let ?c = "db_content K s"
  note obs = bs_DeleteUser_obs [OF badger_invD(2,3,4) [OF inv], of now n]
  show ?thesis
  proof (cases "user_doc ?c n")
    case None
    show ?thesis
      by (rule brefines_fail [OF inv obs [unfolded None option.case]]) (simp add: spec_view None)
  next
    case (Some u)
    have key: "usr_Name u = n" by (rule user_doc_name [OF badger_invD(4) [OF inv] Some])
    show ?thesis
    proof (cases "User_isDeleted u")
      case True
      show ?thesis
        by (rule brefines_fail [OF inv obs [unfolded Some option.case if_P [OF True]]]) (simp add: spec_view Some True)
    next
      case False
      have P: "sn_User g = n \<longleftrightarrow> m = n" if "signer_doc A ?c b m = Some g" for b m g
        using content_signer(2) [OF badger_invD(3,4) [OF inv] that] by simp
      have view: "cview A (user_deleted now n u ?c) =
          (cview A ?c)\<lparr>as_user := (user_doc ?c)(n \<mapsto> u\<lparr>usr_IsDeleted := Deleted\<rparr>),
            as_miner := (\<lambda>a. map_option (\<lambda>m. if mn_User m = n then del_miner now m else m) (miner_doc A ?c a)),
            as_signer := (\<lambda>a m. if m = n then map_option (del_signer now) (signer_doc A ?c a m)
                               else signer_doc A ?c a m)\<rparr>"
      proof -
        have "cview A (del_signers now (\<lambda>g. sn_User g = n) ?c) = (cview A ?c)\<lparr>as_signer :=
            (\<lambda>a m. if m = n then map_option (del_signer now) (signer_doc A ?c a m) else signer_doc A ?c a m)\<rparr>"
          by (rule cview_del_signers) (rule P)
        then show ?thesis
          by (simp add: user_deleted_def cview_def docs_del miner_doc_del_miners fun_eq_iff User_setDeleted_def)
      qed
      have "well_keyed A (userKey n) (UserObj (User_setDeleted now u) None)"
        using key by (simp add: User_setDeleted_def)
      then have "keyspace_ok A (user_deleted now n u ?c)"
        unfolding user_deleted_def
        by (intro keyspace_ok_upd keyspace_del_miners keyspace_del_signers badger_invD(4) [OF inv])
      moreover have "signers_ok A (user_deleted now n u ?c)"
        unfolding user_deleted_def
        by (intro signers_ok_upd signers_ok_del_miners signers_ok_del_signers badger_invD(5) [OF inv])
      ultimately show ?thesis
        by (rule brefines_ok [OF inv obs [unfolded Some option.case if_not_P [OF False]]])
          (simp add: spec_view view Some False del: if_split cong: if_cong)
    qed
  qed
qed

lemma ref_PutRateLimit:
  assumes inv: "badger_inv K A rng s"
  shows "brefines K A rng s (bs_PutRateLimit K uuid l s) (spec_PutRateLimit uuid l (badger_view K A s))"
proof -
  let ?c = "db_content K s"
  define l' where "l' = (if rl_Id l = [] then l\<lparr>rl_Id := uuid\<rparr> else l)"
  define mr where "mr = (case limits_doc ?c (rl_Name l') of None \<Rightarrow> [] | Some mr \<Rightarrow> mr)"
  note obs = bs_PutRateLimit_obs [OF badger_invD(2,4) [OF inv], of uuid l, folded l'_def, unfolded Let_def,
      folded mr_def]
  have l': "l' = l\<lparr>rl_Id := if rl_Id l = [] then uuid else rl_Id l\<rparr>" by (simp add: l'_def)
  have mr: "distinct (map fst mr)" "\<And>i x. (i, x) \<in> set mr \<Longrightarrow> rl_Id x = i \<and> rl_Name x = rl_Name l'"
    "map_of mr = user_limits ?c (rl_Name l')"
    using content_limits(2,3) [OF badger_invD(4) [OF inv], of "rl_Name l'"]
    by (cases "limits_doc ?c (rl_Name l')"; force simp: mr_def user_limits_def)+
  have upd: "distinct (map fst (AList.update (rl_Id l') l' mr))"
    by (rule distinct_update [OF mr(1)])
  have "rl_Id x = i \<and> rl_Name x = rl_Name l'" if "(i, x) \<in> set (AList.update (rl_Id l') l' mr)" for i x
  proof -
    from that upd have "map_of (AList.update (rl_Id l') l' mr) i = Some x" by simp
    then show ?thesis
      using mr(2) [of i x] by (auto simp: update_conv' split: if_splits dest: map_of_SomeD)
  qed
  then have key: "well_keyed A (rateLimitKey (rl_Name l')) (RateLimitObj (AList.update (rl_Id l') l' mr))"
    using upd by auto
  have view: "cview A (?c(rateLimitKey (rl_Name l') \<mapsto> RateLimitObj (AList.update (rl_Id l') l' mr))) =
      (cview A ?c)\<lparr>as_limit := (user_limits ?c)(rl_Name l' := (user_limits ?c (rl_Name l'))(rl_Id l' \<mapsto> l'))\<rparr>"
    by (simp add: cview_def update_conv' mr(3))
  show ?thesis
    by (rule brefines_ok [OF inv obs keyspace_ok_upd [OF badger_invD(4) [OF inv] key]
          signers_ok_upd(4) [OF badger_invD(5) [OF inv]]])
      (simp add: spec_PutRateLimit_def badger_view_def view, simp add: l' Let_def)
qed

lemma badger_DelRateLimit:
  assumes inv: "badger_inv K A rng s"
  shows "badger_inv K A rng (fst (bs_DelRateLimit K n i s)) \<and>
    (\<exists>f. badger_view K A (fst (bs_DelRateLimit K n i s)) =
           (badger_view K A s)\<lparr>as_limit := (as_limit (badger_view K A s))(n := f)\<rparr> \<and>
         f \<subseteq>\<^sub>m as_limit (badger_view K A s) n \<and>
         (is_ok (snd (bs_DelRateLimit K n i s)) \<longrightarrow> f i = None))"
proof -
  let ?c = "db_content K s"
  note obs = bs_DelRateLimit_obs [OF badger_invD(2,4) [OF inv], of n i]
  consider "fst (obs K (bs_DelRateLimit K n i s)) = ?c"
      "is_ok (snd (bs_DelRateLimit K n i s)) \<Longrightarrow> user_limits ?c n i = None"
    | "fst (obs K (bs_DelRateLimit K n i s)) = ?c(rateLimitKey n := None)"
    using obs by (auto simp: user_limits_def obs_def split: if_splits option.splits)
  then show ?thesis
  proof cases
    case 1
    then show ?thesis
      using inv by (intro conjI exI [of _ "user_limits ?c n"]) (auto simp: badger_inv_def badger_view_def)
  next
    case 2
    have "badger_inv K A rng (fst (bs_DelRateLimit K n i s))"
      using 2 inv by (simp add: badger_inv_def keyspace_ok_del signers_ok_upd(5))
    moreover have "badger_view K A (fst (bs_DelRateLimit K n i s)) =
        (badger_view K A s)\<lparr>as_limit := (as_limit (badger_view K A s))(n := Map.empty)\<rparr>"
      using 2 by (simp add: badger_view_def cview_def)
    ultimately show ?thesis by (intro conjI exI [of _ Map.empty]) simp_all
  qed
qed

section \<open>The readers\<close>

lemma live_tokens_distinct:
  assumes "badger_ok K" and "keyspace_ok A (db_content K s)"
  shows "distinct (live_tokens K s)"
    and "length (scan K s PrefixToken) = card (dom (token_doc (db_content K s)))"
proof -
  obtain kps where kps: "scan K s PrefixToken = map (\<lambda>kp. (tokenKey (kp_Token kp), KeyPairObj kp)) kps"
    "tokens_of (scan K s PrefixToken) = kps" by (rule tokens_of_scan [OF assms])
  have "distinct (map (\<lambda>kp. tokenKey (kp_Token kp)) kps)"
    using scan_distinct [OF assms(1), of s PrefixToken] unfolding kps(1) by (simp add: comp_def)
  then have d: "distinct (map kp_Token kps)" by (auto simp: distinct_map inj_on_def)
  then show "distinct (live_tokens K s)" unfolding live_tokens_def kps(2) by (simp add: distinct_map)
  have "t \<in> dom (token_doc (db_content K s)) \<longleftrightarrow> t \<in> set (map kp_Token kps)" for t
  proof -
    have "t \<in> set (map kp_Token kps) \<longleftrightarrow> tokenKey t \<in> fst ` set (scan K s PrefixToken)"
      unfolding kps(1) by (auto simp: image_iff)
    also have "\<dots> \<longleftrightarrow> db_content K s (tokenKey t) \<noteq> None"
      by (force simp: scan_set [OF assms(1)])
    finally show ?thesis by (auto simp: content_token(1) [OF assms(2)] dom_def)
  qed
  then have "dom (token_doc (db_content K s)) = set (map kp_Token kps)" by blast
  then show "length (scan K s PrefixToken) = card (dom (token_doc (db_content K s)))"
    using distinct_card [OF d] unfolding kps(1) by simp
qed

lemma live_users_distinct:
  assumes "badger_ok K" and "keyspace_ok A (db_content K s)"
  shows "distinct (live_users K s)"
    and "length (scan K s PrefixUser) = card (dom (user_doc (db_content K s)))"
proof -
  obtain us where us: "scan K s PrefixUser = map (\<lambda>(u, l). (userKey (usr_Name u), UserObj u l)) us"
    "users_of (scan K s PrefixUser) = map fst us" by (rule users_of_scan [OF assms])
  have "distinct (map (\<lambda>ul. userKey (usr_Name (fst ul))) us)"
    using scan_distinct [OF assms(1), of s PrefixUser] unfolding us(1) by (simp add: comp_def case_prod_beta)
  then have d: "distinct (map usr_Name (map fst us))" by (auto simp: distinct_map inj_on_def)
  then have "distinct (map fst us)" by (simp only: distinct_map)
  then show "distinct (live_users K s)" unfolding live_users_def us(2) by simp
  have "n \<in> dom (user_doc (db_content K s)) \<longleftrightarrow> n \<in> set (map usr_Name (map fst us))" for n
  proof -
    have "n \<in> set (map usr_Name (map fst us)) \<longleftrightarrow> userKey n \<in> fst ` set (scan K s PrefixUser)"
      unfolding us(1) by (auto simp: image_iff case_prod_beta)
    also have "\<dots> \<longleftrightarrow> db_content K s (userKey n) \<noteq> None"
      by (force simp: scan_set [OF assms(1)])
    finally show ?thesis using content_user_None [OF assms(2), of n] by (auto simp: dom_def)
  qed
  then have "dom (user_doc (db_content K s)) = set (map usr_Name (map fst us))" by blast
  then show "length (scan K s PrefixUser) = card (dom (user_doc (db_content K s)))"
    using distinct_card [OF d] unfolding us(1) by simp
qed

lemma user_signers_distinct:
  assumes "badger_ok K" and "keyspace_ok A (db_content K s)"
  shows "distinct (user_signers K n s)"
proof (rule signers_scan [OF assms])
  fix gs
  assume gs: "scan K s PrefixSigner = map (\<lambda>g. (Signer_key A g, SignerObj g)) gs"
  have "distinct (map (Signer_key A) gs)"
    using scan_distinct [OF assms(1), of s PrefixSigner] unfolding gs by (simp add: comp_def)
  then show ?thesis unfolding user_signers_def gs by (simp add: distinct_map)
qed

lemma read_tokens:
  assumes inv: "badger_inv K A rng s"
  shows "found (bs_Get K t s) (a_token (badger_view K A s) t)"
    and "bs_Has K t s = Inr (a_token (badger_view K A s) t \<noteq> None)"
    and "lists (bs_ByName K n s) {kp. a_token (badger_view K A s) (kp_Token kp) = Some kp \<and> kp_Name kp = n}"
    and "0 \<le> skip \<Longrightarrow> is_i64 skip \<Longrightarrow> 0 \<le> limit \<Longrightarrow> int (card (dom (as_token (badger_view K A s)))) < 2 ^ 63 \<Longrightarrow>
      pages skip limit (bs_List K skip limit s) {kp. a_token (badger_view K A s) (kp_Token kp) = Some kp}"
proof -
  note ok = badger_invD(2,4) [OF inv]
  have set: "set (live_tokens K s) = {kp. a_token (badger_view K A s) (kp_Token kp) = Some kp}"
    unfolding live_tokens_set [OF ok] by (simp add: badger_view_def live_Some)
  show "found (bs_Get K t s) (a_token (badger_view K A s) t)"
    by (simp add: bs_Get_content [OF ok] found_def badger_view_def live_def split: option.split)
  show "bs_Has K t s = Inr (a_token (badger_view K A s) t \<noteq> None)"
    by (simp add: bs_Has_content [OF ok] badger_view_def live_def split: option.split)
  show "lists (bs_ByName K n s) {kp. a_token (badger_view K A s) (kp_Token kp) = Some kp \<and> kp_Name kp = n}"
    using live_tokens_distinct(1) [OF ok] set by (auto simp: lists_def bs_ByName_eq [OF ok])
  assume "0 \<le> skip" "is_i64 skip" "0 \<le> limit" "int (card (dom (as_token (badger_view K A s)))) < 2 ^ 63"
  then have "bs_List K skip limit s = Inr (page_of skip limit (live_tokens K s))"
    by (intro bs_List_eq [OF ok]) (simp_all add: live_tokens_distinct(2) [OF ok] badger_view_def)
  then show "pages skip limit (bs_List K skip limit s) {kp. a_token (badger_view K A s) (kp_Token kp) = Some kp}"
    using live_tokens_distinct(1) [OF ok] set unfolding pages_def by blast
qed

lemma read_users:
  assumes inv: "badger_inv K A rng s"
  shows "found (bs_GetUser K n s) (a_user (badger_view K A s) n)"
    and "bs_HasUser K n s = Inr (a_user (badger_view K A s) n \<noteq> None)"
    and "is_ok (bs_VerifyUsers K ns s) \<longleftrightarrow> (\<forall>n \<in> set ns. a_user (badger_view K A s) n \<noteq> None)"
    and "0 \<le> skip \<Longrightarrow> is_i64 skip \<Longrightarrow> 0 \<le> limit \<Longrightarrow> int (card (dom (as_user (badger_view K A s)))) < 2 ^ 63 \<Longrightarrow>
      pages skip limit (bs_ListUsers K skip limit state s)
        {u. a_user (badger_view K A s) (usr_Name u) = Some u \<and> (state = UserStateUndefined \<or> usr_State u = state)}"
proof -
  note ok = badger_invD(2,4) [OF inv]
  have set: "set (live_users K s) = {u. a_user (badger_view K A s) (usr_Name u) = Some u}"
    unfolding live_users_set [OF ok] by (simp add: badger_view_def live_user_live)
  show "found (bs_GetUser K n s) (a_user (badger_view K A s) n)"
    by (simp add: bs_GetUser_content [OF ok] found_def badger_view_def live_user_live split: option.split)
  show "bs_HasUser K n s = Inr (a_user (badger_view K A s) n \<noteq> None)"
    by (simp add: bs_HasUser_content [OF ok] badger_view_def live_user_live)
  have "is_ok (bs_VerifyUsers K ns s) \<longleftrightarrow> bs_VerifyUsers K ns s = Inr ()"
    by (cases "bs_VerifyUsers K ns s") auto
  then show "is_ok (bs_VerifyUsers K ns s) \<longleftrightarrow> (\<forall>n \<in> set ns. a_user (badger_view K A s) n \<noteq> None)"
    by (simp add: bs_VerifyUsers_ok [OF ok] badger_view_def live_user_live)
  assume "0 \<le> skip" "is_i64 skip" "0 \<le> limit" "int (card (dom (as_user (badger_view K A s)))) < 2 ^ 63"
  then have "bs_ListUsers K skip limit state s = Inr (page_of skip limit
      (filter (\<lambda>u. state = UserStateUndefined \<or> usr_State u = state) (live_users K s)))"
    by (intro bs_ListUsers_eq [OF ok]) (simp_all add: live_users_distinct(2) [OF ok] badger_view_def)
  moreover have "set (filter (\<lambda>u. state = UserStateUndefined \<or> usr_State u = state) (live_users K s)) =
      {u. a_user (badger_view K A s) (usr_Name u) = Some u \<and> (state = UserStateUndefined \<or> usr_State u = state)}"
    using set by auto
  ultimately show "pages skip limit (bs_ListUsers K skip limit state s)
        {u. a_user (badger_view K A s) (usr_Name u) = Some u \<and> (state = UserStateUndefined \<or> usr_State u = state)}"
    using distinct_filter [OF live_users_distinct(1) [OF ok]] unfolding pages_def by blast
qed

lemma read_miners:
  assumes inv: "badger_inv K A rng s"
  shows "bs_HasMiner K A a s = Inr (a_owner (badger_view K A s) a \<noteq> None)"
    and "bs_MinerExistInUser K A a n s = Inr (a_owner (badger_view K A s) a = Some n)"
    and "found (bs_GetUserByMiner K A a s) (Option.bind (a_owner (badger_view K A s) a) (a_user (badger_view K A s)))"
    and "lists (bs_ListMiners K n s) {m. a_miner (badger_view K A s) (mn_Miner m) = Some m \<and> mn_User m = n}"
proof -
  note ok = badger_invD(2,3,4) [OF inv]
  have owner: "a_owner (badger_view K A s) b = miner_owner A (db_content K s) b" for b
    by (simp add: a_owner_def badger_view_def miner_owner_live)
  show "bs_HasMiner K A a s = Inr (a_owner (badger_view K A s) a \<noteq> None)"
    "bs_MinerExistInUser K A a n s = Inr (a_owner (badger_view K A s) a = Some n)"
    by (simp_all add: bs_HasMiner_content [OF ok] bs_MinerExistInUser_content [OF ok] owner)
  have live: "live_user (db_content K s) = a_user (badger_view K A s)"
    by (simp add: fun_eq_iff live_user_live badger_view_def)
  show "found (bs_GetUserByMiner K A a s) (Option.bind (a_owner (badger_view K A s) a) (a_user (badger_view K A s)))"
    unfolding bs_GetUserByMiner_content [OF ok] live owner by (simp add: found_def split: option.split)
  have "distinct (user_miners K n s)"
    using user_miners_distinct [OF ok(1,3), of n] by (simp add: distinct_map)
  then show "lists (bs_ListMiners K n s) {m. a_miner (badger_view K A s) (mn_Miner m) = Some m \<and> mn_User m = n}"
    unfolding bs_ListMiners_eq [OF ok(1,3)] lists_def user_miners_def [symmetric]
    by (auto simp: user_miners_set [OF ok] miner_owner_live badger_view_def live_Some)
qed

lemma read_signers:
  assumes inv: "badger_inv K A rng s"
  shows "bs_SignerExistInUser K A a n s = Inr (a_signer (badger_view K A s) a n \<noteq> None)"
    and "lists (bs_ListSigner K n s) {g. a_signer (badger_view K A s) (sn_Signer g) n = Some g \<and> sn_User g = n}"
    and "bs_HasSigner K A a s = Inr (\<exists>b n. extends A a b \<and> a_signer (badger_view K A s) b n \<noteq> None)"
proof -
  note ok = badger_invD(2,3,4) [OF inv]
  show "bs_SignerExistInUser K A a n s = Inr (a_signer (badger_view K A s) a n \<noteq> None)"
    by (simp add: bs_SignerExistInUser_content [OF ok] signer_bound_live badger_view_def)
  show "lists (bs_ListSigner K n s) {g. a_signer (badger_view K A s) (sn_Signer g) n = Some g \<and> sn_User g = n}"
    unfolding lists_def bs_ListSigner_eq [OF ok(1,3)]
    using user_signers_distinct [OF ok(1,3), of n]
    by (auto simp: user_signers_set [OF ok(1,3)] signer_bound_live badger_view_def live_Some)
  show "bs_HasSigner K A a s = Inr (\<exists>b n. extends A a b \<and> a_signer (badger_view K A s) b n \<noteq> None)"
    by (simp add: bs_HasSigner_content [OF ok] signer_bound_live badger_view_def)
qed

lemma law_HasSigner:
  "badger_inv K A rng s \<Longrightarrow>
     \<exists>P. P a \<and> bs_HasSigner K A a s = Inr (\<exists>b n. P b \<and> a_signer (badger_view K A s) b n \<noteq> None)"
  by (intro exI [of _ "extends A a"] conjI read_signers(3)) simp_all

lemma HasSigner_alone:
  assumes "badger_inv K A rng s" and "signer_alone A a (badger_view K A s)"
  shows "bs_HasSigner K A a s = Inr (\<exists>n. a_signer (badger_view K A s) a n \<noteq> None)"
  unfolding read_signers(3) [OF assms(1)] alone_ex [OF assms(2)] by simp

lemma read_limits:
  assumes inv: "badger_inv K A rng s"
  shows "lists (bs_GetRateLimits K rng n i s)
    {l. as_limit (badger_view K A s) n (rl_Id l) = Some l \<and> (i = [] \<or> rl_Id l = i)}"
proof (rule bs_GetRateLimits_content [OF badger_invD(2,4) [OF inv], of rng n i])
  show "mset (rng mr) = mset mr" for mr using badger_invD(1) [OF inv] by (simp add: store_env_def)
qed (auto simp: lists_def badger_view_def)

lemma read_users_of_signer:
  assumes inv: "badger_inv K A rng s"
    and live: "\<And>n. as_signer (badger_view K A s) a n \<noteq> None \<Longrightarrow> a_user (badger_view K A s) n \<noteq> None"
    and alone: "\<And>b n. as_signer (badger_view K A s) b n \<noteq> None \<Longrightarrow> extends A a b \<Longrightarrow> b = a"
  shows "lists (bs_GetUserBySigner K A a s)
    {u. as_signer (badger_view K A s) a (usr_Name u) \<noteq> None \<and> a_user (badger_view K A s) (usr_Name u) = Some u}"
proof (rule signer_scan [OF badger_invD(2,3,4) [OF inv], of a])
  let ?c = "db_content K s"
  note ok = badger_invD(2,3,4) [OF inv]
  fix gs
  assume gs: "scan K s (signerKey (addr_String A a)) = map (\<lambda>g. (Signer_key A g, SignerObj g)) gs"
    and set_gs: "\<And>g. g \<in> set gs \<longleftrightarrow> signer_doc A ?c (sn_Signer g) (sn_User g) = Some g \<and>
      prefix (addr_String A a) (addr_String A (sn_Signer g))"
  have g_a: "sn_Signer g = a" if "g \<in> set gs" for g
  proof -
    have "signer_doc A ?c (sn_Signer g) (sn_User g) = Some g"
      and pre: "prefix (addr_String A a) (addr_String A (sn_Signer g))" using that set_gs [of g] by simp_all
    with alone [of "sn_Signer g" "sn_User g"] show ?thesis by (simp add: badger_view_def)
  qed
  have user: "\<exists>u. live_user ?c (sn_User g) = Some u \<and> usr_Name u = sn_User g" if "g \<in> set gs" for g
  proof -
    have "signer_doc A ?c a (sn_User g) = Some g" using that g_a [OF that] set_gs [of g] by simp
    then obtain u where u: "live_user ?c (sn_User g) = Some u"
      using live [of "sn_User g"] by (auto simp: badger_view_def live_user_live)
    then have "user_doc ?c (sn_User g) = Some u" by (simp add: live_user_live live_Some)
    with u show ?thesis using user_doc_name [OF ok(3)] by blast
  qed
  have "find (\<lambda>g. live_user ?c (sn_User g) = None) gs = None"
    using user by (auto simp: find_None_iff)
  then have eq: "bs_GetUserBySigner K A a s = Inr (map (\<lambda>g. the (live_user ?c (sn_User g))) gs)"
    unfolding bs_GetUserBySigner_eq [OF ok] gs Let_def signers_of_map by simp
  have "distinct (map (Signer_key A) gs)"
    using scan_distinct [OF ok(1), of s "signerKey (addr_String A a)"] unfolding gs by (simp add: comp_def)
  then have "inj_on (Signer_key A) (set gs)" "distinct gs" by (simp_all add: distinct_map)
  moreover have "inj_on (\<lambda>g. the (live_user ?c (sn_User g))) (set gs)"
  proof (rule inj_onI)
    fix g h
    assume g: "g \<in> set gs" "h \<in> set gs" "the (live_user ?c (sn_User g)) = the (live_user ?c (sn_User h))"
    then have "sn_User g = sn_User h" using user [of g] user [of h] by auto
    then have "Signer_key A g = Signer_key A h" using g_a g(1,2) by (simp add: Signer_key_def)
    with g(1,2) calculation(1) show "g = h" by (simp add: inj_on_def)
  qed
  ultimately have d: "distinct (map (\<lambda>g. the (live_user ?c (sn_User g))) gs)" by (simp add: distinct_map)
  have "(\<exists>g \<in> set gs. live_user ?c (sn_User g) = Some u) \<longleftrightarrow>
      signer_doc A ?c a (usr_Name u) \<noteq> None \<and> live_user ?c (usr_Name u) = Some u" for u
  proof
    assume "\<exists>g \<in> set gs. live_user ?c (sn_User g) = Some u"
    then obtain g where g: "g \<in> set gs" "live_user ?c (sn_User g) = Some u" by blast
    have "signer_doc A ?c (sn_Signer g) (sn_User g) = Some g" using g(1) set_gs [of g] by blast
    moreover have "usr_Name u = sn_User g" using user [OF g(1)] g(2) by auto
    ultimately show "signer_doc A ?c a (usr_Name u) \<noteq> None \<and> live_user ?c (usr_Name u) = Some u"
      using g(2) unfolding g_a [OF g(1)] by simp
  next
    assume u: "signer_doc A ?c a (usr_Name u) \<noteq> None \<and> live_user ?c (usr_Name u) = Some u"
    then obtain g where g: "signer_doc A ?c a (usr_Name u) = Some g" by blast
    then have "sn_Signer g = a" "sn_User g = usr_Name u" using content_signer(2) [OF ok(2,3) g] by simp_all
    with u g show "\<exists>g \<in> set gs. live_user ?c (sn_User g) = Some u"
      using set_gs [of g] by (intro bexI [of _ g]) simp_all
  qed
  moreover have "u \<in> set (map (\<lambda>g. the (live_user ?c (sn_User g))) gs) \<longleftrightarrow>
      (\<exists>g \<in> set gs. live_user ?c (sn_User g) = Some u)" for u
    using user unfolding set_map image_iff by (metis option.sel)
  ultimately have "set (map (\<lambda>g. the (live_user ?c (sn_User g))) gs) =
      {u. signer_doc A ?c a (usr_Name u) \<noteq> None \<and> live_user ?c (usr_Name u) = Some u}"
    by (intro set_eqI) (simp only: mem_Collect_eq)
  then show ?thesis
    using d unfolding lists_def eq by (simp add: badger_view_def live_user_live)
qed

section \<open>The contracts hold\<close>

lemmas badger_laws_of_store = read_tokens read_users read_miners read_signers(1,2) law_HasSigner read_limits
  ref_Put ref_Delete ref_Recover ref_UpdateToken ref_PutUser ref_UpdateUser
  ref_DeleteUser ref_RecoverUser ref_PutRateLimit badger_DelRateLimit ref_UpsertMiner ref_DelMiner
  ref_RegisterSigner ref_UnregisterSigner law_DelSigner

lemma badger_keyed:
  assumes inv: "badger_inv K A rng s"
  shows "as_token (badger_view K A s) t = Some kp \<Longrightarrow> kp_Token kp = t"
    and "as_user (badger_view K A s) n = Some u \<Longrightarrow> usr_Name u = n"
    and "as_miner (badger_view K A s) a = Some m \<Longrightarrow> mn_Miner m = a"
    and "as_signer (badger_view K A s) a n = Some g \<Longrightarrow> sn_Signer g = a \<and> sn_User g = n"
  using content_token(2) [OF badger_invD(4) [OF inv]] user_doc_name [OF badger_invD(4) [OF inv]]
    content_miner(2) [OF badger_invD(3,4) [OF inv]] content_signer(2) [OF badger_invD(3,4) [OF inv]]
  by (simp_all add: badger_view_def)

interpretation badger: store_contract "badgerStore K A rng" "IsSignerAddress A" "badger_inv K A rng" "badger_view K A"
  for K :: "('a obj, 'db, 'txn) badger" and A rng
  by unfold_locales (unfold badgerStore_ops, (rule badger_laws_of_store badger_keyed; assumption)+)

section \<open>Migration\<close>

text \<open>Everything but miners and the version is kept, whatever the addresses look like.\<close>

definition kept :: "(key \<rightharpoonup> 'a obj) \<Rightarrow> (key \<rightharpoonup> 'a obj) \<Rightarrow> bool" where
  "kept c c' \<longleftrightarrow> (\<forall>k. \<not> prefix PrefixMiner k \<and> k \<noteq> storeVersionKey \<longrightarrow> c' k = c k)"

lemma schedule_cases:
  assumes "migrationSchedules (badgerStore K A rng) now v = Some migrate"
  obtains "v = 0" "migrate = bs_MigrateToV1 K A now" | "v = 1" "migrate = bs_MigrateToV2 K A"
    | "v = 2" "migrate = bs_MigrateToV3 K"
  using assms by (auto simp: migrationSchedules_def split: if_splits)

lemma badger_migrates:
  assumes "badger_ok K" and "typed_ok (db_content K s)"
    and "migrationSchedules (badgerStore K A rng) now (stored_version (db_content K s)) = Some migrate"
  shows "snd (migrate s) = Inr ()"
    and "migrated (stored_version (db_content K s) + 1) (db_content K s) (db_content K (fst (migrate s)))"
  using migrated_steps(1,2) [OF assms(1,2), of A now] migrated_steps(3,4) [OF assms(1,2), of A]
    migrated_steps(5,6) [OF assms(1,2)] schedule_cases [OF assms(3)]
  by (metis One_nat_def Suc_eq_plus1 numeral_2_eq_2 numeral_3_eq_3)+

interpretation badger_migration: migrating_store "badgerStore K A rng" "\<lambda>s. badger_ok K \<and> typed_ok (db_content K s)"
  "\<lambda>s. stored_version (db_content K s)" "\<lambda>s s'. kept (db_content K s) (db_content K s')"
  for K :: "('a obj, 'db, 'txn) badger" and A rng
proof unfold_locales
  fix s now migrate
  assume s: "badger_ok K \<and> typed_ok (db_content K s)"
    and m: "migrationSchedules (badgerStore K A rng) now (stored_version (db_content K s)) = Some migrate"
  show "\<exists>s'. migrate s = (s', Inr ()) \<and> (badger_ok K \<and> typed_ok (db_content K s')) \<and>
      stored_version (db_content K s') = stored_version (db_content K s) + 1 \<and>
      kept (db_content K s) (db_content K s')"
    using badger_migrates [OF _ _ m] s by (intro exI [of _ "fst (migrate s)"])
      (simp add: prod_eq_iff migrated_def kept_def)
qed (simp_all add: typed_version kept_def)

text \<open>
  With canonical addresses in version 0, the invariant of the store holds throughout, and from
  version 2 on every miner has \<open>OpenMining\<close> set.
\<close>

definition migration_inv ::
  "('a obj, 'db, 'txn) badger \<Rightarrow> 'a addr_lib \<Rightarrow> (maped_ratelimit \<Rightarrow> maped_ratelimit) \<Rightarrow> 'db \<Rightarrow> bool" where
  "migration_inv K A rng s \<longleftrightarrow> badger_inv K A rng s \<and>
     (stored_version (db_content K s) = 0 \<longrightarrow> legacy_canonical A (db_content K s)) \<and>
     (2 \<le> stored_version (db_content K s) \<longrightarrow> all_open (db_content K s))"

lemma signers_ok_writes:
  assumes "signers_ok A c" and "\<And>k. f k = c k \<or> (\<exists>m a. k = minerKey a \<and> f k = Some (MinerObj m))"
  shows "signers_ok A (f(storeVersionKey \<mapsto> version_doc v))"
  unfolding signers_ok_def
proof (intro allI impI)
  fix k g
  assume "(f(storeVersionKey \<mapsto> version_doc v)) k = Some (SignerObj g)"
  then have "f k = Some (SignerObj g)"
    by (auto simp: version_doc_def StoreVersion_Bytes_def split: if_splits)
  with assms(2) [of k] have "c k = Some (SignerObj g)" by auto
  with assms(1) show "IsSignerAddress A (sn_Signer g)" by (simp add: signers_ok_def)
qed

lemma migration_keeps_inv:
  assumes inv: "migration_inv K A rng s"
    and m: "migrationSchedules (badgerStore K A rng) now (stored_version (db_content K s)) = Some migrate"
  shows "migration_inv K A rng (fst (migrate s))"
proof -
  let ?c = "db_content K s"
  have b: "badger_inv K A rng s" using inv by (simp add: migration_inv_def)
  note ok = badger_invD(2,4) [OF b]
  note typed = keyspace_typed [OF ok(2)]
  have ver: "stored_version (db_content K (fst (migrate s))) = stored_version ?c + 1"
    using badger_migrates(2) [OF ok(1) typed m] by (simp add: migrated_def)
  from m show ?thesis
  proof (cases rule: schedule_cases)
    case 1
    then have canon: "legacy_canonical A ?c" using inv by (simp add: migration_inv_def)
    note c' = content_after [OF bs_MigrateToV1_obs [OF ok(1) typed, of A now], unfolded fst_conv]
    have "signers_ok A (db_content K (fst (migrate s)))"
      unfolding 1(2) c' by (rule signers_ok_writes [OF badger_invD(5) [OF b]], rule fold_writes, rule V1_writes)
    moreover have "keyspace_ok A (db_content K (fst (migrate s)))"
      unfolding 1(2) c' by (intro keyspace_version keyspace_V1 ok canon)
    ultimately have "badger_inv K A rng (fst (migrate s))"
      using badger_invD(1) [OF b] by (simp add: badger_inv_def)
    then show ?thesis using 1 ver by (simp add: migration_inv_def)
  next
    case 2
    note c' = content_after [OF bs_MigrateToV2_obs [OF ok(1) typed, of A], unfolded fst_conv]
    have "signers_ok A (db_content K (fst (migrate s)))"
      unfolding 2(2) c' by (rule signers_ok_writes [OF badger_invD(5) [OF b]], rule fold_writes, rule V2_writes)
    then show ?thesis
      using 2 ver MigrateToV2_all_open [OF ok] badger_invD(1) [OF b]
      by (simp add: migration_inv_def badger_inv_def)
  next
    case 3
    note c' = content_after [OF bs_MigrateToV3_obs [OF ok(1), of s], unfolded fst_conv]
    have "all_open ?c" using inv 3(1) by (simp add: migration_inv_def)
    then show ?thesis
      using 3 ver badger_invD [OF b] unfolding migration_inv_def badger_inv_def 3(2) c'
      by (simp add: keyspace_version all_open_migrated signers_ok_writes)
  qed
qed

interpretation badger_migration_inv: migrating_store "badgerStore K A rng" "migration_inv K A rng"
  "\<lambda>s. stored_version (db_content K s)" "\<lambda>s s'. kept (db_content K s) (db_content K s')"
  for K :: "('a obj, 'db, 'txn) badger" and A rng
proof unfold_locales
  fix s now migrate
  assume s: "migration_inv K A rng s"
    and m: "migrationSchedules (badgerStore K A rng) now (stored_version (db_content K s)) = Some migrate"
  have b: "badger_ok K" "typed_ok (db_content K s)"
    using s by (auto simp: migration_inv_def dest: badger_invD keyspace_typed)
  show "\<exists>s'. migrate s = (s', Inr ()) \<and> migration_inv K A rng s' \<and>
      stored_version (db_content K s') = stored_version (db_content K s) + 1 \<and>
      kept (db_content K s) (db_content K s')"
    using badger_migrates [OF b m] migration_keeps_inv [OF s m]
    by (intro exI [of _ "fst (migrate s)"]) (simp add: prod_eq_iff migrated_def kept_def)
qed (auto simp: migration_inv_def kept_def intro!: typed_version dest: badger_invD keyspace_typed)

end
