(* ===== verification/Badger_Service.thy ===== *)
theory Badger_Service
  imports Client_Server Default_Token Badger_Store
begin

text \<open>
  The service as it runs: on the badger store. The interpretation carries over all that
  the theories of the service prove about an arbitrary store.
\<close>

definition badgerService ::
  "('a obj, 'db, 'txn) badger \<Rightarrow> 'a addr_lib \<Rightarrow> (maped_ratelimit \<Rightarrow> maped_ratelimit) \<Rightarrow> jwt_lib \<Rightarrow> ('a, 'db) service" where
  "badgerService K A rng J = \<lparr>sv_store = badgerStore K A rng, sv_addr = A, sv_jwt = J\<rparr>"

lemma badgerService_sel [simp]:
  "sv_store (badgerService K A rng J) = badgerStore K A rng" "sv_addr (badgerService K A rng J) = A"
  "sv_jwt (badgerService K A rng J) = J"
  by (simp_all add: badgerService_def)

interpretation bs: service_on "badgerService K A rng J" "badger_inv K A rng" "badger_view K A"
  for K :: "('a obj, 'db, 'txn) badger" and A rng J
  unfolding service_on_def service_reads_def badgerService_sel
  by (intro conjI badger.store_reads_axioms badger.store_contract_axioms)

end
