(* ===== verification/Instances.thy ===== *)
theory Instances
  imports Badger_Service
begin

text \<open>
  Concrete values of the parameters of the model, with which its theorems are applied: addresses,
  a JWT library, the engine in memory (from \<open>Badger\<close>), and the service on them. They meet the
  hypotheses that the theorems make about the libraries.
\<close>

section \<open>Addresses\<close>

text \<open>
  The address \<open>n\<close> prints as \<open>f1...1z\<close> with \<open>n\<close> ones. Even numbers are ID addresses (miners), odd
  ones SECP256K1 addresses (signers).
\<close>

definition ex_String :: "nat \<Rightarrow> string" where
  "ex_String n = CHR ''f'' # replicate n (CHR ''1'') @ ''z''"

definition ex_NewFromString :: "string \<Rightarrow> nat res" where
  "ex_NewFromString s =
     (if s = ex_String (length s - 2) then Inr (length s - 2) else Inl (External ''unknown address''))"

definition ex_addr :: "nat addr_lib" where
  "ex_addr = \<lparr>addr_String = ex_String,
     addr_Protocol = (\<lambda>n. if n mod 2 = 0 then AddrID else SECP256K1),
     addr_Empty = (\<lambda>_. False), addr_NewFromString = ex_NewFromString, addr_NetworkPrefix = ''f''\<rparr>"

lemma length_ex_String [simp]: "length (ex_String n) = n + 2"
  by (simp add: ex_String_def)

lemma ex_String_prefix: "prefix (ex_String a) (ex_String b) \<longleftrightarrow> a = b"
proof
  assume "prefix (ex_String a) (ex_String b)"
  then have "prefix (replicate a (CHR ''1'') @ ''z'') (replicate b (CHR ''1'') @ ''z'')"
    by (simp add: ex_String_def)
  then show "a = b"
  proof (induction a arbitrary: b)
    case 0
    then show ?case by (cases b) simp_all
  next
    case (Suc a)
    show ?case
    proof (cases b)
      case 0
      with Suc.prems show ?thesis by simp
    next
      case (Suc b')
      with Suc.prems have "prefix (replicate a (CHR ''1'') @ ''z'') (replicate b' (CHR ''1'') @ ''z'')"
        by (simp only: replicate_Suc append_Cons Cons_prefix_Cons)
      then have "a = b'" by (rule Suc.IH)
      with Suc show ?thesis by simp
    qed
  qed
qed simp

lemma ex_addr_ok: "addr_ok ex_addr" "addr_text_ok ex_addr"
proof -
  have "inj ex_String" by (rule injI) (metis ex_String_prefix prefix_order.refl)
  then show "addr_ok ex_addr" by (auto simp: addr_ok_def ex_addr_def ex_String_def)
  show "addr_text_ok ex_addr"
    by (simp add: addr_text_ok_def ex_addr_def ex_NewFromString_def) (simp add: ex_String_def)
qed

lemma ex_alone: "signer_alone ex_addr a st"
  by (simp add: signer_alone_def ex_addr_def ex_String_prefix)

section \<open>Tokens\<close>

text \<open>
  JSON as the hexadecimal forms of the three fields joined by commas; the signature is the
  hexadecimal form of the key.
\<close>

definition ex_marshal :: "jwt_payload \<Rightarrow> string" where
  "ex_marshal p = hex_EncodeToString (pl_Name p) @ CHR '','' # hex_EncodeToString (pl_Perm p)
     @ CHR '','' # hex_EncodeToString (pl_Extra p)"

definition ex_json :: "string \<Rightarrow> jwt_payload \<times> err option" where
  "ex_json bs =
     (case map hex_DecodeString (Split bs (CHR '','')) of
        [Inr name, Inr perm, Inr ext] \<Rightarrow> (\<lparr>pl_Name = name, pl_Perm = perm, pl_Extra = ext\<rparr>, None)
      | _ \<Rightarrow> (zero_payload, Some (Msg ''invalid character'')))"

definition ex_json_map :: "string \<Rightarrow> (string \<rightharpoonup> json_val) res" where
  "ex_json_map bs =
     (case ex_json bs of
        (p, None) \<Rightarrow> Inr [''name'' \<mapsto> JString (pl_Name p), ''perm'' \<mapsto> JString (pl_Perm p),
           ''ext'' \<mapsto> JString (pl_Extra p)]
      | (p, Some e) \<Rightarrow> Inl e)"

definition ex_Sign :: "jwt_payload \<Rightarrow> string \<Rightarrow> string res" where
  "ex_Sign p key = Inr (''HS256'' @ CHR ''.'' # b64_Encode (ex_marshal p) @ CHR ''.'' # hex_EncodeToString key)"

definition ex_Verify :: "string \<Rightarrow> string \<Rightarrow> jwt_payload \<Rightarrow> jwt_payload \<times> err option" where
  "ex_Verify tk key q =
     (case Split tk (CHR ''.'') of
        [hdr, pb, sig] \<Rightarrow>
          if hdr = ''HS256'' \<and> sig = hex_EncodeToString key
          then (case DecodeToBytes pb of Inl e \<Rightarrow> (q, Some e) | Inr bs \<Rightarrow> ex_json bs)
          else (q, Some (External ''jwt: HMAC verification failed''))
      | _ \<Rightarrow> (q, Some (External ''jwt: malformed token'')))"

definition ex_jwt :: jwt_lib where
  "ex_jwt = \<lparr>json_payload = ex_json, json_map = ex_json_map, jwt_Sign = ex_Sign, jwt_Verify = ex_Verify\<rparr>"

lemma hex_digit_sep: "v < 16 \<Longrightarrow> hex_digit v \<noteq> CHR '','' \<and> hex_digit v \<noteq> CHR ''.''"
proof -
  assume "v < 16"
  then have "hex_val (hex_digit v) = Some v" by (rule hex_val_digit)
  moreover have "hex_val (CHR '','') = None" "hex_val (CHR ''.'') = None" by (simp_all add: hex_val_def)
  ultimately show ?thesis by auto
qed

lemma hex_sep [simp]: "CHR '','' \<notin> set (hex_EncodeToString bs)" "CHR ''.'' \<notin> set (hex_EncodeToString bs)"
proof (induction bs)
  case (Cons x xs)
  { case 1 with Cons of_char_div [of x] show ?case using hex_digit_sep [of "of_char x div 16"]
      hex_digit_sep [of "of_char x mod 16"] by (auto simp: eq_commute) }
  { case 2 with Cons of_char_div [of x] show ?case using hex_digit_sep [of "of_char x div 16"]
      hex_digit_sep [of "of_char x mod 16"] by (auto simp: eq_commute) }
qed simp_all

lemma ex_json_marshal: "ex_json (ex_marshal p) = (p, None)"
  by (simp add: ex_json_def ex_marshal_def Split_word Split_last hex_Decode_Encode)

lemma ex_jwt_ok: "jwt_ok ex_jwt ex_marshal"
  unfolding jwt_ok_def
proof (intro conjI allI impI)
  fix p key tk
  assume s: "jwt_Sign ex_jwt p key = Inr tk"
  then have tk: "tk = ''HS256'' @ CHR ''.'' # b64_Encode (ex_marshal p) @ CHR ''.'' # hex_EncodeToString key"
    by (simp add: ex_jwt_def ex_Sign_def)
  then show "\<exists>hd sig. tk = hd @ CHR ''.'' # b64_Encode (ex_marshal p) @ CHR ''.'' # sig \<and>
      CHR ''.'' \<notin> set hd \<and> CHR ''.'' \<notin> set sig"
    by (intro exI [of _ "''HS256''"] exI [of _ "hex_EncodeToString key"]) simp
  have "Split tk (CHR ''.'') = [''HS256'', b64_Encode (ex_marshal p), hex_EncodeToString key]"
    unfolding tk by (subst Split_word) (simp_all only: Split_word [OF b64_Encode_no_dot] Split_last [OF hex_sep(2)], simp)
  then show "jwt_Verify ex_jwt tk key q = (p, None)" for q
    by (simp add: ex_jwt_def ex_Verify_def DecodeToBytes_Encode ex_json_marshal)
next
  fix tk key p q
  assume d: "DecodeToken ex_jwt tk = (Some p, None)" and v: "jwt_Verify ex_jwt tk key p = (q, None)"
  from v obtain hdr pb sig where sp: "Split tk (CHR ''.'') = [hdr, pb, sig]"
    by (auto simp: ex_jwt_def ex_Verify_def split: list.splits)
  with d obtain bs where "DecodeToBytes pb = Inr bs" "ex_json bs = (p, None)"
    by (auto simp: DecodeToken_def ex_jwt_def split: sum.splits prod.splits)
  with v sp show "q = p" by (auto simp: ex_jwt_def ex_Verify_def split: if_splits)
qed (simp_all add: ex_jwt_def ex_json_map_def ex_json_marshal)

section \<open>The service on the store in memory\<close>

type_synonym ex_obj = "nat obj"
type_synonym ex_db = "(key \<times> ex_obj) list"

abbreviation ex_K :: "(ex_obj, ex_db, ex_obj mem_txn) badger" where
  "ex_K \<equiv> mem_badger"

lemma ex_env: "store_env ex_K ex_addr id"
  by (simp add: store_env_def mem_badger_ok ex_addr_ok)

abbreviation ex_srv :: "(nat, ex_db) service" where
  "ex_srv \<equiv> badgerService ex_K ex_addr id ex_jwt"

text \<open>A database with two users, a miner of each, and a signer of the first.\<close>

definition ex_user :: "string \<Rightarrow> user" where
  "ex_user n = \<lparr>usr_Id = n, usr_Name = n, usr_Comment = [], usr_State = UserStateEnabled,
     usr_CreateTime = 5, usr_UpdateTime = 5, usr_IsDeleted = NotDelete\<rparr>"

definition ex_miner :: "nat \<Rightarrow> string \<Rightarrow> nat miner" where
  "ex_miner a n = bind_miner 6 a n (Some True) None"

definition ex_signer :: "nat \<Rightarrow> string \<Rightarrow> nat signer" where
  "ex_signer a n = bind_signer 7 a n None"

definition ex_kp :: "string \<Rightarrow> permission \<Rightarrow> key_pair" where
  "ex_kp n p = \<lparr>kp_Name = n, kp_Perm = p, kp_Secret = hex_EncodeToString ''k'', kp_Extra = [],
     kp_Token = projr (ex_Sign \<lparr>pl_Name = n, pl_Perm = p, pl_Extra = []\<rparr> ''k''),
     kp_CreateTime = 8, kp_IsDeleted = NotDelete\<rparr>"

definition ex_docs :: "ex_obj list" where
  "ex_docs = [UserObj (ex_user ''alice'') None, UserObj (ex_user ''bob'') None,
     MinerObj (ex_miner 2 ''alice''), MinerObj (ex_miner 4 ''bob''), SignerObj (ex_signer 1 ''alice''),
     SignerObj (ex_signer 1 ''bob''),
     KeyPairObj (ex_kp ''alice'' PermWrite), KeyPairObj (ex_kp ''bob'' PermAdmin),
     RateLimitObj [(''L1'', \<lparr>rl_Id = ''L1'', rl_Name = ''alice'', rl_Service = [], rl_API = [],
         rl_ReqLimit = \<lparr>Cap = 10, ResetDur = 60\<rparr>\<rparr>),
       (''L2'', \<lparr>rl_Id = ''L2'', rl_Name = ''alice'', rl_Service = ''s'', rl_API = [],
         rl_ReqLimit = \<lparr>Cap = 20, ResetDur = 60\<rparr>\<rparr>)]]"

definition ex_key :: "ex_obj \<Rightarrow> key" where
  "ex_key v = (case v of KeyPairObj kp \<Rightarrow> KeyPair_key kp | UserObj u _ \<Rightarrow> User_key u
     | MinerObj m \<Rightarrow> Miner_key ex_addr m | SignerObj g \<Rightarrow> Signer_key ex_addr g
     | RateLimitObj mr \<Rightarrow> (case mapedRatelimit_key mr of Some k \<Rightarrow> k | None \<Rightarrow> []) | VersionObj v \<Rightarrow> storeVersionKey)"

definition ex_db :: ex_db where
  "ex_db = map (\<lambda>v. (ex_key v, v)) ex_docs"

definition ex_world :: "ex_db world" where
  "ex_world = \<lparr>w_db = ex_db, w_metrics = []\<rparr>"

definition ex_env0 :: call_env where
  "ex_env0 = \<lparr>ce_now = 9, ce_rand = Inr ''r'', ce_uuid = Inr ''u'', ce_limit_id = ''l''\<rparr>"

lemma ex_content: "db_content ex_K (map (\<lambda>v. (ex_key v, v)) vs) k = Some v \<Longrightarrow> v \<in> set vs \<and> k = ex_key v"
  by (auto simp: mem_content dest!: map_of_SomeD)

text \<open>A list of documents under their keys is a database that meets the invariant.\<close>

lemma ex_docs_inv:
  assumes "\<forall>v \<in> set vs. well_keyed ex_addr (ex_key v) v"
    and "\<forall>g. SignerObj g \<in> set vs \<longrightarrow> IsSignerAddress ex_addr (sn_Signer g)"
  shows "badger_inv ex_K ex_addr id (map (\<lambda>v. (ex_key v, v)) vs)"
  unfolding badger_inv_def keyspace_ok_def signers_ok_def
  using assms ex_env by (auto dest!: ex_content)

lemma ex_db_inv: "badger_inv ex_K ex_addr id ex_db"
  unfolding ex_db_def
proof (rule ex_docs_inv)
  show "\<forall>v \<in> set ex_docs. well_keyed ex_addr (ex_key v) v"
    by (auto simp: ex_docs_def well_keyed_def ex_key_def mapedRatelimit_key_def)
  show "\<forall>g. SignerObj g \<in> set ex_docs \<longrightarrow> IsSignerAddress ex_addr (sn_Signer g)"
    by (auto simp: ex_docs_def ex_signer_def bind_signer_def IsSignerAddress_def ex_addr_def)
qed

text \<open>The database and what is stored in it.\<close>

abbreviation ex_admin :: ctx where
  "ex_admin \<equiv> CtxWithPerm ctx_Background PermAdmin"

abbreviation ex_reader :: ctx where
  "ex_reader \<equiv> CtxWithPerm ctx_Background PermRead"

abbreviation ex_view :: "nat astore" where
  "ex_view \<equiv> badger_view ex_K ex_addr ex_db"

lemma ex_admin_grants [simp]: "PermAdmin \<in> set (AdaptOldStrategy PermAdmin)"
  "PermRead \<in> set (AdaptOldStrategy PermRead)" "PermAdmin \<notin> set (AdaptOldStrategy PermRead)"
  by (simp_all add: AdaptOldStrategy_def perm_defs)

lemma ex_world_db [simp]: "w_db ex_world = ex_db"
  by (simp add: ex_world_def)

lemma ex_kp_signed: "signed_token ex_jwt (ex_kp n p)" if "utf8 n" "utf8 p" for n p
  using that unfolding signed_token_def
  by (intro conjI exI [of _ "''k''"])
    (simp_all add: ex_kp_def kp_payload_def utf8_payload_def ex_jwt_def ex_Sign_def)

lemma ex_data_ok: "data_ok ex_jwt ex_view"
proof -
  have docs: "v \<in> set ex_docs" if "db_content ex_K ex_db k = Some v" for k v
    using that unfolding ex_db_def by (blast dest: ex_content)
  have "signed_token ex_jwt kp" if "as_token ex_view t = Some kp" for t kp
  proof -
    have "db_content ex_K ex_db (tokenKey t) = Some (KeyPairObj kp)"
      using that by (simp add: badger_view_def token_doc_def split: option.splits obj.splits)
    then have "KeyPairObj kp \<in> set ex_docs" by (rule docs)
    then have "kp = ex_kp ''alice'' PermWrite \<or> kp = ex_kp ''bob'' PermAdmin" by (auto simp: ex_docs_def)
    then show ?thesis by (auto intro!: ex_kp_signed simp: perm_defs)
  qed
  moreover have "mn_OpenMining m \<noteq> None" if "as_miner ex_view a = Some m" for a m
  proof -
    have "db_content ex_K ex_db (minerKey (addr_String ex_addr a)) = Some (MinerObj m)"
      using that by (simp add: badger_view_def miner_doc_def split: option.splits obj.splits)
    then have "MinerObj m \<in> set ex_docs" by (rule docs)
    then show ?thesis by (auto simp: ex_docs_def ex_miner_def bind_miner_def)
  qed
  ultimately show ?thesis by (simp add: data_ok_def tokens_ok_def miners_open_def)
qed

lemma ex_sys_ok: "sys_ok (badger_inv ex_K ex_addr id) (badger_view ex_K ex_addr) ex_jwt (w_db ex_world)"
  using ex_db_inv ex_data_ok by (simp add: sys_ok_def)

lemmas ex_ok = sys_okD [OF ex_sys_ok]

abbreviation ex_alice_token :: string where
  "ex_alice_token \<equiv> kp_Token (ex_kp ''alice'' PermWrite)"

lemma ex_alice_kp: "a_token ex_view ex_alice_token = Some (ex_kp ''alice'' PermWrite)"
  unfolding badger_view_def cview_sel mem_content by code_simp

lemma ex_bob_kp: "a_token ex_view (kp_Token (ex_kp ''bob'' PermAdmin)) = Some (ex_kp ''bob'' PermAdmin)"
  unfolding badger_view_def cview_sel mem_content by code_simp

abbreviation ex_rq :: http_request where
  "ex_rq \<equiv> \<lparr>rq_Authorization = ''Bearer '' @ ex_alice_token, rq_FormToken = [], rq_ctx = ctx_Background\<rparr>"

end
