(* ===== verification/Service_Properties.thy ===== *)
theory Service_Properties
  imports Instances
begin

text \<open>
  The properties of the service on the badger store: the life of a token, users and what is bound
  to them, ownership of miners and signers, listings, the default administrator's token, and what
  the routes lead to. Each property comes with a witness where it has hypotheses.
\<close>

section \<open>The life of a token\<close>

abbreviation ex_pl :: jwt_payload where
  "ex_pl \<equiv> \<lparr>pl_Name = ''alice'', pl_Perm = PermSign, pl_Extra = ''x''\<rparr>"

lemma ex_pl_utf8: "utf8_payload ex_pl"
  by (simp add: utf8_payload_def perm_defs)

text \<open>
  \<^bold>\<open>C9\<close>: a token that \<open>GenerateToken\<close> returns verifies at once, for any caller that may read, and
  \<open>Verify\<close> returns exactly the payload it was generated for (for payloads of valid UTF-8).
\<close>

theorem generated_token_verifies:
  assumes "sys_ok (badger_inv K A rng) (badger_view K A) J (w_db w)" and "jwt_ok J marshal"
    and "utf8_payload pl" and "snd (sv_GenerateToken (badgerService K A rng J) E c pl w) = Inr tk"
    and "grants c' PermRead"
  shows "snd (sv_Verify (badgerService K A rng J) c' tk
    (fst (sv_GenerateToken (badgerService K A rng J) E c pl w))) = (Some pl, None)"
proof -
  let ?srv = "badgerService K A rng J" and ?st = "badger_view K A (w_db w)"
  let ?w = "fst (sv_GenerateToken ?srv E c pl w)"
  note ok = sys_okD [OF assms(1)]
  have gen: "tokens_ok J (badger_view K A (w_db ?w))"
    using bs.GenerateToken_tokens_ok [of K A rng w J pl E c tk] ok(1,3) assms(3,4) by simp
  obtain secret where s: "jwt_Sign J pl secret = Inr tk" "badger_inv K A rng (w_db ?w)"
    "\<exists>kp. a_token (badger_view K A (w_db ?w)) tk = Some kp"
    by (rule bs.GenerateToken_ok [OF ok(1) assms(4)], cases "a_token ?st tk")
      (auto simp: KeyPair_isDeleted_def NotDelete_def Deleted_def)
  then obtain kp where kp: "a_token (badger_view K A (w_db ?w)) tk = Some kp" by blast
  then have signed: "signed_token J kp" using gen by (auto simp: live_Some dest: tokens_okD)
  have "kp_Token kp = tk" using kp badger_keyed(1) [OF s(2)] by (simp add: live_Some)
  then have "pl = kp_payload kp"
    using signed_token_reads(1) [OF assms(2) signed] DecodeToken_signed(1) [OF assms(2) s(1) assms(3)] by simp
  moreover have "Verify_body ?srv c' tk (w_db ?w) = (Some (kp_payload kp), None)"
    by (rule bs.Verify_signed [OF s(2) _ assms(5) kp]) (use assms(2) signed in simp_all)
  ultimately show ?thesis by (simp add: sv_Verify_def)
qed

lemma ex_generate:
  "snd (sv_GenerateToken ex_srv ex_env0 ex_admin ex_pl ex_world) =
     Inr (''HS256.'' @ b64_Encode (ex_marshal ex_pl) @ CHR ''.'' # hex_EncodeToString ''r'')"
  by code_simp

theorem generated_token_verifies_witness:
  "snd (sv_Verify ex_srv ex_reader (''HS256.'' @ b64_Encode (ex_marshal ex_pl) @ CHR ''.'' # hex_EncodeToString ''r'')
    (fst (sv_GenerateToken ex_srv ex_env0 ex_admin ex_pl ex_world))) = (Some ex_pl, None)"
  by (rule generated_token_verifies [OF ex_sys_ok ex_jwt_ok ex_pl_utf8 ex_generate]) simp

text \<open>
  \<^bold>\<open>C10\<close>: \<open>Verify\<close> accepts only for a caller that may read, and only a token that is stored, not removed,
  and signed under the secret stored with it; the payload it returns is the stored name, permission
  and extra text.
\<close>

theorem verify_sound:
  assumes "sys_ok (badger_inv K A rng) (badger_view K A) J (w_db w)" and "jwt_ok J marshal"
    and "snd (sv_Verify (badgerService K A rng J) c tk w) = (p, None)"
  shows "\<exists>kp secret. grants c PermRead \<and> a_token (badger_view K A (w_db w)) tk = Some kp
    \<and> kp_Secret kp = hex_EncodeToString secret \<and> jwt_Sign J (kp_payload kp) secret = Inr tk
    \<and> p = Some (kp_payload kp)"
proof -
  let ?srv = "badgerService K A rng J"
  note ok = sys_okD [OF assms(1)]
  have v: "Verify_body ?srv c tk (w_db w) = (p, None)"
    using assms(3) by (auto simp: sv_Verify_def split: prod.splits)
  obtain kp where kp: "grants c PermRead" "a_token (badger_view K A (w_db w)) tk = Some kp"
    by (rule bs.Verify_accepts [OF ok(1) _ v, of marshal]) (use assms(2) in simp_all)
  then have signed: "signed_token J kp" using ok(3) by (auto simp: live_Some dest: tokens_okD)
  then obtain secret where "kp_Secret kp = hex_EncodeToString secret"
    "jwt_Sign J (kp_payload kp) secret = Inr (kp_Token kp)" by (auto simp: signed_token_def)
  moreover have "kp_Token kp = tk" using kp(2) badger_keyed(1) [OF ok(1)] by (simp add: live_Some)
  moreover have "Verify_body ?srv c tk (w_db w) = (Some (kp_payload kp), None)"
    by (rule bs.Verify_signed [OF ok(1) _ kp]) (use assms(2) signed in simp_all)
  ultimately show ?thesis using kp v by auto
qed

theorem verify_sound_witness:
  "\<exists>kp secret. grants ex_reader PermRead \<and> a_token (badger_view ex_K ex_addr (w_db ex_world)) ex_alice_token = Some kp
    \<and> kp_Secret kp = hex_EncodeToString secret \<and> jwt_Sign ex_jwt (kp_payload kp) secret = Inr ex_alice_token
    \<and> Some \<lparr>pl_Name = ''alice'', pl_Perm = PermWrite, pl_Extra = []\<rparr> = Some (kp_payload kp)"
proof (rule verify_sound [OF ex_sys_ok ex_jwt_ok])
  show "snd (sv_Verify ex_srv ex_reader ex_alice_token ex_world) =
      (Some \<lparr>pl_Name = ''alice'', pl_Perm = PermWrite, pl_Extra = []\<rparr>, None)"
    by code_simp
qed

text \<open>
  \<^bold>\<open>C13\<close>: after \<open>RemoveToken\<close> has succeeded, \<open>Verify\<close> refuses the token for every caller, and every other
  token is stored as it was.
\<close>

theorem removed_token_refused:
  assumes "badger_inv K A rng (w_db w)"
    and "snd (sv_RemoveToken (badgerService K A rng J) E c tk w) = Inr ()"
  shows "snd (snd (sv_Verify (badgerService K A rng J) c' tk
      (fst (sv_RemoveToken (badgerService K A rng J) E c tk w)))) \<noteq> None
    \<and> (\<forall>t. t \<noteq> tk \<longrightarrow> as_token (badger_view K A (w_db (fst (sv_RemoveToken (badgerService K A rng J) E c tk w)))) t =
      as_token (badger_view K A (w_db w)) t)"
proof -
  let ?w = "fst (sv_RemoveToken (badgerService K A rng J) E c tk w)"
  note del = bs.RemoveToken_ok [OF assms]
  obtain kp where kp: "badger_view K A (w_db ?w) =
      (badger_view K A (w_db w))\<lparr>as_token := (as_token (badger_view K A (w_db w)))(tk \<mapsto> kp\<lparr>kp_IsDeleted := Deleted\<rparr>)\<rparr>"
    using del(3) by (auto simp: spec_Delete_def eq_commute [of _ "badger_view K A (w_db ?w)"])
  then have "a_token (badger_view K A (w_db ?w)) tk = None" by (simp add: KeyPair_isDeleted_def)
  then have "snd (Verify_body (badgerService K A rng J) c' tk (w_db ?w)) \<noteq> None"
    by (rule bs.Verify_refuses [OF del(2)])
  with kp show ?thesis by (simp add: sv_Verify_def case_prod_beta)
qed

lemma ex_remove: "snd (sv_RemoveToken ex_srv ex_env0 ex_admin ex_alice_token ex_world) = Inr ()"
  by code_simp

theorem removed_token_refused_witness:
  "snd (snd (sv_Verify ex_srv ex_reader ex_alice_token
      (fst (sv_RemoveToken ex_srv ex_env0 ex_admin ex_alice_token ex_world)))) \<noteq> None"
  using removed_token_refused [of ex_K ex_addr id ex_world, OF _ ex_remove, of ex_reader] ex_db_inv by simp

text \<open>
  \<^bold>\<open>C14\<close>: removing a token and recovering it gives back the stored data, with the token's mark reset;
  a second recovery is refused.
\<close>

theorem remove_recover:
  assumes "badger_inv K A rng (w_db w)" and "grants c' PermAdmin" and "jwt_ok J marshal"
    and "tokens_ok J (badger_view K A (w_db w))"
    and "snd (sv_RemoveToken (badgerService K A rng J) E c tk w) = Inr ()"
  shows "let st = badger_view K A (w_db w);
             w' = fst (sv_RemoveToken (badgerService K A rng J) E c tk w);
             w'' = fst (sv_RecoverToken (badgerService K A rng J) c' tk w')
    in snd (sv_RecoverToken (badgerService K A rng J) c' tk w') = Inr ()
      \<and> (\<exists>kp. a_token st tk = Some kp \<and> badger_view K A (w_db w'') =
            st\<lparr>as_token := (as_token st)(tk \<mapsto> kp\<lparr>kp_IsDeleted := NotDelete\<rparr>)\<rparr>)
      \<and> snd (sv_RecoverToken (badgerService K A rng J) c' tk w'') \<noteq> Inr ()"
proof -
  let ?srv = "badgerService K A rng J" and ?st = "badger_view K A (w_db w)"
  define w1 where "w1 = fst (sv_RemoveToken ?srv E c tk w)"
  define w2 where "w2 = fst (sv_RecoverToken ?srv c' tk w1)"
  note del = bs.RemoveToken_ok [OF assms(1,5), folded w1_def]
  obtain kp where kp: "a_token ?st tk = Some kp"
    and st1: "badger_view K A (w_db w1) = ?st\<lparr>as_token := (as_token ?st)(tk \<mapsto> kp\<lparr>kp_IsDeleted := Deleted\<rparr>)\<rparr>"
    using del(3) by (auto simp: spec_Delete_def eq_commute [of _ "badger_view K A (w_db w1)"])
  have signed: "signed_token J kp" "kp_Token kp = tk"
    using kp assms(4) badger_keyed(1) [OF assms(1)] by (auto simp: live_Some dest: tokens_okD)
  have "tokenPermCheck J c' tk = Inr ()" using assms(2) by (simp add: tokenPermCheck_iff)
  moreover have "snd (bs_Recover K tk (w_db w1)) = Inr ()"
    using ref_Recover [OF del(2), of tk] by (simp add: st1 refines_def spec_Recover_def NotDelete_def Deleted_def)
  moreover have "fst (DecodeToken J tk) = Some (kp_payload kp)"
    using signed_token_reads(1) [OF assms(3) signed(1)] signed(2) by simp
  ultimately have r: "snd (sv_RecoverToken ?srv c' tk w1) = Inr ()"
    by (simp add: sv_RecoverToken_def case_prod_beta)
  note rec = bs.RecoverToken_ok [OF del(2) r, folded w2_def]
  have st2: "badger_view K A (w_db w2) = ?st\<lparr>as_token := (as_token ?st)(tk \<mapsto> kp\<lparr>kp_IsDeleted := NotDelete\<rparr>)\<rparr>"
    using rec(3) by (simp add: st1 spec_Recover_def NotDelete_def Deleted_def)
  have "snd (sv_RecoverToken ?srv c' tk w2) \<noteq> Inr ()"
    using bs.RecoverToken_ok(3) [of K A rng w2 J c' tk, OF rec(2)] by (auto simp: st2 spec_Recover_def)
  with r kp st2 show ?thesis by (simp add: Let_def w1_def [symmetric] w2_def [symmetric])
qed

theorem remove_recover_witness:
  "snd (sv_RecoverToken ex_srv ex_admin ex_alice_token
     (fst (sv_RemoveToken ex_srv ex_env0 ex_admin ex_alice_token ex_world))) = Inr ()"
  using remove_recover [OF ex_ok(1) _ ex_jwt_ok ex_ok(3) ex_remove, of ex_admin] by (simp add: Let_def)

section \<open>Users and what is bound to them\<close>

lemma deleted_at_now:
  assumes "now \<noteq> 0"
  shows "Miner_isDeleted (del_miner now m)" and "Signer_isDeleted (del_signer now g)"
  using assms by (auto simp: del_miner_def del_signer_def Miner_setDeleted_def Signer_setDeleted_def
      Miner_isDeleted_def Signer_isDeleted_def IsZero_def)

lemma spec_DeleteUser_effect:
  assumes "spec_DeleteUser now n st = Some (st', ())" and "now \<noteq> 0"
  shows "a_user st n \<noteq> None" "a_user st' n = None" "m \<noteq> n \<Longrightarrow> as_user st' m = as_user st m"
    and "a_owner st' a = (if a_owner st a = Some n then None else a_owner st a)"
    and "a_signer st' a n = None" "m \<noteq> n \<Longrightarrow> as_signer st' a m = as_signer st a m"
    and "as_miner st a = Some mn \<Longrightarrow> mn_User mn \<noteq> n \<Longrightarrow> as_miner st' a = Some mn"
      "dom (as_miner st') = dom (as_miner st)"
    and "as_token st' = as_token st" "as_limit st' = as_limit st"
proof -
  note gone = deleted_at_now [OF assms(2)]
  obtain u where u: "a_user st n = Some u" and st': "st' = st\<lparr>as_user := (as_user st)(n \<mapsto> u\<lparr>usr_IsDeleted := Deleted\<rparr>),
      as_miner := (\<lambda>a. map_option (\<lambda>m. if mn_User m = n then del_miner now m else m) (as_miner st a)),
      as_signer := (\<lambda>a m. if m = n then map_option (del_signer now) (as_signer st a m) else as_signer st a m)\<rparr>"
    using assms(1) by (auto simp: spec_DeleteUser_def)
  show "a_user st n \<noteq> None" "a_user st' n = None" "m \<noteq> n \<Longrightarrow> as_user st' m = as_user st m"
    "m \<noteq> n \<Longrightarrow> as_signer st' a m = as_signer st a m" "as_token st' = as_token st" "as_limit st' = as_limit st"
    using u by (simp_all add: st' User_isDeleted_def Deleted_def)
  show "as_miner st a = Some mn \<Longrightarrow> mn_User mn \<noteq> n \<Longrightarrow> as_miner st' a = Some mn"
    "dom (as_miner st') = dom (as_miner st)"
    by (simp_all add: st' dom_def)
  show "a_signer st' a n = None"
    using gone(2) by (cases "as_signer st a n") (simp_all add: st')
  show "a_owner st' a = (if a_owner st a = Some n then None else a_owner st a)"
  proof (cases "as_miner st a")
    case (Some m)
    have "mn_User (del_miner now m) = mn_User m" by (simp add: del_miner_def Miner_setDeleted_def)
    then show ?thesis using gone(1) [of m] Some by (auto simp: st' a_owner_def del_miner_def split: if_splits)
  qed (simp add: st' a_owner_def)
qed

text \<open>
  \<^bold>\<open>C15\<close>: when \<open>DeleteUser\<close> succeeds the caller was an administrator and the user existed; afterwards
  the user is gone, owns no miner and is bound to no signer, and the other users, their miners and
  their signers are as before, and so are all tokens and all rate limits, the user's own included:
  the user's tokens still verify. (A deletion at Go's zero time would not count as one.)
\<close>

theorem delete_user:
  assumes "badger_inv K A rng (w_db w)" and "ce_now E \<noteq> 0"
    and "snd (sv_DeleteUser (badgerService K A rng J) E c n w) = Inr ()"
  shows "let st = badger_view K A (w_db w);
             st' = badger_view K A (w_db (fst (sv_DeleteUser (badgerService K A rng J) E c n w)))
    in grants c PermAdmin \<and> a_user st n \<noteq> None
      \<and> a_user st' n = None \<and> (\<forall>m. m \<noteq> n \<longrightarrow> as_user st' m = as_user st m)
      \<and> (\<forall>a. a_owner st' a = (if a_owner st a = Some n then None else a_owner st a))
      \<and> (\<forall>a. a_signer st' a n = None) \<and> (\<forall>a m. m \<noteq> n \<longrightarrow> as_signer st' a m = as_signer st a m)
      \<and> (\<forall>a m. as_miner st a = Some m \<longrightarrow> mn_User m \<noteq> n \<longrightarrow> as_miner st' a = Some m)
      \<and> dom (as_miner st') = dom (as_miner st) \<and> as_token st' = as_token st \<and> as_limit st' = as_limit st"
proof -
  let ?st = "badger_view K A (w_db w)"
    and ?st' = "badger_view K A (w_db (fst (sv_DeleteUser (badgerService K A rng J) E c n w)))"
  have "(if grants c PermAdmin then spec_DeleteUser (ce_now E) n ?st else None) = Some (?st', ())"
    using refines_ok [OF bs.DeleteUser_refines [OF assms(1), of J E c n]] assms(3) by simp
  then have c: "grants c PermAdmin" and del: "spec_DeleteUser (ce_now E) n ?st = Some (?st', ())"
    by (simp_all split: if_splits)
  note eff = spec_DeleteUser_effect [OF del assms(2)]
  show ?thesis unfolding Let_def by (intro conjI allI impI c eff)
qed

lemma ex_delete: "snd (sv_DeleteUser ex_srv ex_env0 ex_admin ''alice'' ex_world) = Inr ()"
  by code_simp

theorem delete_user_witness:
  "a_user (badger_view ex_K ex_addr (w_db (fst (sv_DeleteUser ex_srv ex_env0 ex_admin ''alice'' ex_world)))) ''alice'' = None"
  using delete_user [OF ex_ok(1) _ ex_delete] by (simp add: Let_def ex_env0_def)

text \<open>
  Deleting a user and recovering the same user brings the user back as before, but neither the
  miners nor the signers: the recovered user owns nothing.
\<close>

theorem recover_user_without_miners:
  assumes "badger_inv K A rng (w_db w)" and "ce_now E \<noteq> 0" and "grants c' PermAdmin"
    and "snd (sv_DeleteUser (badgerService K A rng J) E c n w) = Inr ()"
  shows "let w' = fst (sv_DeleteUser (badgerService K A rng J) E c n w);
             st' = badger_view K A (w_db (fst (sv_RecoverUser (badgerService K A rng J) c' n w')))
    in snd (sv_RecoverUser (badgerService K A rng J) c' n w') = Inr ()
      \<and> a_user st' n = map_option (\<lambda>u. u\<lparr>usr_IsDeleted := NotDelete\<rparr>) (a_user (badger_view K A (w_db w)) n)
      \<and> (\<forall>a. a_owner st' a \<noteq> Some n \<and> a_signer st' a n = None)"
proof -
  let ?srv = "badgerService K A rng J" and ?st = "badger_view K A (w_db w)"
  define w1 where "w1 = fst (sv_DeleteUser ?srv E c n w)"
  define w2 where "w2 = fst (sv_RecoverUser ?srv c' n w1)"
  let ?st1 = "badger_view K A (w_db w1)"
  have del: "spec_DeleteUser (ce_now E) n ?st = Some (?st1, ())" and inv: "badger_inv K A rng (w_db w1)"
    using refines_ok [OF bs.DeleteUser_refines [OF assms(1), of J E c n]] assms(4)
      refines_I [OF bs.DeleteUser_refines [OF assms(1), of J E c n]]
    by (auto simp: w1_def split: if_splits)
  note eff = spec_DeleteUser_effect [OF del assms(2)]
  from del obtain u where u: "a_user ?st n = Some u" "as_user ?st1 n = Some (u\<lparr>usr_IsDeleted := Deleted\<rparr>)"
    by (auto simp: spec_DeleteUser_def eq_commute [of _ ?st1])
  from bs.RecoverUser_refines [OF inv, of J c' n] assms(3) u(2)
  have rec: "snd (sv_RecoverUser ?srv c' n w1) = Inr ()"
    "badger_view K A (w_db w2) = ?st1\<lparr>as_user := (as_user ?st1)(n \<mapsto> u\<lparr>usr_IsDeleted := NotDelete\<rparr>)\<rparr>"
    by (simp_all add: refines_def spec_RecoverUser_def w2_def Deleted_def NotDelete_def)
  have "a_user (badger_view K A (w_db w2)) n = map_option (\<lambda>u. u\<lparr>usr_IsDeleted := NotDelete\<rparr>) (a_user ?st n)"
    using u(1) by (simp add: rec(2) User_isDeleted_def NotDelete_def)
  moreover have "a_owner (badger_view K A (w_db w2)) a \<noteq> Some n \<and> a_signer (badger_view K A (w_db w2)) a n = None" for a
    using eff(4,5) [of a] by (simp add: rec(2) a_owner_def split: if_splits)
  ultimately show ?thesis
    using rec(1) by (simp add: Let_def w1_def [symmetric] w2_def [symmetric])
qed

theorem recover_user_without_miners_witness:
  "snd (sv_RecoverUser ex_srv ex_admin ''alice'' (fst (sv_DeleteUser ex_srv ex_env0 ex_admin ''alice'' ex_world))) = Inr ()"
  using recover_user_without_miners [OF ex_ok(1) _ _ ex_delete, of ex_admin] by (simp add: Let_def ex_env0_def)

section \<open>Miners and signers\<close>

text \<open>
  When \<open>UpsertMiner\<close> succeeds the caller was an administrator, the address is an ID address and
  the user is stored (it may be marked as deleted); afterwards the user is the miner's only owner,
  whoever owned it before, no other miner has changed hands, and the result tells whether the miner
  is new.
\<close>

theorem upsert_miner_owner:
  assumes "badger_inv K A rng (w_db w)"
    and "snd (sv_UpsertMiner (badgerService K A rng J) E c req w) = Inr created"
  shows "let st = badger_view K A (w_db w);
             st' = badger_view K A (w_db (fst (sv_UpsertMiner (badgerService K A rng J) E c req w)))
    in grants c PermAdmin \<and> addr_Protocol A (um_Miner req) = AddrID \<and> as_user st (um_User req) \<noteq> None
      \<and> a_owner st' = (a_owner st)(um_Miner req := Some (um_User req))
      \<and> created = (as_miner st (um_Miner req) = None) \<and> as_signer st' = as_signer st \<and> as_user st' = as_user st"
proof -
  let ?st = "badger_view K A (w_db w)"
    and ?st' = "badger_view K A (w_db (fst (sv_UpsertMiner (badgerService K A rng J) E c req w)))"
  from refines_ok [OF bs.UpsertMiner_refines [OF assms(1), of J E c req]] assms(2)
  have "grants c PermAdmin \<and> addr_Protocol A (um_Miner req) = AddrID" and
    up: "spec_UpsertMiner (ce_now E) (um_Miner req) (um_User req) (um_OpenMining req) ?st = Some (?st', created)"
    by (simp_all split: if_splits)
  moreover from up have "as_user ?st (um_User req) \<noteq> None" "created = (as_miner ?st (um_Miner req) = None)"
    and st': "?st' = ?st\<lparr>as_miner := (as_miner ?st)(um_Miner req \<mapsto>
      bind_miner (ce_now E) (um_Miner req) (um_User req) (um_OpenMining req) (as_miner ?st (um_Miner req)))\<rparr>"
    by (auto simp: spec_UpsertMiner_def split: if_splits)
  moreover have "a_owner ?st' = (a_owner ?st)(um_Miner req := Some (um_User req))"
    by (rule ext) (simp add: st' a_owner_def bind_miner_def Miner_isDeleted_def)
  ultimately show ?thesis by (simp add: Let_def)
qed

abbreviation ex_upsert :: "nat upsertMinerReq" where
  "ex_upsert \<equiv> \<lparr>um_User = ''bob'', um_Miner = 2, um_OpenMining = Some True\<rparr>"

lemma ex_upsert_run: "snd (sv_UpsertMiner ex_srv ex_env0 ex_admin ex_upsert ex_world) = Inr False"
  by code_simp

theorem upsert_miner_owner_witness:
  "a_owner (badger_view ex_K ex_addr (w_db (fst (sv_UpsertMiner ex_srv ex_env0 ex_admin ex_upsert ex_world)))) 2 = Some ''bob''"
  using upsert_miner_owner [OF ex_ok(1) ex_upsert_run] by (simp add: Let_def)

text \<open>
  When \<open>DelSigner\<close> succeeds the caller was an administrator or bound to the signer; afterwards
  no user at all is bound to it, or to a signer whose text begins with its text, and the other signers
  are as before. (A deletion at Go's zero time would not count as one.)
\<close>

theorem del_signer_unbinds_all:
  assumes "badger_inv K A rng (w_db w)" and "ce_now E \<noteq> 0"
    and "snd (sv_DelSigner (badgerService K A rng J) E c a w) = Inr existed"
  shows "let st = badger_view K A (w_db w);
             st' = badger_view K A (w_db (fst (sv_DelSigner (badgerService K A rng J) E c a w)))
    in (grants c PermAdmin \<or> (\<exists>n. CtxGetName c = Some n \<and> a_signer st a n \<noteq> None))
      \<and> existed = (\<exists>b n. extends A a b \<and> a_signer st b n \<noteq> None)
      \<and> (\<forall>b n. extends A a b \<longrightarrow> a_signer st' b n = None)
      \<and> (\<forall>b. \<not> extends A a b \<longrightarrow> as_signer st' b = as_signer st b)"
proof -
  let ?st = "badger_view K A (w_db w)"
    and ?st' = "badger_view K A (w_db (fst (sv_DelSigner (badgerService K A rng J) E c a w)))"
  have "brefines K A rng (w_db w) (st_DelSigner (badgerStore K A rng) (ce_now E) a (w_db w))
      (spec_DelSigner (ce_now E) (extends A a) ?st)"
    by (simp add: badgerStore_ops ref_DelSigner [OF assms(1)])
  from refines_ok [OF bs.DelSigner_refines [OF assms(1) this [folded badgerService_sel(1) [of K A rng J]], of c]] assms(3)
  have "grants c PermAdmin \<or> (\<exists>n. CtxGetName c = Some n \<and> a_signer ?st a n \<noteq> None)"
    and del: "spec_DelSigner (ce_now E) (extends A a) ?st = Some (?st', existed)"
    by (simp_all split: if_splits)
  moreover have "a_signer ?st' b n = None" if "extends A a b" for b n
    using del that deleted_at_now(2) [OF assms(2)]
    by (cases "as_signer ?st b n") (auto simp: spec_DelSigner_def eq_commute [of _ ?st'])
  ultimately show ?thesis
    by (simp add: Let_def spec_DelSigner_def eq_commute [of _ ?st'])
qed

abbreviation ex_alice :: ctx where
  "ex_alice \<equiv> CtxWithName (CtxWithPerm ctx_Background PermWrite) ''alice''"

lemma ex_del_signer: "snd (sv_DelSigner ex_srv ex_env0 ex_alice 1 ex_world) = Inr True"
  by code_simp

theorem del_signer_unbinds_all_witness:
  "a_signer (badger_view ex_K ex_addr (w_db (fst (sv_DelSigner ex_srv ex_env0 ex_alice 1 ex_world)))) 1 ''bob'' = None"
  using del_signer_unbinds_all [OF ex_ok(1) _ ex_del_signer] prefix_order.refl [of "addr_String ex_addr 1"]
  by (simp add: Let_def ex_env0_def)

text \<open>
  \<open>RegisterSigners\<close> called by an administrator with signing addresses, for a stored user, succeeds:
  the user is bound to every one of them, and no other binding changes.
\<close>

theorem register_signers:
  assumes "badger_inv K A rng (w_db w)" and "grants c PermAdmin"
    and "as_user (badger_view K A (w_db w)) (sr_User req) \<noteq> None"
    and "\<forall>a \<in> set (sr_Signers req). IsSignerAddress A a"
  shows "let st = badger_view K A (w_db w);
             st' = badger_view K A (w_db (fst (sv_RegisterSigners (badgerService K A rng J) E c req w)))
    in is_ok (snd (sv_RegisterSigners (badgerService K A rng J) E c req w))
      \<and> (\<forall>a \<in> set (sr_Signers req). a_signer st' a (sr_User req) \<noteq> None)
      \<and> (\<forall>a n. n \<noteq> sr_User req \<or> a \<notin> set (sr_Signers req) \<longrightarrow> as_signer st' a n = as_signer st a n)"
proof -
  let ?st = "badger_view K A (w_db w)"
    and ?run = "sv_RegisterSigners (badgerService K A rng J) E c req w"
  have does: "(badger_view K A (w_db (fst ?run)), is_ok (snd ?run)) =
      spec_RegisterSigners (IsSignerAddress A) (ce_now E) (sr_User req) (sr_Signers req) ?st"
    using bs.RegisterSigners_does(2) [OF assms(1), of J E c req] assms(2) by simp
  note all = spec_RegisterSigners_all [OF assms(3,4), where now = "ce_now E"]
  have st': "badger_view K A (w_db (fst ?run)) =
      fst (spec_RegisterSigners (IsSignerAddress A) (ce_now E) (sr_User req) (sr_Signers req) ?st)"
    using does by (simp add: prod_eq_iff)
  have "is_ok (snd ?run)" using does all(1) by (simp add: prod_eq_iff)
  moreover have "as_signer (badger_view K A (w_db (fst ?run))) a n = as_signer ?st a n"
    if "n \<noteq> sr_User req \<or> a \<notin> set (sr_Signers req)" for a n
    using all(2) [of a n] that unfolding st' by argo
  ultimately show ?thesis using all(3) by (simp add: Let_def st')
qed

theorem register_signers_witness:
  "a_signer (badger_view ex_K ex_addr (w_db (fst (sv_RegisterSigners ex_srv ex_env0 ex_admin
     \<lparr>sr_User = ''bob'', sr_Signers = [3, 5]\<rparr> ex_world)))) 5 ''bob'' \<noteq> None"
proof -
  have "as_user ex_view ''bob'' \<noteq> None"
    unfolding badger_view_def cview_sel mem_content by code_simp
  moreover have "\<forall>a \<in> set [3, 5]. IsSignerAddress ex_addr a"
    by (simp add: IsSignerAddress_def ex_addr_def)
  ultimately show ?thesis
    using register_signers [OF ex_ok(1), of ex_admin "\<lparr>sr_User = ''bob'', sr_Signers = [3, 5]\<rparr>"]
    by (simp add: Let_def)
qed

section \<open>Listings and the default token\<close>

text \<open>
  \<^bold>\<open>C16\<close>: \<open>ListUsers\<close> with a page returns, to an administrator, at most the page's limit of the users
  of the state asked for that are not deleted (limit 0 is no limit; out of range limits count as
  1000, negative offsets as 0), each once, and all of them from offset 0 without a limit.
\<close>

theorem list_users_page:
  assumes "badger_inv K A rng (w_db w)" and "grants c PermAdmin"
    and "lu_Page req = Some pg" "is_i64 (Skip pg)"
    and "int (card (dom (as_user (badger_view K A (w_db w))))) < 2 ^ 63"
  shows "\<exists>us. sv_ListUsers (badgerService K A rng J) c req w = Inr (map out_user us) \<and> distinct us
    \<and> (Limit pg \<noteq> 0 \<longrightarrow> int (length us) \<le> (if 0 < Limit pg \<and> Limit pg \<le> 1000 then Limit pg else 1000))
    \<and> (\<forall>u \<in> set us. a_user (badger_view K A (w_db w)) (usr_Name u) = Some u \<and>
         (lu_State req = UserStateUndefined \<or> usr_State u = lu_State req))
    \<and> (Skip pg \<le> 0 \<and> Limit pg = 0 \<longrightarrow> set us = {u. a_user (badger_view K A (w_db w)) (usr_Name u) = Some u \<and>
         (lu_State req = UserStateUndefined \<or> usr_State u = lu_State req)})"
proof -
  obtain us where us: "sv_ListUsers (badgerService K A rng J) c req w =
      Inr (map out_user (page_of (fst (GetSkip pg)) (fst (GetLimit pg)) us))" "distinct us"
    "set us = {u. a_user (badger_view K A (w_db w)) (usr_Name u) = Some u \<and>
      (lu_State req = UserStateUndefined \<or> usr_State u = lu_State req)}"
    by (rule bs.ListUsers_page [OF assms])
  let ?us = "page_of (fst (GetSkip pg)) (fst (GetLimit pg)) us"
  have lim: "fst (GetLimit pg) = (if 0 \<le> Limit pg \<and> Limit pg \<le> 1000 then Limit pg else 1000)"
    by (simp add: GetLimit_def Let_def)
  have "distinct ?us" "set ?us \<subseteq> set us"
    using us(2) by (auto simp: page_of_def Let_def dest: in_set_takeD in_set_dropD)
  moreover have "int (length ?us) \<le> (if 0 < Limit pg \<and> Limit pg \<le> 1000 then Limit pg else 1000)" if "Limit pg \<noteq> 0"
    using length_page_of [of "fst (GetLimit pg)" "fst (GetSkip pg)" us] that by (auto simp: lim split: if_splits)
  moreover have "?us = us" if "Skip pg \<le> 0" "Limit pg = 0"
    using that by (simp add: lim GetSkip_def Let_def page_of_def)
  ultimately show ?thesis using us(1,3) by (intro exI [of _ ?us]) auto
qed

theorem list_users_page_witness:
  "\<exists>us. sv_ListUsers ex_srv ex_admin (NewListUsersRequest 0 1 0) ex_world = Inr (map out_user us) \<and> length us \<le> 1"
proof -
  have "dom (as_user ex_view) \<subseteq> {''alice'', ''bob''}"
  proof
    fix n assume "n \<in> dom (as_user ex_view)"
    then obtain v where "db_content ex_K ex_db (userKey n) = Some v"
      by (auto simp: badger_view_def user_doc_def split: option.splits)
    then have "v \<in> set ex_docs" "userKey n = ex_key v" unfolding ex_db_def by (auto dest: ex_content)
    then show "n \<in> {''alice'', ''bob''}"
      by (auto simp: ex_docs_def ex_key_def User_key_def ex_user_def mapedRatelimit_key_def KeyPair_key_def
          Miner_key_def Signer_key_def)
  qed
  from card_mono [OF _ this] have "int (card (dom (as_user ex_view))) < 2 ^ 63" by simp
  then show ?thesis
    using list_users_page [OF ex_ok(1), of ex_admin "NewListUsersRequest 0 1 0" "\<lparr>Skip = 0, Limit = 1\<rparr>" ex_jwt]
    by (auto simp: NewListUsersRequest_def is_i64_def)
qed

text \<open>
  Once the default user exists but has no administrator's token left (it was removed), no call
  of \<open>GetDefaultAdminToken\<close> gets one: it changes nothing and fails, because the user it wants to
  create is already there.
\<close>

theorem default_admin_token_stuck:
  assumes "sys_ok (badger_inv K A rng) (badger_view K A) J (w_db w)" and "jwt_ok J marshal"
    and "a_user (badger_view K A (w_db w)) DefaultAdminTokenName \<noteq> None"
    and "\<forall>t kp. a_token (badger_view K A (w_db w)) t = Some kp \<longrightarrow>
      \<not> (kp_Name kp = DefaultAdminTokenName \<and> kp_Perm kp = PermAdmin)"
  shows "w_db (fst (app_GetDefaultAdminToken (badgerService K A rng J) E w)) = w_db w
    \<and> \<not> is_ok (snd (app_GetDefaultAdminToken (badgerService K A rng J) E w))"
proof -
  let ?c = "CtxWithPerm ctx_Background PermAdmin" and ?srv = "badgerService K A rng J"
  let ?req = "\<lparr>cu_Name = DefaultAdminTokenName, cu_Comment = None, cu_State = UserStateUndefined\<rparr>"
  obtain ts where ts: "sv_GetTokenByName ?srv ?c DefaultAdminTokenName w = Inr ts"
    "\<And>t. (\<exists>ti \<in> set ts. ti_Perm ti = PermAdmin \<and> ti_Token ti = t) \<longleftrightarrow>
      (\<exists>kp. a_token (badger_view K A (w_db w)) t = Some kp \<and> kp_Name kp = DefaultAdminTokenName \<and> kp_Perm kp = PermAdmin)"
    by (rule bs.default_tokens [of K A rng J w marshal, unfolded badgerService_sel, OF assms(1,2)]) blast
  then have loop: "admin_token_loop ts = None"
    using admin_token_loop_cases [of ts] assms(4) by (auto split: option.splits)
  have "permCheck ?c PermAdmin = Inr ()" by (simp add: permCheck_iff admin_in_Adapt)
  moreover have "st_HasUser (badgerStore K A rng) DefaultAdminTokenName (w_db w) = Inr True"
    using bs.HasUser [OF sys_okD(1) [OF assms(1)], where n = DefaultAdminTokenName] assms(3) by simp
  ultimately obtain e where "sv_CreateUser ?srv E ?c ?req w = (w, Inl e)"
    by (simp add: sv_CreateUser_def)
  then show ?thesis by (simp add: app_GetDefaultAdminToken_def ts(1) loop Let_def)
qed

text \<open>A database with the default user alone.\<close>

definition ex_lone :: "ex_db world" where
  "ex_lone = \<lparr>w_db = map (\<lambda>v. (ex_key v, v)) [UserObj (ex_user DefaultAdminTokenName) None], w_metrics = []\<rparr>"

lemma ex_lone_sys: "sys_ok (badger_inv ex_K ex_addr id) (badger_view ex_K ex_addr) ex_jwt (w_db ex_lone)"
proof -
  have "badger_inv ex_K ex_addr id (w_db ex_lone)"
    unfolding ex_lone_def world.select_convs
    by (rule ex_docs_inv) (auto simp: well_keyed_def ex_key_def)
  moreover have "as_token (badger_view ex_K ex_addr (w_db ex_lone)) t = None"
    "as_miner (badger_view ex_K ex_addr (w_db ex_lone)) a = None" for t a
    by (auto simp: ex_lone_def badger_view_def token_doc_def miner_doc_def mem_content ex_key_def
        split: option.splits if_splits)
  ultimately show ?thesis by (simp add: sys_ok_def data_ok_def tokens_ok_def miners_open_def)
qed

theorem default_admin_token_stuck_witness:
  "\<not> is_ok (snd (app_GetDefaultAdminToken ex_srv ex_env0 ex_lone))"
proof (rule default_admin_token_stuck [OF ex_lone_sys ex_jwt_ok, THEN conjunct2])
  show "a_user (badger_view ex_K ex_addr (w_db ex_lone)) DefaultAdminTokenName \<noteq> None"
    unfolding badger_view_def cview_sel mem_content by code_simp
  show "\<forall>t kp. a_token (badger_view ex_K ex_addr (w_db ex_lone)) t = Some kp \<longrightarrow>
      \<not> (kp_Name kp = DefaultAdminTokenName \<and> kp_Perm kp = PermAdmin)"
    by (auto simp: ex_lone_def badger_view_def token_doc_def mem_content ex_key_def live_Some
        split: option.splits if_splits)
qed

text \<open>
  \<^bold>\<open>C18\<close>: the token that \<open>GetDefaultAdminToken\<close> returns is stored as an administrator's token of the default
  user; and the next call returns the same token and changes nothing, so that a restart of the
  service does not make another one.
\<close>

theorem default_admin_token:
  assumes "sys_ok (badger_inv K A rng) (badger_view K A) J (w_db w)" and "jwt_ok J marshal"
    and "snd (app_GetDefaultAdminToken (badgerService K A rng J) E w) = Inr tk"
  shows "let w' = fst (app_GetDefaultAdminToken (badgerService K A rng J) E w) in
    (\<exists>kp. a_token (badger_view K A (w_db w')) tk = Some kp \<and> kp_Name kp = DefaultAdminTokenName \<and> kp_Perm kp = PermAdmin)
    \<and> app_GetDefaultAdminToken (badgerService K A rng J) E' w' = (w', Inr tk)"
  unfolding Let_def using assms
  by (intro conjI bs.default_token_stored [where marshal = marshal] bs.default_token_again [where marshal = marshal]) simp_all

lemma ex_default_run: "snd (app_GetDefaultAdminToken ex_srv ex_env0 \<lparr>w_db = [], w_metrics = []\<rparr>) =
  Inr (''HS256.'' @ b64_Encode (ex_marshal \<lparr>pl_Name = DefaultAdminTokenName, pl_Perm = PermAdmin, pl_Extra = []\<rparr>)
    @ CHR ''.'' # hex_EncodeToString ''r'')"
  by code_simp

theorem default_admin_token_witness:
  "snd (app_GetDefaultAdminToken ex_srv ex_env0 (fst (app_GetDefaultAdminToken ex_srv ex_env0 \<lparr>w_db = [], w_metrics = []\<rparr>))) =
   snd (app_GetDefaultAdminToken ex_srv ex_env0 \<lparr>w_db = [], w_metrics = []\<rparr>)"
proof -
  have "badger_inv ex_K ex_addr id (map (\<lambda>v. (ex_key v, v)) [])" by (rule ex_docs_inv) simp_all
  then have "sys_ok (badger_inv ex_K ex_addr id) (badger_view ex_K ex_addr) ex_jwt (w_db \<lparr>w_db = [], w_metrics = []\<rparr>)"
    by (simp add: sys_ok_def data_ok_def tokens_ok_def miners_open_def badger_view_def token_doc_def miner_doc_def mem_content)
  from default_admin_token [OF this ex_jwt_ok ex_default_run, of ex_env0] show ?thesis
    by (simp add: Let_def ex_default_run)
qed

section \<open>Reading a token\<close>

text \<open>
  The three readers of a token without its key agree on every token that \<open>Sign\<close> made for a UTF-8
  payload: \<open>DecodeToken\<close> gives the payload, \<open>JwtUserFromToken\<close> its name, and \<open>JWTPayloadMap\<close> a map
  with its name and permission.
\<close>

theorem token_readers_agree:
  assumes "jwt_ok J marshal" and "jwt_Sign J p key = Inr tk" and "utf8_payload p"
  shows "DecodeToken J tk = (Some p, None) \<and> JwtUserFromToken J tk = Inr (pl_Name p)
    \<and> (\<exists>m. JWTPayloadMap J tk = Inr m \<and> m ''name'' = Some (JString (pl_Name p)) \<and>
          m ''perm'' = Some (JString (pl_Perm p)))"
  using DecodeToken_signed [OF assms] by simp

theorem token_readers_agree_witness:
  "JwtUserFromToken ex_jwt (projr (ex_Sign ex_pl ''k'')) = Inr ''alice''"
  using token_readers_agree [OF ex_jwt_ok _ ex_pl_utf8, of "''k''" "projr (ex_Sign ex_pl ''k'')"]
  by (simp add: ex_jwt_def ex_Sign_def)

end
