(* ===== verification/Store_Properties.thy ===== *)
theory Store_Properties
  imports Instances
begin

text \<open>
  The properties of the stores: the badger store implements the abstract store, operation by
  operation; what one failed operation leaves behind; migration; rate limits; the form of
  addresses in a database column. Each property comes with a witness where it has hypotheses.
\<close>

section \<open>Refinement of the abstract store\<close>

text \<open>
  \<^bold>\<open>C23\<close>: on a well-formed database the token and user methods of the badger store, among them
  \<open>DeleteUser\<close> with its walk over miners and signers, keep the database well-formed and do exactly
  what the abstract store specifies: an error with nothing changed where the specification refuses,
  otherwise the specified state and result.
\<close>

theorem badger_token_user_refinement:
  assumes "badger_inv K A rng s"
  shows "brefines K A rng s (bs_Put K kp s) (spec_Put kp (badger_view K A s))
    \<and> brefines K A rng s (bs_UpdateToken K kp s) (spec_Put kp (badger_view K A s))
    \<and> brefines K A rng s (bs_Delete K now t s) (spec_Delete t (badger_view K A s))
    \<and> brefines K A rng s (bs_Recover K t s) (spec_Recover t (badger_view K A s))
    \<and> brefines K A rng s (bs_PutUser K u s) (spec_PutUser u (badger_view K A s))
    \<and> brefines K A rng s (bs_UpdateUser K u s) (spec_PutUser u (badger_view K A s))
    \<and> brefines K A rng s (bs_DeleteUser K A now n s) (spec_DeleteUser now n (badger_view K A s))
    \<and> brefines K A rng s (bs_RecoverUser K n s) (spec_RecoverUser n (badger_view K A s))"
  using assms by (intro conjI ref_Put ref_UpdateToken ref_Delete ref_Recover ref_PutUser ref_UpdateUser
      ref_DeleteUser ref_RecoverUser)

theorem badger_token_user_refinement_witness:
  "brefines ex_K ex_addr id ex_db (bs_DeleteUser ex_K ex_addr 9 ''alice'' ex_db)
     (spec_DeleteUser 9 ''alice'' (badger_view ex_K ex_addr ex_db))"
  using badger_token_user_refinement [OF ex_db_inv] by blast

text \<open>
  \<^bold>\<open>C24\<close>: the miner and signer methods of the badger store refine the abstract store: \<open>UpsertMiner\<close>
  binds the miner to the user, creating or reviving the document, and \<open>DelMiner\<close> deletes it;
  \<open>RegisterSigner\<close> binds an address that can sign, and \<open>DelSigner\<close>, which walks the keys that begin with
  the signer's, deletes the bindings to all users of every signer whose text begins with the text of
  the one given. Those are the bindings of that signer alone when no other bound signer's text
  begins with it; delegated (f4) addresses, which have no fixed length, can be such others.
\<close>

theorem badger_owner_refinement:
  assumes "badger_inv K A rng s" and "IsSignerAddress A g"
  shows "brefines K A rng s (bs_UpsertMiner K A now a n om s) (spec_UpsertMiner now a n om (badger_view K A s))
    \<and> brefines K A rng s (bs_DelMiner K A now a s) (spec_DelMiner now a (badger_view K A s))
    \<and> brefines K A rng s (bs_RegisterSigner K A now g n s) (spec_RegisterSigner now g n (badger_view K A s))
    \<and> brefines K A rng s (bs_UnregisterSigner K A now g n s) (spec_UnregisterSigner now g n (badger_view K A s))
    \<and> brefines K A rng s (bs_DelSigner K A now g s) (spec_DelSigner now (extends A g) (badger_view K A s))
    \<and> (signer_alone A g (badger_view K A s) \<longrightarrow>
        brefines K A rng s (bs_DelSigner K A now g s) (spec_DelSigner now (\<lambda>b. b = g) (badger_view K A s)))"
  using assms ref_DelSigner [OF assms(1), of now g]
  by (intro conjI impI ref_UpsertMiner ref_DelMiner ref_RegisterSigner ref_UnregisterSigner)
    (simp_all add: spec_DelSigner_alone)

theorem badger_owner_refinement_witness:
  "brefines ex_K ex_addr id ex_db (bs_DelSigner ex_K ex_addr 9 1 ex_db)
     (spec_DelSigner 9 (\<lambda>b. b = 1) (badger_view ex_K ex_addr ex_db))"
proof -
  have "IsSignerAddress ex_addr 1" by (simp add: IsSignerAddress_def ex_addr_def)
  from badger_owner_refinement [OF ex_db_inv this] ex_alone show ?thesis by blast
qed

section \<open>Failed operations\<close>

text \<open>A call that returns an error has left the database as it was.\<close>

definition atomic :: "'db \<Rightarrow> 'db \<times> 'r res \<Rightarrow> bool" where
  "atomic s p = (case snd p of Inl _ \<Rightarrow> fst p = s | Inr _ \<Rightarrow> True)"

lemma atomic_Update: "atomic s (db_Update K s fn)"
  using db_Update_atomic [of K s fn] by (auto simp: atomic_def split: sum.split)

lemma atomic_same: "atomic s (s, r)"
  by (simp add: atomic_def split: sum.split)

lemma atomic_put: "atomic s (put K M k x s)" "atomic s (putBadgerObj K M x s)"
  by (simp_all add: putBadgerObj_def put_def Let_def atomic_Update)

lemma atomic_softDel: "atomic s (softDelObj K now M x s)" "atomic s (delObj K k s)"
  by (simp_all add: softDelObj_def delObj_def atomic_Update)

lemma atomic_after:
  assumes "atomic s p" and "atomic (fst p) (f p)" and "\<And>e. snd p = Inl e \<Longrightarrow> fst (f p) = fst p"
    and "\<And>x. snd p = Inr x \<Longrightarrow> is_ok (snd (f p))"
  shows "atomic s (f p)"
  using assms by (cases "snd p"; cases "snd (f p)") (auto simp: atomic_def)

lemma atomic_Recovers: "atomic s (bs_Recover K t s)" "atomic s (bs_RecoverUser K n s)"
  by (auto simp: bs_Recover_def bs_RecoverUser_def atomic_put atomic_same split: sum.split)

lemma atomic_DelMiner: "atomic s (bs_DelMiner K A now a s)"
  using atomic_softDel(1) [of s K now "Miner_obj A" "Miner_of_addr a"]
  by (auto simp: bs_DelMiner_def atomic_def split: sum.splits prod.splits)

lemma atomic_UnregisterSigner: "atomic s (bs_UnregisterSigner K A now a n s)"
  using atomic_softDel(1) [of s K now "Signer_obj A" "Signer_of a n"]
  by (auto simp: bs_UnregisterSigner_def bs_innerUnregisterSigner_def atomic_def split: sum.splits prod.splits)

lemma atomic_Migrate:
  "atomic s (bs_MigrateToV1 K A now s)" "atomic s (bs_MigrateToV2 K A s)" "atomic s (bs_MigrateToV3 K s)"
  by (simp_all add: bs_MigrateToV1_def bs_MigrateToV2_def bs_MigrateToV3_def atomic_Update)

text \<open>
  \<^bold>\<open>C29\<close>: whatever the engine does, conflicting commits and I/O errors included, each of these
  methods of the badger store leaves the database unchanged when it returns an error.
\<close>

theorem badger_atomic:
  "atomic s (bs_Put K kp s) \<and> atomic s (bs_Delete K now t s) \<and> atomic s (bs_Recover K t s)
    \<and> atomic s (bs_PutUser K u s) \<and> atomic s (bs_RecoverUser K n s)
    \<and> atomic s (bs_UpsertMiner K A now a n om s) \<and> atomic s (bs_DelMiner K A now a s)
    \<and> atomic s (bs_RegisterSigner K A now a n s) \<and> atomic s (bs_UnregisterSigner K A now a n s)
    \<and> atomic s (bs_MigrateToV1 K A now s) \<and> atomic s (bs_MigrateToV2 K A s) \<and> atomic s (bs_MigrateToV3 K s)"
  by (simp add: bs_Put_def bs_Delete_def bs_PutUser_def bs_UpsertMiner_def bs_RegisterSigner_def Let_def
      atomic_put atomic_softDel atomic_Recovers atomic_Update atomic_DelMiner atomic_UnregisterSigner
      atomic_Migrate)

text \<open>
  \<^bold>\<open>C30\<close>: \<open>DeleteUser\<close> is not atomic. On any well-formed database of any engine that keeps its laws, when
  a commit that would change the user's document is refused (\<open>failing_commit\<close>), as badger does when another
  transaction has changed that document in the meantime, it returns that error, the user, the
  user's miners and everything else are as before, but all signers of the user have been deleted.
\<close>

theorem DeleteUser_not_atomic:
  assumes "badger_inv K A rng s" and "a_user (badger_view K A s) n \<noteq> None"
  shows "\<exists>s'. bs_DeleteUser (failing_commit K (userKey n) e) A now n s = (s', Inl e) \<and> badger_inv K A rng s' \<and>
    badger_view K A s' = (badger_view K A s)\<lparr>as_signer := (\<lambda>a m.
      if m = n then map_option (del_signer now) (as_signer (badger_view K A s) a m)
      else as_signer (badger_view K A s) a m)\<rparr>"
proof -
  let ?c = "db_content K s"
  note ok = badger_invD(2-4) [OF assms(1)]
  from assms(2) obtain u where "user_doc ?c n = Some u" "\<not> User_isDeleted u"
    by (auto simp: badger_view_def live_Some)
  from DeleteUser_commit_fails [OF ok this, of e now] obtain s' where
    s': "bs_DeleteUser (failing_commit K (userKey n) e) A now n s = (s', Inl e)"
      "db_content K s' = del_signers now (\<lambda>g. sn_User g = n) ?c" by blast
  have P: "sn_User g = n \<longleftrightarrow> m = n" if "signer_doc A ?c a m = Some g" for a m g
    using content_signer(2) [OF ok(2,3) that] by simp
  have "badger_inv K A rng s'"
    using assms(1) by (simp add: badger_inv_def s'(2) keyspace_del_signers signers_ok_del_signers)
  with s'(1) show ?thesis
    by (simp add: badger_view_def s'(2) cview_del_signers [where Q = "\<lambda>a m. m = n", OF P] cong: if_cong)
qed

theorem DeleteUser_not_atomic_witness:
  "\<exists>s'. bs_DeleteUser (failing_commit ex_K (userKey ''alice'') (Msg ''Transaction Conflict'')) ex_addr 9 ''alice'' ex_db =
      (s', Inl (Msg ''Transaction Conflict'')) \<and> badger_inv ex_K ex_addr id s' \<and>
    badger_view ex_K ex_addr s' = (badger_view ex_K ex_addr ex_db)\<lparr>as_signer := (\<lambda>a m.
      if m = ''alice'' then map_option (del_signer 9) (as_signer (badger_view ex_K ex_addr ex_db) a m)
      else as_signer (badger_view ex_K ex_addr ex_db) a m)\<rparr>"
proof (rule DeleteUser_not_atomic [OF ex_db_inv])
  show "a_user (badger_view ex_K ex_addr ex_db) ''alice'' \<noteq> None"
    unfolding badger_view_def cview_sel mem_content by code_simp
qed

text \<open>Alice has a signer there, which the failed call deletes.\<close>

lemma DeleteUser_not_atomic_run:
  "bs_SignerExistInUser ex_K ex_addr 1 ''alice'' ex_db = Inr True
    \<and> bs_SignerExistInUser ex_K ex_addr 1 ''alice'' (fst (bs_DeleteUser
        (failing_commit ex_K (userKey ''alice'') (Msg ''Transaction Conflict'')) ex_addr 9 ''alice'' ex_db)) = Inr False"
  by code_simp

section \<open>Migration\<close>

text \<open>
  \<^bold>\<open>C31\<close>: on a database whose documents decode, \<open>StoreMigrate\<close> returns (its loop ends) without an
  error, at version 3 or at the version the database already had, and has changed nothing but
  miners and the version.
\<close>

theorem StoreMigrate_returns:
  assumes "badger_ok K" and "typed_ok (db_content K s)"
  shows "\<exists>s'. StoreMigrate (badgerStore K A rng) now s = Some (s', Inr ())
    \<and> bs_Version K s' = Inr (max 3 (stored_version (db_content K s)))
    \<and> kept (db_content K s) (db_content K s')"
proof -
  obtain s' where s': "StoreMigrate (badgerStore K A rng) now s = Some (s', Inr ())"
    "typed_ok (db_content K s')" "kept (db_content K s) (db_content K s')"
    "stored_version (db_content K s') = max 3 (stored_version (db_content K s))"
    using badger_migration.StoreMigrate_ok [of K s A rng now] assms by blast
  then show ?thesis using typed_version [OF s'(2) assms(1) refl] by auto
qed

definition ex_v0 :: ex_db where
  "ex_v0 = map (\<lambda>v. (ex_key v, v)) [UserObj (ex_user ''alice'') (Some (ex_String 2)),
     UserObj (ex_user ''bob'') (Some (ex_String 4))]"

lemma ex_v0_content: "db_content ex_K ex_v0 k = Some v \<Longrightarrow>
    v = UserObj (ex_user ''alice'') (Some (ex_String 2)) \<and> k = userKey ''alice'' \<or>
    v = UserObj (ex_user ''bob'') (Some (ex_String 4)) \<and> k = userKey ''bob''"
  unfolding ex_v0_def by (drule ex_content) (auto simp: ex_key_def User_key_def ex_user_def)

lemma ex_v0_keyspace: "keyspace_ok ex_addr (db_content ex_K ex_v0)"
  by (auto simp: keyspace_ok_def ex_user_def dest!: ex_v0_content)

theorem StoreMigrate_returns_witness:
  "\<exists>s'. StoreMigrate (badgerStore ex_K ex_addr id) 9 ex_v0 = Some (s', Inr ())
    \<and> bs_Version ex_K s' = Inr (max 3 (stored_version (db_content ex_K ex_v0)))
    \<and> kept (db_content ex_K ex_v0) (db_content ex_K s')"
  by (rule StoreMigrate_returns [OF mem_badger_ok keyspace_typed [OF ex_v0_keyspace]])

lemma ex_v0_inv: "migration_inv ex_K ex_addr id ex_v0"
proof -
  have v: "stored_version (db_content ex_K ex_v0) = 0"
    using ex_v0_content [of storeVersionKey]
    by (cases "db_content ex_K ex_v0 storeVersionKey") (auto simp: stored_version_def)
  have "legacy_canonical ex_addr (db_content ex_K ex_v0)"
    unfolding legacy_canonical_def
    by (auto dest!: ex_v0_content simp: legacy_user_def ex_addr_def ex_NewFromString_def)
  moreover have "signers_ok ex_addr (db_content ex_K ex_v0)"
    by (auto simp: signers_ok_def dest: ex_v0_content)
  ultimately show ?thesis
    by (simp add: migration_inv_def badger_inv_def ex_env ex_v0_keyspace v)
qed

text \<open>
  Opening the badger store (the type is compared without case) returns it migrated: at version 3
  or later, well-formed, with every miner open for mining, and with the users, tokens, signers and
  limits it had, provided that the addresses of a version-0 database are in canonical form.
\<close>

theorem NewStore_badger:
  assumes "migration_inv K A rng s" and "ToLower ty = ''badger''"
  shows "\<exists>s'. NewStore my (Inr (badgerStore K A rng, s)) now ty = Some (Inr (badgerStore K A rng, s'))
    \<and> badger_inv K A rng s' \<and> 3 \<le> stored_version (db_content K s')
    \<and> all_open (db_content K s') \<and> kept (db_content K s) (db_content K s')"
proof -
  obtain s' where s': "StoreMigrate (badgerStore K A rng) now s = Some (s', Inr ())"
    "migration_inv K A rng s'" "stored_version (db_content K s') = max 3 (stored_version (db_content K s))"
    "kept (db_content K s) (db_content K s')"
    using badger_migration_inv.StoreMigrate_ok [of K A rng s now] assms(1) by blast
  have "NewStore my (Inr (badgerStore K A rng, s)) now ty = Some (Inr (badgerStore K A rng, s'))"
    using assms(2) s'(1) by (simp add: NewStore_def)
  with s' show ?thesis by (auto simp: migration_inv_def)
qed

theorem NewStore_badger_witness:
  "\<exists>s'. NewStore (Inl (Msg ''no database'')) (Inr (badgerStore ex_K ex_addr id, ex_v0)) 9 ''Badger'' =
      Some (Inr (badgerStore ex_K ex_addr id, s'))
    \<and> badger_inv ex_K ex_addr id s' \<and> 3 \<le> stored_version (db_content ex_K s')
    \<and> all_open (db_content ex_K s') \<and> kept (db_content ex_K ex_v0) (db_content ex_K s')"
  by (rule NewStore_badger [OF ex_v0_inv]) (simp add: ToLower_def, code_simp)

text \<open>
  Any other type of database is an error that names it, whatever the stores would do.
\<close>

theorem NewStore_unknown:
  assumes "ToLower ty \<notin> {''mysql'', ''badger''}"
  shows "NewStore my bg now ty = Some (Inl (Msg (''the type '' @ ty @ '' is not currently supported'')))"
  using assms by (simp add: NewStore_def)

theorem NewStore_unknown_witness:
  "NewStore (Inr (badgerStore ex_K ex_addr id, ex_db)) (Inr (badgerStore ex_K ex_addr id, ex_db)) 9 ''redis'' =
     Some (Inl (Msg (''the type '' @ ''redis'' @ '' is not currently supported'')))"
  by (rule NewStore_unknown) code_simp

section \<open>Rate limits and signers\<close>

text \<open>
  \<^bold>\<open>C33\<close>: \<open>DelRateLimit\<close> called with the id of one limit of a user deletes all limits of that user,
  and no limit of another user.
\<close>

theorem DelRateLimit_drops_all:
  assumes "badger_inv K A rng s" and "n \<noteq> []" "i \<noteq> []"
    and "as_limit (badger_view K A s) n i \<noteq> None"
  shows "snd (bs_DelRateLimit K n i s) = Inr ()
    \<and> badger_view K A (fst (bs_DelRateLimit K n i s)) =
        (badger_view K A s)\<lparr>as_limit := (as_limit (badger_view K A s))(n := Map.empty)\<rparr>"
proof -
  from assms(4) obtain mr l where mr: "limits_doc (db_content K s) n = Some mr" "map_of mr i = Some l"
    by (auto simp: badger_view_def user_limits_def split: option.splits)
  have obs: "obs K (bs_DelRateLimit K n i s) = ((db_content K s)(rateLimitKey n := None), Inr ())"
    using mr assms(2,3) by (simp add: bs_DelRateLimit_obs [OF badger_invD(2,4) [OF assms(1)]])
  then show ?thesis
    using content_after [OF obs] result_of [OF obs] by (simp add: badger_view_def cview_def)
qed

lemma ex_limit: "as_limit (badger_view ex_K ex_addr ex_db) ''alice'' ''L1'' \<noteq> None"
  unfolding badger_view_def cview_sel mem_content by code_simp

theorem DelRateLimit_drops_all_witness:
  "snd (bs_DelRateLimit ex_K ''alice'' ''L1'' ex_db) = Inr ()
    \<and> badger_view ex_K ex_addr (fst (bs_DelRateLimit ex_K ''alice'' ''L1'' ex_db)) =
        (badger_view ex_K ex_addr ex_db)\<lparr>as_limit := (as_limit (badger_view ex_K ex_addr ex_db))(''alice'' := Map.empty)\<rparr>"
  by (rule DelRateLimit_drops_all [OF ex_db_inv _ _ ex_limit]) simp_all

lemma distinct_singleton: "distinct xs \<Longrightarrow> set xs = {x} \<Longrightarrow> xs = [x]"
  by (cases xs; cases "tl xs") auto

text \<open>
  A limit put without an id gets a fresh one, which is returned, and \<open>GetRateLimits\<close> by that id
  then returns exactly this limit.
\<close>

theorem PutRateLimit_Get:
  assumes "badger_inv K A rng s" and "uuid \<noteq> []"
  shows "\<exists>i. snd (bs_PutRateLimit K uuid l s) = Inr i \<and> i = (if rl_Id l = [] then uuid else rl_Id l)
    \<and> bs_GetRateLimits K rng (rl_Name l) i (fst (bs_PutRateLimit K uuid l s)) = Inr [l\<lparr>rl_Id := i\<rparr>]"
proof -
  let ?i = "if rl_Id l = [] then uuid else rl_Id l"
  from ref_PutRateLimit [OF assms(1), of uuid l]
  have put: "snd (bs_PutRateLimit K uuid l s) = Inr ?i" "badger_inv K A rng (fst (bs_PutRateLimit K uuid l s))"
    "as_limit (badger_view K A (fst (bs_PutRateLimit K uuid l s))) (rl_Name l) ?i = Some (l\<lparr>rl_Id := ?i\<rparr>)"
    by (simp_all add: refines_def spec_PutRateLimit_def Let_def)
  have "?i \<noteq> []" using assms(2) by simp
  obtain ls where ls: "bs_GetRateLimits K rng (rl_Name l) ?i (fst (bs_PutRateLimit K uuid l s)) = Inr ls"
    "distinct ls" "set ls = {x. as_limit (badger_view K A (fst (bs_PutRateLimit K uuid l s))) (rl_Name l) (rl_Id x) = Some x
      \<and> (?i = [] \<or> rl_Id x = ?i)}"
    using read_limits [OF put(2), of "rl_Name l" ?i] unfolding lists_def by blast
  have "set ls = {l\<lparr>rl_Id := ?i\<rparr>}"
    unfolding ls(3) using put(3) \<open>?i \<noteq> []\<close> by (auto simp del: if_split)
  then have "ls = [l\<lparr>rl_Id := ?i\<rparr>]" by (rule distinct_singleton [OF ls(2)])
  with put(1) ls(1) show ?thesis by blast
qed

definition ex_limit_new :: user_rate_limit where
  "ex_limit_new = \<lparr>rl_Id = [], rl_Name = ''alice'', rl_Service = [], rl_API = [],
     rl_ReqLimit = \<lparr>Cap = 1, ResetDur = 2\<rparr>\<rparr>"

theorem PutRateLimit_Get_witness:
  "\<exists>i. snd (bs_PutRateLimit ex_K ''new'' ex_limit_new ex_db) = Inr i
    \<and> i = (if rl_Id ex_limit_new = [] then ''new'' else rl_Id ex_limit_new)
    \<and> bs_GetRateLimits ex_K id (rl_Name ex_limit_new) i (fst (bs_PutRateLimit ex_K ''new'' ex_limit_new ex_db)) =
        Inr [ex_limit_new\<lparr>rl_Id := i\<rparr>]"
  by (rule PutRateLimit_Get [OF ex_db_inv]) simp

text \<open>
  \<open>GetUserBySigner\<close> fails as a whole when one of the users the signer was ever registered for
  is deleted, even if that registration has been undone and others stand.
\<close>

theorem GetUserBySigner_deleted_user:
  assumes "badger_inv K A rng s"
    and "as_signer (badger_view K A s) a n \<noteq> None" "a_user (badger_view K A s) n = None"
  shows "\<not> is_ok (bs_GetUserBySigner K A a s)"
proof -
  let ?c = "db_content K s"
  note ok = badger_invD(2,3,4) [OF assms(1)]
  from assms(2) obtain g where g: "signer_doc A ?c a n = Some g" by (auto simp: badger_view_def)
  then have sel: "sn_Signer g = a" "sn_User g = n" using content_signer(2) [OF ok(2,3)] by blast+
  show ?thesis
  proof (rule signer_scan [OF ok, of a])
    fix gs
    assume gs: "scan K s (signerKey (addr_String A a)) = map (\<lambda>g. (Signer_key A g, SignerObj g)) gs"
      and set_gs: "\<And>g. g \<in> set gs \<longleftrightarrow> signer_doc A ?c (sn_Signer g) (sn_User g) = Some g \<and>
        prefix (addr_String A a) (addr_String A (sn_Signer g))"
    have "g \<in> set gs" using g sel set_gs [of g] by simp
    moreover have "live_user ?c (sn_User g) = None"
      using assms(3) sel(2) by (simp add: live_user_live badger_view_def)
    ultimately have "find (\<lambda>g. live_user ?c (sn_User g) = None) gs \<noteq> None"
      by (auto simp: find_None_iff)
    then show ?thesis
      by (auto simp: bs_GetUserBySigner_eq [OF ok] gs)
  qed
qed

text \<open>Bob is deleted; Alice, who has registered the same signer, is not.\<close>

definition ex_docs2 :: "ex_obj list" where
  "ex_docs2 = [UserObj (ex_user ''alice'') None, UserObj ((ex_user ''bob'')\<lparr>usr_IsDeleted := Deleted\<rparr>) None,
     SignerObj (ex_signer 1 ''alice''), SignerObj (Signer_setDeleted 8 (ex_signer 1 ''bob''))]"

definition ex_db2 :: ex_db where
  "ex_db2 = map (\<lambda>v. (ex_key v, v)) ex_docs2"

lemma ex_db2_inv: "badger_inv ex_K ex_addr id ex_db2"
  unfolding ex_db2_def
proof (rule ex_docs_inv)
  show "\<forall>v \<in> set ex_docs2. well_keyed ex_addr (ex_key v) v"
    by (auto simp: ex_docs2_def well_keyed_def ex_key_def)
  show "\<forall>g. SignerObj g \<in> set ex_docs2 \<longrightarrow> IsSignerAddress ex_addr (sn_Signer g)"
    by (auto simp: ex_docs2_def ex_signer_def bind_signer_def Signer_setDeleted_def IsSignerAddress_def ex_addr_def)
qed

theorem GetUserBySigner_deleted_user_witness:
  "\<not> is_ok (bs_GetUserBySigner ex_K ex_addr 1 ex_db2)"
proof (rule GetUserBySigner_deleted_user [OF ex_db2_inv])
  show "as_signer (badger_view ex_K ex_addr ex_db2) 1 ''bob'' \<noteq> None"
    unfolding badger_view_def cview_sel mem_content by code_simp
  show "a_user (badger_view ex_K ex_addr ex_db2) ''bob'' = None"
    unfolding badger_view_def cview_sel mem_content by code_simp
qed

section \<open>Addresses in a database column\<close>

text \<open>
  \<^bold>\<open>C36\<close>: an address other than the empty one is read back from the column value it is written as:
  \<open>Scan\<close> puts the network prefix back that \<open>Value\<close> has cut off.
\<close>

theorem storedAddress_roundtrip:
  assumes "addr_text_ok A" and "\<not> addr_Empty A a"
  shows "storedAddress_Scan A (Some (storedAddress_Value A a)) = Inr a"
proof -
  from assms obtain rest where "addr_String A a = addr_NetworkPrefix A @ rest"
    by (auto simp: addr_text_ok_def prefix_def)
  moreover from assms(1) obtain c where "addr_NetworkPrefix A = [c]"
    by (auto simp: addr_text_ok_def length_Suc_conv)
  ultimately have "addr_NetworkPrefix A @ drop 1 (addr_String A a) = addr_String A a"
    by simp
  with assms show ?thesis
    by (simp add: storedAddress_Scan_def storedAddress_Value_def storedAddress_String_def
        addr_text_ok_def)
qed

theorem storedAddress_roundtrip_witness:
  "storedAddress_Scan ex_addr (Some (storedAddress_Value ex_addr 3)) = Inr 3"
  by (rule storedAddress_roundtrip [OF ex_addr_ok(2)]) (simp add: ex_addr_def)

end
