(* ===== verification/Client_Properties.thy ===== *)
theory Client_Properties
  imports Client_Server Instances
begin

text \<open>
  The properties of the package jwtclient: the mux that guards a service, the checks behind it, and
  both of them over the network on the badger store. The example wire binds and answers the
  requests that the theorems use, and meets \<open>wire_ok\<close>.
\<close>

section \<open>The checks over the network\<close>

type_synonym ('a, 'db) net_state = "string \<times> bool \<times> call_env \<times> 'a wire \<times> auth_client \<times> 'db world"

definition net_of :: "('a, 'db) service \<Rightarrow> ('a, 'db) net_state \<Rightarrow> ('a, 'db) net" where
  "net_of srv s = (case s of (ver, go_on, E, W, cl, w) \<Rightarrow>
     \<lparr>n_srv = srv, n_ver = ver, n_go_on = go_on, n_env = E, n_wire = W, n_client = cl\<rparr>)"

definition net_world :: "('a, 'db) net_state \<Rightarrow> 'db world" where
  "net_world s = (case s of (ver, go_on, E, W, cl, w) \<Rightarrow> w)"

text \<open>The states in which the client asks for an administrator over a wire that works.\<close>

definition net_ok :: "('db \<Rightarrow> bool) \<Rightarrow> ('db \<Rightarrow> 'a astore) \<Rightarrow> 'a addr_lib \<Rightarrow> jwt_lib \<Rightarrow> (jwt_payload \<Rightarrow> string) \<Rightarrow>
    ('a, 'db) net_state \<Rightarrow> bool" where
  "net_ok I view A J marshal s = (case s of (ver, go_on, E, W, cl, w) \<Rightarrow>
     admin_client I view J marshal cl (w_db w) \<and> wire_ok A W)"

interpretation net_miners: owner_client
  "\<lambda>s c user a. snd (AuthClient_MinerExistInUser (Do_server (net_of (badgerService K A rng J) s)) A user a (net_world s))"
  "\<lambda>s a n. a_owner (badger_view K A (w_db (net_world s))) a = Some n"
  "net_ok (badger_inv K A rng) (badger_view K A) A J marshal" "\<lambda>a. \<not> addr_Empty A a"
  for K :: "('a obj, 'db, 'txn) badger" and A rng J marshal
proof unfold_locales
  fix s :: "('a, 'db) net_state" and a c user
  obtain ver go_on E W cl w where s: "s = (ver, go_on, E, W, cl, w)" by (cases s) auto
  assume "net_ok (badger_inv K A rng) (badger_view K A) A J marshal s" "\<not> addr_Empty A a"
  then show "snd (AuthClient_MinerExistInUser (Do_server (net_of (badgerService K A rng J) s)) A user a (net_world s)) =
      Inr (a_owner (badger_view K A (w_db (net_world s))) a = Some user)"
    using bs.client_MinerExistInUser [of K A rng J marshal cl w W a ver go_on E user]
    by (simp add: s net_ok_def net_of_def net_world_def)
qed

interpretation net_signers: owner_client
  "\<lambda>s c user a. snd (AuthClient_SignerExistInUser (Do_server (net_of (badgerService K A rng J) s)) A user a (net_world s))"
  "\<lambda>s a n. a_signer (badger_view K A (w_db (net_world s))) a n \<noteq> None"
  "net_ok (badger_inv K A rng) (badger_view K A) A J marshal" "\<lambda>a. \<not> addr_Empty A a \<and> IsSignerAddress A a"
  for K :: "('a obj, 'db, 'txn) badger" and A rng J marshal
proof unfold_locales
  fix s :: "('a, 'db) net_state" and a c user
  obtain ver go_on E W cl w where s: "s = (ver, go_on, E, W, cl, w)" by (cases s) auto
  assume "net_ok (badger_inv K A rng) (badger_view K A) A J marshal s" "\<not> addr_Empty A a \<and> IsSignerAddress A a"
  then show "snd (AuthClient_SignerExistInUser (Do_server (net_of (badgerService K A rng J) s)) A user a (net_world s)) =
      Inr (a_signer (badger_view K A (w_db (net_world s))) a user \<noteq> None)"
    using bs.client_SignerExistInUser [of K A rng J marshal cl w W a ver go_on E user]
    by (simp add: s net_ok_def net_of_def net_world_def)
qed

text \<open>The example wire.\<close>

definition ex_bind :: "nat rest_request \<Rightarrow> nat request option" where
  "ex_bind rq =
     (case (rr_Path rq, rr_Query rq, rr_Body rq) of
        (p, [(_, a), (_, u)], None) \<Rightarrow>
          (case ex_NewFromString a of
             Inl e \<Rightarrow> None
           | Inr a \<Rightarrow> if p = ''/user/miner/exist'' then Some (RMinerExistInUser (\<lparr>me_Miner = a, me_User = u\<rparr>, None))
               else if p = ''/user/signer/exist'' then Some (RSignerExistInUser (\<lparr>se_Signer = a, se_User = u\<rparr>, None))
               else None)
      | (p, _, Some (J_Token tk)) \<Rightarrow> if p = ''/verify'' then Some (RVerify (tk, None)) else None
      | _ \<Rightarrow> None)"

definition ex_reply :: "nat gin_call list \<Rightarrow> nat rest_response res" where
  "ex_reply calls =
     (case last calls of
        C_JSON n b \<Rightarrow> Inr \<lparr>rs_StatusCode = n, rs_Body = [], rs_Result = (if n = 200 then Some b else None),
          rs_Error = (case b of BError m \<Rightarrow> m | _ \<Rightarrow> [])\<rparr>
      | C_Panic e \<Rightarrow> Inl (External ''EOF'')
      | C_WriteHeader n \<Rightarrow> Inr \<lparr>rs_StatusCode = n, rs_Body = [], rs_Result = None, rs_Error = []\<rparr>
      | _ \<Rightarrow> Inr \<lparr>rs_StatusCode = 200, rs_Body = [], rs_Result = None, rs_Error = []\<rparr>)"

definition ex_wire :: "nat wire" where
  "ex_wire = \<lparr>wi_bind = ex_bind, wi_reply = ex_reply\<rparr>"

lemma ex_parse [simp]: "ex_NewFromString (ex_String a) = Inr a"
  by (simp add: ex_NewFromString_def)

lemma ex_wire_ok: "wire_ok ex_addr ex_wire"
  unfolding wire_ok_def ex_wire_def
  by (simp add: ex_bind_def ex_reply_def rest_query_def rest_body_def ex_addr_def)

definition ex_client :: auth_client where
  "ex_client = \<lparr>cli_HostURL = ''http://localhost:8989'', cli_Authorization = ''Bearer '' @ kp_Token (ex_kp ''bob'' PermAdmin)\<rparr>"

abbreviation ex_net :: "(nat, ex_db) net_state" where
  "ex_net \<equiv> ([], True, ex_env0, ex_wire, ex_client, ex_world)"

lemma ex_net_ok: "net_ok (badger_inv ex_K ex_addr id) (badger_view ex_K ex_addr) ex_addr ex_jwt ex_marshal ex_net"
  using ex_sys_ok ex_jwt_ok ex_wire_ok ex_bob_kp by (simp add: net_ok_def admin_client_def ex_client_def) (simp add: ex_kp_def)

text \<open>
  \<^bold>\<open>C19\<close>: a service that asks the auth service over the network, with an administrator's token, lets a
  caller pass \<open>CheckPermissionByMiner\<close> exactly when the caller is an administrator or owns, by the
  auth service's store, every one of the miners.
\<close>

theorem check_miners_over_network:
  assumes "net_ok (badger_inv K A rng) (badger_view K A) A J marshal s"
    and "\<forall>a \<in> set as. \<not> addr_Empty A a"
  shows "CheckPermissionByMiner A c (\<lambda>c user a.
      snd (AuthClient_MinerExistInUser (Do_server (net_of (badgerService K A rng J) s)) A user a (net_world s))) as = Inr ()
    \<longleftrightarrow> grants c PermAdmin \<or> (\<exists>n. CtxGetName c = Some n \<and>
          (\<forall>a \<in> set as. a_owner (badger_view K A (w_db (net_world s))) a = Some n))"
  by (rule net_miners.CheckPermissionByMiner_iff [OF assms])

theorem check_miners_over_network_witness:
  "CheckPermissionByMiner ex_addr (CtxWithName ctx_Background ''alice'') (\<lambda>c user a.
      snd (AuthClient_MinerExistInUser (Do_server (net_of ex_srv ex_net)) ex_addr user a (net_world ex_net))) [2, 4] = Inr ()
    \<longleftrightarrow> (\<forall>a \<in> set [2, 4]. a_owner ex_view a = Some ''alice'')"
proof -
  have "\<forall>a \<in> set [2, 4]. \<not> addr_Empty ex_addr a" by (simp add: ex_addr_def)
  from check_miners_over_network [OF ex_net_ok this, of "CtxWithName ctx_Background ''alice''"]
  show ?thesis by (simp add: net_world_def)
qed

text \<open>
  The same for signers: an administrator, or a user that is bound to every one of them.
\<close>

theorem check_signers_over_network:
  assumes "net_ok (badger_inv K A rng) (badger_view K A) A J marshal s"
    and "\<forall>a \<in> set as. \<not> addr_Empty A a \<and> IsSignerAddress A a"
  shows "CheckPermissionBySigner A c (\<lambda>c user a.
      snd (AuthClient_SignerExistInUser (Do_server (net_of (badgerService K A rng J) s)) A user a (net_world s))) as = Inr ()
    \<longleftrightarrow> grants c PermAdmin \<or> (\<exists>n. CtxGetName c = Some n \<and>
          (\<forall>a \<in> set as. a_signer (badger_view K A (w_db (net_world s))) a n \<noteq> None))"
  by (rule net_signers.CheckPermissionBySigner_iff [OF assms])

theorem check_signers_over_network_witness:
  "CheckPermissionBySigner ex_addr (CtxWithName ctx_Background ''alice'') (\<lambda>c user a.
      snd (AuthClient_SignerExistInUser (Do_server (net_of ex_srv ex_net)) ex_addr user a (net_world ex_net))) [1] = Inr ()
    \<longleftrightarrow> a_signer ex_view 1 ''alice'' \<noteq> None"
proof -
  have "\<forall>a \<in> set [1]. \<not> addr_Empty ex_addr a \<and> IsSignerAddress ex_addr a"
    by (simp add: ex_addr_def IsSignerAddress_def)
  from check_signers_over_network [OF ex_net_ok this, of "CtxWithName ctx_Background ''alice''"]
  show ?thesis by (simp add: net_world_def)
qed

section \<open>The mux\<close>

text \<open>
  \<^bold>\<open>C20\<close>: what the mux lets through to a handler with a permission is either a request to a trusted
  path, which keeps the context it came with, or one whose bearer token the local or the remote
  client has verified, and then the permissions are exactly those of the verified one.
\<close>

theorem mux_guard:
  assumes "ServeHTTP J mux order rq = Serve h c" and "CtxGetPerm (rq_ctx rq) = None"
    and "HasPerm c [] p"
  shows "h = am_handler mux \<and> trustedHandler mux order (mq_RequestURI rq) = Inr None \<and>
    (\<exists>token perm. bearer_token rq = Some token \<and> p \<in> set (AdaptOldStrategy perm) \<and>
       mux_accepts mux (CtxWithTokenLocation (rq_ctx rq) (mq_RemoteAddr rq)) token perm)"
proof (cases rule: ServeHTTP_cases [of J mux order rq])
  case (verified token perm)
  then have "p \<in> set (AdaptOldStrategy perm)"
    using assms(1,3) by (auto simp: HasPerm_grants Let_def split: if_splits)
  moreover from this have "perm \<noteq> []" by (auto simp: AdaptOldStrategy_def perm_defs)
  ultimately show ?thesis
    using verified assms(1) mux_verify_accepts [OF verified(3)] by auto
qed (use assms in \<open>auto simp: HasPerm_def\<close>)

definition ex_local :: local_auth_client where
  "ex_local = \<lparr>lc_alg = ''s''\<rparr>"

definition ex_mux :: "string auth_mux" where
  "ex_mux = TrustHandle ''/debug/'' ''debug'' [] (NewAuthMux (Some (LocalAuthClient_Verify ex_jwt ex_local)) None ''rpc'')"

abbreviation ex_local_token :: string where
  "ex_local_token \<equiv> projr (ex_Sign \<lparr>pl_Name = DefaultAdminTokenName, pl_Perm = PermAdmin, pl_Extra = []\<rparr> ''s'')"

abbreviation ex_mux_rq :: mux_request where
  "ex_mux_rq \<equiv> \<lparr>rq_Authorization = ''Bearer '' @ ex_local_token, rq_FormToken = [], rq_ctx = ctx_Background,
     mq_RequestURI = ''/rpc/v0'', mq_RemoteAddr = ''127.0.0.1''\<rparr>"

lemma ex_mux_serves:
  "ServeHTTP ex_jwt ex_mux [''/debug/''] ex_mux_rq =
     Serve ''rpc'' (CtxWithName (CtxWithPerm (CtxWithTokenLocation ctx_Background ''127.0.0.1'') PermAdmin) DefaultAdminTokenName)"
  by code_simp

theorem mux_guard_witness:
  "\<exists>token perm. bearer_token ex_mux_rq = Some token \<and> PermAdmin \<in> set (AdaptOldStrategy perm) \<and>
     mux_accepts ex_mux (CtxWithTokenLocation (rq_ctx ex_mux_rq) (mq_RemoteAddr ex_mux_rq)) token perm"
proof -
  note w = mux_guard [OF ex_mux_serves, of PermAdmin]
  show ?thesis by (rule w [THEN conjunct2, THEN conjunct2]) (simp_all add: HasPerm_grants admin_in_Adapt)
qed

text \<open>
  A request bypasses the check exactly when a pattern trusts its URI, and is then given to the
  handler of such a pattern, in whatever order Go visits the map of patterns (no pattern is empty).
\<close>

theorem trusted_any_order:
  assumes "set order = dom (am_trustHandle mux)" and "am_trustHandle mux [] = None"
  shows "(trustedHandler mux order uri = Inr None \<longleftrightarrow>
      (\<forall>p h. am_trustHandle mux p = Some h \<longrightarrow> \<not> trusts p (th_reg h) uri))
    \<and> (\<forall>h. trustedHandler mux order uri = Inr (Some h) \<longrightarrow>
      (\<exists>p. am_trustHandle mux p = Some h \<and> trusts p (th_reg h) uri))
    \<and> (\<forall>e. trustedHandler mux order uri \<noteq> Inl e)"
  using trustedHandler_iff [OF assms, of uri] by auto

theorem trusted_any_order_witness:
  "trustedHandler ex_mux [''/debug/''] ''/debug/pprof'' \<noteq> Inr None"
proof -
  have dom: "set [''/debug/''] = dom (am_trustHandle ex_mux)" "am_trustHandle ex_mux [] = None"
    by (auto simp: ex_mux_def TrustHandle_def NewAuthMux_def split: if_splits)
  have "\<exists>h. am_trustHandle ex_mux ''/debug/'' = Some h"
    by (simp add: ex_mux_def TrustHandle_def)
  then have "\<not> (\<forall>p h. am_trustHandle ex_mux p = Some h \<longrightarrow> \<not> trusts p (th_reg h) ''/debug/pprof'')"
    by (auto simp: trusts_def intro!: exI [of _ "''/debug/''"])
  then show ?thesis using trusted_any_order [OF dom, of "''/debug/pprof''"] by simp
qed

text \<open>
  The token that \<open>NewLocalAuthClientWithSecret\<close> returns beside the client gets through a mux
  with that client as its local one, with every permission and the name of the default token.
\<close>

theorem local_token_admin:
  assumes "jwt_ok J marshal" and "NewLocalAuthClientWithSecret J secret = (cl, Inr tk)"
    and "am_local mux = Some (LocalAuthClient_Verify J cl)"
    and "trustedHandler mux order (mq_RequestURI rq) = Inr None" and "bearer_token rq = Some tk"
  shows "\<exists>c. ServeHTTP J mux order rq = Serve (am_handler mux) c
    \<and> (\<forall>p. HasPerm c [] p \<longleftrightarrow> IsValid p) \<and> CtxGetName c = Some DefaultAdminTokenName"
proof -
  let ?pl = "\<lparr>pl_Name = DefaultAdminTokenName, pl_Perm = PermAdmin, pl_Extra = []\<rparr>"
  have sign: "jwt_Sign J ?pl secret = Inr tk" "cl = \<lparr>lc_alg = secret\<rparr>"
    using assms(2) by (auto simp: NewLocalAuthClientWithSecret_def Let_def)
  have utf8: "utf8_payload ?pl"
    by (simp add: utf8_payload_def DefaultAdminTokenName_def perm_defs)
  have "JwtUserFromToken_name J tk = DefaultAdminTokenName"
    using DecodeToken_signed(2) [OF assms(1) sign(1) utf8] by (simp add: JwtUserFromToken_name_eq)
  moreover have "LocalAuthClient_Verify J cl c tk = Inr PermAdmin" for c
    using jwt_ok_verify [OF assms(1) sign(1) utf8] by (simp add: LocalAuthClient_Verify_def sign(2))
  moreover have "q \<in> set (AdaptOldStrategy PermAdmin) \<longleftrightarrow> IsValid q" for q
    by (auto simp: AdaptOldStrategy_def IsValid_iff)
  ultimately show ?thesis
    using assms(3-5) by (simp add: ServeHTTP_def mux_verify_def HasPerm_grants Let_def DefaultAdminTokenName_def)
qed

theorem local_token_admin_witness:
  "\<exists>c. ServeHTTP ex_jwt ex_mux [''/debug/''] ex_mux_rq = Serve ''rpc'' c
    \<and> (\<forall>p. HasPerm c [] p \<longleftrightarrow> IsValid p) \<and> CtxGetName c = Some DefaultAdminTokenName"
proof -
  have h: "am_handler ex_mux = ''rpc''" by (simp add: ex_mux_def TrustHandle_def NewAuthMux_def)
  show ?thesis
  proof (rule local_token_admin [OF ex_jwt_ok, of "''s''" ex_local ex_local_token ex_mux, unfolded h])
    show "NewLocalAuthClientWithSecret ex_jwt ''s'' = (ex_local, Inr ex_local_token)"
      by (simp add: NewLocalAuthClientWithSecret_def ex_local_def ex_jwt_def ex_Sign_def)
    show "am_local ex_mux = Some (LocalAuthClient_Verify ex_jwt ex_local)"
      by (simp add: ex_mux_def TrustHandle_def NewAuthMux_def)
    show "trustedHandler ex_mux [''/debug/''] (mq_RequestURI ex_mux_rq) = Inr None"
      by (simp add: trustedHandler_def ex_mux_def TrustHandle_def NewAuthMux_def)
    show "bearer_token ex_mux_rq = Some ex_local_token"
      by (simp add: bearer_token_def)
  qed
qed

text \<open>
  \<^bold>\<open>C21\<close>: with the auth service as the only client of a mux, a request with a token of valid UTF-8 that gets to
  the handler has a token that the service stores and has not removed; it comes with the stored
  permission and under the stored name, however the mux reads the name out of the token itself.
\<close>

theorem mux_remote:
  assumes "sys_ok (badger_inv K A rng) (badger_view K A) J (w_db w)" and "jwt_ok J marshal" and "wire_ok A W"
    and "am_local mux = None"
    and "am_remote mux = Some (jwtAuthClient_Verify (\<lambda>c tk. snd (AuthClient_Verify (Do_server
      \<lparr>n_srv = badgerService K A rng J, n_ver = ver, n_go_on = go_on, n_env = E, n_wire = W, n_client = cl\<rparr>) tk w)))"
    and "trustedHandler mux order (mq_RequestURI rq) = Inr None" and "CtxGetName (rq_ctx rq) = None"
    and "bearer_token rq = Some tk" "tk \<noteq> []" "utf8 tk"
    and "ServeHTTP J mux order rq = Serve h c"
  shows "\<exists>kp. a_token (badger_view K A (w_db w)) tk = Some kp
    \<and> (\<forall>p. HasPerm c [] p \<longleftrightarrow> p \<in> set (AdaptOldStrategy (kp_Perm kp)))
    \<and> CtxGetName c = (if kp_Name kp = [] then None else Some (kp_Name kp))"
proof (cases rule: ServeHTTP_cases [of J mux order rq])
  case (verified token perm)
  let ?N = "\<lparr>n_srv = badgerService K A rng J, n_ver = ver, n_go_on = go_on, n_env = E, n_wire = W, n_client = cl\<rparr>"
  have tk: "token = tk" using verified(2) assms(8) by simp
  obtain pl where pl: "snd (AuthClient_Verify (Do_server ?N) tk w) = Inr pl" "perm = pl_Perm pl"
    using verified(3) assms(4,5) by (auto simp: tk mux_verify_def jwtAuthClient_Verify_def split: sum.splits)
  then obtain kp where kp: "a_token (badger_view K A (w_db w)) tk = Some kp" "pl = kp_payload kp"
    using bs.client_Verify_sound [of K A rng J w marshal W tk ver go_on E cl pl] assms by auto
  then have "signed_token J kp" "kp_Token kp = tk"
    using sys_okD(3) [OF assms(1)] badger_keyed(1) [OF sys_okD(1) [OF assms(1)]] by (auto simp: live_Some dest: tokens_okD)
  then have "JwtUserFromToken_name J tk = kp_Name kp"
    using signed_token_reads(2) [OF assms(2)] by (intro JwtUserFromToken_name_eq) auto
  then show ?thesis
    using verified(4) assms(7,11) kp pl(2)
    by (auto simp: tk HasPerm_grants Let_def kp_payload_def)
qed (use assms in simp_all)

definition ex_remote :: jwt_client where
  "ex_remote = jwtAuthClient_Verify (\<lambda>c tk. snd (AuthClient_Verify (Do_server (net_of ex_srv ex_net)) tk ex_world))"

abbreviation ex_mux2 :: "string auth_mux" where
  "ex_mux2 \<equiv> NewAuthMux None (Some ex_remote) ''rpc''"

abbreviation ex_mux_rq2 :: mux_request where
  "ex_mux_rq2 \<equiv> ex_mux_rq\<lparr>rq_Authorization := ''Bearer '' @ ex_alice_token\<rparr>"

lemma ex_remote_alice: "ex_remote c ex_alice_token = Inr PermWrite"
proof -
  have "ex_alice_token \<noteq> []" by (simp add: ex_kp_def ex_Sign_def)
  moreover have "utf8 ex_alice_token" by code_simp
  ultimately show ?thesis
    using bs.client_Verify_complete [of ex_K ex_addr id ex_jwt ex_world ex_marshal ex_wire ex_alice_token ex_client,
        unfolded badgerService_sel ex_world_db, OF ex_sys_ok [unfolded ex_world_db] ex_jwt_ok ex_wire_ok _ _ _ ex_bob_kp _ ex_alice_kp]
    by (simp add: ex_remote_def jwtAuthClient_Verify_def net_of_def ex_client_def kp_payload_def IsValid_iff ex_kp_def)
qed

theorem mux_remote_witness:
  "\<exists>c kp. ServeHTTP ex_jwt ex_mux2 [] ex_mux_rq2 = Serve ''rpc'' c \<and> a_token ex_view ex_alice_token = Some kp
    \<and> (\<forall>p. HasPerm c [] p \<longleftrightarrow> p \<in> set (AdaptOldStrategy (kp_Perm kp)))"
proof -
  have served: "\<exists>c. ServeHTTP ex_jwt ex_mux2 [] ex_mux_rq2 = Serve ''rpc'' c"
    by (simp add: ServeHTTP_def trustedHandler_def bearer_token_def mux_verify_def ex_remote_alice NewAuthMux_def Let_def)
  then obtain c where c: "ServeHTTP ex_jwt ex_mux2 [] ex_mux_rq2 = Serve ''rpc'' c" by blast
  have "ex_alice_token \<noteq> []" by (simp add: ex_kp_def ex_Sign_def)
  moreover have "utf8 ex_alice_token" by code_simp
  ultimately show ?thesis
    using mux_remote [OF ex_sys_ok ex_jwt_ok ex_wire_ok _ _ _ _ _ _ _ c, of "[]" True ex_env0 ex_client ex_alice_token] c
    by (auto simp: NewAuthMux_def ex_remote_def net_of_def trustedHandler_def bearer_token_def)
qed

text \<open>
  \<^bold>\<open>C22\<close>: a mux with neither client takes every bearer token: the request gets to the handler without
  any permission, but under whatever name the unverified token claims, and that is enough to pass
  \<open>CheckPermissionByName\<close> for that name.
\<close>

theorem mux_without_clients:
  assumes "am_local mux = None" and "am_remote mux = None"
    and "trustedHandler mux order (mq_RequestURI rq) = Inr None"
    and "bearer_token rq = Some tk" and "JwtUserFromToken J tk = Inr n" and "n \<noteq> []"
  shows "\<exists>c. ServeHTTP J mux order rq = Serve (am_handler mux) c \<and> (\<forall>p. \<not> HasPerm c [] p)
    \<and> CtxGetName c = Some n \<and> CheckPermissionByName c n = Inr ()"
proof -
  have "AdaptOldStrategy [] = []" by (simp add: AdaptOldStrategy_def perm_defs)
  then show ?thesis
    using assms by (simp add: ServeHTTP_def mux_verify_def JwtUserFromToken_name_eq Let_def HasPerm_grants
        CheckPermissionByName_iff)
qed

theorem mux_without_clients_witness:
  "\<exists>c. ServeHTTP ex_jwt (NewAuthMux None None ''rpc'')
      [] (ex_mux_rq\<lparr>rq_Authorization := ''Bearer '' @ ''forged.'' @ b64_Encode (ex_marshal (kp_payload (ex_kp ''alice'' PermWrite))) @ ''.none''\<rparr>) = Serve ''rpc'' c
    \<and> CheckPermissionByName c ''alice'' = Inr ()"
proof -
  let ?tk = "''forged.'' @ b64_Encode (ex_marshal (kp_payload (ex_kp ''alice'' PermWrite))) @ ''.none''"
  let ?rq = "ex_mux_rq\<lparr>rq_Authorization := ''Bearer '' @ ?tk\<rparr>"
  have "JwtUserFromToken ex_jwt ?tk = Inr ''alice''" by code_simp
  then show ?thesis
    using mux_without_clients [of "NewAuthMux None None ''rpc''" "[]" ?rq ?tk ex_jwt "''alice''"]
    by (auto simp: NewAuthMux_def trustedHandler_def bearer_token_def)
qed

section \<open>The client\<close>

lemmas AuthClient_defs = AuthClient_Verify_def AuthClient_GenerateToken_def AuthClient_GetToken_def
  AuthClient_Tokens_def AuthClient_RemoveToken_def AuthClient_RecoverToken_def AuthClient_CreateUser_def
  AuthClient_UpdateUser_def AuthClient_ListUsers_def AuthClient_VerifyUsers_def AuthClient_GetUser_def
  AuthClient_HasUser_def AuthClient_DeleteUser_def AuthClient_RecoverUser_def
  AuthClient_GetUserRateLimit_def AuthClient_UpsertUserRateLimit_def AuthClient_DelUserRateLimit_def
  AuthClient_UpsertMiner_def AuthClient_HasMiner_def AuthClient_MinerExistInUser_def
  AuthClient_ListMiners_def AuthClient_DelMiner_def AuthClient_GetUserByMiner_def
  AuthClient_RegisterSigners_def AuthClient_SignerExistInUser_def AuthClient_ListSigners_def
  AuthClient_UnregisterSigners_def AuthClient_HasSigner_def AuthClient_DelSigner_def
  AuthClient_GetUserBySigner_def

text \<open>
  Every method of the client sends one request, and the router has for its method and path the
  handler of the operation the method is named after.
\<close>

theorem client_routes:
  assumes "addr_NewFromString A t = Inr a"
  shows "leads_to (AuthClient_Verify spy tk) H_Verify
    \<and> leads_to (AuthClient_GenerateToken spy n p x) H_GenerateToken
    \<and> leads_to (AuthClient_GetToken spy n tk) H_GetToken
    \<and> leads_to (AuthClient_Tokens spy skip limit) H_Tokens
    \<and> leads_to (AuthClient_RemoveToken spy tk) H_RemoveToken
    \<and> leads_to (AuthClient_RecoverToken spy tk) H_RecoverToken
    \<and> leads_to (AuthClient_CreateUser spy cu) H_CreateUser
    \<and> leads_to (AuthClient_UpdateUser spy uu) H_UpdateUser
    \<and> leads_to (AuthClient_ListUsers spy skip limit st) H_ListUsers
    \<and> leads_to (AuthClient_VerifyUsers spy ns) H_VerifyUsers
    \<and> leads_to (AuthClient_GetUser spy n) H_GetUser
    \<and> leads_to (AuthClient_HasUser spy n) H_HasUser
    \<and> leads_to (AuthClient_DeleteUser spy n) H_DeleteUser
    \<and> leads_to (AuthClient_RecoverUser spy n) H_RecoverUser
    \<and> leads_to (AuthClient_GetUserRateLimit spy n x) H_GetUserRateLimit
    \<and> leads_to (AuthClient_UpsertUserRateLimit spy l) H_UpsertUserRateLimit
    \<and> leads_to (AuthClient_DelUserRateLimit spy dl) H_DelUserRateLimit
    \<and> leads_to (AuthClient_UpsertMiner spy A n t b) H_UpsertMiner
    \<and> leads_to (AuthClient_HasMiner spy A a) H_HasMiner
    \<and> leads_to (AuthClient_MinerExistInUser spy A n a) H_MinerExistInUser
    \<and> leads_to (AuthClient_ListMiners spy n) H_ListMiners
    \<and> leads_to (AuthClient_DelMiner spy A t) H_DeleteMiner
    \<and> leads_to (AuthClient_GetUserByMiner spy A a) H_GetUserByMiner
    \<and> leads_to (AuthClient_RegisterSigners spy n as') H_RegisterSigners
    \<and> leads_to (AuthClient_SignerExistInUser spy A n a) H_SignerExistInUser
    \<and> leads_to (AuthClient_ListSigners spy n) H_ListSigner
    \<and> leads_to (AuthClient_UnregisterSigners spy n as') H_UnregisterSigners
    \<and> leads_to (AuthClient_HasSigner spy A a) H_HasSigner
    \<and> leads_to (AuthClient_DelSigner spy A t) H_DelSigner
    \<and> leads_to (AuthClient_GetUserBySigner spy A a) H_GetUserBySigner"
  by (intro conjI) (simp add: AuthClient_defs leads_to_def spy_def rest_result_def rest_query_def
      rest_body_def assms NewListUsersRequest_def Let_def route_code routes_def group_def)+

theorem client_routes_witness:
  "leads_to (AuthClient_UpsertMiner spy ex_addr ''alice'' ''f11z'' True) H_UpsertMiner"
proof -
  have "addr_NewFromString ex_addr ''f11z'' = Inr 2" by (simp add: ex_addr_def ex_NewFromString_def ex_String_def numeral_2_eq_2)
  from client_routes [OF this] show ?thesis by blast
qed

text \<open>
  The address a client is made with ends up as a URL whose scheme is http or https, whatever
  the multiaddress or URL it was made from; and a client has a token.
\<close>

theorem client_address:
  assumes "\<forall>x u. url_Scheme L (url_setScheme L x u) = x" and "NewAuthClient L addr token = Inr cl"
  shows "\<exists>u. cli_HostURL cl = url_String L u \<and> url_Scheme L u \<in> {''http'', ''https''}
    \<and> token \<noteq> [] \<and> cli_Authorization cl = ''Bearer '' @ token"
proof -
  from assms(2) obtain s where "ParseAddr L addr = Inr s" "token \<noteq> []"
    "cl = \<lparr>cli_HostURL = s, cli_Authorization = ''Bearer '' @ token\<rparr>"
    by (auto simp: NewAuthClient_def split: if_splits sum.splits)
  then show ?thesis using ParseAddr_scheme [of L addr s] assms(1) by auto
qed

definition ex_url :: "(unit, string \<times> string) url_lib" where
  "ex_url = \<lparr>ma_NewMultiaddr = (\<lambda>s. if prefix ''/'' s then Inr () else Inl (External ''not a multiaddr'')),
     ma_DialArgs = (\<lambda>_. Inr (''tcp'', ''127.0.0.1:8989'')), ma_ValueForProtocol = (\<lambda>_ p. Inr (p = P_WSS)),
     url_Parse = (\<lambda>s. if prefix ''wss://'' s then Inr (''wss'', drop 6 s) else Inr ([], s)),
     url_Scheme = fst, url_setScheme = (\<lambda>x u. (x, snd u)), url_String = (\<lambda>(x, r). x @ ''://'' @ r)\<rparr>"

theorem client_address_witness:
  "\<exists>u. ''https://127.0.0.1:8989'' = url_String ex_url u \<and> url_Scheme ex_url u \<in> {''http'', ''https''}"
proof -
  have "\<forall>x u. url_Scheme ex_url (url_setScheme ex_url x u) = x" by (simp add: ex_url_def)
  moreover have "NewAuthClient ex_url ''/ip4/127.0.0.1/tcp/8989/wss'' ''t'' =
      Inr \<lparr>cli_HostURL = ''https://127.0.0.1:8989'', cli_Authorization = ''Bearer t''\<rparr>"
    by (simp add: NewAuthClient_def ParseAddr_def ex_url_def)
  ultimately show ?thesis using client_address [of ex_url] by fastforce
qed

lemma with_miners_loop_users:
  "map outputUser.truncate (snd (with_miners_loop Do us s)) = us"
  by (induction us arbitrary: s)
    (simp_all add: Let_def case_prod_beta outputUser.defs outputUser_miners.defs)

text \<open>
  \<open>ListUsersWithMiners\<close> fails only when \<open>ListUsers\<close> does, with its error; otherwise it lists the
  same users in the same order, whether or not their miners could be listed.
\<close>

theorem users_with_miners:
  "case snd (AuthClient_ListUsers Do skip limit state s) of
     Inl e \<Rightarrow> snd (AuthClient_ListUsersWithMiners Do skip limit state s) = Inl e
   | Inr us \<Rightarrow> \<exists>us'. snd (AuthClient_ListUsersWithMiners Do skip limit state s) = Inr us' \<and>
       map outputUser.truncate us' = us"
  by (auto simp: AuthClient_ListUsersWithMiners_def case_prod_beta with_miners_loop_users split: sum.split)

text \<open>
  The limiter gives a caller one of the caller's limits that name neither a service nor an
  API, whatever service and API it asks for, and no capacity at all when there is none; so the more
  specific limits never apply.
\<close>

theorem user_limit:
  assumes "cl ctx_Background name [] = Inr res"
  shows "(\<exists>l \<in> set res. rl_Service l = [] \<and> rl_API l = [] \<and> (\<forall>service api.
       GetUserLimit (Some cl) name service api =
         Inr \<lparr>lim_Account = name, lim_Cap = Cap (rl_ReqLimit l), lim_Duration = ResetDur (rl_ReqLimit l)\<rparr>))
     \<or> (\<forall>l \<in> set res. \<not> (rl_Service l = [] \<and> rl_API l = [])) \<and> (\<forall>service api.
       GetUserLimit (Some cl) name service api = Inr \<lparr>lim_Account = name, lim_Cap = 0, lim_Duration = 0\<rparr>)"
proof -
  have same: "GetUserLimit (Some cl) name service api = GetUserLimit (Some cl) name [] []" for service api
    by (simp add: GetUserLimit_def assms Let_def MatchedLimit_find)
  then have "(\<forall>service api. GetUserLimit (Some cl) name service api = x) \<longleftrightarrow>
      GetUserLimit (Some cl) name [] [] = x" for x
    by metis
  then show ?thesis using GetUserLimit_cases [of cl name res "[]" "[]"] assms by simp
qed

definition ex_limits :: "ctx \<Rightarrow> string \<Rightarrow> string \<Rightarrow> user_rate_limit list res" where
  "ex_limits c name lid = Inr [\<lparr>rl_Id = ''L2'', rl_Name = name, rl_Service = ''s'', rl_API = [],
     rl_ReqLimit = \<lparr>Cap = 20, ResetDur = 60\<rparr>\<rparr>]"

theorem user_limit_witness:
  "GetUserLimit (Some ex_limits) ''alice'' ''s'' [] = Inr \<lparr>lim_Account = ''alice'', lim_Cap = 0, lim_Duration = 0\<rparr>"
  using user_limit [of ex_limits "''alice''"] ex_limits_def by fastforce

end
