(* ===== verification/Gauge_Properties.thy ===== *)
theory Gauge_Properties
  imports Store_Properties Service_Properties
begin

text \<open>
  The properties of the gauges on the badger store: how the service starts, and that the token
  gauge stays exact while it runs.
\<close>

text \<open>Migration keeps tokens and users.\<close>

lemma kept_view:
  assumes "kept (db_content K s) (db_content K s')"
  shows "as_token (badger_view K A s') = as_token (badger_view K A s)"
    and "as_user (badger_view K A s') = as_user (badger_view K A s)"
proof -
  have "db_content K s' (tokenKey t) = db_content K s (tokenKey t)"
    "db_content K s' (userKey n) = db_content K s (userKey n)" for t n
    using assms by (simp_all add: kept_def tokenKey_def userKey_def storeVersionKey_def
        PrefixToken_def PrefixUser_def PrefixMiner_def)
  then show "as_token (badger_view K A s') = as_token (badger_view K A s)"
    "as_user (badger_view K A s') = as_user (badger_view K A s)"
    by (simp_all add: badger_view_def token_doc_def user_doc_def fun_eq_iff)
qed

text \<open>A badger database that the service can start on: it lists fewer than \<open>2^63\<close> documents.\<close>

definition startable ::
  "('a obj, 'db, 'txn) badger \<Rightarrow> 'a addr_lib \<Rightarrow> (maped_ratelimit \<Rightarrow> maped_ratelimit) \<Rightarrow> 'db \<Rightarrow> bool" where
  "startable K A rng s \<longleftrightarrow> migration_inv K A rng s \<and> marks_ok (badger_view K A s) \<and>
     finite (dom (as_token (badger_view K A s))) \<and> int (card (dom (as_token (badger_view K A s)))) < 2 ^ 63 \<and>
     int (card (dom (as_user (badger_view K A s)))) < 2 ^ 63"

lemma NewOAuthService_run:
  assumes "startable K A rng s" and "ToLower ty = ''badger''" and "\<And>m. finite (dom m) \<Longrightarrow> set (rngp m) = dom m"
  obtains w where "NewOAuthService my (Inr (badgerStore K A rng, s)) A J rngp rngs now ty =
      Some (Inr (badgerService K A rng J, w))"
    and "badger_inv K A rng (w_db w)" "gauge_ok (badger_view K A) w" "\<And>u. user_gauge w u \<le> 1"
    and "as_user (badger_view K A (w_db w)) = as_user (badger_view K A s)"
    and "as_token (badger_view K A (w_db w)) = as_token (badger_view K A s)" "all_open (db_content K (w_db w))"
proof -
  obtain s' where s': "NewStore my (Inr (badgerStore K A rng, s)) now ty = Some (Inr (badgerStore K A rng, s'))"
    "badger_inv K A rng s'" "kept (db_content K s) (db_content K s')" "all_open (db_content K s')"
    using badger_migration_inv.StoreMigrate_ok [of K A rng s now] assms(1,2)
    by (auto simp: startable_def migration_inv_def NewStore_def)
  note view = kept_view [OF s'(3), of A]
  have marks: "marks_ok (badger_view K A s')"
    using assms(1) by (simp add: startable_def marks_ok_def view)
  obtain tokens users where g: "st_List (badgerStore K A rng) 0 0 s' = Inr tokens"
    "st_ListUsers (badgerStore K A rng) 0 1 UserStateUndefined s' = Inr users" "length users \<le> 1"
    "gauge_ok (badger_view K A) (set_gauges TokenGauge_Set (tokenCount tokens) (rngp (tokenCount tokens))
       \<lparr>w_db = s', w_metrics = []\<rparr>)"
    by (rule bs.start_gauges [OF s'(2) marks assms(3), unfolded badgerService_sel])
      (use assms(1) in \<open>simp_all add: startable_def view\<close>)
  define w where "w = set_gauges (\<lambda>state n. UserGauge_Set (UserState_String state) n) (userCount users)
    (rngs (userCount users)) (set_gauges TokenGauge_Set (tokenCount tokens) (rngp (tokenCount tokens))
       \<lparr>w_db = s', w_metrics = []\<rparr>)"
  show thesis
  proof (rule that)
    show "NewOAuthService my (Inr (badgerStore K A rng, s)) A J rngp rngs now ty =
        Some (Inr (badgerService K A rng J, w))"
      using g(1,2) by (simp add: NewOAuthService_def s'(1) w_def badgerService_def Let_def)
    show "badger_inv K A rng (w_db w)" by (simp add: w_def s'(2))
    show "gauge_ok (badger_view K A) w"
      by (rule gauge_same [OF g(4)]) (simp_all add: w_def)
    show "as_user (badger_view K A (w_db w)) = as_user (badger_view K A s)"
      "as_token (badger_view K A (w_db w)) = as_token (badger_view K A s)" by (simp_all add: w_def view)
    show "all_open (db_content K (w_db w))" by (simp add: w_def s'(4))
    have "user_gauge \<lparr>w_db = s', w_metrics = []\<rparr> u \<le> 1" for u by (simp add: user_gauge_def)
    then show "user_gauge w u \<le> 1" for u
      unfolding w_def by (intro set_gauges_user_le) (use userCount_le [OF g(3)] in auto)
  qed
qed

text \<open>
  \<^bold>\<open>C7\<close>: \<open>NewOAuthService\<close> on a badger database, of whatever store version and in whatever order Go
  visits the counters, returns the service on the migrated store, with the token gauge of every
  permission set to the number of its tokens that have not been removed.
\<close>

theorem NewOAuthService_token_gauge:
  assumes "startable K A rng s" and "ToLower ty = ''badger''" and "\<forall>m. finite (dom m) \<longrightarrow> set (rngp m) = dom m"
  shows "\<exists>w. NewOAuthService my (Inr (badgerStore K A rng, s)) A J rngp rngs now ty =
      Some (Inr (badgerService K A rng J, w))
    \<and> badger_inv K A rng (w_db w) \<and> gauge_ok (badger_view K A) w"
proof (rule NewOAuthService_run [OF assms(1,2), of rngp])
  show "finite (dom m) \<Longrightarrow> set (rngp m) = dom m" for m using assms(3) by simp
qed blast

lemma ex_v0_view: "as_token (badger_view ex_K ex_addr ex_v0) t = None"
  "as_user (badger_view ex_K ex_addr ex_v0) n = Some u \<Longrightarrow> n \<in> {''alice'', ''bob''}"
proof -
  show "as_token (badger_view ex_K ex_addr ex_v0) t = None"
    using ex_v0_content [of "tokenKey t"]
    by (cases "db_content ex_K ex_v0 (tokenKey t)") (auto simp: badger_view_def token_doc_def)
  show "as_user (badger_view ex_K ex_addr ex_v0) n = Some u \<Longrightarrow> n \<in> {''alice'', ''bob''}"
    using ex_v0_content [of "userKey n"]
    by (cases "db_content ex_K ex_v0 (userKey n)") (auto simp: badger_view_def user_doc_def userKey_def)
qed

lemma ex_startable: "startable ex_K ex_addr id ex_v0"
proof -
  have "dom (as_user (badger_view ex_K ex_addr ex_v0)) \<subseteq> {''alice'', ''bob''}"
    using ex_v0_view(2) by auto
  from card_mono [OF _ this] have "card (dom (as_user (badger_view ex_K ex_addr ex_v0))) \<le> 2" by simp
  then show ?thesis
    by (simp add: startable_def ex_v0_inv marks_ok_def ex_v0_view(1) dom_def)
qed

text \<open>An order in which Go may visit a map.\<close>

lemma sorted_keys: "\<forall>m. finite (dom m) \<longrightarrow> set (sorted_list_of_set (dom m)) = dom m"
  by simp

theorem NewOAuthService_token_gauge_witness:
  "\<exists>w. NewOAuthService (Inl (Msg ''no database'')) (Inr (badgerStore ex_K ex_addr id, ex_v0)) ex_addr ex_jwt
      (\<lambda>m. sorted_list_of_set (dom m)) (\<lambda>m. sorted_list_of_set (dom m)) 9 ''Badger'' =
      Some (Inr (ex_srv, w))
    \<and> badger_inv ex_K ex_addr id (w_db w) \<and> gauge_ok (badger_view ex_K ex_addr) w"
  by (rule NewOAuthService_token_gauge [OF ex_startable _ sorted_keys]) (simp add: ToLower_def, code_simp)

text \<open>
  \<^bold>\<open>C6\<close>: while the service serves requests, the token gauge of every permission stays the number of
  tokens with it that have not been removed: it counts no generation, removal or recovery twice,
  and no other request, refused or not, moves it. The requests are \<open>valid_request\<close>s: payloads to be
  signed are valid UTF-8, miners come with the required flag.
\<close>

theorem token_gauge_exact:
  assumes "served (badgerService K A rng J) ver w0 w" and "jwt_ok J marshal"
    and "sys_ok (badger_inv K A rng) (badger_view K A) J (w_db w0)" and "gauge_ok (badger_view K A) w0"
  shows "token_gauge w p = int (card (tokens_with (badger_view K A (w_db w)) p))"
  using bs.served_gauge [of K A rng J marshal w0 ver w] assms by (simp add: gauge_ok_def)

lemma ex_tokens:
  "a_token ex_view t = Some kp \<longleftrightarrow> t = ex_alice_token \<and> kp = ex_kp ''alice'' PermWrite \<or>
     t = kp_Token (ex_kp ''bob'' PermAdmin) \<and> kp = ex_kp ''bob'' PermAdmin"
proof
  assume a: "a_token ex_view t = Some kp"
  then have "db_content ex_K ex_db (tokenKey t) = Some (KeyPairObj kp)"
    by (simp add: badger_view_def token_doc_def live_Some split: option.splits obj.splits)
  then have "KeyPairObj kp \<in> set ex_docs" unfolding ex_db_def by (blast dest: ex_content)
  then have "kp = ex_kp ''alice'' PermWrite \<or> kp = ex_kp ''bob'' PermAdmin" by (auto simp: ex_docs_def)
  moreover have "kp_Token kp = t" using a badger_keyed(1) [OF ex_ok(1)] by (simp add: live_Some)
  ultimately show "t = ex_alice_token \<and> kp = ex_kp ''alice'' PermWrite \<or>
     t = kp_Token (ex_kp ''bob'' PermAdmin) \<and> kp = ex_kp ''bob'' PermAdmin" by auto
qed (use ex_alice_kp ex_bob_kp in auto)

abbreviation ex_gauged :: "ex_db world" where
  "ex_gauged \<equiv> \<lparr>w_db = ex_db, w_metrics = [TokenGauge_Set PermWrite 1, TokenGauge_Set PermAdmin 1]\<rparr>"

lemma ex_gauge_ok: "gauge_ok (badger_view ex_K ex_addr) ex_gauged"
proof -
  have perm: "kp_Perm (ex_kp n p) = p" for n p by (simp add: ex_kp_def)
  have "tokens_with ex_view p = (if p = PermWrite then {ex_alice_token} else {}) \<union>
      (if p = PermAdmin then {kp_Token (ex_kp ''bob'' PermAdmin)} else {})" for p
    by (auto simp: tokens_with_def ex_tokens perm)
  moreover have "marks_ok ex_view"
    unfolding marks_ok_def
  proof (intro allI impI)
    fix t kp
    assume "as_token ex_view t = Some kp"
    then have "db_content ex_K ex_db (tokenKey t) = Some (KeyPairObj kp)"
      by (simp add: badger_view_def token_doc_def split: option.splits obj.splits)
    then have "KeyPairObj kp \<in> set ex_docs" unfolding ex_db_def by (blast dest: ex_content)
    then show "kp_IsDeleted kp \<in> {NotDelete, Deleted}" by (auto simp: ex_docs_def ex_kp_def)
  qed
  moreover have "PermAdmin \<noteq> PermWrite" by (simp add: perm_defs)
  ultimately show ?thesis by (simp add: gauge_ok_def token_gauge_def)
qed

theorem token_gauge_exact_witness:
  "token_gauge (fst (serve ex_srv [] True ex_env0 ex_rq (RRemoveToken (ex_alice_token, None)) ex_gauged)) PermWrite =
     int (card (tokens_with (badger_view ex_K ex_addr
       (w_db (fst (serve ex_srv [] True ex_env0 ex_rq (RRemoveToken (ex_alice_token, None)) ex_gauged)))) PermWrite))"
proof (rule token_gauge_exact [OF served.request [OF served.start] ex_jwt_ok _ ex_gauge_ok])
  show "sys_ok (badger_inv ex_K ex_addr id) (badger_view ex_K ex_addr) ex_jwt (w_db ex_gauged)"
    using ex_sys_ok by simp
qed simp

text \<open>
  \<^bold>\<open>C8\<close>: the user gauge is not such a count: at the start no state's gauge is above one, however many
  users the store holds, because \<open>NewOAuthService\<close> lists a page of one user.
\<close>

theorem user_gauge_at_start:
  assumes "startable K A rng s" and "ToLower ty = ''badger''" and "\<forall>m. finite (dom m) \<longrightarrow> set (rngp m) = dom m"
  shows "\<exists>w. NewOAuthService my (Inr (badgerStore K A rng, s)) A J rngp rngs now ty =
      Some (Inr (badgerService K A rng J, w))
    \<and> as_user (badger_view K A (w_db w)) = as_user (badger_view K A s)
    \<and> (\<forall>u. user_gauge w u \<le> 1)"
proof (rule NewOAuthService_run [OF assms(1,2), of rngp])
  show "finite (dom m) \<Longrightarrow> set (rngp m) = dom m" for m using assms(3) by simp
qed blast

theorem user_gauge_at_start_witness:
  "\<exists>w. NewOAuthService (Inl (Msg ''no database'')) (Inr (badgerStore ex_K ex_addr id, ex_v0)) ex_addr ex_jwt
      (\<lambda>m. sorted_list_of_set (dom m)) (\<lambda>m. sorted_list_of_set (dom m)) 9 ''Badger'' =
      Some (Inr (ex_srv, w))
    \<and> as_user (badger_view ex_K ex_addr (w_db w)) = as_user (badger_view ex_K ex_addr ex_v0)
    \<and> (\<forall>u. user_gauge w u \<le> 1)"
  by (rule user_gauge_at_start [OF ex_startable _ sorted_keys]) (simp add: ToLower_def, code_simp)

end
