(* ===== verification/Middleware.thy ===== *)
theory Middleware
  imports Route
begin

text \<open>
  The two middlewares that run before \<open>permMiddleWare\<close> (auth/route.go): the CORS headers, and the
  rewriting of addresses in the query. Parsing and printing URLs is the parameter \<open>net_url\<close>.
  Proved: after the rewriting the query is the one the client sent, with exactly the values of
  \<open>miner\<close> and \<open>signer\<close> put in quotes, as the JSON decoder of addresses needs them; and that the
  methods the CORS headers allow leave out one that the routes use.
\<close>

section \<open>CORS\<close>

definition Allow_Methods :: string where
  "Allow_Methods = ''GET, POST, DELETE, OPTIONS''"

definition Allow_Headers :: string where
  "Allow_Headers = ''DNT,X-Mx-ReqToken,Keep-Alive,User-Agent,X-Requested-With,'' @
     ''If-Modified-Since,Cache-Control,Content-Type,Authorization,X-Forwarded-For,Origin,'' @
     ''X-Real-Ip,spanId,preHost,svcName''"

text \<open>Nothing ends the request after the answer to \<open>OPTIONS\<close>.\<close>

definition CorsMiddleWare :: "string \<Rightarrow> 'a gin_call list" where
  "CorsMiddleWare method =
     [C_Header ''Access-Control-Allow-Origin'' ''*'',
      C_Header ''Access-Control-Allow-Methods'' Allow_Methods,
      C_Header ''Access-Control-Allow-Headers'' Allow_Headers,
      C_Header ''Content-Type'' ''application/json''] @
     (if method = ''OPTIONS'' then [C_JSON 200 (BString ''ok!'')] else []) @ [C_Next]"

text \<open>The methods a header lists.\<close>

definition listed_methods :: "string \<Rightarrow> string list" where
  "listed_methods h = map (dropWhile (\<lambda>ch. ch = CHR '' '')) (Split h (CHR '',''))"

lemma cors_misses_put:
  "listed_methods Allow_Methods = [''GET'', ''POST'', ''DELETE'', ''OPTIONS''] \<and>
   route ''PUT'' ''/user/new'' = Some H_CreateUser"
  by (simp add: listed_methods_def Allow_Methods_def route_def routes_def group_def)

section \<open>Addresses in the query\<close>

type_synonym query = "(string \<times> string list) list"

record 'u net_url =
  url_Query :: "'u \<Rightarrow> query"
  query_Encode :: "query \<Rightarrow> string"
  ParseRequestURI :: "string \<Rightarrow> 'u res"

text \<open>The parts of gin's request that the middleware uses; \<open>None\<close> is a nil \<open>URL\<close>.\<close>

record 'u gin_request =
  gr_FullPath :: string
  gr_RequestURI :: string
  gr_URL :: "'u option"

definition quote :: "string \<Rightarrow> string" where
  "quote v = CHR 0x22 # v @ [CHR 0x22]"

definition quote_addresses :: "query \<Rightarrow> query" where
  "quote_addresses q = map (\<lambda>(k, params).
     (k, if k = ''miner'' \<or> k = ''signer'' then map quote params else params)) q"

definition RewriteAddressInUrl ::
  "'u net_url \<Rightarrow> 'u gin_request \<Rightarrow> 'u gin_request \<times> 'a gin_call list" where
  "RewriteAddressInUrl L c =
     (case gr_URL c of
        None \<Rightarrow> (c, [C_Panic (Panic ''nil pointer dereference'')])
      | Some u \<Rightarrow>
          if length (url_Query L u) > 0
          then (let queryParams = quote_addresses (url_Query L u);
                    uri = gr_FullPath c @ ''?'' @ query_Encode L queryParams;
                    c = c\<lparr>gr_RequestURI := uri\<rparr>
                in case ParseRequestURI L uri of
                     Inl e \<Rightarrow> (c\<lparr>gr_URL := None\<rparr>,
                       [C_Error (Msg ''fail when rewrite request url''), C_AbortWithStatus 500, C_Next])
                   | Inr u \<Rightarrow> (c\<lparr>gr_URL := Some u\<rparr>, [C_Next]))
          else (c, [C_Next]))"

text \<open>
  Documented behaviour: a query is a map with at least one value for each key, and an encoded one
  that is appended to a path is read back as it was (the order of the keys is the library's).
\<close>

definition query_ok :: "query \<Rightarrow> bool" where
  "query_ok q \<longleftrightarrow> distinct (map fst q) \<and> (\<forall>(k, params) \<in> set q. params \<noteq> [])"

definition net_url_ok :: "'u net_url \<Rightarrow> bool" where
  "net_url_ok L \<longleftrightarrow> (\<forall>u. query_ok (url_Query L u)) \<and>
     (\<forall>p q. query_ok q \<longrightarrow>
        (\<exists>u. ParseRequestURI L (p @ ''?'' @ query_Encode L q) = Inr u \<and> map_of (url_Query L u) = map_of q))"

lemma quote_addresses_ok [simp]: "query_ok (quote_addresses q) = query_ok q"
  by (auto simp: query_ok_def quote_addresses_def case_prod_beta comp_def split: if_splits)

lemma map_of_quote_addresses:
  "map_of (quote_addresses q) k =
     map_option (\<lambda>params. if k = ''miner'' \<or> k = ''signer'' then map quote params else params) (map_of q k)"
  by (induction q) (auto simp: quote_addresses_def)

lemma RewriteAddressInUrl_query:
  assumes "net_url_ok L" and "gr_URL c = Some u"
  shows "\<exists>u'. gr_URL (fst (RewriteAddressInUrl L c)) = Some u' \<and>
    map_of (url_Query L u') k = map_option (\<lambda>params.
      if k = ''miner'' \<or> k = ''signer'' then map quote params else params) (map_of (url_Query L u) k)
    \<and> snd (RewriteAddressInUrl L c) = [C_Next]"
proof (cases "url_Query L u")
  case Nil
  with assms(2) show ?thesis by (simp add: RewriteAddressInUrl_def)
next
  case (Cons x q)
  let ?q = "quote_addresses (url_Query L u)"
  have "query_ok ?q" using assms(1) by (simp add: net_url_ok_def)
  then obtain u' where u': "ParseRequestURI L (gr_FullPath c @ ''?'' @ query_Encode L ?q) = Inr u'"
    "map_of (url_Query L u') = map_of ?q"
    using assms(1) unfolding net_url_ok_def by blast
  show ?thesis
    using Cons assms(2) u' by (simp add: RewriteAddressInUrl_def Let_def map_of_quote_addresses)
qed

end
