(* ===== verification/Reach_Properties.thy ===== *)
theory Reach_Properties
  imports Instances
begin

text \<open>
  What can be had in every state that requests reach, on the badger store: complete listings, which
  never stop at a failed type assertion or a nil pointer, and a token for every user there is.
\<close>

text \<open>
  \<^bold>\<open>C17\<close>: in every state that requests reach, the payload of each stored token has the string members
  that the type assertions of \<open>toTokenInfo\<close> need, and each miner the flag that \<open>ListMiners\<close>
  dereferences: for an administrator and for the user, the listings of a user's tokens, miners and
  signers do not panic and return exactly the user's live ones, each once. The requests are
  \<open>valid_request\<close>s: payloads to be signed are valid UTF-8, miners come with the required flag.
\<close>

theorem listings_complete:
  assumes "served (badgerService K A rng J) ver w0 w"
    and "sys_ok (badger_inv K A rng) (badger_view K A) J (w_db w0)" and "jwt_ok J marshal"
    and "grants c PermAdmin \<or> CtxGetName c = Some n"
  defines "st \<equiv> badger_view K A (w_db w)"
  shows "(\<exists>kps. sv_GetTokenByName (badgerService K A rng J) c n w = Inr (map kp_info kps) \<and> distinct kps \<and>
        set kps = {kp. a_token st (kp_Token kp) = Some kp \<and> kp_Name kp = n})
    \<and> (\<exists>ms. sv_ListMiners (badgerService K A rng J) c n w = Inr (map out_miner ms) \<and> distinct ms \<and>
        set ms = {m. a_miner st (mn_Miner m) = Some m \<and> mn_User m = n})
    \<and> (\<exists>gs. sv_ListSigner (badgerService K A rng J) c n w = Inr (map out_signer gs) \<and> distinct gs \<and>
        set gs = {g. a_signer st (sn_Signer g) n = Some g \<and> sn_User g = n})"
proof -
  have ok: "sys_ok (badger_inv K A rng) (badger_view K A) J (w_db w)"
    by (rule bs.served_ok [OF assms(1), unfolded badgerService_sel, OF assms(2)])
  note I = sys_okD [OF ok]
  show ?thesis unfolding st_def
    by (intro conjI; rule bs.GetTokenByName_eq [OF I(1) _ _ assms(4), of J marshal]
          bs.ListMiners_eq [OF I(1) assms(4) I(4), of J] bs.ListSigner_eq [OF I(1) assms(4), of J])
      (use assms(3) I(3) in auto)
qed

theorem listings_complete_witness:
  "\<exists>ms. sv_ListMiners ex_srv ex_admin ''alice'' ex_world = Inr (map out_miner ms) \<and> distinct ms \<and>
     set ms = {m. a_miner (badger_view ex_K ex_addr (w_db ex_world)) (mn_Miner m) = Some m \<and> mn_User m = ''alice''}"
  by (rule listings_complete [OF served.start ex_sys_ok ex_jwt_ok, THEN conjunct2, THEN conjunct1]) simp

text \<open>
  \<^bold>\<open>C12\<close>: from every state that requests reach, as long as one administrator's token is stored and not
  removed, a token can be had for every stored user whose name is valid UTF-8 and every payload of
  valid UTF-8 with the user's name that the library signs: a further request leads to a state where
  the middleware admits requests with that token as that user, with that permission. (JSON cannot
  carry a name that is not valid UTF-8; Go's decoder delivers none.)
\<close>

theorem token_reachable:
  assumes "served (badgerService K A rng J) ver w0 w"
    and "sys_ok (badger_inv K A rng) (badger_view K A) J (w_db w0)" and "jwt_ok J marshal"
    and "a_token (badger_view K A (w_db w)) atk = Some akp" "kp_Perm akp = PermAdmin"
    and "a_user (badger_view K A (w_db w)) (pl_Name pl) \<noteq> None" and "utf8_payload pl"
    and "jwt_Sign J pl secret = Inr tk"
  shows "\<exists>w'. served (badgerService K A rng J) ver w0 w' \<and>
    (\<forall>rq. bearer_token rq = Some tk \<longrightarrow> verified (badgerService K A rng J) rq (w_db w') = Some pl)"
proof -
  have ok: "sys_ok (badger_inv K A rng) (badger_view K A) J (w_db w)"
    by (rule bs.served_ok [OF assms(1), unfolded badgerService_sel, OF assms(2)])
  let ?rq = "\<lparr>rq_Authorization = ''Bearer '' @ atk, rq_FormToken = [], rq_ctx = ctx_Background\<rparr>"
  let ?E = "\<lparr>ce_now = 1, ce_rand = Inr secret, ce_uuid = Inr [], ce_limit_id = []\<rparr>"
  let ?req = "RGenerateToken (\<lparr>gt_Name = pl_Name pl, gt_Perm = pl_Perm pl, gt_Extra = pl_Extra pl\<rparr>, None)"
  have bearer: "bearer_token ?rq = Some atk" by (simp add: bearer_token_def)
  have "valid_request ?req" using assms(7) by (cases pl) simp
  then have "served (badgerService K A rng J) ver w0 (fst (serve (badgerService K A rng J) ver True ?E ?rq ?req w))"
    by (rule served.request [OF assms(1)])
  moreover have "verified (badgerService K A rng J) rq
      (w_db (fst (serve (badgerService K A rng J) ver True ?E ?rq ?req w))) = Some pl" if "bearer_token rq = Some tk" for rq
    by (rule bs.serve_GenerateToken(3) [where K = K and A = A and rng = rng and J = J, unfolded badgerService_sel,
          OF ok assms(3) bearer assms(4-7) _ assms(8) that]) simp
  ultimately show ?thesis by blast
qed

theorem token_reachable_witness:
  "\<exists>w'. served ex_srv [] ex_world w' \<and> (\<forall>rq. bearer_token rq =
       Some (projr (ex_Sign \<lparr>pl_Name = ''alice'', pl_Perm = PermSign, pl_Extra = []\<rparr> ''s'')) \<longrightarrow>
     verified ex_srv rq (w_db w') = Some \<lparr>pl_Name = ''alice'', pl_Perm = PermSign, pl_Extra = []\<rparr>)"
proof (rule token_reachable [OF served.start ex_sys_ok ex_jwt_ok, where secret = "''s''"])
  show "a_token (badger_view ex_K ex_addr (w_db ex_world)) (kp_Token (ex_kp ''bob'' PermAdmin)) = Some (ex_kp ''bob'' PermAdmin)"
    by (simp add: ex_bob_kp)
  show "a_user (badger_view ex_K ex_addr (w_db ex_world)) (pl_Name \<lparr>pl_Name = ''alice'', pl_Perm = PermSign, pl_Extra = []\<rparr>) \<noteq> None"
    unfolding badger_view_def cview_sel mem_content by code_simp
qed (simp_all add: ex_kp_def utf8_payload_def perm_defs ex_jwt_def ex_Sign_def)

end
