(* ===== verification/Gorm.thy ===== *)
theory Gorm
  imports Store_Types "HOL-Library.Multiset"
begin

text \<open>
  The SQL library (gorm on MySQL) as a parameter: the calls that storage/mysql.go makes on the
  tables, and the documented behaviour the proofs rely on, as the predicate \<open>gorm_laws\<close>. The theory
  \<open>Gorm_Memory\<close> has an instance that satisfies it.
\<close>

section \<open>Columns\<close>

datatype sql_val = Str string | Num int | Time time | Null

text \<open>
  The columns of the tables, by the \<open>gorm\<close> tags of storage/store.go, except \<open>reqLimit\<close>, which no query
  names. An \<open>ID\<close> without a tag is the column \<open>id\<close> and the primary key, by gorm's convention.
\<close>

definition KeyPair_col :: "key_pair \<Rightarrow> string \<Rightarrow> sql_val" where
  "KeyPair_col kp c =
     (if c = ''name'' then Str (kp_Name kp) else if c = ''perm'' then Str (kp_Perm kp)
      else if c = ''secret'' then Str (kp_Secret kp) else if c = ''extra'' then Str (kp_Extra kp)
      else if c = ''token'' then Str (kp_Token kp) else if c = ''createTime'' then Time (kp_CreateTime kp)
      else if c = ''is_deleted'' then Num (kp_IsDeleted kp) else Null)"

definition User_col :: "user \<Rightarrow> string \<Rightarrow> sql_val" where
  "User_col u c =
     (if c = ''id'' then Str (usr_Id u) else if c = ''name'' then Str (usr_Name u)
      else if c = ''comment'' then Str (usr_Comment u) else if c = ''state'' then Num (usr_State u)
      else if c = ''createTime'' then Time (usr_CreateTime u)
      else if c = ''updateTime'' then Time (usr_UpdateTime u)
      else if c = ''is_deleted'' then Num (usr_IsDeleted u) else Null)"

definition stamp_col :: "('x) orm_timestamp_scheme \<Rightarrow> string \<Rightarrow> sql_val" where
  "stamp_col m c =
     (if c = ''created_at'' then Time (CreatedAt m) else if c = ''updated_at'' then Time (UpdatedAt m)
      else if c = ''deleted_at'' \<and> da_Valid (DeletedAt m) then Time (da_Time (DeletedAt m)) else Null)"

definition Miner_col :: "'a addr_lib \<Rightarrow> 'a miner \<Rightarrow> string \<Rightarrow> sql_val" where
  "Miner_col A m c =
     (if c = ''id'' then Num (int (mn_ID m)) else if c = ''miner'' then Str (storedAddress_Value A (mn_Miner m))
      else if c = ''user'' then Str (mn_User m)
      else if c = ''open_mining'' then
        (case mn_OpenMining m of None \<Rightarrow> Null | Some b \<Rightarrow> Num (if b then 1 else 0))
      else stamp_col m c)"

definition Signer_col :: "'a addr_lib \<Rightarrow> 'a signer \<Rightarrow> string \<Rightarrow> sql_val" where
  "Signer_col A m c =
     (if c = ''id'' then Num (int (sn_ID m)) else if c = ''signer'' then Str (storedAddress_Value A (sn_Signer m))
      else if c = ''user'' then Str (sn_User m) else stamp_col m c)"

definition RateLimit_col :: "user_rate_limit \<Rightarrow> string \<Rightarrow> sql_val" where
  "RateLimit_col l c =
     (if c = ''id'' then Str (rl_Id l) else if c = ''name'' then Str (rl_Name l)
      else if c = ''service'' then Str (rl_Service l) else if c = ''api'' then Str (rl_API l) else Null)"

definition Version_col :: "store_version \<Rightarrow> string \<Rightarrow> sql_val" where
  "Version_col v c =
     (if c = ''id'' then Num (int (sv_ID v)) else if c = ''version'' then Num (int (sv_Version v)) else Null)"

text \<open>
  The column \<open>reqLimit\<close> is JSON. \<open>Scan\<close> gets a value of the driver, \<open>Inl\<close> when it is not a byte string
  (with its text); JSON decodes into the limit that is there. Both JSON functions are parameters.
\<close>

definition ReqLimit_Value :: "(req_limit \<Rightarrow> string res) \<Rightarrow> req_limit \<Rightarrow> string res" where
  "ReqLimit_Value json_Marshal rl = json_Marshal rl"

definition ReqLimit_Scan ::
  "(string \<Rightarrow> req_limit \<Rightarrow> req_limit \<times> err option) \<Rightarrow> string + string \<Rightarrow> req_limit \<Rightarrow> req_limit \<times> err option" where
  "ReqLimit_Scan json_Unmarshal value rl =
     (case value of
        Inl v \<Rightarrow> (rl, Some (Msg (''failed to unmarshal JSONB value: '' @ v)))
      | Inr bytes \<Rightarrow>
          if length bytes = 0 then (\<lparr>Cap = 0, ResetDur = 0\<rparr>, None)
          else json_Unmarshal bytes rl)"

lemma ReqLimit_roundtrip:
  assumes "\<And>x y. \<exists>bs. json_Marshal x = Inr bs \<and> bs \<noteq> [] \<and> json_Unmarshal bs y = (x, None)"
  obtains bs where "ReqLimit_Value json_Marshal rl = Inr bs" "ReqLimit_Scan json_Unmarshal (Inr bs) old = (rl, None)"
  using assms [of rl old] by (auto simp: ReqLimit_Value_def ReqLimit_Scan_def)

lemmas col_defs = KeyPair_col_def User_col_def stamp_col_def Miner_col_def Signer_col_def
  RateLimit_col_def Version_col_def

section \<open>The calls\<close>

text \<open>
  Every condition in the code is a conjunction of equations between a column and a value;
  \<open>Null\<close> stands for \<open>IS NULL\<close>.
\<close>

type_synonym cond = "(string \<times> sql_val) list"

definition holds :: "('row \<Rightarrow> string \<Rightarrow> sql_val) \<Rightarrow> cond \<Rightarrow> 'row \<Rightarrow> bool" where
  "holds col ps row \<longleftrightarrow> (\<forall>(c, v) \<in> set ps. col row c = v)"

record query =
  q_Where :: cond
  q_Order :: "string option"
  q_Offset :: int
  q_Limit :: int

definition find_where :: "cond \<Rightarrow> query" where
  "find_where ps = \<lparr>q_Where = ps, q_Order = None, q_Offset = 0, q_Limit = 0\<rparr>"

text \<open>\<open>clause.OnConflict\<close> with its columns and \<open>UpdateAll\<close>, or no such clause.\<close>

datatype on_conflict = NoClause | UpdateAll "string list"

text \<open>The order of \<open>ORDER BY\<close> on a column: \<open>NULL\<close> comes first. A column has values of one type only.\<close>

fun sql_le :: "sql_val \<Rightarrow> sql_val \<Rightarrow> bool" where
  "sql_le Null y = True"
| "sql_le (Num x) y = (case y of Num y \<Rightarrow> x \<le> y | Null \<Rightarrow> False | _ \<Rightarrow> True)"
| "sql_le (Time x) y = (case y of Time y \<Rightarrow> x \<le> y | Str y \<Rightarrow> True | _ \<Rightarrow> False)"
| "sql_le (Str x) y = (case y of Str y \<Rightarrow> x \<le> y | _ \<Rightarrow> False)"

instantiation sql_val :: linorder
begin

definition less_eq_sql_val :: "sql_val \<Rightarrow> sql_val \<Rightarrow> bool" where
  "x \<le> y \<longleftrightarrow> sql_le x y" for x y :: sql_val

definition less_sql_val :: "sql_val \<Rightarrow> sql_val \<Rightarrow> bool" where
  "x < y \<longleftrightarrow> sql_le x y \<and> \<not> sql_le y x" for x y :: sql_val

instance
proof
  fix x y z :: sql_val
  show "x \<le> x" by (cases x) (simp_all add: less_eq_sql_val_def)
  show "x \<le> y \<or> y \<le> x" by (cases x; cases y) (auto simp: less_eq_sql_val_def)
  show "x < y \<longleftrightarrow> x \<le> y \<and> \<not> y \<le> x" by (simp add: less_sql_val_def less_eq_sql_val_def)
  show "x \<le> y \<Longrightarrow> y \<le> x \<Longrightarrow> x = y" by (cases x; cases y) (auto simp: less_eq_sql_val_def)
  show "x \<le> y \<Longrightarrow> y \<le> z \<Longrightarrow> x \<le> z" by (cases x; cases y; cases z) (auto simp: less_eq_sql_val_def)
qed

end

text \<open>
  The calls on one table. The first argument of \<open>tb_Count\<close> tells whether the statement has a
  model (\<open>Model(&T{})\<close>): then rows with a \<open>deleted_at\<close> are left out, as they are in all other calls;
  a count on \<open>Table("...")\<close> sees them. \<open>tb_Delete\<close> returns \<open>RowsAffected\<close>. A call that writes
  returns the new state. gorm reads the clock for the columns it fills itself.
\<close>

record ('row, 's) gorm_table =
  tb_Count :: "bool \<Rightarrow> cond \<Rightarrow> 's \<Rightarrow> int res"
  tb_Take :: "cond \<Rightarrow> 's \<Rightarrow> 'row res"
  tb_First :: "cond \<Rightarrow> 's \<Rightarrow> 'row res"
  tb_Find :: "query \<Rightarrow> 's \<Rightarrow> 'row list res"
  tb_Update :: "cond \<Rightarrow> (string \<times> sql_val) list \<Rightarrow> 's \<Rightarrow> 's \<times> unit res"
  tb_Create :: "on_conflict \<Rightarrow> 'row \<Rightarrow> 's \<Rightarrow> 's \<times> unit res"
  tb_Save :: "'row \<Rightarrow> 's \<Rightarrow> 's \<times> unit res"
  tb_Delete :: "cond \<Rightarrow> 's \<Rightarrow> 's \<times> int res"

text \<open>
  \<open>g_JoinMiners p q\<close> is \<open>Model(&Miner{}).Select("users.*").Joins("inner join users on ...")\<close> where the
  condition is \<open>p\<close> on miners, \<open>q\<close> on users, and \<open>users.name = miners.user\<close>; the rows it scans.
  \<open>g_ScanUsers\<close> scans the columns \<open>name\<close> and \<open>miner\<close> (of databases of version 0) of all users.
\<close>

record ('a, 's) gorm =
  g_token :: "(key_pair, 's) gorm_table"
  g_users :: "(user, 's) gorm_table"
  g_miners :: "('a miner, 's) gorm_table"
  g_signers :: "('a signer, 's) gorm_table"
  g_limits :: "(user_rate_limit, 's) gorm_table"
  g_version :: "(store_version, 's) gorm_table"
  g_JoinMiners :: "cond \<Rightarrow> cond \<Rightarrow> 's \<Rightarrow> user list res"
  g_JoinSigners :: "cond \<Rightarrow> cond \<Rightarrow> 's \<Rightarrow> user list res"
  g_ScanUsers :: "'s \<Rightarrow> (string \<times> string) list res"
  g_HasColumn :: "string \<Rightarrow> 's \<Rightarrow> bool"
  g_Exec :: "string \<Rightarrow> 's \<Rightarrow> 's \<times> unit res"
  g_Begin :: "'s \<Rightarrow> 's res"
  g_Commit :: "'s \<Rightarrow> 's res"

text \<open>
  \<open>db.Transaction(fn)\<close>, as documented: an error of \<open>fn\<close> rolls back, else the transaction is committed.
  That MySQL does not roll back data definition (\<open>alter table\<close>) is left out: after a failure inside a
  transaction that has altered a table, the state here is the one before it.
\<close>

definition db_Transaction :: "('a, 's) gorm \<Rightarrow> 's \<Rightarrow> ('s \<Rightarrow> 's \<times> 'r res) \<Rightarrow> 's \<times> 'r res" where
  "db_Transaction G s fn =
     (case g_Begin G s of
        Inl e \<Rightarrow> (s, Inl e)
      | Inr tx \<Rightarrow>
          (case fn tx of
             (tx, Inl e) \<Rightarrow> (s, Inl e)
           | (tx, Inr r) \<Rightarrow> (case g_Commit G tx of Inl e \<Rightarrow> (s, Inl e) | Inr s \<Rightarrow> (s, Inr r))))"

lemma db_Transaction_atomic: "snd (db_Transaction G s fn) = Inl e \<Longrightarrow> fst (db_Transaction G s fn) = s"
  by (auto simp: db_Transaction_def split: sum.splits prod.splits)

section \<open>Documented behaviour\<close>

text \<open>
  The definition of a table, as far as the migrations change it: the columns, those of the primary
  key, the column that counts up, and the other indexes. The rows of the tables; \<open>sq_miners_def\<close> is the
  definition of the table of miners, \<open>sq_legacy\<close> the column \<open>miner\<close> that users had in version 0.
\<close>

record index_def =
  ix_name :: string
  ix_unique :: bool
  ix_columns :: "string list"

record table_def =
  td_columns :: "string list"
  td_primary :: "string list"
  td_auto :: "string option"
  td_indexes :: "index_def list"

record 'a sqldb =
  sq_token :: "key_pair list"
  sq_users :: "user list"
  sq_miners :: "'a miner list"
  sq_signers :: "'a signer list"
  sq_limits :: "user_rate_limit list"
  sq_version :: "store_version list"
  sq_miners_def :: table_def
  sq_legacy :: "string \<Rightarrow> string"

text \<open>
  What the library and the server know of a table: its rows, the columns, whether rows are deleted
  by a mark, the row after a deletion, after an update of columns, the row a \<open>Create\<close> stores (time
  and id are the ones filled in), the row after a \<open>Create\<close> that meets an old one, whether two rows
  share a unique key, and whether they share the primary key.
\<close>

record ('a, 'row) schema =
  sc_rows :: "'a sqldb \<Rightarrow> 'row list"
  sc_put :: "'row list \<Rightarrow> 'a sqldb \<Rightarrow> 'a sqldb"
  sc_col :: "'row \<Rightarrow> string \<Rightarrow> sql_val"
  sc_soft :: bool
  sc_remove :: "time \<Rightarrow> 'row \<Rightarrow> 'row option"
  sc_set :: "(string \<times> sql_val) list \<Rightarrow> 'row \<Rightarrow> 'row"
  sc_new :: "time \<Rightarrow> nat \<Rightarrow> 'row \<Rightarrow> 'row"
  sc_merge :: "'row \<Rightarrow> 'row \<Rightarrow> 'row"
  sc_clash :: "'row \<Rightarrow> 'row \<Rightarrow> bool"
  sc_same_pk :: "'row \<Rightarrow> 'row \<Rightarrow> bool"

text \<open>The rows a call selects.\<close>

definition selects :: "('a, 'row) schema \<Rightarrow> bool \<Rightarrow> cond \<Rightarrow> 'row \<Rightarrow> bool" where
  "selects T model ps row \<longleftrightarrow> holds (sc_col T) ps row
     \<and> (model \<and> sc_soft T \<longrightarrow> sc_col T row ''deleted_at'' = Null)"

abbreviation selected :: "('a, 'row) schema \<Rightarrow> bool \<Rightarrow> cond \<Rightarrow> 'a sqldb \<Rightarrow> 'row list" where
  "selected T model ps c \<equiv> filter (selects T model ps) (sc_rows T c)"

text \<open>
  The laws of a table in a state, for a server that can be reached, values that fit their columns, and
  columns whose collation compares text byte by byte (a \<open>_bin\<close> collation; the default of MySQL does
  not tell upper from lower case). \<open>OFFSET\<close> without \<open>LIMIT\<close> is not SQL, and gorm leaves
  out a limit of zero.
\<close>

definition table_ok ::
  "('s \<Rightarrow> 'a sqldb) \<Rightarrow> ('a, 'row) schema \<Rightarrow> ('row, 's) gorm_table \<Rightarrow> 's \<Rightarrow> bool" where
  "table_ok db T t s \<longleftrightarrow>
     (\<forall>model ps. tb_Count t model ps s = Inr (int (length (selected T model ps (db s))))) \<and>
     (\<forall>ps. selected T True ps (db s) = [] \<longrightarrow> tb_Take t ps s = Inl ErrRecordNotFound) \<and>
     (\<forall>ps. selected T True ps (db s) \<noteq> [] \<longrightarrow>
        (\<exists>row \<in> set (selected T True ps (db s)). tb_Take t ps s = Inr row)) \<and>
     (\<forall>ps. selected T True ps (db s) = [] \<longrightarrow> tb_First t ps s = Inl ErrRecordNotFound) \<and>
     (\<forall>ps. selected T True ps (db s) \<noteq> [] \<longrightarrow>
        (\<exists>row \<in> set (selected T True ps (db s)). tb_First t ps s = Inr row)) \<and>
     (\<forall>q. 0 \<le> q_Offset q \<longrightarrow> 0 \<le> q_Limit q \<longrightarrow> q_Offset q = 0 \<or> 0 < q_Limit q \<longrightarrow>
        (\<exists>rows. mset rows = mset (selected T True (q_Where q) (db s)) \<and>
           (\<forall>c. q_Order q = Some c \<longrightarrow> sorted (map (\<lambda>x. sc_col T x c) rows)) \<and>
           tb_Find t q s = Inr (page_of (q_Offset q) (q_Limit q) rows))) \<and>
     (\<forall>ps sets. \<exists>s'. tb_Update t ps sets s = (s', Inr ()) \<and>
        db s' = sc_put T (map (\<lambda>row. if selects T True ps row then sc_set T sets row else row)
                            (sc_rows T (db s))) (db s)) \<and>
     (\<forall>oc row. filter (sc_clash T row) (sc_rows T (db s)) = [] \<longrightarrow>
        (\<exists>s' now n. \<not> IsZero now \<and> tb_Create t oc row s = (s', Inr ()) \<and>
           db s' = sc_put T (sc_rows T (db s) @ [sc_new T now n row]) (db s))) \<and>
     (\<forall>row. filter (sc_clash T row) (sc_rows T (db s)) \<noteq> [] \<longrightarrow>
        (\<exists>e. tb_Create t NoClause row s = (s, Inl e))) \<and>
     (\<forall>cols row old. filter (sc_clash T row) (sc_rows T (db s)) = [old] \<longrightarrow>
        (\<exists>s' now n. \<not> IsZero now \<and> tb_Create t (UpdateAll cols) row s = (s', Inr ()) \<and>
           db s' = sc_put T (map (\<lambda>r. if sc_clash T row r then sc_merge T r (sc_new T now n row) else r)
                               (sc_rows T (db s))) (db s))) \<and>
     (\<forall>row. filter (sc_clash T row) (sc_rows T (db s)) = [] \<longrightarrow>
        (\<exists>s'. tb_Save t row s = (s', Inr ()) \<and> db s' = sc_put T (sc_rows T (db s) @ [row]) (db s))) \<and>
     (\<forall>row old. filter (sc_clash T row) (sc_rows T (db s)) = [old] \<longrightarrow> sc_same_pk T row old \<longrightarrow>
        (\<exists>s'. tb_Save t row s = (s', Inr ()) \<and>
           db s' = sc_put T (map (\<lambda>r. if sc_clash T row r then row else r) (sc_rows T (db s))) (db s))) \<and>
     (\<forall>ps. \<exists>s' now. \<not> IsZero now \<and>
        tb_Delete t ps s = (s', Inr (int (length (selected T True ps (db s))))) \<and>
        db s' = sc_put T (concat (map (\<lambda>row. if selects T True ps row
                             then (case sc_remove T now row of None \<Rightarrow> [] | Some r \<Rightarrow> [r]) else [row])
                            (sc_rows T (db s)))) (db s))"

lemmas table_law0 = table_ok_def [THEN iffD1]
lemmas table_law1 = table_law0 [THEN conjunct2]
lemmas table_law2 = table_law1 [THEN conjunct2]
lemmas table_law3 = table_law2 [THEN conjunct2]
lemmas table_law4 = table_law3 [THEN conjunct2]
lemmas table_law5 = table_law4 [THEN conjunct2]
lemmas table_law6 = table_law5 [THEN conjunct2]
lemmas table_law7 = table_law6 [THEN conjunct2]
lemmas table_law8 = table_law7 [THEN conjunct2]
lemmas table_law9 = table_law8 [THEN conjunct2]
lemmas table_law10 = table_law9 [THEN conjunct2]
lemmas table_law11 = table_law10 [THEN conjunct2]
lemmas table_law12 = table_law11 [THEN conjunct2]

lemmas table_Count = table_law0 [THEN conjunct1, rule_format]
lemmas table_Take_none = table_law1 [THEN conjunct1, rule_format]
lemmas table_Take = table_law2 [THEN conjunct1, rule_format]
lemmas table_First_none = table_law3 [THEN conjunct1, rule_format]
lemmas table_First = table_law4 [THEN conjunct1, rule_format]
lemmas table_Find = table_law5 [THEN conjunct1, rule_format]
lemmas table_Update = table_law6 [THEN conjunct1, rule_format]
lemmas table_Create = table_law7 [THEN conjunct1, rule_format]
lemmas table_Create_dup = table_law8 [THEN conjunct1, rule_format]
lemmas table_Create_merge = table_law9 [THEN conjunct1, rule_format]
lemmas table_Save_new = table_law10 [THEN conjunct1, rule_format]
lemmas table_Save_old = table_law11 [THEN conjunct1, rule_format]
lemmas table_Delete = table_law12 [rule_format]

section \<open>The tables\<close>

text \<open>Columns that the code updates by name are those of a token.\<close>

fun KeyPair_set1 :: "string \<times> sql_val \<Rightarrow> key_pair \<Rightarrow> key_pair" where
  "KeyPair_set1 (c, Str x) kp =
     (if c = ''name'' then kp\<lparr>kp_Name := x\<rparr> else if c = ''perm'' then kp\<lparr>kp_Perm := x\<rparr>
      else if c = ''secret'' then kp\<lparr>kp_Secret := x\<rparr> else if c = ''extra'' then kp\<lparr>kp_Extra := x\<rparr>
      else if c = ''token'' then kp\<lparr>kp_Token := x\<rparr> else kp)"
| "KeyPair_set1 (c, Time x) kp = (if c = ''createTime'' then kp\<lparr>kp_CreateTime := x\<rparr> else kp)"
| "KeyPair_set1 (c, Num x) kp = (if c = ''is_deleted'' then kp\<lparr>kp_IsDeleted := x\<rparr> else kp)"
| "KeyPair_set1 (c, Null) kp = kp"

definition token_schema :: "('a, key_pair) schema" where
  "token_schema = \<lparr>sc_rows = sq_token, sc_put = (\<lambda>rows c. c\<lparr>sq_token := rows\<rparr>),
     sc_col = KeyPair_col, sc_soft = False, sc_remove = (\<lambda>_ _. None), sc_set = fold KeyPair_set1,
     sc_new = (\<lambda>_ _ row. row), sc_merge = (\<lambda>old row. row),
     sc_clash = (\<lambda>row old. kp_Token row = kp_Token old), sc_same_pk = (\<lambda>_ _. False)\<rparr>"

definition users_schema :: "('a, user) schema" where
  "users_schema = \<lparr>sc_rows = sq_users, sc_put = (\<lambda>rows c. c\<lparr>sq_users := rows\<rparr>),
     sc_col = User_col, sc_soft = False, sc_remove = (\<lambda>_ _. None), sc_set = (\<lambda>_ row. row),
     sc_new = (\<lambda>_ _ row. row), sc_merge = (\<lambda>old row. row\<lparr>usr_Id := usr_Id old\<rparr>),
     sc_clash = (\<lambda>row old. usr_Id row = usr_Id old \<or> usr_Name row = usr_Name old),
     sc_same_pk = (\<lambda>row old. usr_Id row = usr_Id old)\<rparr>"

text \<open>
  gorm fills in a new row: the two times when they are zero, the id, and the default of
  \<open>open_mining\<close>. An \<open>UpdateAll\<close> keeps the primary key and \<open>created_at\<close> of the old row.
\<close>

definition stamp_new :: "time \<Rightarrow> time \<Rightarrow> time" where
  "stamp_new now t = (if IsZero t then now else t)"

definition Miner_new :: "time \<Rightarrow> nat \<Rightarrow> 'a miner \<Rightarrow> 'a miner" where
  "Miner_new now n m = m\<lparr>CreatedAt := stamp_new now (CreatedAt m), UpdatedAt := stamp_new now (UpdatedAt m),
     mn_ID := (if mn_ID m = 0 then n else mn_ID m),
     mn_OpenMining := (case mn_OpenMining m of None \<Rightarrow> Some True | Some b \<Rightarrow> Some b)\<rparr>"

definition Miner_merge :: "'a miner \<Rightarrow> 'a miner \<Rightarrow> 'a miner" where
  "Miner_merge old m = m\<lparr>CreatedAt := CreatedAt old, mn_ID := mn_ID old\<rparr>"

definition Signer_new :: "time \<Rightarrow> nat \<Rightarrow> 'a signer \<Rightarrow> 'a signer" where
  "Signer_new now n m = m\<lparr>CreatedAt := stamp_new now (CreatedAt m), UpdatedAt := stamp_new now (UpdatedAt m),
     sn_ID := (if sn_ID m = 0 then n else sn_ID m)\<rparr>"

definition Signer_merge :: "'a signer \<Rightarrow> 'a signer \<Rightarrow> 'a signer" where
  "Signer_merge old m = m\<lparr>CreatedAt := CreatedAt old, sn_ID := sn_ID old\<rparr>"

definition miners_schema :: "'a addr_lib \<Rightarrow> ('a, 'a miner) schema" where
  "miners_schema A = \<lparr>sc_rows = sq_miners, sc_put = (\<lambda>rows c. c\<lparr>sq_miners := rows\<rparr>),
     sc_col = Miner_col A, sc_soft = True, sc_remove = (\<lambda>now m. Some (Miner_setDeleted now m)),
     sc_set = (\<lambda>_ row. row), sc_new = Miner_new, sc_merge = Miner_merge,
     sc_clash = (\<lambda>row old. storedAddress_Value A (mn_Miner row) = storedAddress_Value A (mn_Miner old)),
     sc_same_pk = (\<lambda>row old. mn_ID row = mn_ID old)\<rparr>"

definition signers_schema :: "'a addr_lib \<Rightarrow> ('a, 'a signer) schema" where
  "signers_schema A = \<lparr>sc_rows = sq_signers, sc_put = (\<lambda>rows c. c\<lparr>sq_signers := rows\<rparr>),
     sc_col = Signer_col A, sc_soft = True, sc_remove = (\<lambda>now m. Some (Signer_setDeleted now m)),
     sc_set = (\<lambda>_ row. row), sc_new = Signer_new, sc_merge = Signer_merge,
     sc_clash = (\<lambda>row old. storedAddress_Value A (sn_Signer row) = storedAddress_Value A (sn_Signer old)
                  \<and> sn_User row = sn_User old),
     sc_same_pk = (\<lambda>row old. sn_ID row = sn_ID old)\<rparr>"

definition limits_schema :: "('a, user_rate_limit) schema" where
  "limits_schema = \<lparr>sc_rows = sq_limits, sc_put = (\<lambda>rows c. c\<lparr>sq_limits := rows\<rparr>),
     sc_col = RateLimit_col, sc_soft = False, sc_remove = (\<lambda>_ _. None), sc_set = (\<lambda>_ row. row),
     sc_new = (\<lambda>_ _ row. row), sc_merge = (\<lambda>old row. row),
     sc_clash = (\<lambda>row old. rl_Id row = rl_Id old), sc_same_pk = (\<lambda>row old. rl_Id row = rl_Id old)\<rparr>"

definition version_schema :: "('a, store_version) schema" where
  "version_schema = \<lparr>sc_rows = sq_version, sc_put = (\<lambda>rows c. c\<lparr>sq_version := rows\<rparr>),
     sc_col = Version_col, sc_soft = False, sc_remove = (\<lambda>_ _. None), sc_set = (\<lambda>_ row. row),
     sc_new = (\<lambda>_ _ row. row), sc_merge = (\<lambda>old row. row),
     sc_clash = (\<lambda>row old. sv_ID row = sv_ID old), sc_same_pk = (\<lambda>row old. sv_ID row = sv_ID old)\<rparr>"

lemmas schema_defs = token_schema_def users_schema_def miners_schema_def signers_schema_def
  limits_schema_def version_schema_def

text \<open>The users that a join meets: for each live row with \<open>p\<close>, the users of its name with \<open>q\<close>.\<close>

definition joined :: "('a, 'row) schema \<Rightarrow> cond \<Rightarrow> cond \<Rightarrow> 'a sqldb \<Rightarrow> user list" where
  "joined T p q c = concat (map (\<lambda>row. filter (\<lambda>u. sc_col T row ''user'' = Str (usr_Name u) \<and> holds User_col q u)
     (sq_users c)) (selected T True p c))"

section \<open>Alterations of the table of miners\<close>

text \<open>
  The alterations that the code sends, by the names of columns and indexes in the statement, and how
  a statement reads: its words between backticks are the names.
\<close>

datatype alteration =
    DropPrimaryKey
  | AddAutoKey string
  | DropIndex string
  | AddUniqueIndex string string

fun ticks :: "string \<Rightarrow> string list" where
  "ticks [] = [[]]"
| "ticks (ch # q) =
     (if ch = CHR ''`'' then [] # ticks q
      else case ticks q of [] \<Rightarrow> [[ch]] | w # ws \<Rightarrow> (ch # w) # ws)"

definition alteration_of :: "string \<Rightarrow> alteration option" where
  "alteration_of q =
     (case ticks q of
        alter # table # rest \<Rightarrow>
          if alter \<noteq> ''alter table '' \<or> table \<noteq> ''miners'' then None
          else (case rest of
                  [what] \<Rightarrow> if what = '' drop primary key;'' then Some DropPrimaryKey else None
                | [what, n, end_of] \<Rightarrow>
                    if what = '' drop index '' \<and> end_of = '';'' then Some (DropIndex n)
                    else if what = '' add column '' \<and>
                      end_of = '' bigint(20) not null auto_increment primary key first;'' then Some (AddAutoKey n)
                    else None
                | [what, n, open_col, col, end_of] \<Rightarrow>
                    if what = '' add unique index '' \<and> open_col = '' ('' \<and> end_of = '');''
                    then Some (AddUniqueIndex n col) else None
                | _ \<Rightarrow> None)
      | _ \<Rightarrow> None)"

text \<open>
  When the server carries out an alteration, by the MySQL manual: a primary key can be dropped when
  there is one and its column does not count up, a table has one primary key and one column that
  counts up, names of columns and of indexes are unique, only an index that exists can be dropped,
  and a unique index can be added on a column whose values differ in all rows.
\<close>

fun alter_ok :: "'a addr_lib \<Rightarrow> alteration \<Rightarrow> 'a sqldb \<Rightarrow> bool" where
  "alter_ok A DropPrimaryKey c =
     (let d = sq_miners_def c in td_primary d \<noteq> [] \<and> list_all (\<lambda>col. td_auto d \<noteq> Some col) (td_primary d))"
| "alter_ok A (AddAutoKey col) c =
     (let d = sq_miners_def c in col \<notin> set (td_columns d) \<and> td_primary d = [] \<and> td_auto d = None)"
| "alter_ok A (DropIndex n) c = (n \<in> set (map ix_name (td_indexes (sq_miners_def c))))"
| "alter_ok A (AddUniqueIndex n col) c =
     (let d = sq_miners_def c in n \<notin> set (map ix_name (td_indexes d)) \<and> col \<in> set (td_columns d) \<and>
        distinct (map (\<lambda>m. Miner_col A m col) (sq_miners c)))"

text \<open>
  What it does to the definition, and to the rows: a new column that counts up numbers them, in some
  order, by \<open>ids\<close>.
\<close>

fun alter_def :: "alteration \<Rightarrow> table_def \<Rightarrow> table_def" where
  "alter_def DropPrimaryKey d = d\<lparr>td_primary := []\<rparr>"
| "alter_def (AddAutoKey col) d =
     d\<lparr>td_columns := col # td_columns d, td_primary := [col], td_auto := Some col\<rparr>"
| "alter_def (DropIndex n) d = d\<lparr>td_indexes := filter (\<lambda>ix. ix_name ix \<noteq> n) (td_indexes d)\<rparr>"
| "alter_def (AddUniqueIndex n col) d =
     d\<lparr>td_indexes := td_indexes d @ [\<lparr>ix_name = n, ix_unique = True, ix_columns = [col]\<rparr>]\<rparr>"

fun number_rows :: "nat list \<Rightarrow> 'a miner list \<Rightarrow> 'a miner list" where
  "number_rows (i # ids) (m # ms) = m\<lparr>mn_ID := i\<rparr> # number_rows ids ms"
| "number_rows ids ms = []"

fun alter_rows :: "nat list \<Rightarrow> alteration \<Rightarrow> 'a miner list \<Rightarrow> 'a miner list" where
  "alter_rows ids (AddAutoKey col) ms =
     (if col = ''id'' then number_rows ids ms else ms)"
| "alter_rows ids alt ms = ms"

definition altered :: "nat list \<Rightarrow> alteration \<Rightarrow> 'a sqldb \<Rightarrow> 'a sqldb" where
  "altered ids alt c = c\<lparr>sq_miners := alter_rows ids alt (sq_miners c),
     sq_miners_def := alter_def alt (sq_miners_def c)\<rparr>"

text \<open>
  The table of miners has the columns and keys of the struct \<open>Miner\<close>: the number is the primary key,
  and a unique index keeps one row per miner. Only then do the calls on it behave as those on a
  table of that struct.
\<close>

definition miners_ready :: "table_def \<Rightarrow> bool" where
  "miners_ready d \<longleftrightarrow> ''id'' \<in> set (td_columns d) \<and> td_primary d = [''id''] \<and> td_auto d = Some ''id'' \<and>
     list_ex (\<lambda>ix. ix_unique ix \<and> ix_columns ix = [''miner'']) (td_indexes d)"

section \<open>The laws\<close>

text \<open>
  The laws of the library: those of the tables, the joins, and transactions, which run on a
  snapshot and whose commit makes the state of the transaction that of the database. gorm finds the
  column \<open>id\<close> for the field \<open>ID\<close>. A statement is carried out or refused, as it reads.
\<close>

definition gorm_laws :: "'a addr_lib \<Rightarrow> ('a, 's) gorm \<Rightarrow> ('s \<Rightarrow> 'a sqldb) \<Rightarrow> bool" where
  "gorm_laws A G db \<longleftrightarrow>
     (\<forall>s. table_ok db token_schema (g_token G) s) \<and> (\<forall>s. table_ok db users_schema (g_users G) s) \<and>
     (\<forall>s. miners_ready (sq_miners_def (db s)) \<longrightarrow> table_ok db (miners_schema A) (g_miners G) s) \<and>
     (\<forall>s. table_ok db (signers_schema A) (g_signers G) s) \<and>
     (\<forall>s. table_ok db limits_schema (g_limits G) s) \<and> (\<forall>s. table_ok db version_schema (g_version G) s) \<and>
     (\<forall>p q s. \<exists>us. g_JoinMiners G p q s = Inr us \<and> mset us = mset (joined (miners_schema A) p q (db s))) \<and>
     (\<forall>p q s. \<exists>us. g_JoinSigners G p q s = Inr us \<and> mset us = mset (joined (signers_schema A) p q (db s))) \<and>
     (\<forall>s. g_ScanUsers G s = Inr (map (\<lambda>u. (usr_Name u, sq_legacy (db s) (usr_Name u))) (sq_users (db s)))) \<and>
     (\<forall>s. g_HasColumn G ''ID'' s \<longleftrightarrow> ''id'' \<in> set (td_columns (sq_miners_def (db s)))) \<and>
     (\<forall>q alt s. alteration_of q = Some alt \<longrightarrow>
        (if alter_ok A alt (db s)
         then \<exists>s' ids. g_Exec G q s = (s', Inr ()) \<and> length ids = length (sq_miners (db s)) \<and>
           distinct ids \<and> 0 \<notin> set ids \<and> db s' = altered ids alt (db s)
         else \<exists>e. g_Exec G q s = (s, Inl e))) \<and>
     (\<forall>s. \<exists>tx. g_Begin G s = Inr tx \<and> db tx = db s) \<and>
     (\<forall>tx. \<exists>s. g_Commit G tx = Inr s \<and> db s = db tx)"

lemma gorm_lawsD:
  assumes "gorm_laws A G db"
  shows laws_token: "table_ok db token_schema (g_token G) s"
    and laws_users: "table_ok db users_schema (g_users G) s"
    and laws_miners: "miners_ready (sq_miners_def (db s)) \<Longrightarrow> table_ok db (miners_schema A) (g_miners G) s"
    and laws_signers: "table_ok db (signers_schema A) (g_signers G) s"
    and laws_limits: "table_ok db limits_schema (g_limits G) s"
    and laws_version: "table_ok db version_schema (g_version G) s"
    and laws_join_miners: "\<exists>us. g_JoinMiners G p q s = Inr us \<and> mset us = mset (joined (miners_schema A) p q (db s))"
    and laws_join_signers: "\<exists>us. g_JoinSigners G p q s = Inr us \<and> mset us = mset (joined (signers_schema A) p q (db s))"
    and laws_scan: "g_ScanUsers G s = Inr (map (\<lambda>u. (usr_Name u, sq_legacy (db s) (usr_Name u))) (sq_users (db s)))"
    and laws_column: "g_HasColumn G ''ID'' s \<longleftrightarrow> ''id'' \<in> set (td_columns (sq_miners_def (db s)))"
    and laws_exec: "alteration_of sql = Some alt \<Longrightarrow> alter_ok A alt (db s) \<Longrightarrow>
      \<exists>s' ids. g_Exec G sql s = (s', Inr ()) \<and> length ids = length (sq_miners (db s)) \<and>
        distinct ids \<and> 0 \<notin> set ids \<and> db s' = altered ids alt (db s)"
    and laws_begin: "\<exists>tx. g_Begin G s = Inr tx \<and> db tx = db s"
    and laws_commit: "\<exists>s'. g_Commit G s = Inr s' \<and> db s' = db s"
  using assms unfolding gorm_laws_def by (blast, blast, blast, blast, blast, blast, blast, blast, blast, blast, meson, blast, blast)

lemma db_Transaction_run:
  assumes "gorm_laws A G db"
  obtains tx where "db tx = db s" and "\<And>tx' e. fn tx = (tx', Inl e) \<Longrightarrow> db_Transaction G s fn = (s, Inl e)"
    and "\<And>tx' r. fn tx = (tx', Inr r) \<Longrightarrow> \<exists>s'. db_Transaction G s fn = (s', Inr r) \<and> db s' = db tx'"
proof -
  obtain tx where tx: "g_Begin G s = Inr tx" "db tx = db s" using laws_begin [OF assms] by blast
  have "\<exists>s'. db_Transaction G s fn = (s', Inr r) \<and> db s' = db tx'" if "fn tx = (tx', Inr r)" for tx' r
    using laws_commit [OF assms, of tx'] that tx(1) by (auto simp: db_Transaction_def)
  moreover have "db_Transaction G s fn = (s, Inl e)" if "fn tx = (tx', Inl e)" for tx' e
    using that tx(1) by (simp add: db_Transaction_def)
  ultimately show thesis using that tx(2) by blast
qed

end
