(* ===== verification/Mysql_Store.thy ===== *)
theory Mysql_Store
  imports Gorm Store_Spec
begin

text \<open>
  The MySQL store (storage/mysql.go): every method of \<open>mysqlStore\<close>, as a chain of calls of gorm.
  A method \<open>M\<close> is \<open>my_M\<close>. The method table is \<open>mysqlStore\<close>.
\<close>

section \<open>Tokens\<close>

definition my_Put :: "('a, 's) gorm \<Rightarrow> key_pair \<Rightarrow> 's \<Rightarrow> 's \<times> unit res" where
  "my_Put G kp s = tb_Create (g_token G) NoClause kp s"

definition my_Has :: "('a, 's) gorm \<Rightarrow> string \<Rightarrow> 's \<Rightarrow> bool res" where
  "my_Has G token s =
     (case tb_Count (g_token G) False [(''token'', Str token), (''is_deleted'', Num NotDelete)] s of
        Inl e \<Rightarrow> Inl e
      | Inr cnt \<Rightarrow> Inr (cnt > 0))"

definition my_Delete :: "('a, 's) gorm \<Rightarrow> string \<Rightarrow> 's \<Rightarrow> 's \<times> unit res" where
  "my_Delete G token s =
     (case my_Has G token s of
        Inl e \<Rightarrow> (s, Inl e)
      | Inr has \<Rightarrow>
          if \<not> has then (s, Inl ErrRecordNotFound)
          else tb_Update (g_token G) [(''token'', Str token)] [(''is_deleted'', Num Deleted)] s)"

definition my_Recover :: "('a, 's) gorm \<Rightarrow> string \<Rightarrow> 's \<Rightarrow> 's \<times> unit res" where
  "my_Recover G token s =
     (case tb_Count (g_token G) False [(''token'', Str token), (''is_deleted'', Num Deleted)] s of
        Inl e \<Rightarrow> (s, Inl e)
      | Inr cnt \<Rightarrow>
          if cnt > 0 then tb_Update (g_token G) [(''token'', Str token)] [(''is_deleted'', Num NotDelete)] s
          else (s, Inl ErrRecordNotFound))"

definition my_Get :: "('a, 's) gorm \<Rightarrow> string \<Rightarrow> 's \<Rightarrow> key_pair res" where
  "my_Get G token s = tb_Take (g_token G) [(''token'', Str token), (''is_deleted'', Num NotDelete)] s"

definition my_ByName :: "('a, 's) gorm \<Rightarrow> string \<Rightarrow> 's \<Rightarrow> key_pair list res" where
  "my_ByName G name s =
     tb_Find (g_token G) (find_where [(''name'', Str name), (''is_deleted'', Num NotDelete)]) s"

definition my_List :: "('a, 's) gorm \<Rightarrow> int \<Rightarrow> int \<Rightarrow> 's \<Rightarrow> key_pair list res" where
  "my_List G skip limit s = tb_Find (g_token G)
     \<lparr>q_Where = [(''is_deleted'', Num NotDelete)], q_Order = Some ''name'', q_Offset = skip, q_Limit = limit\<rparr> s"

definition my_UpdateToken :: "('a, 's) gorm \<Rightarrow> key_pair \<Rightarrow> 's \<Rightarrow> 's \<times> unit res" where
  "my_UpdateToken G kp s =
     (let columns =
        [(''name'', Str (kp_Name kp)),
         (''perm'', Str (kp_Perm kp)),
         (''secret'', Str (kp_Secret kp)),
         (''extra'', Str (kp_Extra kp)),
         (''token'', Str (kp_Token kp)),
         (''createTime'', Time (kp_CreateTime kp)),
         (''is_deleted'', Num (kp_IsDeleted kp))]
      in tb_Update (g_token G) [(''token'', Str (kp_Token kp))] columns s)"

section \<open>Users\<close>

definition my_HasUser :: "('a, 's) gorm \<Rightarrow> string \<Rightarrow> 's \<Rightarrow> bool res" where
  "my_HasUser G name s =
     (case tb_Count (g_users G) False [(''name'', Str name), (''is_deleted'', Num NotDelete)] s of
        Inl e \<Rightarrow> Inl e
      | Inr cnt \<Rightarrow> Inr (cnt > 0))"

definition my_innerUpdateUser :: "('a, 's) gorm \<Rightarrow> user \<Rightarrow> 's \<Rightarrow> 's \<times> unit res" where
  "my_innerUpdateUser G user tx = tb_Save (g_users G) user tx"

definition my_UpdateUser :: "('a, 's) gorm \<Rightarrow> user \<Rightarrow> 's \<Rightarrow> 's \<times> unit res" where
  "my_UpdateUser G user s = my_innerUpdateUser G user s"

definition my_PutUser :: "('a, 's) gorm \<Rightarrow> user \<Rightarrow> 's \<Rightarrow> 's \<times> unit res" where
  "my_PutUser G user s = tb_Create (g_users G) NoClause user s"

definition my_ListUsers :: "('a, 's) gorm \<Rightarrow> int \<Rightarrow> int \<Rightarrow> user_state \<Rightarrow> 's \<Rightarrow> user list res" where
  "my_ListUsers G skip limit state s =
     (let exec = (if state \<noteq> UserStateUndefined then [(''state'', Num state)] else [])
      in tb_Find (g_users G)
           \<lparr>q_Where = exec @ [(''is_deleted'', Num NotDelete)], q_Order = Some ''createTime'',
            q_Offset = skip, q_Limit = limit\<rparr> s)"

definition my_innerGetUser :: "('a, 's) gorm \<Rightarrow> string \<Rightarrow> 's \<Rightarrow> user res" where
  "my_innerGetUser G name tx = tb_Take (g_users G) [(''name'', Str name), (''is_deleted'', Num NotDelete)] tx"

definition my_GetUser :: "('a, 's) gorm \<Rightarrow> string \<Rightarrow> 's \<Rightarrow> user res" where
  "my_GetUser G name s = my_innerGetUser G name s"

fun my_VerifyUsers :: "('a, 's) gorm \<Rightarrow> string list \<Rightarrow> 's \<Rightarrow> unit res" where
  "my_VerifyUsers G [] s = Inr ()"
| "my_VerifyUsers G (name # names) s =
     (case my_innerGetUser G name s of
        Inl e \<Rightarrow> Inl (Wrap (''verify '' @ name @ '': '') e)
      | Inr _ \<Rightarrow> my_VerifyUsers G names s)"

section \<open>Miners and signers that \<open>DeleteUser\<close> uses\<close>

definition my_innerDelMiner :: "('a, 's) gorm \<Rightarrow> 'a addr_lib \<Rightarrow> 'a \<Rightarrow> 's \<Rightarrow> 's \<times> bool res" where
  "my_innerDelMiner G A miner tx =
     (case tb_Delete (g_miners G) [(''miner'', Str (storedAddress_Value A miner))] tx of
        (tx, Inl e) \<Rightarrow> (tx, Inl e)
      | (tx, Inr RowsAffected) \<Rightarrow> (tx, Inr (RowsAffected > 0)))"

definition my_innerListMiners :: "('a, 's) gorm \<Rightarrow> string \<Rightarrow> 's \<Rightarrow> 'a miner list res" where
  "my_innerListMiners G user tx = tb_Find (g_miners G) (find_where [(''user'', Str user)]) tx"

definition my_innerDelSignerOfUser :: "('a, 's) gorm \<Rightarrow> string \<Rightarrow> 's \<Rightarrow> 's \<times> int res" where
  "my_innerDelSignerOfUser G userName tx = tb_Delete (g_signers G) [(''user'', Str userName)] tx"

text \<open>The loop of \<open>DeleteUser\<close> over the miners.\<close>

fun my_DeleteUser_miners :: "('a, 's) gorm \<Rightarrow> 'a addr_lib \<Rightarrow> 'a miner list \<Rightarrow> 's \<Rightarrow> 's \<times> unit res" where
  "my_DeleteUser_miners G A [] tx = (tx, Inr ())"
| "my_DeleteUser_miners G A (miner # miners) tx =
     (case my_innerDelMiner G A (mn_Miner miner) tx of
        (tx, Inl e) \<Rightarrow> (tx, Inl e)
      | (tx, Inr _) \<Rightarrow> my_DeleteUser_miners G A miners tx)"

text \<open>A closure that is passed to \<open>Transaction\<close> is a function of its own.\<close>

definition my_DeleteUser_fn :: "('a, 's) gorm \<Rightarrow> 'a addr_lib \<Rightarrow> time \<Rightarrow> string \<Rightarrow> 's \<Rightarrow> 's \<times> unit res" where
  "my_DeleteUser_fn G A now userName tx =
     (case my_innerGetUser G userName tx of
        Inl e \<Rightarrow> (tx, Inl e)
      | Inr user \<Rightarrow>
          (let user = user\<lparr>usr_IsDeleted := Deleted, usr_UpdateTime := now\<rparr> in
           case my_innerListMiners G userName tx of
             Inl e \<Rightarrow> (tx, Inl e)
           | Inr miners \<Rightarrow>
               (case my_DeleteUser_miners G A miners tx of
                  (tx, Inl e) \<Rightarrow> (tx, Inl e)
                | (tx, Inr _) \<Rightarrow>
                    (case my_innerDelSignerOfUser G (usr_Name user) tx of
                       (tx, Inl e) \<Rightarrow> (tx, Inl e)
                     | (tx, Inr counts) \<Rightarrow> my_innerUpdateUser G user tx))))"

definition my_DeleteUser :: "('a, 's) gorm \<Rightarrow> 'a addr_lib \<Rightarrow> time \<Rightarrow> string \<Rightarrow> 's \<Rightarrow> 's \<times> unit res" where
  "my_DeleteUser G A now userName s = db_Transaction G s (my_DeleteUser_fn G A now userName)"

definition my_RecoverUser :: "('a, 's) gorm \<Rightarrow> string \<Rightarrow> 's \<Rightarrow> 's \<times> unit res" where
  "my_RecoverUser G userName s =
     (case tb_Take (g_users G) [(''name'', Str userName), (''is_deleted'', Num Deleted)] s of
        Inl e \<Rightarrow> (s, Inl e)
      | Inr user \<Rightarrow> my_innerUpdateUser G (user\<lparr>usr_IsDeleted := NotDelete\<rparr>) s)"

section \<open>Rate limits\<close>

definition my_GetRateLimits :: "('a, 's) gorm \<Rightarrow> string \<Rightarrow> string \<Rightarrow> 's \<Rightarrow> user_rate_limit list res" where
  "my_GetRateLimits G name i s =
     (let tmp = [(''name'', Str name)];
          tmp = (if length i \<noteq> 0 then tmp @ [(''id'', Str i)] else tmp)
      in tb_Find (g_limits G) (find_where tmp) s)"

text \<open>\<open>uuid\<close> is the identifier that \<open>uuid.NewString\<close> returns.\<close>

definition my_PutRateLimit :: "('a, 's) gorm \<Rightarrow> string \<Rightarrow> user_rate_limit \<Rightarrow> 's \<Rightarrow> 's \<times> string res" where
  "my_PutRateLimit G uuid limit s =
     (let limit = (if length (rl_Id limit) = 0 then limit\<lparr>rl_Id := uuid\<rparr> else limit) in
      case tb_Save (g_limits G) limit s of
        (s, Inl e) \<Rightarrow> (s, Inl e)
      | (s, Inr _) \<Rightarrow> (s, Inr (rl_Id limit)))"

definition my_DelRateLimit :: "('a, 's) gorm \<Rightarrow> string \<Rightarrow> string \<Rightarrow> 's \<Rightarrow> 's \<times> unit res" where
  "my_DelRateLimit G name i s =
     (if length name = 0 \<or> length i = 0
      then (s, Inl (Msg ''user and rate-limit id is required for removing rate limit regulation''))
      else (case tb_Delete (g_limits G) [(''id'', Str i), (''name'', Str name)] s of
              (s, Inl e) \<Rightarrow> (s, Inl e)
            | (s, Inr _) \<Rightarrow> (s, Inr ())))"

section \<open>Miners\<close>

text \<open>\<open>Scan\<close> into a struct takes the first row, and leaves the zero struct when there is none.\<close>

definition zero_user :: user where
  "zero_user = \<lparr>usr_Id = [], usr_Name = [], usr_Comment = [], usr_State = 0, usr_CreateTime = zero_time,
     usr_UpdateTime = zero_time, usr_IsDeleted = 0\<rparr>"

definition my_GetUserByMiner :: "('a, 's) gorm \<Rightarrow> 'a addr_lib \<Rightarrow> 'a \<Rightarrow> 's \<Rightarrow> user res" where
  "my_GetUserByMiner G A miner s =
     (case g_JoinMiners G [(''miner'', Str (storedAddress_Value A miner))] [(''is_deleted'', Num NotDelete)] s of
        Inl e \<Rightarrow> Inl e
      | Inr rows \<Rightarrow> Inr (case rows of [] \<Rightarrow> zero_user | user # _ \<Rightarrow> user))"

definition my_UpsertMiner_fn ::
  "('a, 's) gorm \<Rightarrow> 'a addr_lib \<Rightarrow> 'a \<Rightarrow> string \<Rightarrow> bool option \<Rightarrow> 's \<Rightarrow> 's \<times> bool res" where
  "my_UpsertMiner_fn G A mAddr userName openMining tx =
     (let stoMiner = storedAddress_Value A mAddr in
      case tb_First (g_users G) [(''name'', Str userName)] tx of
        Inl e \<Rightarrow>
          (tx, Inl (if errors_Is e ErrRecordNotFound
             then Msg (''can't bind miner:'' @ addr_String A mAddr @ '' to not exist user:'' @ userName)
             else Wrap (''bind miner:'' @ addr_String A mAddr @ '' to user:'' @ userName @ '' failed:'') e))
      | Inr user \<Rightarrow>
          (case tb_Count (g_miners G) True [(''miner'', Str stoMiner)] tx of
             Inl e \<Rightarrow> (tx, Inl e)
           | Inr cnt \<Rightarrow>
               (let isCreate = (cnt = 0) in
                case tb_Create (g_miners G) (UpdateAll [''miner''])
                       \<lparr>CreatedAt = zero_time, UpdatedAt = zero_time, DeletedAt = zero_deleted_at,
                        mn_ID = 0, mn_Miner = mAddr, mn_User = usr_Name user, mn_OpenMining = openMining\<rparr> tx of
                  (tx, Inl e) \<Rightarrow> (tx, Inl e)
                | (tx, Inr _) \<Rightarrow> (tx, Inr isCreate))))"

definition my_UpsertMiner ::
  "('a, 's) gorm \<Rightarrow> 'a addr_lib \<Rightarrow> 'a \<Rightarrow> string \<Rightarrow> bool option \<Rightarrow> 's \<Rightarrow> 's \<times> bool res" where
  "my_UpsertMiner G A mAddr userName openMining s =
     db_Transaction G s (my_UpsertMiner_fn G A mAddr userName openMining)"

text \<open>An error of the count is answered as \<open>false\<close> without an error.\<close>

definition my_HasMiner :: "('a, 's) gorm \<Rightarrow> 'a addr_lib \<Rightarrow> 'a \<Rightarrow> 's \<Rightarrow> bool res" where
  "my_HasMiner G A mAddr s =
     (case tb_Count (g_miners G) False [(''miner'', Str (storedAddress_Value A mAddr)), (''deleted_at'', Null)] s of
        Inl e \<Rightarrow> Inr False
      | Inr cnt \<Rightarrow> Inr (cnt > 0))"

definition my_MinerExistInUser :: "('a, 's) gorm \<Rightarrow> 'a addr_lib \<Rightarrow> 'a \<Rightarrow> string \<Rightarrow> 's \<Rightarrow> bool res" where
  "my_MinerExistInUser G A mAddr userName s =
     (case tb_Count (g_miners G) False
             [(''miner'', Str (storedAddress_Value A mAddr)), (''user'', Str userName), (''deleted_at'', Null)] s of
        Inl e \<Rightarrow> Inr False
      | Inr cnt \<Rightarrow> Inr (cnt > 0))"

definition my_DelMiner :: "('a, 's) gorm \<Rightarrow> 'a addr_lib \<Rightarrow> 'a \<Rightarrow> 's \<Rightarrow> 's \<times> bool res" where
  "my_DelMiner G A miner s = my_innerDelMiner G A miner s"

definition my_ListMiners :: "('a, 's) gorm \<Rightarrow> string \<Rightarrow> 's \<Rightarrow> 'a miner list res" where
  "my_ListMiners G user s = my_innerListMiners G user s"

section \<open>Signers\<close>

definition my_RegisterSigner_fn :: "('a, 's) gorm \<Rightarrow> 'a addr_lib \<Rightarrow> 'a \<Rightarrow> string \<Rightarrow> 's \<Rightarrow> 's \<times> unit res" where
  "my_RegisterSigner_fn G A addr userName tx =
     (case tb_First (g_users G) [(''name'', Str userName)] tx of
        Inl e \<Rightarrow>
          (tx, Inl (if errors_Is e ErrRecordNotFound
             then Msg (''can't bind signer:'' @ addr_String A addr @ '' to not exist user:'' @ userName)
             else Wrap (''bind signer:'' @ addr_String A addr @ '' to user:'' @ userName @ '' failed:'') e))
      | Inr user \<Rightarrow>
          tb_Create (g_signers G) (UpdateAll [''signer'', ''user''])
            \<lparr>CreatedAt = zero_time, UpdatedAt = zero_time, DeletedAt = zero_deleted_at,
             sn_ID = 0, sn_Signer = addr, sn_User = usr_Name user\<rparr> tx)"

definition my_RegisterSigner :: "('a, 's) gorm \<Rightarrow> 'a addr_lib \<Rightarrow> 'a \<Rightarrow> string \<Rightarrow> 's \<Rightarrow> 's \<times> unit res" where
  "my_RegisterSigner G A addr userName s = db_Transaction G s (my_RegisterSigner_fn G A addr userName)"

definition my_SignerExistInUser :: "('a, 's) gorm \<Rightarrow> 'a addr_lib \<Rightarrow> 'a \<Rightarrow> string \<Rightarrow> 's \<Rightarrow> bool res" where
  "my_SignerExistInUser G A addr userName s =
     (case tb_Count (g_signers G) False
             [(''signer'', Str (storedAddress_Value A addr)), (''user'', Str userName), (''deleted_at'', Null)] s of
        Inl e \<Rightarrow> Inr False
      | Inr cnt \<Rightarrow> Inr (cnt > 0))"

definition my_innerListSigners :: "('a, 's) gorm \<Rightarrow> string \<Rightarrow> 's \<Rightarrow> 'a signer list res" where
  "my_innerListSigners G user tx = tb_Find (g_signers G) (find_where [(''user'', Str user)]) tx"

definition my_ListSigner :: "('a, 's) gorm \<Rightarrow> string \<Rightarrow> 's \<Rightarrow> 'a signer list res" where
  "my_ListSigner G user s = my_innerListSigners G user s"

definition my_UnregisterSigner :: "('a, 's) gorm \<Rightarrow> 'a addr_lib \<Rightarrow> 'a \<Rightarrow> string \<Rightarrow> 's \<Rightarrow> 's \<times> unit res" where
  "my_UnregisterSigner G A addr userName s =
     (case tb_Delete (g_signers G) [(''signer'', Str (storedAddress_Value A addr)), (''user'', Str userName)] s of
        (s, Inl e) \<Rightarrow> (s, Inl e)
      | (s, Inr _) \<Rightarrow> (s, Inr ()))"

definition my_HasSigner :: "('a, 's) gorm \<Rightarrow> 'a addr_lib \<Rightarrow> 'a \<Rightarrow> 's \<Rightarrow> bool res" where
  "my_HasSigner G A addr s =
     (case tb_Count (g_signers G) False [(''signer'', Str (storedAddress_Value A addr)), (''deleted_at'', Null)] s of
        Inl e \<Rightarrow> Inr False
      | Inr cnt \<Rightarrow> Inr (cnt > 0))"

definition my_DelSigner :: "('a, 's) gorm \<Rightarrow> 'a addr_lib \<Rightarrow> 'a \<Rightarrow> 's \<Rightarrow> 's \<times> bool res" where
  "my_DelSigner G A addr s =
     (case tb_Delete (g_signers G) [(''signer'', Str (storedAddress_Value A addr))] s of
        (s, Inl e) \<Rightarrow> (s, Inl e)
      | (s, Inr RowsAffected) \<Rightarrow> (s, Inr (RowsAffected > 0)))"

definition my_GetUserBySigner :: "('a, 's) gorm \<Rightarrow> 'a addr_lib \<Rightarrow> 'a \<Rightarrow> 's \<Rightarrow> user list res" where
  "my_GetUserBySigner G A addr s =
     (case g_JoinSigners G [(''signer'', Str (storedAddress_Value A addr))] [(''is_deleted'', Num NotDelete)] s of
        Inl e \<Rightarrow> Inl e
      | Inr users \<Rightarrow> if users = [] then Inl ErrRecordNotFound else Inr users)"

section \<open>Version and migrations\<close>

definition my_Version :: "('a, 's) gorm \<Rightarrow> 's \<Rightarrow> nat res" where
  "my_Version G s =
     (case tb_First (g_version G) [] s of
        Inl e \<Rightarrow> if errors_Is e ErrRecordNotFound then Inr 0 else Inl e
      | Inr v \<Rightarrow> Inr (sv_Version v))"

text \<open>The record of the version that a migration leaves.\<close>

definition my_set_version :: "('a, 's) gorm \<Rightarrow> nat \<Rightarrow> 's \<Rightarrow> 's \<times> unit res" where
  "my_set_version G v tx = tb_Create (g_version G) (UpdateAll []) \<lparr>sv_ID = 1, sv_Version = v\<rparr> tx"

fun my_MigrateToV1_loop ::
  "('a, 's) gorm \<Rightarrow> 'a addr_lib \<Rightarrow> time \<Rightarrow> (string \<times> string) list \<Rightarrow> 's \<Rightarrow> 's \<times> unit res" where
  "my_MigrateToV1_loop G A now [] tx = (tx, Inr ())"
| "my_MigrateToV1_loop G A now ((user, miner) # arr) tx =
     (case addr_NewFromString A miner of
        Inl _ \<Rightarrow> my_MigrateToV1_loop G A now arr tx
      | Inr mAddr \<Rightarrow>
          if addr_Empty A mAddr then my_MigrateToV1_loop G A now arr tx
          else
            (case tb_Create (g_miners G) (UpdateAll [''miner''])
                    \<lparr>CreatedAt = now, UpdatedAt = now, DeletedAt = zero_deleted_at, mn_ID = 0,
                     mn_Miner = mAddr, mn_User = user, mn_OpenMining = None\<rparr> tx of
               (tx, Inl e) \<Rightarrow> (tx, Inl e)
             | (tx, Inr _) \<Rightarrow> my_MigrateToV1_loop G A now arr tx))"

definition my_MigrateToV1 :: "('a, 's) gorm \<Rightarrow> 'a addr_lib \<Rightarrow> time \<Rightarrow> 's \<Rightarrow> 's \<times> unit res" where
  "my_MigrateToV1 G A now s =
     (case g_ScanUsers G s of
        Inl e \<Rightarrow> (s, Inl e)
      | Inr arr \<Rightarrow> db_Transaction G s (\<lambda>tx.
          case my_MigrateToV1_loop G A now arr tx of
            (tx, Inl e) \<Rightarrow> (tx, Inl e)
          | (tx, Inr _) \<Rightarrow> my_set_version G 1 tx))"

definition my_MigrateToV2 :: "('a, 's) gorm \<Rightarrow> 's \<Rightarrow> 's \<times> unit res" where
  "my_MigrateToV2 G s = my_set_version G 2 s"

text \<open>\<open>if err := tx.Exec(...).Error; err != nil { return err }\<close>, one statement after the other.\<close>

fun exec_all :: "('a, 's) gorm \<Rightarrow> string list \<Rightarrow> 's \<Rightarrow> 's \<times> unit res" where
  "exec_all G [] tx = (tx, Inr ())"
| "exec_all G (q # qs) tx = (case g_Exec G q tx of (tx, Inl e) \<Rightarrow> (tx, Inl e) | (tx, Inr _) \<Rightarrow> exec_all G qs tx)"

definition my_MigrateToV3 :: "('a, 's) gorm \<Rightarrow> 's \<Rightarrow> 's \<times> unit res" where
  "my_MigrateToV3 G s = db_Transaction G s (\<lambda>tx.
     case (if \<not> g_HasColumn G ''ID'' tx
           then exec_all G
             [''alter table `miners` drop primary key;'',
              ''alter table `miners` add column `id` bigint(20) not null auto_increment primary key first;'',
              ''alter table `miners` drop index `user_miner_idx`;'',
              ''alter table `miners` add unique index `miner_idx` (`miner`);''] tx
           else (tx, Inr ())) of
       (tx, Inl e) \<Rightarrow> (tx, Inl e)
     | (tx, Inr _) \<Rightarrow> my_set_version G 3 tx)"

definition mysqlStore :: "('a, 's) gorm \<Rightarrow> 'a addr_lib \<Rightarrow> ('a, 's) store_ops" where
  "mysqlStore G A = \<lparr>
     st_Get = my_Get G, st_ByName = my_ByName G, st_Put = my_Put G, st_Delete = (\<lambda>_. my_Delete G),
     st_Recover = my_Recover G, st_Has = my_Has G, st_List = my_List G, st_UpdateToken = my_UpdateToken G,
     st_HasUser = my_HasUser G, st_GetUser = my_GetUser G, st_VerifyUsers = my_VerifyUsers G,
     st_PutUser = my_PutUser G, st_UpdateUser = my_UpdateUser G, st_ListUsers = my_ListUsers G,
     st_DeleteUser = my_DeleteUser G A, st_RecoverUser = my_RecoverUser G,
     st_GetRateLimits = my_GetRateLimits G, st_PutRateLimit = my_PutRateLimit G,
     st_DelRateLimit = my_DelRateLimit G,
     st_UpsertMiner = (\<lambda>_. my_UpsertMiner G A), st_HasMiner = my_HasMiner G A,
     st_MinerExistInUser = my_MinerExistInUser G A, st_GetUserByMiner = my_GetUserByMiner G A,
     st_ListMiners = my_ListMiners G, st_DelMiner = (\<lambda>_. my_DelMiner G A),
     st_RegisterSigner = (\<lambda>_. my_RegisterSigner G A), st_SignerExistInUser = my_SignerExistInUser G A,
     st_ListSigner = my_ListSigner G, st_UnregisterSigner = (\<lambda>_. my_UnregisterSigner G A),
     st_HasSigner = my_HasSigner G A, st_DelSigner = (\<lambda>_. my_DelSigner G A),
     st_GetUserBySigner = my_GetUserBySigner G A, st_Version = my_Version G,
     st_MigrateToV1 = my_MigrateToV1 G A, st_MigrateToV2 = my_MigrateToV2 G, st_MigrateToV3 = my_MigrateToV3 G\<rparr>"

end
