(* ===== verification/Mysql_View.thy ===== *)
theory Mysql_View
  imports Mysql_Store
begin

text \<open>
  The content of the MySQL database as an abstract store: the invariant of its tables, the lookups,
  and what every reading method of \<open>mysqlStore\<close> returns.
\<close>

section \<open>Looking up rows\<close>

lemma find_key: "distinct (map f xs) \<Longrightarrow> find (\<lambda>x. f x = k) xs = Some x \<longleftrightarrow> x \<in> set xs \<and> f x = k"
  by (induction xs) auto

lemma find_key_None: "find (\<lambda>x. f x = k) xs = None \<longleftrightarrow> k \<notin> f ` set xs"
  by (auto simp: find_None_iff)

text \<open>Lookup by a key after a row was added, after rows were changed without their keys, and after one was.\<close>

lemma lookup_snoc:
  assumes "f x \<notin> f ` set xs"
  shows "(\<lambda>k. find (\<lambda>y. f y = k) (xs @ [x])) = (\<lambda>k. find (\<lambda>y. f y = k) xs)(f x \<mapsto> x)"
proof
  show "find (\<lambda>y. f y = k) (xs @ [x]) = ((\<lambda>k. find (\<lambda>y. f y = k) xs)(f x \<mapsto> x)) k" for k
    using assms by (induction xs) auto
qed

lemma lookup_map:
  assumes "\<And>x. f (g x) = f x"
  shows "(\<lambda>k. find (\<lambda>y. f y = k) (map g xs)) = (\<lambda>k. map_option g (find (\<lambda>y. f y = k) xs))"
proof
  show "find (\<lambda>y. f y = k) (map g xs) = map_option g (find (\<lambda>y. f y = k) xs)" for k
    by (induction xs) (auto simp: assms)
qed

lemma lookup_map1:
  assumes "\<And>x. f x = k0 \<Longrightarrow> f (h x) = k0" and "find (\<lambda>y. f y = k0) xs = Some x0"
  shows "(\<lambda>k. find (\<lambda>y. f y = k) (map (\<lambda>x. if f x = k0 then h x else x) xs)) =
    (\<lambda>k. find (\<lambda>y. f y = k) xs)(k0 \<mapsto> h x0)"
proof
  fix k
  have "find (\<lambda>y. f y = k) (map (\<lambda>x. if f x = k0 then h x else x) xs) =
      map_option (\<lambda>x. if f x = k0 then h x else x) (find (\<lambda>y. f y = k) xs)"
    by (rule fun_cong [OF lookup_map]) (simp add: assms(1))
  moreover have "f y = k" if "find (\<lambda>y. f y = k) xs = Some y" for y
    using that by (auto simp: find_Some_iff)
  ultimately show "find (\<lambda>y. f y = k) (map (\<lambda>x. if f x = k0 then h x else x) xs) =
      ((\<lambda>k. find (\<lambda>y. f y = k) xs)(k0 \<mapsto> h x0)) k"
    using assms(2) by (cases "find (\<lambda>y. f y = k) xs") auto
qed

lemma filter_one: "distinct xs \<Longrightarrow> x \<in> set xs \<Longrightarrow> (\<And>y. y \<in> set xs \<Longrightarrow> P y \<longleftrightarrow> y = x) \<Longrightarrow> filter P xs = [x]"
  by (induction xs) (auto simp: filter_empty_conv)

section \<open>The abstract state\<close>

definition my_view :: "'a sqldb \<Rightarrow> 'a astore" where
  "my_view c = \<lparr>as_token = (\<lambda>t. find (\<lambda>kp. kp_Token kp = t) (sq_token c)),
     as_user = (\<lambda>n. find (\<lambda>u. usr_Name u = n) (sq_users c)),
     as_miner = (\<lambda>a. find (\<lambda>m. mn_Miner m = a) (sq_miners c)),
     as_signer = (\<lambda>a n. find (\<lambda>g. (sn_Signer g, sn_User g) = (a, n)) (sq_signers c)),
     as_limit = (\<lambda>n i. find (\<lambda>l. (rl_Name l, rl_Id l) = (n, i)) (sq_limits c))\<rparr>"

text \<open>A deletion mark is missing or a time.\<close>

definition mark_ok :: "('x) orm_timestamp_scheme \<Rightarrow> bool" where
  "mark_ok m \<longleftrightarrow> (da_Valid (DeletedAt m) \<longrightarrow> \<not> IsZero (da_Time (DeletedAt m)))"

definition flag_ok :: "int \<Rightarrow> bool" where
  "flag_ok d \<longleftrightarrow> d = NotDelete \<or> d = Deleted"

text \<open>
  The rows are well-formed: unique keys are, flags are flags, signers can sign. In a database that has
  been migrated the table of miners also has its present definition.
\<close>

definition tables_ok :: "'a addr_lib \<Rightarrow> 'a sqldb \<Rightarrow> bool" where
  "tables_ok A c \<longleftrightarrow>
     distinct (map kp_Token (sq_token c)) \<and> (\<forall>kp \<in> set (sq_token c). flag_ok (kp_IsDeleted kp)) \<and>
     distinct (map usr_Name (sq_users c)) \<and> distinct (map usr_Id (sq_users c)) \<and>
     (\<forall>u \<in> set (sq_users c). flag_ok (usr_IsDeleted u)) \<and>
     distinct (map mn_Miner (sq_miners c)) \<and> (\<forall>m \<in> set (sq_miners c). mark_ok m) \<and>
     distinct (map (\<lambda>g. (sn_Signer g, sn_User g)) (sq_signers c)) \<and>
     (\<forall>g \<in> set (sq_signers c). mark_ok g \<and> IsSignerAddress A (sn_Signer g)) \<and>
     distinct (map rl_Id (sq_limits c)) \<and>
     distinct (map sv_ID (sq_version c)) \<and> (\<forall>v \<in> set (sq_version c). sv_ID v = 1)"

definition rows_ok :: "'a addr_lib \<Rightarrow> 'a sqldb \<Rightarrow> bool" where
  "rows_ok A c \<longleftrightarrow> tables_ok A c \<and> miners_ready (sq_miners_def c)"

text \<open>
  What is assumed of addresses: the text in a column identifies the address (it is the address
  without the network prefix, or the mark of the empty address).
\<close>

definition addr_col_ok :: "'a addr_lib \<Rightarrow> bool" where
  "addr_col_ok A \<longleftrightarrow> addr_ok A \<and> addr_text_ok A \<and>
     (\<forall>a b. addr_Empty A a \<longrightarrow> addr_Empty A b \<longrightarrow> a = b) \<and>
     (\<forall>a. addr_Empty A a \<longrightarrow> \<not> is_ok (addr_NewFromString A (addr_NetworkPrefix A @ addr_String A a)))"

lemma stored_inject:
  assumes "addr_col_ok A"
  shows "storedAddress_Value A a = storedAddress_Value A b \<longleftrightarrow> a = b"
proof -
  have split: "\<not> addr_Empty A x \<Longrightarrow> addr_NetworkPrefix A @ drop 1 (addr_String A x) = addr_String A x" for x
    using assms by (auto simp: addr_col_ok_def addr_text_ok_def prefix_def)
  have parses: "\<not> addr_Empty A x \<Longrightarrow> addr_NewFromString A (addr_String A x) = Inr x" for x
    using assms by (simp add: addr_col_ok_def addr_text_ok_def)
  have mixed: False if e: "addr_Empty A x" "\<not> addr_Empty A y" "addr_String A x = drop 1 (addr_String A y)" for x y
  proof -
    have "addr_NewFromString A (addr_NetworkPrefix A @ addr_String A x) = Inr y"
      by (simp only: e(3) split [OF e(2)] parses [OF e(2)])
    moreover have "\<not> is_ok (addr_NewFromString A (addr_NetworkPrefix A @ addr_String A x))"
      using assms e(1) by (simp add: addr_col_ok_def)
    ultimately show False by simp
  qed
  show ?thesis
  proof
    assume eq: "storedAddress_Value A a = storedAddress_Value A b"
    show "a = b"
    proof (cases "addr_Empty A a"; cases "addr_Empty A b")
      assume "addr_Empty A a" "addr_Empty A b"
      with assms show ?thesis by (simp add: addr_col_ok_def)
    next
      assume ab: "\<not> addr_Empty A a" "\<not> addr_Empty A b"
      with eq have "drop 1 (addr_String A a) = drop 1 (addr_String A b)"
        by (simp add: storedAddress_Value_def storedAddress_String_def Let_def)
      with split [OF ab(1)] split [OF ab(2)] have "addr_String A a = addr_String A b" by metis
      with assms show ?thesis by (simp add: addr_col_ok_def addr_ok_inj)
    next
      assume ab: "addr_Empty A a" "\<not> addr_Empty A b"
      then show ?thesis using eq mixed [OF ab]
        by (simp add: storedAddress_Value_def storedAddress_String_def Let_def)
    next
      assume ab: "\<not> addr_Empty A a" "addr_Empty A b"
      then show ?thesis using eq [symmetric] mixed [OF ab(2,1)]
        by (simp add: storedAddress_Value_def storedAddress_String_def Let_def)
    qed
  qed simp
qed

definition mysql_inv :: "'a addr_lib \<Rightarrow> ('a, 's) gorm \<Rightarrow> ('s \<Rightarrow> 'a sqldb) \<Rightarrow> 's \<Rightarrow> bool" where
  "mysql_inv A G db s \<longleftrightarrow> gorm_laws A G db \<and> addr_col_ok A \<and> rows_ok A (db s)"

lemma mysql_invD:
  assumes "mysql_inv A G db s"
  shows "gorm_laws A G db" "addr_col_ok A" "rows_ok A (db s)"
  using assms by (simp_all add: mysql_inv_def)

lemma rows_ok_update:
  assumes "rows_ok A c"
  shows "distinct (map kp_Token kps) \<Longrightarrow> (\<And>kp. kp \<in> set kps \<Longrightarrow> flag_ok (kp_IsDeleted kp)) \<Longrightarrow>
      rows_ok A (c\<lparr>sq_token := kps\<rparr>)"
    and "distinct (map usr_Name us) \<Longrightarrow> distinct (map usr_Id us) \<Longrightarrow> (\<And>u. u \<in> set us \<Longrightarrow> flag_ok (usr_IsDeleted u)) \<Longrightarrow>
      rows_ok A (c\<lparr>sq_users := us\<rparr>)"
    and "distinct (map mn_Miner ms) \<Longrightarrow> (\<And>m. m \<in> set ms \<Longrightarrow> mark_ok m) \<Longrightarrow> rows_ok A (c\<lparr>sq_miners := ms\<rparr>)"
    and "distinct (map (\<lambda>g. (sn_Signer g, sn_User g)) gs) \<Longrightarrow>
      (\<And>g. g \<in> set gs \<Longrightarrow> mark_ok g \<and> IsSignerAddress A (sn_Signer g)) \<Longrightarrow> rows_ok A (c\<lparr>sq_signers := gs\<rparr>)"
    and "distinct (map rl_Id ls) \<Longrightarrow> rows_ok A (c\<lparr>sq_limits := ls\<rparr>)"
  using assms by (simp_all add: rows_ok_def tables_ok_def)

lemma rows_okD:
  assumes "rows_ok A c"
  shows "distinct (map kp_Token (sq_token c))" "kp \<in> set (sq_token c) \<Longrightarrow> flag_ok (kp_IsDeleted kp)"
    and "distinct (map usr_Name (sq_users c))" "distinct (map usr_Id (sq_users c))"
      "u \<in> set (sq_users c) \<Longrightarrow> flag_ok (usr_IsDeleted u)"
    and "distinct (map mn_Miner (sq_miners c))" "m \<in> set (sq_miners c) \<Longrightarrow> mark_ok m"
    and "distinct (map (\<lambda>g. (sn_Signer g, sn_User g)) (sq_signers c))"
      "g \<in> set (sq_signers c) \<Longrightarrow> mark_ok g \<and> IsSignerAddress A (sn_Signer g)"
    and "distinct (map rl_Id (sq_limits c))"
  using assms by (simp_all add: rows_ok_def tables_ok_def)

text \<open>What is live in the view are the rows the methods select.\<close>

lemma flag_distinct [simp]: "NotDelete \<noteq> Deleted" "Deleted \<noteq> NotDelete" "NotDelete \<noteq> 1"
  by (simp_all add: NotDelete_def Deleted_def)

lemma flag_live: "flag_ok d \<Longrightarrow> d \<noteq> Deleted \<longleftrightarrow> d = NotDelete" "flag_ok d \<Longrightarrow> d \<noteq> 1 \<longleftrightarrow> d = NotDelete"
  by (auto simp: flag_ok_def NotDelete_def Deleted_def)

lemma mark_live: "mark_ok m \<Longrightarrow> da_Valid (DeletedAt m) \<and> \<not> IsZero (da_Time (DeletedAt m)) \<longleftrightarrow> da_Valid (DeletedAt m)"
  by (auto simp: mark_ok_def)

lemma my_view_token:
  assumes "rows_ok A c"
  shows "as_token (my_view c) t = Some kp \<longleftrightarrow> kp \<in> set (sq_token c) \<and> kp_Token kp = t"
    and "a_token (my_view c) t = Some kp \<longleftrightarrow>
      kp \<in> set (sq_token c) \<and> kp_Token kp = t \<and> kp_IsDeleted kp = NotDelete"
  using rows_okD(1,2) [OF assms] by (auto simp: my_view_def live_Some find_key KeyPair_isDeleted_def flag_live)

lemma my_view_user:
  assumes "rows_ok A c"
  shows "as_user (my_view c) n = Some u \<longleftrightarrow> u \<in> set (sq_users c) \<and> usr_Name u = n"
    and "a_user (my_view c) n = Some u \<longleftrightarrow>
      u \<in> set (sq_users c) \<and> usr_Name u = n \<and> usr_IsDeleted u = NotDelete"
  using rows_okD(3,5) [OF assms] by (auto simp: my_view_def live_Some find_key User_isDeleted_def flag_live)

lemma my_view_miner:
  assumes "rows_ok A c"
  shows "as_miner (my_view c) a = Some m \<longleftrightarrow> m \<in> set (sq_miners c) \<and> mn_Miner m = a"
    and "a_miner (my_view c) a = Some m \<longleftrightarrow>
      m \<in> set (sq_miners c) \<and> mn_Miner m = a \<and> \<not> da_Valid (DeletedAt m)"
  using rows_okD(6,7) [OF assms] by (auto simp: my_view_def live_Some find_key Miner_isDeleted_def mark_ok_def)

lemma my_view_signer:
  assumes "rows_ok A c"
  shows "as_signer (my_view c) a n = Some g \<longleftrightarrow> g \<in> set (sq_signers c) \<and> sn_Signer g = a \<and> sn_User g = n"
    and "a_signer (my_view c) a n = Some g \<longleftrightarrow>
      g \<in> set (sq_signers c) \<and> sn_Signer g = a \<and> sn_User g = n \<and> \<not> da_Valid (DeletedAt g)"
proof -
  note f = find_key [of "\<lambda>g. (sn_Signer g, sn_User g)" "sq_signers c" "(a, n)" g]
  show "as_signer (my_view c) a n = Some g \<longleftrightarrow> g \<in> set (sq_signers c) \<and> sn_Signer g = a \<and> sn_User g = n"
    using rows_okD(8) [OF assms] f by (simp add: my_view_def)
  then show "a_signer (my_view c) a n = Some g \<longleftrightarrow>
      g \<in> set (sq_signers c) \<and> sn_Signer g = a \<and> sn_User g = n \<and> \<not> da_Valid (DeletedAt g)"
    using rows_okD(9) [OF assms, of g] by (auto simp: live_Some Signer_isDeleted_def mark_ok_def)
qed

lemma my_view_limit:
  assumes "rows_ok A c"
  shows "as_limit (my_view c) n i = Some l \<longleftrightarrow> l \<in> set (sq_limits c) \<and> rl_Name l = n \<and> rl_Id l = i"
proof -
  have "distinct (map (\<lambda>l. (rl_Name l, rl_Id l)) (sq_limits c))"
    using rows_okD(10) [OF assms] by (auto simp: distinct_map inj_on_def)
  then show ?thesis
    using find_key [of "\<lambda>l. (rl_Name l, rl_Id l)" "sq_limits c" "(n, i)" l] by (simp add: my_view_def)
qed

lemma my_owner:
  assumes "rows_ok A c"
  shows "a_owner (my_view c) a = Some n \<longleftrightarrow>
    (\<exists>m \<in> set (sq_miners c). mn_Miner m = a \<and> mn_User m = n \<and> \<not> da_Valid (DeletedAt m))"
  by (auto simp: a_owner_def my_view_miner [OF assms])

lemmas my_views = my_view_token my_view_user my_view_miner my_view_signer my_view_limit my_owner

section \<open>Conditions\<close>

text \<open>What the conditions of the code say of a row.\<close>

lemma selects_token [simp]:
  "selects token_schema b [(''token'', Str t)] kp \<longleftrightarrow> kp_Token kp = t"
  "selects token_schema b [(''token'', Str t), (''is_deleted'', Num d)] kp \<longleftrightarrow>
     kp_Token kp = t \<and> kp_IsDeleted kp = d"
  "selects token_schema b [(''name'', Str n), (''is_deleted'', Num d)] kp \<longleftrightarrow>
     kp_Name kp = n \<and> kp_IsDeleted kp = d"
  "selects token_schema b [(''is_deleted'', Num d)] kp \<longleftrightarrow> kp_IsDeleted kp = d"
  by (auto simp: selects_def holds_def token_schema_def KeyPair_col_def)

lemma selects_user [simp]:
  "selects users_schema b [(''name'', Str n)] u \<longleftrightarrow> usr_Name u = n"
  "selects users_schema b [(''name'', Str n), (''is_deleted'', Num d)] u \<longleftrightarrow>
     usr_Name u = n \<and> usr_IsDeleted u = d"
  "selects users_schema b [(''is_deleted'', Num d)] u \<longleftrightarrow> usr_IsDeleted u = d"
  "selects users_schema b [(''state'', Num st), (''is_deleted'', Num d)] u \<longleftrightarrow>
     usr_State u = st \<and> usr_IsDeleted u = d"
  by (auto simp: selects_def holds_def users_schema_def User_col_def)

lemma selects_miner [simp]:
  assumes "addr_col_ok A"
  shows "selects (miners_schema A) b [(''miner'', Str (storedAddress_Value A a))] m \<longleftrightarrow>
      mn_Miner m = a \<and> (b \<longrightarrow> \<not> da_Valid (DeletedAt m))"
    and "selects (miners_schema A) b [(''miner'', Str (storedAddress_Value A a)), (''deleted_at'', Null)] m \<longleftrightarrow>
      mn_Miner m = a \<and> \<not> da_Valid (DeletedAt m)"
    and "selects (miners_schema A) b
        [(''miner'', Str (storedAddress_Value A a)), (''user'', Str n), (''deleted_at'', Null)] m \<longleftrightarrow>
      mn_Miner m = a \<and> mn_User m = n \<and> \<not> da_Valid (DeletedAt m)"
    and "selects (miners_schema A) b [(''user'', Str n)] m \<longleftrightarrow> mn_User m = n \<and> (b \<longrightarrow> \<not> da_Valid (DeletedAt m))"
  by (auto simp: selects_def holds_def miners_schema_def Miner_col_def stamp_col_def stored_inject [OF assms])

lemma selects_signer [simp]:
  assumes "addr_col_ok A"
  shows "selects (signers_schema A) b [(''signer'', Str (storedAddress_Value A a))] g \<longleftrightarrow>
      sn_Signer g = a \<and> (b \<longrightarrow> \<not> da_Valid (DeletedAt g))"
    and "selects (signers_schema A) b [(''signer'', Str (storedAddress_Value A a)), (''deleted_at'', Null)] g \<longleftrightarrow>
      sn_Signer g = a \<and> \<not> da_Valid (DeletedAt g)"
    and "selects (signers_schema A) b
        [(''signer'', Str (storedAddress_Value A a)), (''user'', Str n), (''deleted_at'', Null)] g \<longleftrightarrow>
      sn_Signer g = a \<and> sn_User g = n \<and> \<not> da_Valid (DeletedAt g)"
    and "selects (signers_schema A) b [(''signer'', Str (storedAddress_Value A a)), (''user'', Str n)] g \<longleftrightarrow>
      sn_Signer g = a \<and> sn_User g = n \<and> (b \<longrightarrow> \<not> da_Valid (DeletedAt g))"
    and "selects (signers_schema A) b [(''user'', Str n)] g \<longleftrightarrow> sn_User g = n \<and> (b \<longrightarrow> \<not> da_Valid (DeletedAt g))"
  by (auto simp: selects_def holds_def signers_schema_def Signer_col_def stamp_col_def stored_inject [OF assms])

lemma selects_limit [simp]:
  "selects limits_schema b [(''name'', Str n)] l \<longleftrightarrow> rl_Name l = n"
  "selects limits_schema b [(''name'', Str n), (''id'', Str i)] l \<longleftrightarrow> rl_Name l = n \<and> rl_Id l = i"
  "selects limits_schema b [(''id'', Str i), (''name'', Str n)] l \<longleftrightarrow> rl_Id l = i \<and> rl_Name l = n"
  by (auto simp: selects_def holds_def limits_schema_def RateLimit_col_def)

lemma schema_rows [simp]:
  "sc_rows token_schema c = sq_token c" "sc_rows users_schema c = sq_users c"
  "sc_rows (miners_schema A) c = sq_miners c" "sc_rows (signers_schema A) c = sq_signers c"
  "sc_rows limits_schema c = sq_limits c" "sc_rows version_schema c = sq_version c"
  by (simp_all add: schema_defs)

lemma schema_put [simp]:
  "sc_put token_schema rows1 c = c\<lparr>sq_token := rows1\<rparr>" "sc_put users_schema rows2 c = c\<lparr>sq_users := rows2\<rparr>"
  "sc_put (miners_schema A) rows3 c = c\<lparr>sq_miners := rows3\<rparr>"
  "sc_put (signers_schema A) rows4 c = c\<lparr>sq_signers := rows4\<rparr>"
  "sc_put limits_schema rows5 c = c\<lparr>sq_limits := rows5\<rparr>" "sc_put version_schema rows6 c = c\<lparr>sq_version := rows6\<rparr>"
  by (simp_all add: schema_defs)

section \<open>The reading methods\<close>

text \<open>A \<open>Find\<close> without paging enumerates the selected rows; \<open>Take\<close> finds the row of a unique key.\<close>

lemma find_lists:
  assumes "table_ok db T t s" and "distinct (sc_rows T (db s))"
  shows "lists (tb_Find t (find_where ps) s) {row \<in> set (sc_rows T (db s)). selects T True ps row}"
proof -
  obtain rows where rows: "mset rows = mset (selected T True ps (db s))"
    "tb_Find t (find_where ps) s = Inr (page_of 0 0 rows)"
    using table_Find [OF assms(1), of "find_where ps"] by (auto simp: find_where_def)
  have "set rows = {row \<in> set (sc_rows T (db s)). selects T True ps row}"
    using mset_eq_setD [OF rows(1)] by simp
  moreover have "distinct rows"
    using mset_eq_imp_distinct_iff [OF rows(1)] assms(2) by simp
  ultimately show ?thesis using rows(2) by (simp add: lists_def)
qed

lemma find_pages:
  assumes "table_ok db T t s" and "distinct (sc_rows T (db s))" and "0 \<le> skip" "0 \<le> limit" "skip = 0 \<or> 0 < limit"
  shows "pages skip limit (tb_Find t \<lparr>q_Where = ps, q_Order = ord, q_Offset = skip, q_Limit = limit\<rparr> s)
    {row \<in> set (sc_rows T (db s)). selects T True ps row}"
proof -
  obtain rows where rows: "mset rows = mset (selected T True ps (db s))"
    "tb_Find t \<lparr>q_Where = ps, q_Order = ord, q_Offset = skip, q_Limit = limit\<rparr> s = Inr (page_of skip limit rows)"
    using table_Find [OF assms(1), of "\<lparr>q_Where = ps, q_Order = ord, q_Offset = skip, q_Limit = limit\<rparr>"] assms(3-5)
    by auto
  have "set rows = {row \<in> set (sc_rows T (db s)). selects T True ps row}"
    using mset_eq_setD [OF rows(1)] by simp
  moreover have "distinct rows"
    using mset_eq_imp_distinct_iff [OF rows(1)] assms(2) by simp
  ultimately show ?thesis using rows(2) by (auto simp: pages_def)
qed

lemma take_found:
  assumes "table_ok db T t s" and "\<And>row. x = Some row \<longleftrightarrow> row \<in> set (sc_rows T (db s)) \<and> selects T True ps row"
  shows "found (tb_Take t ps s) x" and "found (tb_First t ps s) x"
proof -
  show "found (tb_Take t ps s) x"
  proof (cases "selected T True ps (db s) = []")
    case True
    then have "x = None" using assms(2) by (auto simp: filter_empty_conv intro: option.exhaust)
    then show ?thesis using table_Take_none [OF assms(1) True] by (simp add: found_def)
  next
    case False
    from table_Take [OF assms(1) this] obtain row where row: "row \<in> set (selected T True ps (db s))"
      "tb_Take t ps s = Inr row" by blast
    then have "x = Some row" using assms(2) [of row] by simp
    with row(2) show ?thesis by (simp add: found_def)
  qed
  show "found (tb_First t ps s) x"
  proof (cases "selected T True ps (db s) = []")
    case True
    then have "x = None" using assms(2) by (auto simp: filter_empty_conv intro: option.exhaust)
    then show ?thesis using table_First_none [OF assms(1) True] by (simp add: found_def)
  next
    case False
    from table_First [OF assms(1) this] obtain row where row: "row \<in> set (selected T True ps (db s))"
      "tb_First t ps s = Inr row" by blast
    then have "x = Some row" using assms(2) [of row] by simp
    with row(2) show ?thesis by (simp add: found_def)
  qed
qed

end
