(* ===== verification/Mysql_Reads.thy ===== *)
theory Mysql_Reads
  imports Mysql_View
begin

text \<open>
  What every reading method of \<open>mysqlStore\<close> returns, on the abstract state of the database.
\<close>

text \<open>A count is positive when a row is selected.\<close>

lemma count_found:
  assumes "table_ok db T t s"
  obtains n where "tb_Count t b ps s = Inr n" "0 < n \<longleftrightarrow> (\<exists>row \<in> set (sc_rows T (db s)). selects T b ps row)"
  by (rule that [OF table_Count [OF assms]]) (simp add: filter_empty_conv)

lemma not_None_ex: "x \<noteq> None \<longleftrightarrow> (\<exists>v. x = Some v)"
  by (cases x) auto

lemma my_laws:
  assumes "mysql_inv A G db s"
  shows "table_ok db token_schema (g_token G) s" and "table_ok db users_schema (g_users G) s"
    and "table_ok db (miners_schema A) (g_miners G) s" and "table_ok db (signers_schema A) (g_signers G) s"
    and "table_ok db limits_schema (g_limits G) s" and "table_ok db version_schema (g_version G) s"
    and "\<exists>us. g_JoinMiners G p q s = Inr us \<and> mset us = mset (joined (miners_schema A) p q (db s))"
    and "\<exists>us. g_JoinSigners G p q s = Inr us \<and> mset us = mset (joined (signers_schema A) p q (db s))"
  using gorm_lawsD(1-8) [OF mysql_invD(1) [OF assms]] mysql_invD(3) [OF assms] by (simp_all add: rows_ok_def)
lemmas inv_views = my_views [OF mysql_invD(3)]
lemmas inv_rows = rows_okD [OF mysql_invD(3)]
lemmas inv_selects = selects_miner [OF mysql_invD(2)] selects_signer [OF mysql_invD(2)]

section \<open>Tokens\<close>

lemma my_Has_eq:
  assumes "mysql_inv A G db s"
  shows "my_Has G t s = Inr (a_token (my_view (db s)) t \<noteq> None)"
  by (rule count_found [OF my_laws(1) [OF assms], of False "[(''token'', Str t), (''is_deleted'', Num NotDelete)]"])
    (auto simp: my_Has_def not_None_ex inv_views [OF assms] simp del: not_None_eq)

lemma my_Get_found:
  assumes "mysql_inv A G db s"
  shows "found (my_Get G t s) (a_token (my_view (db s)) t)"
  unfolding my_Get_def
  by (rule take_found(1) [OF my_laws(1) [OF assms]]) (auto simp: inv_views [OF assms])

lemma distinct_rows:
  assumes "mysql_inv A G db s"
  shows "distinct (sq_token (db s))" "distinct (sq_users (db s))" "distinct (sq_miners (db s))"
    "distinct (sq_signers (db s))" "distinct (sq_limits (db s))"
  using inv_rows(1,3,6,8,10) [OF assms] by (simp_all add: distinct_map)

lemma my_ByName_lists:
  assumes "mysql_inv A G db s"
  shows "lists (my_ByName G n s) {kp. a_token (my_view (db s)) (kp_Token kp) = Some kp \<and> kp_Name kp = n}"
  using find_lists [OF my_laws(1) [OF assms], of "[(''name'', Str n), (''is_deleted'', Num NotDelete)]"]
  by (simp add: my_ByName_def distinct_rows [OF assms] inv_views [OF assms] conj_commute conj_left_commute)

lemma my_List_pages:
  assumes "mysql_inv A G db s" and "0 \<le> skip" "0 \<le> limit" "skip = 0 \<or> 0 < limit"
  shows "pages skip limit (my_List G skip limit s) {kp. a_token (my_view (db s)) (kp_Token kp) = Some kp}"
  using find_pages [OF my_laws(1) [OF assms(1)], of skip limit "[(''is_deleted'', Num NotDelete)]"] assms(2-)
  by (simp add: my_List_def distinct_rows [OF assms(1)] inv_views [OF assms(1)])

section \<open>Users\<close>

lemma my_HasUser_eq:
  assumes "mysql_inv A G db s"
  shows "my_HasUser G n s = Inr (a_user (my_view (db s)) n \<noteq> None)"
  by (rule count_found [OF my_laws(2) [OF assms], of False "[(''name'', Str n), (''is_deleted'', Num NotDelete)]"])
    (auto simp: my_HasUser_def not_None_ex inv_views [OF assms] simp del: not_None_eq)

lemma my_GetUser_found:
  assumes "mysql_inv A G db s"
  shows "found (my_innerGetUser G n s) (a_user (my_view (db s)) n)"
    and "found (my_GetUser G n s) (a_user (my_view (db s)) n)"
  unfolding my_GetUser_def my_innerGetUser_def
  by (rule take_found(1) [OF my_laws(2) [OF assms]], auto simp: inv_views [OF assms])+

lemma my_VerifyUsers_ok:
  assumes "mysql_inv A G db s"
  shows "is_ok (my_VerifyUsers G ns s) \<longleftrightarrow> (\<forall>n \<in> set ns. a_user (my_view (db s)) n \<noteq> None)"
proof (induction ns)
  case (Cons n ns)
  show ?case
    using my_GetUser_found(1) [OF assms, of n] Cons
    by (cases "a_user (my_view (db s)) n"; cases "my_innerGetUser G n s") (simp_all add: found_def)
qed simp

lemma my_ListUsers_pages:
  assumes "mysql_inv A G db s" and "0 \<le> skip" "0 \<le> limit" "skip = 0 \<or> 0 < limit"
  shows "pages skip limit (my_ListUsers G skip limit state s)
    {u. a_user (my_view (db s)) (usr_Name u) = Some u \<and> (state = UserStateUndefined \<or> usr_State u = state)}"
  using find_pages [OF my_laws(2) [OF assms(1)], of skip limit
      "(if state \<noteq> UserStateUndefined then [(''state'', Num state)] else []) @ [(''is_deleted'', Num NotDelete)]"] assms(2-)
  by (cases "state = UserStateUndefined")
    (simp_all add: my_ListUsers_def distinct_rows [OF assms(1)] inv_views [OF assms(1)] conj_commute conj_left_commute)

section \<open>Rate limits\<close>

lemma my_GetRateLimits_lists:
  assumes "mysql_inv A G db s"
  shows "lists (my_GetRateLimits G n i s)
    {l. as_limit (my_view (db s)) n (rl_Id l) = Some l \<and> (i = [] \<or> rl_Id l = i)}"
  using find_lists [OF my_laws(5) [OF assms], of "[(''name'', Str n)] @ (if i \<noteq> [] then [(''id'', Str i)] else [])"]
  by (cases "i = []")
    (simp_all add: my_GetRateLimits_def Let_def distinct_rows [OF assms] inv_views [OF assms] conj_commute conj_left_commute)

section \<open>Miners\<close>

lemma my_HasMiner_eq:
  assumes "mysql_inv A G db s"
  shows "my_HasMiner G A a s = Inr (a_owner (my_view (db s)) a \<noteq> None)"
  by (rule count_found [OF my_laws(3) [OF assms], of False "[(''miner'', Str (storedAddress_Value A a)), (''deleted_at'', Null)]"])
    (auto simp: my_HasMiner_def not_None_ex inv_views [OF assms] inv_selects [OF assms] simp del: not_None_eq; blast)

lemma my_MinerExistInUser_eq:
  assumes "mysql_inv A G db s"
  shows "my_MinerExistInUser G A a n s = Inr (a_owner (my_view (db s)) a = Some n)"
  by (rule count_found [OF my_laws(3) [OF assms], of False "[(''miner'', Str (storedAddress_Value A a)), (''user'', Str n), (''deleted_at'', Null)]"])
    (auto simp: my_MinerExistInUser_def not_None_ex inv_views [OF assms] inv_selects [OF assms] simp del: not_None_eq)

lemma my_ListMiners_lists:
  assumes "mysql_inv A G db s"
  shows "lists (my_innerListMiners G n s) {m. a_miner (my_view (db s)) (mn_Miner m) = Some m \<and> mn_User m = n}"
    and "lists (my_ListMiners G n s) {m. a_miner (my_view (db s)) (mn_Miner m) = Some m \<and> mn_User m = n}"
  using find_lists [OF my_laws(3) [OF assms], of "[(''user'', Str n)]"]
  by (simp_all add: my_ListMiners_def my_innerListMiners_def distinct_rows [OF assms] inv_views [OF assms]
      inv_selects [OF assms] conj_commute conj_left_commute)

section \<open>Signers\<close>

lemma my_SignerExistInUser_eq:
  assumes "mysql_inv A G db s"
  shows "my_SignerExistInUser G A a n s = Inr (a_signer (my_view (db s)) a n \<noteq> None)"
  by (rule count_found [OF my_laws(4) [OF assms], of False "[(''signer'', Str (storedAddress_Value A a)), (''user'', Str n), (''deleted_at'', Null)]"])
    (auto simp: my_SignerExistInUser_def not_None_ex inv_views [OF assms] inv_selects [OF assms] simp del: not_None_eq)

lemma my_ListSigner_lists:
  assumes "mysql_inv A G db s"
  shows "lists (my_ListSigner G n s) {g. a_signer (my_view (db s)) (sn_Signer g) n = Some g \<and> sn_User g = n}"
  using find_lists [OF my_laws(4) [OF assms], of "[(''user'', Str n)]"]
  by (simp add: my_ListSigner_def my_innerListSigners_def distinct_rows [OF assms] inv_views [OF assms]
      inv_selects [OF assms] conj_commute conj_left_commute cong: conj_cong)

lemma my_HasSigner_eq:
  assumes "mysql_inv A G db s"
  shows "my_HasSigner G A a s = Inr (\<exists>n. a_signer (my_view (db s)) a n \<noteq> None)"
  by (rule count_found [OF my_laws(4) [OF assms], of False "[(''signer'', Str (storedAddress_Value A a)), (''deleted_at'', Null)]"])
    (auto simp: my_HasSigner_def not_None_ex inv_views [OF assms] inv_selects [OF assms] simp del: not_None_eq; metis inv_views(8) [OF assms] option.distinct(1))

section \<open>Users by miner and by signer\<close>

lemma join_cols:
  "sc_col (miners_schema A) m ''user'' = Str (mn_User m)"
  "sc_col (signers_schema A) g ''user'' = Str (sn_User g)"
  "holds User_col [(''is_deleted'', Num d)] u \<longleftrightarrow> usr_IsDeleted u = d"
  by (simp_all add: miners_schema_def signers_schema_def Miner_col_def Signer_col_def holds_def User_col_def)

text \<open>
  The users of the owner of a miner: an unknown miner, or a deleted owner, is answered with the
  zero user and no error.
\<close>

lemma my_GetUserByMiner_eq:
  assumes "mysql_inv A G db s"
  shows "my_GetUserByMiner G A a s =
    Inr (case Option.bind (a_owner (my_view (db s)) a) (a_user (my_view (db s))) of
           None \<Rightarrow> zero_user | Some u \<Rightarrow> u)"
proof -
  let ?p = "[(''miner'', Str (storedAddress_Value A a))]" and ?q = "[(''is_deleted'', Num NotDelete)]"
  let ?us = "joined (miners_schema A) ?p ?q (db s)"
  obtain us where us: "g_JoinMiners G ?p ?q s = Inr us" "mset us = mset ?us"
    using my_laws(7) [OF assms] by blast
  have in_us: "u \<in> set ?us \<longleftrightarrow> Option.bind (a_owner (my_view (db s)) a) (a_user (my_view (db s))) = Some u" for u
    by (auto simp: joined_def bind_eq_Some_conv inv_views [OF assms] inv_selects [OF assms] join_cols)
  show ?thesis
  proof (cases us)
    case Nil
    then have "?us = []" using us(2) by simp
    then have "Option.bind (a_owner (my_view (db s)) a) (a_user (my_view (db s))) = None"
      using in_us by (metis list.set(1) empty_iff option.exhaust)
    with us(1) Nil show ?thesis by (simp add: my_GetUserByMiner_def)
  next
    case (Cons u rest)
    then have "u \<in> set ?us" using mset_eq_setD [OF us(2)] by auto
    with us(1) Cons in_us show ?thesis by (simp add: my_GetUserByMiner_def)
  qed
qed

text \<open>The users that are not deleted and bound to a signer; it is an error if there is none.\<close>

lemma my_GetUserBySigner_eq:
  fixes a :: 'a and A :: "'a addr_lib"
  assumes "mysql_inv A G db s"
  defines "U \<equiv> {u. a_signer (my_view (db s)) a (usr_Name u) \<noteq> None \<and> a_user (my_view (db s)) (usr_Name u) = Some u}"
  shows "if U = {} then my_GetUserBySigner G A a s = Inl ErrRecordNotFound
    else \<exists>us. my_GetUserBySigner G A a s = Inr us \<and> set us = U"
proof -
  let ?p = "[(''signer'', Str (storedAddress_Value A a))]" and ?q = "[(''is_deleted'', Num NotDelete)]"
  obtain us where us: "g_JoinSigners G ?p ?q s = Inr us" "mset us = mset (joined (signers_schema A) ?p ?q (db s))"
    using my_laws(8) [OF assms(1)] by blast
  have "set us = U"
    unfolding mset_eq_setD [OF us(2)]
    by (auto simp: U_def joined_def not_None_ex inv_views [OF assms(1)] inv_selects [OF assms(1)] join_cols simp del: not_None_eq)
  then show ?thesis using us(1) by (cases us) (auto simp: my_GetUserBySigner_def)
qed

end
