(* ===== verification/Mysql_Writes.thy ===== *)
theory Mysql_Writes
  imports Mysql_Reads
begin

text \<open>
  What every writing method of \<open>mysqlStore\<close> does to the abstract state of the database, and that it
  keeps the invariant of the tables.
\<close>

lemma mysql_inv_step: "mysql_inv A G db s \<Longrightarrow> rows_ok A (db s') \<Longrightarrow> mysql_inv A G db s'"
  by (simp add: mysql_inv_def)

abbreviation my_refines where
  "my_refines A G db s p spec \<equiv>
     refines (mysql_inv A G db) (\<lambda>s. my_view (db s)) (my_view (db s)) p spec"

section \<open>Tokens\<close>

text \<open>A token that is stored, removed or not, cannot be stored again.\<close>

lemma my_Put_refines:
  assumes "mysql_inv A G db s" and "flag_ok (kp_IsDeleted kp)"
  shows "my_refines A G db s (my_Put G kp s)
    (if as_token (my_view (db s)) (kp_Token kp) = None then spec_Put kp (my_view (db s)) else None)"
proof (cases "as_token (my_view (db s)) (kp_Token kp)")
  case None
  then have new: "kp_Token kp \<notin> kp_Token ` set (sq_token (db s))"
    by (simp add: my_view_def find_key_None)
  then have "filter (sc_clash token_schema kp) (sc_rows token_schema (db s)) = []"
    by (auto simp: token_schema_def filter_empty_conv)
  from table_Create [OF my_laws(1) [OF assms(1)] this, of NoClause] obtain s' where
    s': "my_Put G kp s = (s', Inr ())" "db s' = (db s)\<lparr>sq_token := sq_token (db s) @ [kp]\<rparr>"
    by (auto simp: my_Put_def token_schema_def)
  have "rows_ok A (db s')"
    unfolding s'(2) by (rule rows_ok_update(1) [OF mysql_invD(3) [OF assms(1)]])
      (use new assms(2) inv_rows(1,2) [OF assms(1)] in auto)
  moreover have "my_view (db s') = (my_view (db s))\<lparr>as_token := (as_token (my_view (db s)))(kp_Token kp \<mapsto> kp)\<rparr>"
    by (simp add: my_view_def s'(2) lookup_snoc [OF new])
  ultimately show ?thesis
    using None s'(1) mysql_inv_step [OF assms(1)] by (simp add: refines_def spec_Put_def)
next
  case (Some old)
  then have "filter (sc_clash token_schema kp) (sc_rows token_schema (db s)) \<noteq> []"
    by (auto simp: token_schema_def filter_empty_conv inv_views [OF assms(1)] intro: sym)
  from table_Create_dup [OF my_laws(1) [OF assms(1)] this] show ?thesis
    using Some assms(1) by (auto simp: my_Put_def refines_def)
qed

lemma token_set_simps [simp]:
  "sc_set token_schema [(''is_deleted'', Num d)] kp = kp\<lparr>kp_IsDeleted := d\<rparr>"
  "sc_set token_schema [(''name'', Str (kp_Name kp)), (''perm'', Str (kp_Perm kp)),
     (''secret'', Str (kp_Secret kp)), (''extra'', Str (kp_Extra kp)), (''token'', Str (kp_Token kp)),
     (''createTime'', Time (kp_CreateTime kp)), (''is_deleted'', Num (kp_IsDeleted kp))] old = kp"
  by (cases old; cases kp; simp add: token_schema_def)+

text \<open>An update of the rows of a token with a function that keeps the token.\<close>

lemma token_update:
  assumes "mysql_inv A G db s" and "as_token (my_view (db s)) t = Some kp"
    and "\<And>kp. kp_Token (f kp) = kp_Token kp" and "flag_ok (kp_IsDeleted (f kp))"
    and "db s' = (db s)\<lparr>sq_token := map (\<lambda>kp. if kp_Token kp = t then f kp else kp) (sq_token (db s))\<rparr>"
  shows "mysql_inv A G db s'"
    and "my_view (db s') = (my_view (db s))\<lparr>as_token := (as_token (my_view (db s)))(t \<mapsto> f kp)\<rparr>"
proof -
  have one: "kp' = kp" if "kp' \<in> set (sq_token (db s))" "kp_Token kp' = t" for kp'
    using that assms(2) inv_views(1) [OF assms(1), of t] by (metis option.inject)
  have "rows_ok A (db s')"
    unfolding assms(5)
  proof (rule rows_ok_update(1) [OF mysql_invD(3) [OF assms(1)]])
    have "map kp_Token (map (\<lambda>kp. if kp_Token kp = t then f kp else kp) (sq_token (db s))) = map kp_Token (sq_token (db s))"
      by (simp add: assms(3))
    then show "distinct (map kp_Token (map (\<lambda>kp. if kp_Token kp = t then f kp else kp) (sq_token (db s))))"
      by (simp only: inv_rows(1) [OF assms(1)])
  qed (use one assms(4) inv_rows(2) [OF assms(1)] in \<open>auto split: if_splits\<close>)
  then show "mysql_inv A G db s'" by (rule mysql_inv_step [OF assms(1)])
  have "find (\<lambda>kp. kp_Token kp = t) (sq_token (db s)) = Some kp"
    using assms(2) by (simp add: my_view_def)
  from lookup_map1 [of kp_Token t f, OF _ this] assms(3)
  show "my_view (db s') = (my_view (db s))\<lparr>as_token := (as_token (my_view (db s)))(t \<mapsto> f kp)\<rparr>"
    by (simp add: my_view_def assms(5))
qed

lemma my_Delete_refines:
  assumes "mysql_inv A G db s"
  shows "my_refines A G db s (my_Delete G t s) (spec_Delete t (my_view (db s)))"
proof (cases "a_token (my_view (db s)) t")
  case None
  then show ?thesis using assms by (simp add: my_Delete_def my_Has_eq [OF assms] refines_def spec_Delete_def)
next
  case (Some kp)
  obtain s' where s': "tb_Update (g_token G) [(''token'', Str t)] [(''is_deleted'', Num Deleted)] s = (s', Inr ())"
    "db s' = (db s)\<lparr>sq_token := map (\<lambda>kp. if kp_Token kp = t then kp\<lparr>kp_IsDeleted := Deleted\<rparr> else kp) (sq_token (db s))\<rparr>"
    using table_Update [OF my_laws(1) [OF assms], of "[(''token'', Str t)]" "[(''is_deleted'', Num Deleted)]"] by auto
  have "as_token (my_view (db s)) t = Some kp" using Some by (simp add: live_Some)
  note u = token_update [OF assms this _ _ s'(2)]
  show ?thesis using u Some s'(1)
    by (simp add: my_Delete_def my_Has_eq [OF assms] refines_def spec_Delete_def flag_ok_def)
qed

lemma my_Recover_refines:
  assumes "mysql_inv A G db s"
  shows "my_refines A G db s (my_Recover G t s) (spec_Recover t (my_view (db s)))"
proof -
  obtain n where n: "tb_Count (g_token G) False [(''token'', Str t), (''is_deleted'', Num Deleted)] s = Inr n"
    "0 < n \<longleftrightarrow> (\<exists>kp \<in> set (sq_token (db s)). kp_Token kp = t \<and> kp_IsDeleted kp = Deleted)"
    by (rule count_found [OF my_laws(1) [OF assms], of False "[(''token'', Str t), (''is_deleted'', Num Deleted)]"]) auto
  show ?thesis
  proof (cases "0 < n")
    case False
    then have "spec_Recover t (my_view (db s)) = None"
      using n(2) inv_rows(2) [OF assms]
      by (auto simp: spec_Recover_def inv_views [OF assms] flag_ok_def split: option.split)
    then show ?thesis using False n(1) assms by (simp add: my_Recover_def refines_def)
  next
    case True
    then obtain kp where kp: "as_token (my_view (db s)) t = Some kp" "kp_IsDeleted kp = Deleted"
      using n(2) by (auto simp: inv_views [OF assms])
    obtain s' where s': "tb_Update (g_token G) [(''token'', Str t)] [(''is_deleted'', Num NotDelete)] s = (s', Inr ())"
      "db s' = (db s)\<lparr>sq_token := map (\<lambda>kp. if kp_Token kp = t then kp\<lparr>kp_IsDeleted := NotDelete\<rparr> else kp) (sq_token (db s))\<rparr>"
      using table_Update [OF my_laws(1) [OF assms], of "[(''token'', Str t)]" "[(''is_deleted'', Num NotDelete)]"] by auto
    note u = token_update [OF assms kp(1) _ _ s'(2)]
    show ?thesis using u kp True s'(1) n(1)
      by (simp add: my_Recover_def refines_def spec_Recover_def flag_ok_def)
  qed
qed

text \<open>Updating a token that is not stored changes nothing, without an error.\<close>

lemma my_UpdateToken_refines:
  assumes "mysql_inv A G db s" and "flag_ok (kp_IsDeleted kp)"
  shows "my_refines A G db s (my_UpdateToken G kp s)
    (if as_token (my_view (db s)) (kp_Token kp) = None then Some (my_view (db s), ())
     else spec_Put kp (my_view (db s)))"
proof -
  let ?t = "kp_Token kp"
  obtain s' where s': "my_UpdateToken G kp s = (s', Inr ())"
    "db s' = (db s)\<lparr>sq_token := map (\<lambda>old. if kp_Token old = ?t then kp else old) (sq_token (db s))\<rparr>"
    using table_Update [OF my_laws(1) [OF assms(1)], of "[(''token'', Str ?t)]" "[(''name'', Str (kp_Name kp)),
         (''perm'', Str (kp_Perm kp)), (''secret'', Str (kp_Secret kp)), (''extra'', Str (kp_Extra kp)),
         (''token'', Str (kp_Token kp)), (''createTime'', Time (kp_CreateTime kp)),
         (''is_deleted'', Num (kp_IsDeleted kp))]"]
    by (auto simp: my_UpdateToken_def)
  show ?thesis
  proof (cases "as_token (my_view (db s)) ?t")
    case None
    then have "map (\<lambda>old. if kp_Token old = ?t then kp else old) (sq_token (db s)) = sq_token (db s)"
      by (auto simp: my_view_def find_None_iff intro: map_idI)
    then show ?thesis using None s' mysql_inv_step [OF assms(1), of s'] mysql_invD(3) [OF assms(1)]
      by (simp add: refines_def)
  next
    case (Some old)
    have s2: "db s' = (db s)\<lparr>sq_token := map (\<lambda>old. if kp_Token old = ?t
        then (if kp_Token old = ?t then kp else old) else old) (sq_token (db s))\<rparr>"
      unfolding s'(2) by (intro arg_cong2 [of _ _ _ _ "\<lambda>x y. x\<lparr>sq_token := y\<rparr>"] map_cong) auto
    have "kp_Token old = ?t" using Some by (simp add: inv_views [OF assms(1)])
    with token_update [OF assms(1) Some _ _ s2] Some s'(1) assms(2) show ?thesis
      by (simp add: refines_def spec_Put_def)
  qed
qed

section \<open>Users\<close>

text \<open>A user needs a name and an id that no user has, deleted or not.\<close>

lemma my_PutUser_refines:
  assumes "mysql_inv A G db s" and "flag_ok (usr_IsDeleted u)"
  shows "my_refines A G db s (my_PutUser G u s)
    (if \<forall>n v. as_user (my_view (db s)) n = Some v \<longrightarrow> usr_Id u \<noteq> usr_Id v \<and> usr_Name u \<noteq> usr_Name v
     then spec_PutUser u (my_view (db s)) else None)"
proof -
  let ?new = "\<forall>v \<in> set (sq_users (db s)). usr_Id u \<noteq> usr_Id v \<and> usr_Name u \<noteq> usr_Name v"
  have new: "?new \<longleftrightarrow>
      (\<forall>n v. as_user (my_view (db s)) n = Some v \<longrightarrow> usr_Id u \<noteq> usr_Id v \<and> usr_Name u \<noteq> usr_Name v)"
    by (auto simp: inv_views [OF assms(1)])
  show ?thesis
  proof (cases ?new)
    case True
    then have fresh: "usr_Name u \<notin> usr_Name ` set (sq_users (db s))" "usr_Id u \<notin> usr_Id ` set (sq_users (db s))"
      by (metis imageE)+
    obtain s' where s': "my_PutUser G u s = (s', Inr ())" "db s' = (db s)\<lparr>sq_users := sq_users (db s) @ [u]\<rparr>"
      using table_Create [OF my_laws(2) [OF assms(1)], of u NoClause] True
      by (auto simp: my_PutUser_def users_schema_def filter_empty_conv)
    have "rows_ok A (db s')"
      unfolding s'(2) by (rule rows_ok_update(2) [OF mysql_invD(3) [OF assms(1)]])
        (use fresh assms(2) inv_rows(3,4,5) [OF assms(1)] in auto)
    moreover have "my_view (db s') = (my_view (db s))\<lparr>as_user := (as_user (my_view (db s)))(usr_Name u \<mapsto> u)\<rparr>"
      by (simp add: my_view_def s'(2) lookup_snoc [OF fresh(1)])
    ultimately show ?thesis
      using new True s'(1) mysql_inv_step [OF assms(1)] by (simp add: refines_def spec_PutUser_def)
  next
    case False
    then obtain e where "my_PutUser G u s = (s, Inl e)"
      using table_Create_dup [OF my_laws(2) [OF assms(1)], of u]
      by (auto simp: my_PutUser_def users_schema_def filter_empty_conv)
    then show ?thesis using new False assms(1) by (auto simp: refines_def)
  qed
qed

text \<open>Saving a user under the name and id it was read with replaces it.\<close>

lemma user_save:
  assumes "mysql_inv A G db s" and "as_user (my_view (db s)) n = Some u0"
    and "usr_Name u = n" "usr_Id u = usr_Id u0" "flag_ok (usr_IsDeleted u)"
  obtains s' where "my_innerUpdateUser G u s = (s', Inr ())" "mysql_inv A G db s'"
    "my_view (db s') = (my_view (db s))\<lparr>as_user := (as_user (my_view (db s)))(n \<mapsto> u)\<rparr>"
proof -
  have u0: "u0 \<in> set (sq_users (db s))" "usr_Name u0 = n"
    using assms(2) by (simp_all add: inv_views [OF assms(1)])
  have same: "usr_Id u = usr_Id v \<or> usr_Name u = usr_Name v \<longleftrightarrow> v = u0"
    "usr_Name v = n \<longleftrightarrow> v = u0" if "v \<in> set (sq_users (db s))" for v
    using inv_rows(3,4) [OF assms(1)] u0 that assms(3,4) by (auto simp: distinct_map inj_on_def)
  have "filter (sc_clash users_schema u) (sc_rows users_schema (db s)) = [u0]"
    using filter_one [OF distinct_rows(2) [OF assms(1)] u0(1), of "sc_clash users_schema u"] same(1)
    by (simp add: users_schema_def)
  from table_Save_old [OF my_laws(2) [OF assms(1)] this] obtain s' where
    s': "my_innerUpdateUser G u s = (s', Inr ())"
    "db s' = (db s)\<lparr>sq_users := map (\<lambda>v. if usr_Id u = usr_Id v \<or> usr_Name u = usr_Name v then u else v) (sq_users (db s))\<rparr>"
    using assms(4) by (auto simp: my_innerUpdateUser_def users_schema_def)
  have rows: "map (\<lambda>v. if usr_Id u = usr_Id v \<or> usr_Name u = usr_Name v then u else v) (sq_users (db s)) =
      map (\<lambda>v. if usr_Name v = n then u else v) (sq_users (db s))"
    using same by (intro map_cong) auto
  have "rows_ok A (db s')"
    unfolding s'(2) rows
  proof (rule rows_ok_update(2) [OF mysql_invD(3) [OF assms(1)]])
    have "map usr_Name (map (\<lambda>v. if usr_Name v = n then u else v) (sq_users (db s))) = map usr_Name (sq_users (db s))"
      using assms(3) by simp
    then show "distinct (map usr_Name (map (\<lambda>v. if usr_Name v = n then u else v) (sq_users (db s))))"
      by (simp only: inv_rows(3) [OF assms(1)])
    have "map usr_Id (map (\<lambda>v. if usr_Name v = n then u else v) (sq_users (db s))) = map usr_Id (sq_users (db s))"
      using assms(4) same(2) by simp
    then show "distinct (map usr_Id (map (\<lambda>v. if usr_Name v = n then u else v) (sq_users (db s))))"
      by (simp only: inv_rows(4) [OF assms(1)])
  qed (use assms(5) inv_rows(5) [OF assms(1)] in \<open>auto split: if_splits\<close>)
  moreover have "my_view (db s') = (my_view (db s))\<lparr>as_user := (as_user (my_view (db s)))(n \<mapsto> u)\<rparr>"
  proof -
    have "find (\<lambda>v. usr_Name v = n) (sq_users (db s)) = Some u0" using assms(2) by (simp add: my_view_def)
    from lookup_map1 [of usr_Name n "\<lambda>_. u", OF _ this] assms(3) show ?thesis
      by (simp add: my_view_def s'(2) [unfolded rows])
  qed
  ultimately show thesis using that s'(1) mysql_inv_step [OF assms(1)] by blast
qed

lemma my_UpdateUser_refines:
  assumes "mysql_inv A G db s" and "as_user (my_view (db s)) (usr_Name u) = Some u0"
    and "usr_Id u = usr_Id u0" "flag_ok (usr_IsDeleted u)"
  shows "my_refines A G db s (my_UpdateUser G u s) (spec_PutUser u (my_view (db s)))"
  by (rule user_save [OF assms(1,2) refl assms(3,4)]) (simp add: my_UpdateUser_def refines_def spec_PutUser_def)

lemma my_RecoverUser_refines:
  assumes "mysql_inv A G db s"
  shows "my_refines A G db s (my_RecoverUser G n s) (spec_RecoverUser n (my_view (db s)))"
proof -
  let ?x = "case as_user (my_view (db s)) n of None \<Rightarrow> None
    | Some u \<Rightarrow> if usr_IsDeleted u = Deleted then Some u else None"
  have f: "found (tb_Take (g_users G) [(''name'', Str n), (''is_deleted'', Num Deleted)] s) ?x"
  proof (rule take_found(1) [OF my_laws(2) [OF assms]])
    have "?x = Some u \<longleftrightarrow> as_user (my_view (db s)) n = Some u \<and> usr_IsDeleted u = Deleted" for u
      by (auto split: option.splits if_splits)
    then show "?x = Some u \<longleftrightarrow> u \<in> set (sc_rows users_schema (db s)) \<and>
        selects users_schema True [(''name'', Str n), (''is_deleted'', Num Deleted)] u" for u
      by (simp add: inv_views [OF assms])
  qed
  show ?thesis
  proof (cases ?x)
    case None
    have "spec_RecoverUser n (my_view (db s)) = None"
    proof (cases "as_user (my_view (db s)) n")
      case (Some u)
      then have "u \<in> set (sq_users (db s))" by (simp add: inv_views [OF assms])
      then have "flag_ok (usr_IsDeleted u)" by (rule inv_rows(5) [OF assms])
      with Some None show ?thesis by (auto simp: spec_RecoverUser_def flag_ok_def split: if_splits)
    qed (simp add: spec_RecoverUser_def)
    then show ?thesis using None f assms
      by (cases "tb_Take (g_users G) [(''name'', Str n), (''is_deleted'', Num Deleted)] s")
        (simp_all add: my_RecoverUser_def refines_def found_def)
  next
    case (Some u)
    then have u: "as_user (my_view (db s)) n = Some u" "usr_IsDeleted u = Deleted"
      by (auto split: option.splits if_splits)
    have "usr_Name u = n" using u(1) by (simp add: inv_views [OF assms])
    moreover obtain s' where "my_innerUpdateUser G (u\<lparr>usr_IsDeleted := NotDelete\<rparr>) s = (s', Inr ())"
      "mysql_inv A G db s'" "my_view (db s') =
        (my_view (db s))\<lparr>as_user := (as_user (my_view (db s)))(n \<mapsto> u\<lparr>usr_IsDeleted := NotDelete\<rparr>)\<rparr>"
      by (rule user_save [OF assms u(1), of "u\<lparr>usr_IsDeleted := NotDelete\<rparr>"])
        (simp_all add: \<open>usr_Name u = n\<close> flag_ok_def)
    moreover have "tb_Take (g_users G) [(''name'', Str n), (''is_deleted'', Num Deleted)] s = Inr u"
      using Some f by (simp add: found_def)
    ultimately show ?thesis using u by (simp add: my_RecoverUser_def refines_def spec_RecoverUser_def)
  qed
qed

end
