(* ===== verification/Mysql_Owners.thy ===== *)
theory Mysql_Owners
  imports Mysql_Writes
begin

text \<open>
  The writing methods of \<open>mysqlStore\<close> on rate limits, miners and signers, and \<open>DeleteUser\<close>. gorm
  reads its own clock for the times it fills in, so these leave the times open.
\<close>

lemma option_eqI: "(\<And>v. x = Some v \<longleftrightarrow> y = Some v) \<Longrightarrow> x = y"
  by (cases x; cases y) auto

lemma maps_to_if: "concat (map (\<lambda>x. if P x then [f x] else [x]) xs) = map (\<lambda>x. if P x then f x else x) xs"
  by (induction xs) auto

lemma schema_remove [simp]:
  "sc_remove limits_schema now l = None"
  "sc_remove (miners_schema A) now m = Some (Miner_setDeleted now m)"
  "sc_remove (signers_schema A) now g = Some (Signer_setDeleted now g)"
  by (simp_all add: schema_defs)

lemma schema_new [simp]:
  "sc_new (miners_schema A) = Miner_new" "sc_merge (miners_schema A) = Miner_merge"
  "sc_new (signers_schema A) = Signer_new" "sc_merge (signers_schema A) = Signer_merge"
  by (simp_all add: schema_defs)

lemma limit_view:
  assumes "c' = c\<lparr>sq_limits := rows\<rparr>" and "\<And>n i. as_limit (my_view c') n i = F n i"
  shows "my_view c' = (my_view c)\<lparr>as_limit := F\<rparr>"
proof -
  have "as_limit (my_view c') = F" using assms(2) by (simp add: fun_eq_iff)
  then show ?thesis by (simp add: my_view_def assms(1))
qed

text \<open>
  \<open>Create\<close> with \<open>UpdateAll\<close> on a table with the unique key \<open>f\<close>: the lookup by \<open>f\<close> is updated.
\<close>

lemma table_upsert:
  assumes "table_ok db T t s" and clash: "\<And>r. sc_clash T m r \<longleftrightarrow> f r = f m"
    and new: "\<And>now n. f (sc_new T now n m) = f m"
    and merge: "\<And>old now n. f (sc_merge T old (sc_new T now n m)) = f m"
    and dist: "distinct (map f (sc_rows T (db s)))"
  obtains s' rows row now n where "tb_Create t (UpdateAll cols) m s = (s', Inr ())"
    "db s' = sc_put T rows (db s)" "distinct (map f rows)"
    "(\<lambda>k. find (\<lambda>r. f r = k) rows) = (\<lambda>k. find (\<lambda>r. f r = k) (sc_rows T (db s)))(f m \<mapsto> row)"
    "set rows \<subseteq> insert row (set (sc_rows T (db s)))"
    "row = sc_new T now n m \<or> (\<exists>old. row = sc_merge T old (sc_new T now n m))"
proof (cases "find (\<lambda>r. f r = f m) (sc_rows T (db s))")
  case None
  let ?rows = "sc_rows T (db s)"
  from None have fresh: "f m \<notin> f ` set ?rows" by (simp add: find_key_None)
  then have "filter (sc_clash T m) ?rows = []" by (auto simp: clash filter_empty_conv image_iff)
  from table_Create [OF assms(1) this, of "UpdateAll cols"] obtain s' now n where
    s': "tb_Create t (UpdateAll cols) m s = (s', Inr ())" "db s' = sc_put T (?rows @ [sc_new T now n m]) (db s)"
    by blast
  show thesis
    by (rule that [OF s', of "sc_new T now n m" now n])
      (use fresh dist lookup_snoc [of f "sc_new T now n m" ?rows] in \<open>simp_all add: new\<close>)
next
  case (Some old)
  let ?rows = "sc_rows T (db s)"
  have old: "old \<in> set ?rows" "f old = f m" using Some dist by (simp_all add: find_key)
  have "filter (sc_clash T m) ?rows = [old]"
    by (rule filter_one [OF _ old(1)]) (use old dist in \<open>auto simp: clash distinct_map inj_on_def\<close>)
  from table_Create_merge [OF assms(1) this, of cols] obtain s' now n where
    s': "tb_Create t (UpdateAll cols) m s = (s', Inr ())"
    "db s' = sc_put T (map (\<lambda>r. if f r = f m then sc_merge T r (sc_new T now n m) else r) ?rows) (db s)"
    unfolding clash by blast
  have "map f (map (\<lambda>r. if f r = f m then sc_merge T r (sc_new T now n m) else r) ?rows) = map f ?rows"
    by (simp add: merge)
  then have "distinct (map f (map (\<lambda>r. if f r = f m then sc_merge T r (sc_new T now n m) else r) ?rows))"
    by (simp only: dist)
  moreover have "r = old" if "r \<in> set ?rows" "f r = f m" for r
    using that old dist by (auto simp: distinct_map inj_on_def)
  ultimately show thesis
    by (intro that [OF s', of "sc_merge T old (sc_new T now n m)" now n] lookup_map1 [OF merge Some])
      (auto simp: merge)
qed

section \<open>Rate limits\<close>

text \<open>The id is the primary key: saving a limit takes the id away from any other user.\<close>

definition put_limit :: "user_rate_limit \<Rightarrow> 'a astore \<Rightarrow> 'a astore" where
  "put_limit l st = st\<lparr>as_limit := (\<lambda>n i. if i = rl_Id l then (if n = rl_Name l then Some l else None)
     else as_limit st n i)\<rparr>"

lemma my_PutRateLimit_does:
  assumes "mysql_inv A G db s" and i_def: "i = (if rl_Id l = [] then uuid else rl_Id l)"
  obtains s' where "my_PutRateLimit G uuid l s = (s', Inr i)" "mysql_inv A G db s'"
    "my_view (db s') = put_limit (l\<lparr>rl_Id := i\<rparr>) (my_view (db s))"
proof -
  let ?l = "l\<lparr>rl_Id := i\<rparr>"
  let ?rows = "map (\<lambda>r. if rl_Id r = i then ?l else r) (sq_limits (db s))"
  have save: "\<exists>s' rows. tb_Save (g_limits G) ?l s = (s', Inr ()) \<and> db s' = (db s)\<lparr>sq_limits := rows\<rparr> \<and>
      distinct (map rl_Id rows) \<and> (\<forall>r. r \<in> set rows \<longleftrightarrow> r = ?l \<or> r \<in> set (sq_limits (db s)) \<and> rl_Id r \<noteq> i)"
  proof (cases "i \<in> rl_Id ` set (sq_limits (db s))")
    case False
    then obtain s' where s': "tb_Save (g_limits G) ?l s = (s', Inr ())" "db s' = (db s)\<lparr>sq_limits := sq_limits (db s) @ [?l]\<rparr>"
      using table_Save_new [OF my_laws(5) [OF assms(1)], of ?l]
      by (auto simp: limits_schema_def filter_empty_conv)
    moreover have "distinct (map rl_Id (sq_limits (db s) @ [?l]))"
      using False inv_rows(10) [OF assms(1)] by simp
    ultimately show ?thesis using False by (intro exI [of _ s'] exI [of _ "sq_limits (db s) @ [?l]"]) auto
  next
    case True
    then obtain old where old: "old \<in> set (sq_limits (db s))" "rl_Id old = i" by auto
    have one: "rl_Id r = i \<longleftrightarrow> r = old" if "r \<in> set (sq_limits (db s))" for r
      using inv_rows(10) [OF assms(1)] old that by (auto simp: distinct_map inj_on_def)
    have "filter (\<lambda>r. i = rl_Id r) (sq_limits (db s)) = [old]"
      by (rule filter_one [OF distinct_rows(5) [OF assms(1)] old(1)]) (use one in auto)
    then obtain s' where s': "tb_Save (g_limits G) ?l s = (s', Inr ())" "db s' = (db s)\<lparr>sq_limits := ?rows\<rparr>"
      using table_Save_old [OF my_laws(5) [OF assms(1)], of ?l old] old(2)
      by (auto simp: limits_schema_def eq_commute [of i])
    have "map rl_Id ?rows = map rl_Id (sq_limits (db s))" by simp
    then have "distinct (map rl_Id ?rows)" by (simp only: inv_rows(10) [OF assms(1)])
    moreover have "r \<in> set ?rows \<longleftrightarrow> r = ?l \<or> r \<in> set (sq_limits (db s)) \<and> rl_Id r \<noteq> i" for r
      using old by auto
    ultimately show ?thesis using s' by (intro exI [of _ s'] exI [of _ ?rows]) blast
  qed
  then obtain s' rows where s': "tb_Save (g_limits G) ?l s = (s', Inr ())" "db s' = (db s)\<lparr>sq_limits := rows\<rparr>"
    "distinct (map rl_Id rows)" "\<And>r. r \<in> set rows \<longleftrightarrow> r = ?l \<or> r \<in> set (sq_limits (db s)) \<and> rl_Id r \<noteq> i"
    by blast
  have ok: "rows_ok A (db s')"
    unfolding s'(2) by (rule rows_ok_update(5) [OF mysql_invD(3) [OF assms(1)] s'(3)])
  have nm: "v = l\<lparr>rl_Id := j\<rparr> \<Longrightarrow> rl_Name v = rl_Name l" for v j by simp
  have r: "sq_limits (db s') = rows" by (simp add: s'(2))
  have "as_limit (my_view (db s')) n j = as_limit (put_limit ?l (my_view (db s))) n j" for n j
    by (rule option_eqI) (auto simp: my_view_limit [OF ok] put_limit_def inv_views [OF assms(1)] r s'(4) dest: nm)
  from limit_view [OF s'(2) this] have "my_view (db s') = put_limit ?l (my_view (db s))"
    by (simp add: put_limit_def)
  moreover have "my_PutRateLimit G uuid l s = (s', Inr i)"
    using s'(1) by (simp add: my_PutRateLimit_def i_def Let_def split: if_splits)
  ultimately show thesis using that mysql_inv_step [OF assms(1) ok] by blast
qed

text \<open>One limit is deleted, and no other.\<close>

lemma my_DelRateLimit_does:
  assumes "mysql_inv A G db s" and "n \<noteq> []" "i \<noteq> []"
  obtains s' where "my_DelRateLimit G n i s = (s', Inr ())" "mysql_inv A G db s'"
    "my_view (db s') = (my_view (db s))\<lparr>as_limit :=
       (as_limit (my_view (db s)))(n := (as_limit (my_view (db s)) n)(i := None))\<rparr>"
proof -
  obtain s' k where s': "tb_Delete (g_limits G) [(''id'', Str i), (''name'', Str n)] s = (s', Inr k)"
    "db s' = (db s)\<lparr>sq_limits := filter (\<lambda>r. \<not> (rl_Id r = i \<and> rl_Name r = n)) (sq_limits (db s))\<rparr>"
  proof -
    have "concat (map (\<lambda>x. if P x then [] else [x]) xs) = filter (\<lambda>x. \<not> P x) xs" for P and xs :: "user_rate_limit list"
      by (induction xs) auto
    then show thesis
      using table_Delete [OF my_laws(5) [OF assms(1)], of "[(''id'', Str i), (''name'', Str n)]"] that
      by (auto cong: if_cong)
  qed
  have ok: "rows_ok A (db s')"
    unfolding s'(2) by (rule rows_ok_update(5) [OF mysql_invD(3) [OF assms(1)]])
      (simp add: distinct_map_filter inv_rows(10) [OF assms(1)])
  have r: "sq_limits (db s') = filter (\<lambda>r. \<not> (rl_Id r = i \<and> rl_Name r = n)) (sq_limits (db s))" by (simp add: s'(2))
  have lim: "as_limit (my_view (db s')) m j = ((as_limit (my_view (db s)))(n := (as_limit (my_view (db s)) n)(i := None))) m j" for m j
    by (rule option_eqI) (auto simp: my_view_limit [OF ok] inv_views [OF assms(1)] r)
  have "my_view (db s') = (my_view (db s))\<lparr>as_limit :=
       (as_limit (my_view (db s)))(n := (as_limit (my_view (db s)) n)(i := None))\<rparr>"
    by (rule limit_view [OF s'(2) lim])
  then show thesis
    using that [of s'] s'(1) assms(2,3) mysql_inv_step [OF assms(1) ok] by (simp add: my_DelRateLimit_def)
qed

section \<open>Miners\<close>

lemma mark_new [simp]:
  "mark_ok (Miner_setDeleted now m) \<longleftrightarrow> \<not> IsZero now" "mark_ok (Signer_setDeleted now g) \<longleftrightarrow> \<not> IsZero now"
  by (simp_all add: mark_ok_def Miner_setDeleted_def Signer_setDeleted_def)

lemma setDeleted_sel [simp]:
  "mn_Miner (Miner_setDeleted now m) = mn_Miner m" "mn_User (Miner_setDeleted now m) = mn_User m"
  "sn_Signer (Signer_setDeleted now g) = sn_Signer g" "sn_User (Signer_setDeleted now g) = sn_User g"
  by (simp_all add: Miner_setDeleted_def Signer_setDeleted_def)

lemma mark_deleted: "mark_ok m \<Longrightarrow> Miner_isDeleted m \<longleftrightarrow> da_Valid (DeletedAt m)"
  by (auto simp: Miner_isDeleted_def mark_ok_def)

lemma mark_deleted_signer: "mark_ok g \<Longrightarrow> Signer_isDeleted g \<longleftrightarrow> da_Valid (DeletedAt g)"
  by (auto simp: Signer_isDeleted_def mark_ok_def)

text \<open>Rows of miners are changed without touching the address; the view follows.\<close>

lemma miners_update:
  assumes "mysql_inv A G db s" and "db s' = (db s)\<lparr>sq_miners := map f (sq_miners (db s))\<rparr>"
    and "\<And>m. mn_Miner (f m) = mn_Miner m" and "\<And>m. mark_ok m \<Longrightarrow> mark_ok (f m)"
    and "\<And>m. mark_ok m \<Longrightarrow> f m = h (mn_Miner m) m"
  shows "mysql_inv A G db s'"
    and "my_view (db s') = (my_view (db s))\<lparr>as_miner := (\<lambda>a. map_option (h a) (as_miner (my_view (db s)) a))\<rparr>"
proof -
  have "map mn_Miner (map f (sq_miners (db s))) = map mn_Miner (sq_miners (db s))" using assms(3) by simp
  then have "distinct (map mn_Miner (map f (sq_miners (db s))))" by (simp only: inv_rows(6) [OF assms(1)])
  then have "rows_ok A (db s')"
    unfolding assms(2) by (rule rows_ok_update(3) [OF mysql_invD(3) [OF assms(1)]])
      (use assms(4) inv_rows(7) [OF assms(1)] in auto)
  then show "mysql_inv A G db s'" by (rule mysql_inv_step [OF assms(1)])
  have "map_option f (find (\<lambda>m. mn_Miner m = a) (sq_miners (db s))) =
      map_option (h a) (find (\<lambda>m. mn_Miner m = a) (sq_miners (db s)))" for a
  proof (cases "find (\<lambda>m. mn_Miner m = a) (sq_miners (db s))")
    case (Some m)
    then have "m \<in> set (sq_miners (db s))" "mn_Miner m = a" by (auto simp: find_Some_iff)
    with Some assms(5) [of m] inv_rows(7) [OF assms(1)] show ?thesis by simp
  qed simp
  then show "my_view (db s') = (my_view (db s))\<lparr>as_miner := (\<lambda>a. map_option (h a) (as_miner (my_view (db s)) a))\<rparr>"
    by (simp add: my_view_def assms(2) lookup_map [of mn_Miner f, OF assms(3)])
qed

lemma my_innerDelMiner_does:
  assumes "mysql_inv A G db s"
  obtains s' now where "my_innerDelMiner G A a s = (s', Inr (a_owner (my_view (db s)) a \<noteq> None))"
    and "mysql_inv A G db s'" "\<not> IsZero now"
    and "my_view (db s') = (my_view (db s))\<lparr>as_miner :=
       (\<lambda>b. map_option (if b = a then del_miner now else id) (as_miner (my_view (db s)) b))\<rparr>"
proof -
  let ?p = "[(''miner'', Str (storedAddress_Value A a))]"
  let ?f = "\<lambda>now m. if mn_Miner m = a \<and> \<not> da_Valid (DeletedAt m) then Miner_setDeleted now m else m"
  obtain s' now where s': "\<not> IsZero now"
    "tb_Delete (g_miners G) ?p s = (s', Inr (int (length (selected (miners_schema A) True ?p (db s)))))"
    "db s' = (db s)\<lparr>sq_miners := map (?f now) (sq_miners (db s))\<rparr>"
    using table_Delete [OF my_laws(3) [OF assms], of ?p]
    by (auto simp: maps_to_if inv_selects [OF assms] cong: if_cong)
  have "0 < int (length (selected (miners_schema A) True ?p (db s))) \<longleftrightarrow> a_owner (my_view (db s)) a \<noteq> None"
    by (auto simp: filter_empty_conv inv_selects [OF assms] not_None_ex inv_views [OF assms] simp del: not_None_eq; blast)
  then have "my_innerDelMiner G A a s = (s', Inr (a_owner (my_view (db s)) a \<noteq> None))"
    by (simp add: my_innerDelMiner_def s'(2))
  moreover have "?f now m = (if mn_Miner m = a then del_miner now else id) m" if "mark_ok m" for m
    using that by (simp add: del_miner_def mark_deleted)
  note upd = miners_update [OF assms s'(3), of "\<lambda>b. if b = a then del_miner now else id", OF _ _ this]
  ultimately show thesis
    using that [of s' now] s'(1) upd by auto
qed

text \<open>The columns of a new row, and of an old one that it takes over.\<close>

lemma new_sel [simp]:
  "mn_Miner (Miner_new now i m) = mn_Miner m" "mn_User (Miner_new now i m) = mn_User m"
  "DeletedAt (Miner_new now i m) = DeletedAt m"
  "mn_OpenMining (Miner_new now i m) = Some (mn_OpenMining m \<noteq> Some False)"
  "mn_Miner (Miner_merge old m) = mn_Miner m" "mn_User (Miner_merge old m) = mn_User m"
  "DeletedAt (Miner_merge old m) = DeletedAt m" "mn_OpenMining (Miner_merge old m) = mn_OpenMining m"
  by (auto simp: Miner_new_def Miner_merge_def split: option.split)

lemma live_mark:
  assumes "\<not> da_Valid (DeletedAt r)"
  shows "mark_ok r" "\<not> (da_Valid (DeletedAt r) \<and> \<not> IsZero (da_Time (DeletedAt r)))"
  using assms by (simp_all add: mark_ok_def)

text \<open>
  \<open>Create\<close> with \<open>UpdateAll\<close> adds the miner, or takes over the row of the same address.
\<close>

lemma miner_create:
  assumes "mysql_inv A G db s" and "\<not> da_Valid (DeletedAt m)"
  obtains s' row where "tb_Create (g_miners G) (UpdateAll cols) m s = (s', Inr ())" "mysql_inv A G db s'"
    "my_view (db s') = (my_view (db s))\<lparr>as_miner := (as_miner (my_view (db s)))(mn_Miner m \<mapsto> row)\<rparr>"
    and "mn_Miner row = mn_Miner m" "mn_User row = mn_User m" "\<not> Miner_isDeleted row"
    and "mn_OpenMining row = Some (mn_OpenMining m \<noteq> Some False)"
proof (rule table_upsert [OF my_laws(3) [OF assms(1)], of m mn_Miner cols])
  show "sc_clash (miners_schema A) m r \<longleftrightarrow> mn_Miner r = mn_Miner m" for r
    using stored_inject [OF mysql_invD(2) [OF assms(1)]] by (auto simp: miners_schema_def)
  fix s' rows row now n
  assume s': "tb_Create (g_miners G) (UpdateAll cols) m s = (s', Inr ())"
      "db s' = sc_put (miners_schema A) rows (db s)" "distinct (map mn_Miner rows)"
    and look: "(\<lambda>k. find (\<lambda>r. mn_Miner r = k) rows) =
      (\<lambda>k. find (\<lambda>r. mn_Miner r = k) (sc_rows (miners_schema A) (db s)))(mn_Miner m \<mapsto> row)"
    and sub: "set rows \<subseteq> insert row (set (sc_rows (miners_schema A) (db s)))"
    and row: "row = sc_new (miners_schema A) now n m \<or>
      (\<exists>old. row = sc_merge (miners_schema A) old (sc_new (miners_schema A) now n m))"
  from row have sel: "mn_Miner row = mn_Miner m" "mn_User row = mn_User m" "DeletedAt row = DeletedAt m"
    "mn_OpenMining row = Some (mn_OpenMining m \<noteq> Some False)" by auto
  with assms(2) have live: "mark_ok row" "\<not> Miner_isDeleted row" by (simp_all add: mark_ok_def Miner_isDeleted_def)
  have "rows_ok A (db s')"
    unfolding s'(2) schema_put
    by (rule rows_ok_update(3) [OF mysql_invD(3) [OF assms(1)] s'(3)]) (use sub live inv_rows(7) [OF assms(1)] in auto)
  then have "mysql_inv A G db s'" by (rule mysql_inv_step [OF assms(1)])
  moreover have "my_view (db s') = (my_view (db s))\<lparr>as_miner := (as_miner (my_view (db s)))(mn_Miner m \<mapsto> row)\<rparr>"
    using look by (simp add: my_view_def s'(2))
  ultimately show thesis using that s'(1) sel live by blast
qed (simp_all add: inv_rows(6) [OF assms(1)])

lemma first_user:
  assumes "mysql_inv A G db s"
  shows "case as_user (my_view (db s)) n of
      None \<Rightarrow> tb_First (g_users G) [(''name'', Str n)] s = Inl ErrRecordNotFound
    | Some u \<Rightarrow> tb_First (g_users G) [(''name'', Str n)] s = Inr u \<and> usr_Name u = n"
proof (cases "as_user (my_view (db s)) n")
  case None
  then have "selected users_schema True [(''name'', Str n)] (db s) = []"
    by (auto simp: filter_empty_conv my_view_def find_None_iff)
  from table_First_none [OF my_laws(2) [OF assms] this] None show ?thesis by simp
next
  case (Some u)
  have "found (tb_First (g_users G) [(''name'', Str n)] s) (as_user (my_view (db s)) n)"
    by (rule take_found(2) [OF my_laws(2) [OF assms]]) (auto simp: inv_views [OF assms])
  moreover have "usr_Name u = n" using Some by (simp add: inv_views [OF assms])
  ultimately show ?thesis using Some by (simp add: found_def)
qed

text \<open>
  \<open>UpsertMiner\<close> binds the miner to a known user; it answers whether no live row was there before.
\<close>

lemma my_UpsertMiner_does:
  assumes "mysql_inv A G db s"
  shows "as_user (my_view (db s)) n = None \<Longrightarrow> \<exists>e. my_UpsertMiner G A a n om s = (s, Inl e)"
    and "as_user (my_view (db s)) n \<noteq> None \<Longrightarrow>
      \<exists>s' row. my_UpsertMiner G A a n om s = (s', Inr (a_owner (my_view (db s)) a = None)) \<and> mysql_inv A G db s' \<and>
        my_view (db s') = (my_view (db s))\<lparr>as_miner := (as_miner (my_view (db s)))(a \<mapsto> row)\<rparr> \<and>
        mn_Miner row = a \<and> mn_User row = n \<and> \<not> Miner_isDeleted row \<and>
        mn_OpenMining row = Some (om \<noteq> Some False)"
proof -
  let ?fn = "my_UpsertMiner_fn G A a n om"
  obtain tx where tx: "db tx = db s" "\<And>tx' e. ?fn tx = (tx', Inl e) \<Longrightarrow> my_UpsertMiner G A a n om s = (s, Inl e)"
    "\<And>tx' r. ?fn tx = (tx', Inr r) \<Longrightarrow> \<exists>s'. my_UpsertMiner G A a n om s = (s', Inr r) \<and> db s' = db tx'"
    unfolding my_UpsertMiner_def
    by (rule db_Transaction_run [OF mysql_invD(1) [OF assms], of s ?fn]) blast
  have inv: "mysql_inv A G db tx" using assms tx(1) by (simp add: mysql_inv_def)
  show "\<exists>e. my_UpsertMiner G A a n om s = (s, Inl e)" if "as_user (my_view (db s)) n = None"
    using first_user [OF inv, of n] that tx(2) by (simp add: tx(1) my_UpsertMiner_fn_def)
  show "\<exists>s' row. my_UpsertMiner G A a n om s = (s', Inr (a_owner (my_view (db s)) a = None)) \<and> mysql_inv A G db s' \<and>
        my_view (db s') = (my_view (db s))\<lparr>as_miner := (as_miner (my_view (db s)))(a \<mapsto> row)\<rparr> \<and>
        mn_Miner row = a \<and> mn_User row = n \<and> \<not> Miner_isDeleted row \<and>
        mn_OpenMining row = Some (om \<noteq> Some False)" if "as_user (my_view (db s)) n \<noteq> None"
  proof -
    from that first_user [OF inv, of n] obtain u where
      u: "tb_First (g_users G) [(''name'', Str n)] tx = Inr u" "usr_Name u = n"
      by (auto simp: tx(1))
    obtain c where c: "tb_Count (g_miners G) True [(''miner'', Str (storedAddress_Value A a))] tx = Inr c"
      "c = 0 \<longleftrightarrow> a_owner (my_view (db s)) a = None"
    proof -
      have "a_owner (my_view (db s)) a = None \<longleftrightarrow> (\<forall>m \<in> set (sq_miners (db s)). \<not> (mn_Miner m = a \<and> \<not> da_Valid (DeletedAt m)))"
        using inv_views(10) [OF assms] by (metis option.exhaust option.distinct(1))
      then show thesis
        using that table_Count [OF my_laws(3) [OF inv], of True "[(''miner'', Str (storedAddress_Value A a))]"]
        by (simp add: filter_empty_conv inv_selects [OF inv] tx(1))
    qed
    let ?m = "\<lparr>CreatedAt = zero_time, UpdatedAt = zero_time, DeletedAt = zero_deleted_at,
       mn_ID = 0, mn_Miner = a, mn_User = n, mn_OpenMining = om\<rparr>"
    have "\<not> da_Valid (DeletedAt ?m)" by (simp add: zero_deleted_at_def)
    from miner_create [OF inv this, of "[''miner'']"] obtain t row where
      t: "tb_Create (g_miners G) (UpdateAll [''miner'']) ?m tx = (t, Inr ())" "mysql_inv A G db t"
      "my_view (db t) = (my_view (db s))\<lparr>as_miner := (as_miner (my_view (db s)))(a \<mapsto> row)\<rparr>"
      "mn_Miner row = a" "mn_User row = n" "\<not> Miner_isDeleted row" "mn_OpenMining row = Some (om \<noteq> Some False)"
      unfolding tx(1) by auto
    have "?fn tx = (t, Inr (a_owner (my_view (db s)) a = None))"
      using u c t(1) by (simp add: my_UpsertMiner_fn_def)
    from tx(3) [OF this] t show ?thesis by (auto simp: mysql_inv_def)
  qed
qed

section \<open>Signers\<close>

abbreviation signer_key :: "'a signer \<Rightarrow> 'a \<times> string" where
  "signer_key g \<equiv> (sn_Signer g, sn_User g)"

lemma signers_update:
  assumes "mysql_inv A G db s" and "db s' = (db s)\<lparr>sq_signers := map f (sq_signers (db s))\<rparr>"
    and "\<And>g. signer_key (f g) = signer_key g" and "\<And>g. mark_ok g \<Longrightarrow> mark_ok (f g)"
    and "\<And>g. mark_ok g \<Longrightarrow> f g = h (sn_Signer g) (sn_User g) g"
  shows "mysql_inv A G db s'"
    and "my_view (db s') = (my_view (db s))\<lparr>as_signer :=
      (\<lambda>a n. map_option (h a n) (as_signer (my_view (db s)) a n))\<rparr>"
proof -
  have "map signer_key (map f (sq_signers (db s))) = map signer_key (sq_signers (db s))" using assms(3) by simp
  then have "distinct (map signer_key (map f (sq_signers (db s))))" by (simp only: inv_rows(8) [OF assms(1)])
  moreover have "sn_Signer (f g) = sn_Signer g" for g using assms(3) [of g] by simp
  ultimately have "rows_ok A (db s')"
    unfolding assms(2) by (intro rows_ok_update(4) [OF mysql_invD(3) [OF assms(1)]])
      (use assms(4) inv_rows(9) [OF assms(1)] in auto)
  then show "mysql_inv A G db s'" by (rule mysql_inv_step [OF assms(1)])
  have "map_option f (find (\<lambda>g. signer_key g = (a, n)) (sq_signers (db s))) =
      map_option (h a n) (find (\<lambda>g. signer_key g = (a, n)) (sq_signers (db s)))" for a n
  proof (cases "find (\<lambda>g. signer_key g = (a, n)) (sq_signers (db s))")
    case (Some g)
    then have "g \<in> set (sq_signers (db s))" "signer_key g = (a, n)" unfolding find_Some_iff by auto
    with Some assms(5) [of g] inv_rows(9) [OF assms(1), of g] show ?thesis by simp
  qed simp
  then show "my_view (db s') = (my_view (db s))\<lparr>as_signer :=
      (\<lambda>a n. map_option (h a n) (as_signer (my_view (db s)) a n))\<rparr>"
    using fun_cong [OF lookup_map [of signer_key f "sq_signers (db s)", OF assms(3)]]
    by (simp add: my_view_def assms(2) del: prod.inject)
qed

lemma my_bound:
  assumes "mysql_inv A G db s"
  shows "a_signer (my_view (db s)) a n \<noteq> None \<longleftrightarrow>
    (\<exists>g \<in> set (sq_signers (db s)). sn_Signer g = a \<and> sn_User g = n \<and> \<not> da_Valid (DeletedAt g))"
  using inv_views(8) [OF assms, of a n] by (metis option.exhaust option.distinct(1))

text \<open>What a deletion by mark does to the live rows that satisfy \<open>P\<close>.\<close>

lemma signers_delete:
  assumes "mysql_inv A G db s"
    and P: "\<And>g. selects (signers_schema A) True ps g \<longleftrightarrow> P (sn_Signer g) (sn_User g) \<and> \<not> da_Valid (DeletedAt g)"
  obtains s' k now where "tb_Delete (g_signers G) ps s = (s', Inr k)"
    and "0 < k \<longleftrightarrow> (\<exists>a n. P a n \<and> a_signer (my_view (db s)) a n \<noteq> None)"
    and "mysql_inv A G db s'" "\<not> IsZero now"
    and "my_view (db s') = (my_view (db s))\<lparr>as_signer :=
       (\<lambda>a n. map_option (if P a n then del_signer now else id) (as_signer (my_view (db s)) a n))\<rparr>"
proof -
  let ?f = "\<lambda>now g. if P (sn_Signer g) (sn_User g) \<and> \<not> da_Valid (DeletedAt g) then Signer_setDeleted now g else g"
  obtain s' now where s': "\<not> IsZero now"
    "tb_Delete (g_signers G) ps s = (s', Inr (int (length (selected (signers_schema A) True ps (db s)))))"
    "db s' = (db s)\<lparr>sq_signers := map (?f now) (sq_signers (db s))\<rparr>"
    using table_Delete [OF my_laws(4) [OF assms(1)], of ps] by (auto simp: maps_to_if P cong: if_cong)
  have "0 < int (length (selected (signers_schema A) True ps (db s))) \<longleftrightarrow>
      (\<exists>a n. P a n \<and> a_signer (my_view (db s)) a n \<noteq> None)"
    unfolding my_bound [OF assms(1)] by (auto simp: filter_empty_conv P)
  moreover have "?f now g = (if P (sn_Signer g) (sn_User g) then del_signer now else id) g" if "mark_ok g" for g
    using that by (simp add: del_signer_def mark_deleted_signer)
  note upd = signers_update [OF assms(1) s'(3), of "\<lambda>a n. if P a n then del_signer now else id", OF _ _ this]
  ultimately show thesis using that [OF s'(2) _ _ s'(1)] s'(1) upd by auto
qed

lemma my_UnregisterSigner_does:
  assumes "mysql_inv A G db s"
  obtains s' now where "my_UnregisterSigner G A a n s = (s', Inr ())" "mysql_inv A G db s'" "\<not> IsZero now"
    and "my_view (db s') = (my_view (db s))\<lparr>as_signer := (\<lambda>b m. map_option
       (if b = a \<and> m = n then del_signer now else id) (as_signer (my_view (db s)) b m))\<rparr>"
  by (rule signers_delete [OF assms, of "[(''signer'', Str (storedAddress_Value A a)), (''user'', Str n)]" "\<lambda>b m. b = a \<and> m = n"])
    (auto simp: inv_selects [OF assms] my_UnregisterSigner_def intro: that)

lemma my_DelSigner_does:
  assumes "mysql_inv A G db s"
  obtains s' now where "my_DelSigner G A a s = (s', Inr (\<exists>n. a_signer (my_view (db s)) a n \<noteq> None))"
    and "mysql_inv A G db s'" "\<not> IsZero now"
    and "my_view (db s') = (my_view (db s))\<lparr>as_signer := (\<lambda>b m. map_option
       (if b = a then del_signer now else id) (as_signer (my_view (db s)) b m))\<rparr>"
proof (rule signers_delete [OF assms, of "[(''signer'', Str (storedAddress_Value A a))]" "\<lambda>b m. b = a"])
  fix s' k now
  assume "tb_Delete (g_signers G) [(''signer'', Str (storedAddress_Value A a))] s = (s', Inr k)"
    and "0 < k \<longleftrightarrow> (\<exists>b n. b = a \<and> a_signer (my_view (db s)) b n \<noteq> None)"
  then have "my_DelSigner G A a s = (s', Inr (\<exists>n. a_signer (my_view (db s)) a n \<noteq> None))"
    by (simp add: my_DelSigner_def)
  moreover assume "mysql_inv A G db s'" "\<not> IsZero now" "my_view (db s') = (my_view (db s))\<lparr>as_signer :=
       (\<lambda>b m. map_option (if b = a then del_signer now else id) (as_signer (my_view (db s)) b m))\<rparr>"
  ultimately show thesis by (rule that)
qed (simp add: inv_selects [OF assms])

lemma my_innerDelSignerOfUser_does:
  assumes "mysql_inv A G db s"
  obtains s' k now where "my_innerDelSignerOfUser G n s = (s', Inr k)" "mysql_inv A G db s'" "\<not> IsZero now"
    and "my_view (db s') = (my_view (db s))\<lparr>as_signer := (\<lambda>b m. map_option
       (if m = n then del_signer now else id) (as_signer (my_view (db s)) b m))\<rparr>"
  by (rule signers_delete [OF assms, of "[(''user'', Str n)]" "\<lambda>b m. m = n"])
    (auto simp: inv_selects [OF assms] my_innerDelSignerOfUser_def intro: that)

lemma signer_new_sel [simp]:
  "sn_Signer (Signer_new now i g) = sn_Signer g" "sn_User (Signer_new now i g) = sn_User g"
  "DeletedAt (Signer_new now i g) = DeletedAt g"
  "sn_Signer (Signer_merge old g) = sn_Signer g" "sn_User (Signer_merge old g) = sn_User g"
  "DeletedAt (Signer_merge old g) = DeletedAt g"
  by (simp_all add: Signer_new_def Signer_merge_def)

text \<open>\<open>RegisterSigner\<close> binds a signing address to a known user.\<close>

lemma signer_create:
  assumes "mysql_inv A G db s" and "\<not> da_Valid (DeletedAt g)" and "IsSignerAddress A (sn_Signer g)"
  obtains s' row where "tb_Create (g_signers G) (UpdateAll cols) g s = (s', Inr ())" "mysql_inv A G db s'"
    "my_view (db s') = (my_view (db s))\<lparr>as_signer := (as_signer (my_view (db s)))
       (sn_Signer g := (as_signer (my_view (db s)) (sn_Signer g))(sn_User g \<mapsto> row))\<rparr>"
    and "signer_key row = signer_key g" "\<not> Signer_isDeleted row"
proof (rule table_upsert [OF my_laws(4) [OF assms(1)], of g signer_key cols])
  show "sc_clash (signers_schema A) g r \<longleftrightarrow> signer_key r = signer_key g" for r
    using stored_inject [OF mysql_invD(2) [OF assms(1)]] by (auto simp: signers_schema_def)
  fix s' rows row now n
  assume s': "tb_Create (g_signers G) (UpdateAll cols) g s = (s', Inr ())"
      "db s' = sc_put (signers_schema A) rows (db s)" "distinct (map signer_key rows)"
    and look: "(\<lambda>k. find (\<lambda>r. signer_key r = k) rows) =
      (\<lambda>k. find (\<lambda>r. signer_key r = k) (sc_rows (signers_schema A) (db s)))(signer_key g \<mapsto> row)"
    and sub: "set rows \<subseteq> insert row (set (sc_rows (signers_schema A) (db s)))"
    and row: "row = sc_new (signers_schema A) now n g \<or>
      (\<exists>old. row = sc_merge (signers_schema A) old (sc_new (signers_schema A) now n g))"
  from row have sel: "signer_key row = signer_key g" "DeletedAt row = DeletedAt g" by auto
  with assms(2) have live: "mark_ok row" "\<not> Signer_isDeleted row" by (simp_all add: mark_ok_def Signer_isDeleted_def)
  have "rows_ok A (db s')"
    unfolding s'(2) schema_put
    by (rule rows_ok_update(4) [OF mysql_invD(3) [OF assms(1)] s'(3)])
      (use sub sel live assms(3) inv_rows(9) [OF assms(1)] in auto)
  then have "mysql_inv A G db s'" by (rule mysql_inv_step [OF assms(1)])
  moreover have "find (\<lambda>r. signer_key r = (a, m)) rows = ((as_signer (my_view (db s)))
       (sn_Signer g := (as_signer (my_view (db s)) (sn_Signer g))(sn_User g \<mapsto> row))) a m" for a m
    using fun_cong [OF look, of "(a, m)"] by (simp add: my_view_def del: prod.inject) simp
  then have "my_view (db s') = (my_view (db s))\<lparr>as_signer := (as_signer (my_view (db s)))
       (sn_Signer g := (as_signer (my_view (db s)) (sn_Signer g))(sn_User g \<mapsto> row))\<rparr>"
    by (simp add: my_view_def s'(2) fun_eq_iff del: prod.inject fun_upd_apply)
  ultimately show thesis using that s'(1) sel live by blast
qed (simp_all add: inv_rows(8) [OF assms(1)])

end
