(* ===== verification/Mysql_DeleteUser.thy ===== *)
theory Mysql_DeleteUser
  imports Mysql_Owners
begin

text \<open>
  \<open>RegisterSigner\<close> and \<open>DeleteUser\<close> of \<open>mysqlStore\<close>: each runs in one transaction, so
  that an error leaves the database as it was.
\<close>

section \<open>RegisterSigner\<close>

lemma my_RegisterSigner_does:
  assumes "mysql_inv A G db s" and "IsSignerAddress A a"
  shows "as_user (my_view (db s)) n = None \<Longrightarrow> \<exists>e. my_RegisterSigner G A a n s = (s, Inl e)"
    and "as_user (my_view (db s)) n \<noteq> None \<Longrightarrow>
      \<exists>s' row. my_RegisterSigner G A a n s = (s', Inr ()) \<and> mysql_inv A G db s' \<and>
        my_view (db s') = (my_view (db s))\<lparr>as_signer :=
          (as_signer (my_view (db s)))(a := (as_signer (my_view (db s)) a)(n \<mapsto> row))\<rparr> \<and>
        signer_key row = (a, n) \<and> \<not> Signer_isDeleted row"
proof -
  let ?fn = "my_RegisterSigner_fn G A a n"
  obtain tx where tx: "db tx = db s" "\<And>tx' e. ?fn tx = (tx', Inl e) \<Longrightarrow> my_RegisterSigner G A a n s = (s, Inl e)"
    "\<And>tx' r. ?fn tx = (tx', Inr r) \<Longrightarrow> \<exists>s'. my_RegisterSigner G A a n s = (s', Inr r) \<and> db s' = db tx'"
    unfolding my_RegisterSigner_def
    by (rule db_Transaction_run [OF mysql_invD(1) [OF assms(1)], of s ?fn]) blast
  have inv: "mysql_inv A G db tx" using assms(1) tx(1) by (simp add: mysql_inv_def)
  show "\<exists>e. my_RegisterSigner G A a n s = (s, Inl e)" if "as_user (my_view (db s)) n = None"
    using first_user [OF inv, of n] that tx(2) by (simp add: tx(1) my_RegisterSigner_fn_def)
  show "\<exists>s' row. my_RegisterSigner G A a n s = (s', Inr ()) \<and> mysql_inv A G db s' \<and>
        my_view (db s') = (my_view (db s))\<lparr>as_signer :=
          (as_signer (my_view (db s)))(a := (as_signer (my_view (db s)) a)(n \<mapsto> row))\<rparr> \<and>
        signer_key row = (a, n) \<and> \<not> Signer_isDeleted row" if "as_user (my_view (db s)) n \<noteq> None"
  proof -
    from that first_user [OF inv, of n] obtain u where
      u: "tb_First (g_users G) [(''name'', Str n)] tx = Inr u" "usr_Name u = n" by (auto simp: tx(1))
    let ?g = "\<lparr>CreatedAt = zero_time, UpdatedAt = zero_time, DeletedAt = zero_deleted_at,
       sn_ID = 0, sn_Signer = a, sn_User = n\<rparr>"
    have "\<not> da_Valid (DeletedAt ?g)" "IsSignerAddress A (sn_Signer ?g)"
      using assms(2) by (simp_all add: zero_deleted_at_def)
    from signer_create [OF inv this, of "[''signer'', ''user'']"] obtain t row where
      t: "tb_Create (g_signers G) (UpdateAll [''signer'', ''user'']) ?g tx = (t, Inr ())" "mysql_inv A G db t"
      "my_view (db t) = (my_view (db s))\<lparr>as_signer :=
          (as_signer (my_view (db s)))(a := (as_signer (my_view (db s)) a)(n \<mapsto> row))\<rparr>"
      "signer_key row = (a, n)" "\<not> Signer_isDeleted row"
      unfolding tx(1) by auto
    have "?fn tx = (t, Inr ())" using u t(1) by (simp add: my_RegisterSigner_fn_def)
    from tx(3) [OF this] t show ?thesis by (auto simp: mysql_inv_def)
  qed
qed

section \<open>DeleteUser\<close>

text \<open>\<open>M'\<close> is \<open>M\<close> with the entries in \<open>P\<close> marked as deleted, at some times.\<close>

definition marked :: "(time \<Rightarrow> 'r \<Rightarrow> 'r) \<Rightarrow> ('k \<Rightarrow> bool) \<Rightarrow> ('k \<rightharpoonup> 'r) \<Rightarrow> ('k \<rightharpoonup> 'r) \<Rightarrow> bool" where
  "marked del P M M' \<longleftrightarrow> (\<forall>k. \<exists>now. \<not> IsZero now \<and> M' k = (if P k then map_option (del now) (M k) else M k))"

lemma del_miner_twice: "\<not> IsZero t \<Longrightarrow> del_miner t' (del_miner t m) = del_miner t m"
  by (simp add: del_miner_def Miner_isDeleted_def Miner_setDeleted_def)

lemma my_DeleteUser_miners_does:
  assumes "mysql_inv A G db s"
  shows "\<exists>s' M. my_DeleteUser_miners G A ms s = (s', Inr ()) \<and> mysql_inv A G db s' \<and>
    my_view (db s') = (my_view (db s))\<lparr>as_miner := M\<rparr> \<and>
    marked del_miner (\<lambda>a. a \<in> mn_Miner ` set ms) (as_miner (my_view (db s))) M"
  using assms
proof (induction ms arbitrary: s)
  case Nil
  have "marked del_miner (\<lambda>a. False) (as_miner (my_view (db s))) (as_miner (my_view (db s)))"
    unfolding marked_def by (intro allI exI [of _ 1]) (simp add: IsZero_def)
  with Nil show ?case by (intro exI [of _ s] exI [of _ "as_miner (my_view (db s))"]) simp
next
  case (Cons m ms)
  obtain s1 r now where s1: "my_innerDelMiner G A (mn_Miner m) s = (s1, Inr r)" "mysql_inv A G db s1" "\<not> IsZero now"
    "my_view (db s1) = (my_view (db s))\<lparr>as_miner :=
       (\<lambda>b. map_option (if b = mn_Miner m then del_miner now else id) (as_miner (my_view (db s)) b))\<rparr>"
    by (rule my_innerDelMiner_does [OF Cons.prems, of "mn_Miner m"]) blast
  from Cons.IH [OF s1(2)] obtain s2 M where s2: "my_DeleteUser_miners G A ms s1 = (s2, Inr ())" "mysql_inv A G db s2"
    "my_view (db s2) = (my_view (db s1))\<lparr>as_miner := M\<rparr>"
    "marked del_miner (\<lambda>a. a \<in> mn_Miner ` set ms) (as_miner (my_view (db s1))) M" by blast
  have "marked del_miner (\<lambda>a. a \<in> mn_Miner ` set (m # ms)) (as_miner (my_view (db s))) M"
    unfolding marked_def
  proof
    fix a
    obtain t where t: "\<not> IsZero t"
      "M a = (if a \<in> mn_Miner ` set ms then map_option (del_miner t) (as_miner (my_view (db s1)) a)
              else as_miner (my_view (db s1)) a)"
      using s2(4) unfolding marked_def by blast
    show "\<exists>t. \<not> IsZero t \<and> M a = (if a \<in> mn_Miner ` set (m # ms)
        then map_option (del_miner t) (as_miner (my_view (db s)) a) else as_miner (my_view (db s)) a)"
      by (rule exI [of _ "if a = mn_Miner m then now else t"])
        (use t s1(3) in \<open>auto simp: s1(4) option.map_comp comp_def del_miner_twice option.map_id0\<close>)
  qed
  with s1 s2 show ?case by (intro exI [of _ s2] exI [of _ M]) simp
qed

text \<open>
  \<open>DeleteUser\<close> marks the user, all the user's miners and all the user's signers, or does nothing.
\<close>

lemma my_DeleteUser_does:
  assumes "mysql_inv A G db s"
  shows "a_user (my_view (db s)) n = None \<Longrightarrow> \<exists>e. my_DeleteUser G A now n s = (s, Inl e)"
    and "a_user (my_view (db s)) n = Some u \<Longrightarrow>
      \<exists>s' M t. my_DeleteUser G A now n s = (s', Inr ()) \<and> mysql_inv A G db s' \<and> \<not> IsZero t \<and>
        marked del_miner (\<lambda>a. a_owner (my_view (db s)) a = Some n) (as_miner (my_view (db s))) M \<and>
        my_view (db s') = (my_view (db s))\<lparr>
          as_user := (as_user (my_view (db s)))(n \<mapsto> u\<lparr>usr_IsDeleted := Deleted, usr_UpdateTime := now\<rparr>),
          as_miner := M,
          as_signer := (\<lambda>b m. map_option (if m = n then del_signer t else id) (as_signer (my_view (db s)) b m))\<rparr>"
proof -
  let ?fn = "my_DeleteUser_fn G A now n"
  obtain tx where tx: "db tx = db s" "\<And>tx' e. ?fn tx = (tx', Inl e) \<Longrightarrow> my_DeleteUser G A now n s = (s, Inl e)"
    "\<And>tx' r. ?fn tx = (tx', Inr r) \<Longrightarrow> \<exists>s'. my_DeleteUser G A now n s = (s', Inr r) \<and> db s' = db tx'"
    unfolding my_DeleteUser_def
    by (rule db_Transaction_run [OF mysql_invD(1) [OF assms], of s ?fn]) blast
  have inv: "mysql_inv A G db tx" using assms tx(1) by (simp add: mysql_inv_def)
  note get = my_GetUser_found(1) [OF inv, of n, unfolded tx(1)]
  show "\<exists>e. my_DeleteUser G A now n s = (s, Inl e)" if "a_user (my_view (db s)) n = None"
    using get that tx(2) by (cases "my_innerGetUser G n tx") (simp_all add: found_def my_DeleteUser_fn_def)
  assume u: "a_user (my_view (db s)) n = Some u"
  then have u0: "as_user (my_view (db s)) n = Some u" "usr_Name u = n" "u \<in> set (sq_users (db s))"
    by (simp_all add: live_Some inv_views [OF assms])
  let ?u = "u\<lparr>usr_IsDeleted := Deleted, usr_UpdateTime := now\<rparr>"
  obtain ms where ms: "my_innerListMiners G n tx = Inr ms"
    "set ms = {m. a_miner (my_view (db s)) (mn_Miner m) = Some m \<and> mn_User m = n}"
    using my_ListMiners_lists(1) [OF inv, of n] by (auto simp: lists_def tx(1))
  have owned: "a \<in> mn_Miner ` set ms \<longleftrightarrow> a_owner (my_view (db s)) a = Some n" for a
    using ms(2) by (auto simp: a_owner_def inv_views [OF assms])
  obtain s1 M where s1: "my_DeleteUser_miners G A ms tx = (s1, Inr ())" "mysql_inv A G db s1"
    "my_view (db s1) = (my_view (db s))\<lparr>as_miner := M\<rparr>"
    "marked del_miner (\<lambda>a. a_owner (my_view (db s)) a = Some n) (as_miner (my_view (db s))) M"
    using my_DeleteUser_miners_does [OF inv, of ms] unfolding owned tx(1) by blast
  obtain s2 k t where s2: "my_innerDelSignerOfUser G n s1 = (s2, Inr k)" "mysql_inv A G db s2" "\<not> IsZero t"
    "my_view (db s2) = (my_view (db s1))\<lparr>as_signer := (\<lambda>b m. map_option
       (if m = n then del_signer t else id) (as_signer (my_view (db s1)) b m))\<rparr>"
    by (rule my_innerDelSignerOfUser_does [OF s1(2), of n]) blast
  have "as_user (my_view (db s2)) n = Some u" using u0(1) by (simp add: s2(4) s1(3))
  then obtain s3 where s3: "my_innerUpdateUser G ?u s2 = (s3, Inr ())" "mysql_inv A G db s3"
    "my_view (db s3) = (my_view (db s2))\<lparr>as_user := (as_user (my_view (db s2)))(n \<mapsto> ?u)\<rparr>"
    by (rule user_save [OF s2(2), of n u ?u]) (simp_all add: u0(2) flag_ok_def)
  have "?fn tx = (s3, Inr ())"
    using get u ms(1) s1(1) s2(1) s3(1) by (simp add: found_def my_DeleteUser_fn_def Let_def u0(2))
  from tx(3) [OF this] obtain s' where s': "my_DeleteUser G A now n s = (s', Inr ())" "db s' = db s3" by blast
  show "\<exists>s' M t. my_DeleteUser G A now n s = (s', Inr ()) \<and> mysql_inv A G db s' \<and> \<not> IsZero t \<and>
        marked del_miner (\<lambda>a. a_owner (my_view (db s)) a = Some n) (as_miner (my_view (db s))) M \<and>
        my_view (db s') = (my_view (db s))\<lparr>as_user := (as_user (my_view (db s)))(n \<mapsto> ?u), as_miner := M,
          as_signer := (\<lambda>b m. map_option (if m = n then del_signer t else id) (as_signer (my_view (db s)) b m))\<rparr>"
    using s' s1 s2(3) s3(2) by (intro exI [of _ s'] exI [of _ M] exI [of _ t])
      (simp add: mysql_inv_def s3(3) s2(4) s1(3))
qed

text \<open>An error leaves the rows as they were, in every method that runs a transaction of row operations.\<close>

lemma my_transactions_atomic:
  "snd (my_DeleteUser G A now n s) = Inl e \<Longrightarrow> fst (my_DeleteUser G A now n s) = s"
  "snd (my_UpsertMiner G A a n om s) = Inl e \<Longrightarrow> fst (my_UpsertMiner G A a n om s) = s"
  "snd (my_RegisterSigner G A a n s) = Inl e \<Longrightarrow> fst (my_RegisterSigner G A a n s) = s"
  by (simp_all add: my_DeleteUser_def my_UpsertMiner_def my_RegisterSigner_def db_Transaction_atomic)

end
