(* ===== verification/Mysql_Migrate.thy ===== *)
theory Mysql_Migrate
  imports Mysql_DeleteUser
begin

text \<open>
  The version of the MySQL store and its migrations: with them the migration loop returns, without
  an error, with the store at version 3 or later. The third migration alters the table of miners; each
  statement is carried out or refused by what the table is like when it is sent.
\<close>

definition my_version :: "'a sqldb \<Rightarrow> nat" where
  "my_version c = (case sq_version c of [] \<Rightarrow> 0 | v # _ \<Rightarrow> sv_Version v)"

lemma version_rows:
  assumes "tables_ok A c"
  shows "sq_version c = [] \<or> (\<exists>v. sq_version c = [v] \<and> sv_ID v = 1)"
proof -
  have "distinct (map sv_ID (sq_version c))" "\<forall>v \<in> set (sq_version c). sv_ID v = 1"
    using assms by (simp_all add: tables_ok_def)
  then show ?thesis by (cases "sq_version c"; cases "tl (sq_version c)") auto
qed

section \<open>Databases to migrate\<close>

text \<open>
  The table of miners before version 1.9.0, which the third migration is written for: the miner is the
  primary key, there is no number, and an index by the name of \<open>user_miner_idx\<close>.
\<close>

definition miners_old :: "table_def \<Rightarrow> bool" where
  "miners_old d \<longleftrightarrow> ''id'' \<notin> set (td_columns d) \<and> ''miner'' \<in> set (td_columns d) \<and>
     td_primary d = [''miner''] \<and> td_auto d = None \<and>
     ''user_miner_idx'' \<in> set (map ix_name (td_indexes d)) \<and> ''miner_idx'' \<notin> set (map ix_name (td_indexes d))"

text \<open>
  The databases that can be opened: the rows are well-formed, and the table of miners has its present
  definition, or the old one in a store of version 1 or 2. (Before version 1 there was no such table,
  so opening has created it.)
\<close>

definition mysql_open :: "'a addr_lib \<Rightarrow> ('a, 's) gorm \<Rightarrow> ('s \<Rightarrow> 'a sqldb) \<Rightarrow> 's \<Rightarrow> bool" where
  "mysql_open A G db s \<longleftrightarrow> gorm_laws A G db \<and> addr_col_ok A \<and> tables_ok A (db s) \<and>
     (miners_ready (sq_miners_def (db s)) \<or>
      miners_old (sq_miners_def (db s)) \<and> (my_version (db s) = 1 \<or> my_version (db s) = 2))"

lemma mysql_openD:
  assumes "mysql_open A G db s"
  shows "gorm_laws A G db" "addr_col_ok A" "tables_ok A (db s)"
    and "miners_ready (sq_miners_def (db s)) \<Longrightarrow> mysql_inv A G db s"
    and "my_version (db s) \<noteq> 1 \<Longrightarrow> my_version (db s) \<noteq> 2 \<Longrightarrow> mysql_inv A G db s"
  using assms by (auto simp: mysql_open_def mysql_inv_def rows_ok_def)

lemma my_Version_eq:
  assumes "gorm_laws A G db" and "tables_ok A (db s)"
  shows "my_Version G s = Inr (my_version (db s))"
proof -
  have all: "selected version_schema True [] (db s) = sq_version (db s)"
    by (simp add: selects_def holds_def version_schema_def)
  from version_rows [OF assms(2)] show ?thesis
  proof
    assume "sq_version (db s) = []"
    with table_First_none [OF laws_version [OF assms(1), of s], of "[]"] all show ?thesis
      by (simp add: my_Version_def my_version_def)
  next
    assume "\<exists>v. sq_version (db s) = [v] \<and> sv_ID v = 1"
    with table_First [OF laws_version [OF assms(1), of s], of "[]"] all show ?thesis
      by (auto simp: my_Version_def my_version_def)
  qed
qed

lemma my_set_version_does:
  assumes "gorm_laws A G db" and "tables_ok A (db s)"
  obtains s' where "my_set_version G v s = (s', Inr ())"
    "db s' = (db s)\<lparr>sq_version := [\<lparr>sv_ID = 1, sv_Version = v\<rparr>]\<rparr>" "tables_ok A (db s')"
proof -
  let ?v = "\<lparr>sv_ID = 1, sv_Version = v\<rparr>"
  obtain s' where s': "my_set_version G v s = (s', Inr ())" "db s' = (db s)\<lparr>sq_version := [?v]\<rparr>"
  proof (cases "sq_version (db s)")
    case Nil
    then show thesis
      using table_Create [OF laws_version [OF assms(1), of s], of ?v "UpdateAll []"] that
      by (auto simp: my_set_version_def version_schema_def)
  next
    case (Cons w ws)
    with version_rows [OF assms(2)] have w: "sq_version (db s) = [w]" "sv_ID w = 1" by auto
    then show thesis
      using table_Create_merge [OF laws_version [OF assms(1), of s], of ?v w "[]"] that
      by (auto simp: my_set_version_def version_schema_def)
  qed
  moreover have "tables_ok A (db s')" using assms(2) by (simp add: s'(2) tables_ok_def)
  ultimately show thesis by (rule that)
qed

text \<open>
  What a migration keeps: all but the miners; and, when it is not the first, the miners too, up to
  their numbers.
\<close>

definition my_kept :: "'a sqldb \<Rightarrow> 'a sqldb \<Rightarrow> bool" where
  "my_kept c c' \<longleftrightarrow> as_token (my_view c') = as_token (my_view c) \<and> as_user (my_view c') = as_user (my_view c) \<and>
     as_signer (my_view c') = as_signer (my_view c) \<and> as_limit (my_view c') = as_limit (my_view c)"

definition unnumbered :: "'a sqldb \<Rightarrow> 'a \<Rightarrow> 'a miner option" where
  "unnumbered c a = map_option (\<lambda>m. m\<lparr>mn_ID := 0\<rparr>) (as_miner (my_view c) a)"

definition my_keeps :: "'a sqldb \<Rightarrow> 'a sqldb \<Rightarrow> bool" where
  "my_keeps c c' \<longleftrightarrow> my_kept c c' \<and>
     (1 \<le> my_version c \<longrightarrow> 1 \<le> my_version c' \<and> unnumbered c' = unnumbered c)"

section \<open>The alterations\<close>

text \<open>Numbering the rows changes nothing else.\<close>

lemma numbered:
  assumes "length ids = length ms"
  shows "map mn_Miner (number_rows ids ms) = map mn_Miner ms"
    and "map_option (\<lambda>m. m\<lparr>mn_ID := 0\<rparr>) (find (\<lambda>m. mn_Miner m = a) (number_rows ids ms)) =
      map_option (\<lambda>m. m\<lparr>mn_ID := 0\<rparr>) (find (\<lambda>m. mn_Miner m = a) ms)"
    and "(\<forall>m \<in> set ms. mark_ok m) \<Longrightarrow> \<forall>m \<in> set (number_rows ids ms). mark_ok m"
  using assms by (induction ids ms rule: list_induct2) (simp_all add: mark_ok_def)

lemma exec_step:
  assumes "gorm_laws A G db" and "alteration_of q = Some alt" and "alter_ok A alt (db s)"
  obtains s' ids where "exec_all G (q # qs) s = exec_all G qs s'" "length ids = length (sq_miners (db s))"
    "db s' = altered ids alt (db s)"
  using laws_exec [OF assms] by auto

text \<open>
  Four statements that read as those of the third migration, on the old table: each can be carried
  out where it stands, and they leave the table of miners with its present definition, and its rows
  numbered.
\<close>

lemma four_alterations:
  assumes laws: "gorm_laws A G db" and "addr_col_ok A" and "tables_ok A (db s)" and "miners_old (sq_miners_def (db s))"
    and q: "alteration_of q1 = Some DropPrimaryKey" "alteration_of q2 = Some (AddAutoKey ''id'')"
      "alteration_of q3 = Some (DropIndex ''user_miner_idx'')"
      "alteration_of q4 = Some (AddUniqueIndex ''miner_idx'' ''miner'')"
  obtains s' ids d where "exec_all G [q1, q2, q3, q4] s = (s', Inr ())" "length ids = length (sq_miners (db s))"
    "db s' = (db s)\<lparr>sq_miners := number_rows ids (sq_miners (db s)), sq_miners_def := d\<rparr>" "miners_ready d"
proof -
  note old = assms(4) [unfolded miners_old_def]
  have ok1: "alter_ok A DropPrimaryKey (db s)" using old by (simp add: Let_def)
  obtain s1 ids1 where s1: "exec_all G [q1, q2, q3, q4] s = exec_all G [q2, q3, q4] s1"
    "db s1 = altered ids1 DropPrimaryKey (db s)" by (rule exec_step [OF laws q(1) ok1])
  have ok2: "alter_ok A (AddAutoKey ''id'') (db s1)" using old by (simp add: Let_def s1(2) altered_def)
  obtain s2 ids where s2: "exec_all G [q2, q3, q4] s1 = exec_all G [q3, q4] s2"
    "length ids = length (sq_miners (db s1))" "db s2 = altered ids (AddAutoKey ''id'') (db s1)"
    by (rule exec_step [OF laws q(2) ok2])
  have ok3: "alter_ok A (DropIndex ''user_miner_idx'') (db s2)" using old by (simp add: Let_def s1(2) s2(3) altered_def)
  obtain s3 ids3 where s3: "exec_all G [q3, q4] s2 = exec_all G [q4] s3"
    "db s3 = altered ids3 (DropIndex ''user_miner_idx'') (db s2)" by (rule exec_step [OF laws q(3) ok3])
  let ?ms = "number_rows ids (sq_miners (db s))"
  have len: "length ids = length (sq_miners (db s))" using s2(2) by (simp add: s1(2) altered_def)
  have rows: "sq_miners (db s3) = ?ms" by (simp add: s1(2) s2(3) s3(2) altered_def)
  have "distinct (map mn_Miner ?ms)" using assms(3) by (simp add: tables_ok_def numbered(1) [OF len])
  then have "distinct (map (\<lambda>m. Miner_col A m ''miner'') ?ms)"
    by (auto simp: distinct_map inj_on_def Miner_col_def stored_inject [OF assms(2)])
  then have ok4: "alter_ok A (AddUniqueIndex ''miner_idx'' ''miner'') (db s3)"
    using old unfolding alter_ok.simps(4) Let_def rows by (auto simp: s1(2) s2(3) s3(2) altered_def)
  obtain s4 ids4 where s4: "exec_all G [q4] s3 = exec_all G [] s4"
    "db s4 = altered ids4 (AddUniqueIndex ''miner_idx'' ''miner'') (db s3)" by (rule exec_step [OF laws q(4) ok4])
  show thesis
  proof (rule that [OF _ len])
    show "exec_all G [q1, q2, q3, q4] s = (s4, Inr ())" by (simp only: s1(1) s2(1) s3(1) s4(1) exec_all.simps(1))
    show "db s4 = (db s)\<lparr>sq_miners := ?ms, sq_miners_def := sq_miners_def (db s4)\<rparr>"
      by (simp add: s1(2) s2(3) s3(2) s4(2) altered_def)
    show "miners_ready (sq_miners_def (db s4))"
      by (simp add: s1(2) s2(3) s3(2) s4(2) altered_def miners_ready_def)
  qed
qed

text \<open>The four statements of the code read so.\<close>

lemma V3_reads:
  "alteration_of ''alter table `miners` drop primary key;'' = Some DropPrimaryKey"
  "alteration_of ''alter table `miners` add column `id` bigint(20) not null auto_increment primary key first;'' =
     Some (AddAutoKey ''id'')"
  "alteration_of ''alter table `miners` drop index `user_miner_idx`;'' = Some (DropIndex ''user_miner_idx'')"
  "alteration_of ''alter table `miners` add unique index `miner_idx` (`miner`);'' =
     Some (AddUniqueIndex ''miner_idx'' ''miner'')"
  by code_simp+

section \<open>The migrations\<close>

lemma my_MigrateToV1_loop_does:
  assumes "mysql_inv A G db s"
  shows "\<exists>s'. my_MigrateToV1_loop G A now arr s = (s', Inr ()) \<and> mysql_inv A G db s' \<and> my_kept (db s) (db s')"
  using assms
proof (induction arr arbitrary: s)
  case (Cons p arr)
  obtain user miner where p: "p = (user, miner)" by fastforce
  show ?case
  proof (cases "addr_NewFromString A miner")
    case (Inl e)
    with Cons p show ?thesis by simp
  next
    case (Inr a)
    show ?thesis
    proof (cases "addr_Empty A a")
      case True
      with Cons p Inr show ?thesis by simp
    next
      case False
      let ?m = "\<lparr>CreatedAt = now, UpdatedAt = now, DeletedAt = zero_deleted_at, mn_ID = 0, mn_Miner = a,
        mn_User = user, mn_OpenMining = None\<rparr>"
      have "\<not> da_Valid (DeletedAt ?m)" by (simp add: zero_deleted_at_def)
      obtain s1 row where
        s1: "tb_Create (g_miners G) (UpdateAll [''miner'']) ?m s = (s1, Inr ())" "mysql_inv A G db s1"
        "my_view (db s1) = (my_view (db s))\<lparr>as_miner := (as_miner (my_view (db s)))(a \<mapsto> row)\<rparr>"
        by (rule miner_create [OF Cons.prems \<open>\<not> da_Valid (DeletedAt ?m)\<close>, of "[''miner'']"]) (rule that, simp_all)
      from Cons.IH [OF s1(2)] s1 p Inr False show ?thesis by (auto simp: my_kept_def)
    qed
  qed
qed (simp add: my_kept_def)

text \<open>Each migration succeeds and sets its version.\<close>

definition my_migrates :: "'a addr_lib \<Rightarrow> ('a, 's) gorm \<Rightarrow> ('s \<Rightarrow> 'a sqldb) \<Rightarrow> nat \<Rightarrow> 's \<Rightarrow> 's \<times> unit res \<Rightarrow> bool" where
  "my_migrates A G db v s p \<longleftrightarrow> (\<exists>s'. p = (s', Inr ()) \<and> mysql_open A G db s' \<and> my_version (db s') = v \<and>
     my_keeps (db s) (db s'))"

lemma in_transaction:
  assumes "mysql_open A G db s" and "\<And>tx. db tx = db s \<Longrightarrow> mysql_open A G db tx \<Longrightarrow> my_migrates A G db v tx (fn tx)"
  shows "my_migrates A G db v s (db_Transaction G s fn)"
proof -
  obtain tx where tx: "db tx = db s"
    "\<And>tx' r. fn tx = (tx', Inr r) \<Longrightarrow> \<exists>s'. db_Transaction G s fn = (s', Inr r) \<and> db s' = db tx'"
    by (rule db_Transaction_run [OF mysql_openD(1) [OF assms(1)], of s fn]) blast
  have "mysql_open A G db tx" using assms(1) tx(1) by (simp add: mysql_open_def)
  from assms(2) [OF tx(1) this] obtain tx' where t: "fn tx = (tx', Inr ())" "mysql_open A G db tx'"
    "my_version (db tx') = v" "my_keeps (db tx) (db tx')" by (auto simp: my_migrates_def)
  from tx(2) [OF t(1)] t(2-) show ?thesis by (auto simp: my_migrates_def mysql_open_def tx(1))
qed

lemma set_version_migrates:
  assumes "gorm_laws A G db" and "addr_col_ok A" and "tables_ok A (db s)"
    and "miners_ready (sq_miners_def (db s)) \<or> miners_old (sq_miners_def (db s)) \<and> v = 2"
    and "my_kept (db s0) (db s)" and "1 \<le> my_version (db s0) \<Longrightarrow> 1 \<le> v \<and> unnumbered (db s) = unnumbered (db s0)"
  shows "my_migrates A G db v s0 (my_set_version G v s)"
proof (rule my_set_version_does [OF assms(1,3), of v])
  fix s'
  assume s': "my_set_version G v s = (s', Inr ())" "tables_ok A (db s')"
    "db s' = (db s)\<lparr>sq_version := [\<lparr>sv_ID = 1, sv_Version = v\<rparr>]\<rparr>"
  then have "my_version (db s') = v" "my_view (db s') = my_view (db s)"
    by (simp_all add: my_version_def my_view_def)
  with s' assms show ?thesis
    by (auto simp: my_migrates_def mysql_open_def my_keeps_def my_kept_def unnumbered_def fun_eq_iff)
qed

lemma my_MigrateToV1_migrates:
  assumes "mysql_open A G db s" and "my_version (db s) = 0"
  shows "my_migrates A G db 1 s (my_MigrateToV1 G A now s)"
  unfolding my_MigrateToV1_def laws_scan [OF mysql_openD(1) [OF assms(1)]] sum.case
proof (rule in_transaction [OF assms(1)])
  fix tx
  assume tx: "db tx = db s" and op: "mysql_open A G db tx"
  have inv: "mysql_inv A G db tx" by (rule mysql_openD(5) [OF op]) (simp_all add: tx assms(2))
  let ?arr = "map (\<lambda>u. (usr_Name u, sq_legacy (db s) (usr_Name u))) (sq_users (db s))"
  from my_MigrateToV1_loop_does [OF inv, of now ?arr] obtain t where
    t: "my_MigrateToV1_loop G A now ?arr tx = (t, Inr ())" "mysql_inv A G db t" "my_kept (db tx) (db t)" by blast
  have "my_migrates A G db 1 tx (my_set_version G 1 t)"
    by (rule set_version_migrates [OF mysql_invD(1,2) [OF t(2)] _ _ t(3)])
      (use mysql_invD(3) [OF t(2)] in \<open>simp_all add: rows_ok_def tx assms(2)\<close>)
  then show "my_migrates A G db 1 tx
      (case my_MigrateToV1_loop G A now ?arr tx of (tx, Inl e) \<Rightarrow> (tx, Inl e) | (tx, Inr _) \<Rightarrow> my_set_version G 1 tx)"
    by (simp add: t(1))
qed

lemma my_MigrateToV2_migrates:
  assumes "mysql_open A G db s" and "my_version (db s) = 1"
  shows "my_migrates A G db 2 s (my_MigrateToV2 G s)"
  unfolding my_MigrateToV2_def
  by (rule set_version_migrates [OF mysql_openD(1-3) [OF assms(1)]])
    (use assms(1) in \<open>auto simp: mysql_open_def my_kept_def\<close>)

lemma my_MigrateToV3_migrates:
  assumes "mysql_open A G db s" and "my_version (db s) = 2"
  shows "my_migrates A G db 3 s (my_MigrateToV3 G s)"
  unfolding my_MigrateToV3_def
proof (rule in_transaction [OF assms(1)])
  fix tx
  assume tx: "db tx = db s" and op: "mysql_open A G db tx"
  note laws = mysql_openD(1-3) [OF op]
  let ?exec = "exec_all G [''alter table `miners` drop primary key;'',
     ''alter table `miners` add column `id` bigint(20) not null auto_increment primary key first;'',
     ''alter table `miners` drop index `user_miner_idx`;'',
     ''alter table `miners` add unique index `miner_idx` (`miner`);''] tx"
  have ready: "my_migrates A G db 3 tx (my_set_version G 3 tx)" if "miners_ready (sq_miners_def (db tx))"
    by (rule set_version_migrates [OF laws]) (simp_all add: that my_kept_def)
  have old: "\<exists>t. ?exec = (t, Inr ()) \<and> my_migrates A G db 3 tx (my_set_version G 3 t)"
    if "miners_old (sq_miners_def (db tx))"
  proof (rule four_alterations [OF laws that V3_reads])
    fix t ids d
    assume t: "?exec = (t, Inr ())" "length ids = length (sq_miners (db tx))" "miners_ready d"
      "db t = (db tx)\<lparr>sq_miners := number_rows ids (sq_miners (db tx)), sq_miners_def := d\<rparr>"
    have "tables_ok A (db t)"
      using laws(3) numbered(3) [OF t(2)] by (simp add: t(4) tables_ok_def numbered(1) [OF t(2)])
    moreover have "my_kept (db tx) (db t)" by (simp add: my_kept_def t(4) my_view_def)
    moreover have "unnumbered (db t) = unnumbered (db tx)"
      by (simp add: unnumbered_def fun_eq_iff t(4) my_view_def numbered(2) [OF t(2)])
    ultimately have "my_migrates A G db 3 tx (my_set_version G 3 t)"
      by (intro set_version_migrates [OF laws(1,2)]) (simp_all add: t(3,4))
    with t(1) show ?thesis by blast
  qed
  have id: "g_HasColumn G ''ID'' tx \<longleftrightarrow> ''id'' \<in> set (td_columns (sq_miners_def (db tx)))"
    by (rule laws_column [OF laws(1)])
  show "my_migrates A G db 3 tx (case if \<not> g_HasColumn G ''ID'' tx then ?exec else (tx, Inr ()) of
       (tx, Inl e) \<Rightarrow> (tx, Inl e) | (tx, Inr _) \<Rightarrow> my_set_version G 3 tx)"
  proof (cases "miners_ready (sq_miners_def (db tx))")
    case True
    then have "g_HasColumn G ''ID'' tx" unfolding id by (simp add: miners_ready_def)
    with ready [OF True] show ?thesis by (simp only: not_True_eq_False if_False prod.case sum.case)
  next
    case False
    with op have m: "miners_old (sq_miners_def (db tx))" by (auto simp: mysql_open_def)
    then have "\<not> g_HasColumn G ''ID'' tx" unfolding id by (simp add: miners_old_def)
    with old [OF m] show ?thesis by (elim exE conjE) (simp only: not_False_eq_True if_True prod.case sum.case)
  qed
qed

interpretation mysql_migration: migrating_store "mysqlStore G A" "mysql_open A G db"
  "\<lambda>s. my_version (db s)" "\<lambda>s s'. my_keeps (db s) (db s')"
  for A :: "'a addr_lib" and G :: "('a, 's) gorm" and db
proof unfold_locales
  fix s now migrate
  assume s: "mysql_open A G db s"
    and m: "migrationSchedules (mysqlStore G A) now (my_version (db s)) = Some migrate"
  have "my_migrates A G db (my_version (db s) + 1) s (migrate s)"
    using m my_MigrateToV1_migrates [OF s] my_MigrateToV2_migrates [OF s] my_MigrateToV3_migrates [OF s]
    by (auto simp: migrationSchedules_def mysqlStore_def eval_nat_numeral split: if_splits)
  then show "\<exists>s'. migrate s = (s', Inr ()) \<and> mysql_open A G db s' \<and>
      my_version (db s') = my_version (db s) + 1 \<and> my_keeps (db s) (db s')"
    by (simp add: my_migrates_def)
next
  fix s
  assume s: "mysql_open A G db s"
  show "st_Version (mysqlStore G A) s = Inr (my_version (db s))"
    using my_Version_eq [OF mysql_openD(1) [OF s] mysql_openD(3) [OF s]] by (simp add: mysqlStore_def)
qed (auto simp: my_keeps_def my_kept_def)

end
