(* ===== verification/Mysql_Service.thy ===== *)
theory Mysql_Service
  imports Client_Server Mysql_Migrate
begin

text \<open>
  The service on the MySQL store. It reads truly, and every method that changes the store keeps the
  tables and the data well-formed; with that the interpretation carries over what the theories of
  the service prove for any such store: verification, ownership, and the invariants of all runs.
\<close>

definition mysqlService :: "('a, 's) gorm \<Rightarrow> 'a addr_lib \<Rightarrow> jwt_lib \<Rightarrow> ('a, 's) service" where
  "mysqlService G A J = \<lparr>sv_store = mysqlStore G A, sv_addr = A, sv_jwt = J\<rparr>"

lemma mysqlService_sel [simp]:
  "sv_store (mysqlService G A J) = mysqlStore G A" "sv_addr (mysqlService G A J) = A"
  "sv_jwt (mysqlService G A J) = J"
  by (simp_all add: mysqlService_def)

section \<open>Reading\<close>

lemma my_keyed:
  assumes "mysql_inv A G db s"
  shows "as_token (my_view (db s)) t = Some kp \<Longrightarrow> kp_Token kp = t"
    and "as_user (my_view (db s)) n = Some u \<Longrightarrow> usr_Name u = n"
    and "as_miner (my_view (db s)) a = Some m \<Longrightarrow> mn_Miner m = a"
    and "as_signer (my_view (db s)) b n = Some g \<Longrightarrow> sn_Signer g = b \<and> sn_User g = n"
  by (simp_all add: inv_views [OF assms])

lemma my_HasSigner_law:
  "mysql_inv A G db s \<Longrightarrow> \<exists>P. P a \<and> my_HasSigner G A a s = Inr (\<exists>b n. P b \<and> a_signer (my_view (db s)) b n \<noteq> None)"
  by (intro exI [of _ "\<lambda>b. b = a"]) (simp add: my_HasSigner_eq)

interpretation my_reads: service_reads "mysqlService G A J" "mysql_inv A G db" "\<lambda>s. my_view (db s)"
  for G :: "('a, 's) gorm" and A J db
  by unfold_locales
    (simp_all add: mysqlStore_def my_Get_found my_ByName_lists my_Has_eq my_HasUser_eq my_GetUser_found
      my_VerifyUsers_ok my_GetRateLimits_lists my_HasMiner_eq my_MinerExistInUser_eq my_ListMiners_lists
      my_SignerExistInUser_eq my_ListSigner_lists my_HasSigner_law [simplified] my_keyed)

section \<open>Writing\<close>

text \<open>A method that leaves tokens alone, and every miner with its flag, keeps the data well-formed.\<close>

lemma sys_ok_step:
  assumes "sys_ok I view J s" and "I s'"
    and "as_token (view s') = as_token (view s)"
    and "\<And>a m. as_miner (view s') a = Some m \<Longrightarrow>
      mn_OpenMining m \<noteq> None \<or> (\<exists>m'. as_miner (view s) a = Some m' \<and> mn_OpenMining m = mn_OpenMining m')"
  shows "sys_ok I view J s'"
  using assms(2-) data_okI [OF sys_okD(2) [OF assms(1)], of "view s'"]
  by (simp add: sys_ok_def) (metis tokens_okD)

lemma my_miner_methods_safe:
  assumes ok: "sys_ok (mysql_inv A G db) (\<lambda>s. my_view (db s)) J s"
  shows "sys_ok (mysql_inv A G db) (\<lambda>s. my_view (db s)) J (fst (my_UpsertMiner G A a n om s))"
    and "sys_ok (mysql_inv A G db) (\<lambda>s. my_view (db s)) J (fst (my_DelMiner G A a s))"
proof -
  note inv = sys_okD(1) [OF ok]
  show "sys_ok (mysql_inv A G db) (\<lambda>s. my_view (db s)) J (fst (my_UpsertMiner G A a n om s))"
  proof (cases "as_user (my_view (db s)) n")
    case None
    with my_UpsertMiner_does(1) [OF inv, of n a om] ok show ?thesis by auto
  next
    case (Some u)
    then obtain s' row where "fst (my_UpsertMiner G A a n om s) = s'" "mysql_inv A G db s'"
      "my_view (db s') = (my_view (db s))\<lparr>as_miner := (as_miner (my_view (db s)))(a \<mapsto> row)\<rparr>"
      "mn_OpenMining row = Some (om \<noteq> Some False)"
      using my_UpsertMiner_does(2) [OF inv, of n a om] by auto
    then show ?thesis by (intro sys_ok_step [OF ok]) (auto split: if_splits)
  qed
  show "sys_ok (mysql_inv A G db) (\<lambda>s. my_view (db s)) J (fst (my_DelMiner G A a s))"
  proof (rule my_innerDelMiner_does [OF inv, of a])
    fix s' now
    assume "my_innerDelMiner G A a s = (s', Inr (a_owner (my_view (db s)) a \<noteq> None))" "mysql_inv A G db s'"
      "my_view (db s') = (my_view (db s))\<lparr>as_miner :=
         (\<lambda>b. map_option (if b = a then del_miner now else id) (as_miner (my_view (db s)) b))\<rparr>"
    then show ?thesis by (intro sys_ok_step [OF ok]) (auto simp: my_DelMiner_def split: if_splits)
  qed
qed

lemma marked_open:
  "marked del_miner P M M' \<Longrightarrow> M' a = Some m \<Longrightarrow> \<exists>m'. M a = Some m' \<and> mn_OpenMining m = mn_OpenMining m'"
  unfolding marked_def by (drule spec [of _ a]) (cases "M a"; cases "P a"; auto)

lemma my_signer_methods_safe:
  assumes ok: "sys_ok (mysql_inv A G db) (\<lambda>s. my_view (db s)) J s"
  shows "IsSignerAddress A a \<Longrightarrow>
      sys_ok (mysql_inv A G db) (\<lambda>s. my_view (db s)) J (fst (my_RegisterSigner G A a n s))"
    and "sys_ok (mysql_inv A G db) (\<lambda>s. my_view (db s)) J (fst (my_UnregisterSigner G A a n s))"
    and "sys_ok (mysql_inv A G db) (\<lambda>s. my_view (db s)) J (fst (my_DelSigner G A a s))"
proof -
  note inv = sys_okD(1) [OF ok]
  show "sys_ok (mysql_inv A G db) (\<lambda>s. my_view (db s)) J (fst (my_RegisterSigner G A a n s))"
    if sig: "IsSignerAddress A a"
  proof (cases "as_user (my_view (db s)) n")
    case None
    with my_RegisterSigner_does(1) [OF inv sig, of n] ok show ?thesis by auto
  next
    case (Some u)
    then obtain s' f where "fst (my_RegisterSigner G A a n s) = s'" "mysql_inv A G db s'"
      "my_view (db s') = (my_view (db s))\<lparr>as_signer := f\<rparr>"
      using my_RegisterSigner_does(2) [OF inv sig, of n] by auto
    then show ?thesis by (intro sys_ok_step [OF ok]) auto
  qed
  show "sys_ok (mysql_inv A G db) (\<lambda>s. my_view (db s)) J (fst (my_UnregisterSigner G A a n s))"
    by (rule my_UnregisterSigner_does [OF inv, of a n]) (rule sys_ok_step [OF ok]; auto)
  show "sys_ok (mysql_inv A G db) (\<lambda>s. my_view (db s)) J (fst (my_DelSigner G A a s))"
    by (rule my_DelSigner_does [OF inv, of a]) (rule sys_ok_step [OF ok]; auto)
qed

lemma my_user_methods_safe:
  assumes ok: "sys_ok (mysql_inv A G db) (\<lambda>s. my_view (db s)) J s"
  shows "usr_IsDeleted u = NotDelete \<Longrightarrow>
      sys_ok (mysql_inv A G db) (\<lambda>s. my_view (db s)) J (fst (my_PutUser G u s))"
    and "a_user (my_view (db s)) (usr_Name u) = Some u0 \<Longrightarrow> usr_Id u = usr_Id u0 \<Longrightarrow>
      usr_IsDeleted u = usr_IsDeleted u0 \<Longrightarrow>
      sys_ok (mysql_inv A G db) (\<lambda>s. my_view (db s)) J (fst (my_UpdateUser G u s))"
    and "sys_ok (mysql_inv A G db) (\<lambda>s. my_view (db s)) J (fst (my_DeleteUser G A now n s))"
    and "sys_ok (mysql_inv A G db) (\<lambda>s. my_view (db s)) J (fst (my_RecoverUser G n s))"
proof -
  note inv = sys_okD(1) [OF ok] and data = sys_okD(2) [OF ok]
  show "sys_ok (mysql_inv A G db) (\<lambda>s. my_view (db s)) J (fst (my_PutUser G u s))" if "usr_IsDeleted u = NotDelete"
    by (rule sys_ok_refines [OF my_PutUser_refines [OF inv] ok])
      (use data that in \<open>auto simp: flag_ok_def spec_PutUser_def data_ok_other split: if_splits\<close>)
  show "sys_ok (mysql_inv A G db) (\<lambda>s. my_view (db s)) J (fst (my_UpdateUser G u s))"
    if "a_user (my_view (db s)) (usr_Name u) = Some u0" "usr_Id u = usr_Id u0" "usr_IsDeleted u = usr_IsDeleted u0"
  proof (rule sys_ok_refines [OF my_UpdateUser_refines [OF inv _ that(2)] ok])
    show "as_user (my_view (db s)) (usr_Name u) = Some u0" using that(1) by (simp add: live_Some)
    have "usr_IsDeleted u0 = NotDelete" using that(1) by (simp add: inv_views [OF inv])
    then show "flag_ok (usr_IsDeleted u)" by (simp add: flag_ok_def that(3))
  qed (use data in \<open>auto simp: spec_PutUser_def data_ok_other\<close>)
  show "sys_ok (mysql_inv A G db) (\<lambda>s. my_view (db s)) J (fst (my_DeleteUser G A now n s))"
  proof (cases "a_user (my_view (db s)) n")
    case None
    with my_DeleteUser_does(1) [OF inv, of n now] ok show ?thesis by auto
  next
    case (Some u)
    then obtain s' M f g where s': "fst (my_DeleteUser G A now n s) = s'" "mysql_inv A G db s'"
      "marked del_miner (\<lambda>a. a_owner (my_view (db s)) a = Some n) (as_miner (my_view (db s))) M"
      "my_view (db s') = (my_view (db s))\<lparr>as_user := f, as_miner := M, as_signer := g\<rparr>"
      using my_DeleteUser_does(2) [OF inv Some, of now] by auto
    show ?thesis unfolding s'(1)
      by (rule sys_ok_step [OF ok s'(2)]) (auto simp: s'(4) dest: marked_open [OF s'(3)])
  qed
  show "sys_ok (mysql_inv A G db) (\<lambda>s. my_view (db s)) J (fst (my_RecoverUser G n s))"
    by (rule sys_ok_refines [OF my_RecoverUser_refines [OF inv] ok]) (rule spec_RecoverUser_data [OF data])
qed

lemma my_token_methods_safe:
  assumes ok: "sys_ok (mysql_inv A G db) (\<lambda>s. my_view (db s)) J s"
  shows "signed_token J kp \<Longrightarrow> kp_IsDeleted kp = NotDelete \<Longrightarrow>
      sys_ok (mysql_inv A G db) (\<lambda>s. my_view (db s)) J (fst (my_Put G kp s))"
    and "sys_ok (mysql_inv A G db) (\<lambda>s. my_view (db s)) J (fst (my_Delete G t s))"
    and "sys_ok (mysql_inv A G db) (\<lambda>s. my_view (db s)) J (fst (my_Recover G t s))"
proof -
  note inv = sys_okD(1) [OF ok] and data = sys_okD(2) [OF ok]
  show "sys_ok (mysql_inv A G db) (\<lambda>s. my_view (db s)) J (fst (my_Put G kp s))"
    if "signed_token J kp" "kp_IsDeleted kp = NotDelete"
    by (rule sys_ok_refines [OF my_Put_refines [OF inv] ok])
      (use data that in \<open>auto simp: flag_ok_def spec_Put_def data_ok_def tokens_ok_def miners_open_def split: if_splits\<close>)
  show "sys_ok (mysql_inv A G db) (\<lambda>s. my_view (db s)) J (fst (my_Delete G t s))"
    by (rule sys_ok_refines [OF my_Delete_refines [OF inv] ok]) (rule spec_Delete_data [OF data])
  show "sys_ok (mysql_inv A G db) (\<lambda>s. my_view (db s)) J (fst (my_Recover G t s))"
    by (rule sys_ok_refines [OF my_Recover_refines [OF inv] ok]) (rule spec_Recover_data [OF data])
qed

lemma my_limit_methods_safe:
  assumes ok: "sys_ok (mysql_inv A G db) (\<lambda>s. my_view (db s)) J s"
  shows "sys_ok (mysql_inv A G db) (\<lambda>s. my_view (db s)) J (fst (my_PutRateLimit G uuid l s))"
    and "sys_ok (mysql_inv A G db) (\<lambda>s. my_view (db s)) J (fst (my_DelRateLimit G n i s))"
proof -
  note inv = sys_okD(1) [OF ok]
  show "sys_ok (mysql_inv A G db) (\<lambda>s. my_view (db s)) J (fst (my_PutRateLimit G uuid l s))"
    by (rule my_PutRateLimit_does [OF inv refl, where l = l and uuid = uuid]) (rule sys_ok_step [OF ok]; auto simp: put_limit_def)
  show "sys_ok (mysql_inv A G db) (\<lambda>s. my_view (db s)) J (fst (my_DelRateLimit G n i s))"
  proof (cases "n = [] \<or> i = []")
    case True
    with ok show ?thesis by (auto simp: my_DelRateLimit_def)
  next
    case False
    then have "n \<noteq> []" "i \<noteq> []" by simp_all
    then show ?thesis
      by (rule my_DelRateLimit_does [OF inv]) (rule sys_ok_step [OF ok]; auto)
  qed
qed

interpretation ms: service_safe "mysqlService G A J" "mysql_inv A G db" "\<lambda>s. my_view (db s)"
  for G :: "('a, 's) gorm" and A J db
proof (intro service_safe.intro service_safe_axioms.intro my_reads.service_reads_axioms)
qed (simp_all add: mysqlStore_def my_token_methods_safe my_user_methods_safe my_limit_methods_safe
    my_miner_methods_safe my_signer_methods_safe)

end
