(* ===== verification/Two_Stores.thy ===== *)
theory Two_Stores
  imports Badger_Service Mysql_Service
begin

text \<open>
  The same data in two stores: the service on one answers a question of a caller as the service on
  the other does, and the middleware lets the same requests in as the same callers. The two stores
  of the program are an instance, although they keep deleted entries and times differently.
\<close>

text \<open>Two abstract states that agree on what is live.\<close>

definition same_live :: "'a astore \<Rightarrow> 'a astore \<Rightarrow> bool" where
  "same_live st st' \<longleftrightarrow> a_token st = a_token st' \<and> a_user st = a_user st' \<and> a_owner st = a_owner st' \<and>
     (\<forall>a n. a_signer st a n = None \<longleftrightarrow> a_signer st' a n = None) \<and> as_limit st = as_limit st'"

lemma same_liveD:
  assumes "same_live st st'"
  shows "a_token st t = a_token st' t" "a_user st n = a_user st' n" "a_owner st a = a_owner st' a"
    "a_signer st a n = None \<longleftrightarrow> a_signer st' a n = None" "as_limit st = as_limit st'"
  using assms by (simp_all add: same_live_def fun_eq_iff)

text \<open>A lookup and a listing that are the same up to the error and up to the order.\<close>

definition same_found :: "'r res \<Rightarrow> 'r res \<Rightarrow> bool" where
  "same_found r r' \<longleftrightarrow> (\<forall>x. r = Inr x \<longleftrightarrow> r' = Inr x)"

definition same_list :: "'r list res \<Rightarrow> 'r list res \<Rightarrow> bool" where
  "same_list r r' \<longleftrightarrow> (\<exists>xs ys. r = Inr xs \<and> r' = Inr ys \<and> mset xs = mset ys)"

lemma found_same: "found r x \<Longrightarrow> found r' x \<Longrightarrow> same_found r r'"
  by (cases r; cases r'; auto simp: found_def same_found_def split: option.splits)

lemma same_foundE:
  assumes "same_found r r'"
  obtains x where "r = Inr x" "r' = Inr x" | e e' where "r = Inl e" "r' = Inl e'"
  using assms by (cases r; cases r') (auto simp: same_found_def)

lemma lists_same: "lists r X \<Longrightarrow> lists r' X \<Longrightarrow> same_list r r'"
  unfolding lists_def same_list_def by (metis set_eq_iff_mset_eq_distinct)

locale two_services = s1: service_reads srv1 I1 v1 + s2: service_reads srv2 I2 v2
  for srv1 :: "('a, 'db1) service" and I1 v1 and srv2 :: "('a, 'db2) service" and I2 v2 +
  assumes same_libs: "sv_jwt srv1 = sv_jwt srv2" "sv_addr srv1 = sv_addr srv2"
begin

lemma Verify_same:
  assumes "I1 s1" and "I2 s2" and "same_live (v1 s1) (v2 s2)"
  shows "fst (Verify_body srv1 c t s1) = fst (Verify_body srv2 c t s2)"
    and "snd (Verify_body srv1 c t s1) = None \<longleftrightarrow> snd (Verify_body srv2 c t s2) = None"
proof -
  have "same_found (st_Get (sv_store srv1) t s1) (st_Get (sv_store srv2) t s2)"
    using s1.Get [OF assms(1), of t] s2.Get [OF assms(2), of t]
    by (simp add: same_liveD(1) [OF assms(3)] found_same)
  then have "fst (Verify_body srv1 c t s1) = fst (Verify_body srv2 c t s2) \<and>
      (snd (Verify_body srv1 c t s1) = None \<longleftrightarrow> snd (Verify_body srv2 c t s2) = None)"
    by (rule same_foundE) (auto simp: Verify_body_def same_libs split: prod.split option.split sum.split)
  then show "fst (Verify_body srv1 c t s1) = fst (Verify_body srv2 c t s2)"
    "snd (Verify_body srv1 c t s1) = None \<longleftrightarrow> snd (Verify_body srv2 c t s2) = None" by simp_all
qed

text \<open>The middleware makes the same caller of a request, or refuses it in the same way.\<close>

lemma permMiddleWare_same:
  assumes "I1 (w_db w1)" and "I2 (w_db w2)" and "same_live (v1 (w_db w1)) (v2 (w_db w2))"
  shows "snd (permMiddleWare srv1 rq w1) = snd (permMiddleWare srv2 rq w2)"
proof (cases "bearer_token rq")
  case (Some t)
  obtain p1 e1 p2 e2 where v: "Verify_body srv1 (CtxWithPerm ctx_Background PermRead) t (w_db w1) = (p1, e1)"
    "Verify_body srv2 (CtxWithPerm ctx_Background PermRead) t (w_db w2) = (p2, e2)" by fastforce
  with Verify_same [OF assms, of "CtxWithPerm ctx_Background PermRead" t]
  have "p1 = p2" "e1 = None \<longleftrightarrow> e2 = None" by simp_all
  with Some v show ?thesis
    by (cases e1; cases e2; cases p2) (simp_all add: permMiddleWare_def app_verify_def sv_Verify_def Let_def)
qed (simp add: permMiddleWare_def)

lemma questions_same:
  assumes "I1 (w_db w1)" and "I2 (w_db w2)" and "same_live (v1 (w_db w1)) (v2 (w_db w2))"
  shows "sv_HasUser srv1 c n w1 = sv_HasUser srv2 c n w2"
    and "sv_HasMiner srv1 c a w1 = sv_HasMiner srv2 c a w2"
    and "sv_MinerExistInUser srv1 c mreq w1 = sv_MinerExistInUser srv2 c mreq w2"
    and "sv_SignerExistInUser srv1 c sreq w1 = sv_SignerExistInUser srv2 c sreq w2"
    and "same_found (sv_GetUser srv1 c n w1) (sv_GetUser srv2 c n w2)"
    and "same_found (sv_GetToken srv1 c t w1) (sv_GetToken srv2 c t w2)"
    and "is_ok (sv_VerifyUsers srv1 c ns w1) \<longleftrightarrow> is_ok (sv_VerifyUsers srv2 c ns w2)"
proof -
  note same = same_liveD [OF assms(3)]
  show "sv_HasUser srv1 c n w1 = sv_HasUser srv2 c n w2"
    by (simp add: sv_HasUser_def s1.HasUser [OF assms(1)] s2.HasUser [OF assms(2)] same split: sum.split)
  show "sv_HasMiner srv1 c a w1 = sv_HasMiner srv2 c a w2"
    by (simp add: sv_HasMiner_def s1.HasMiner [OF assms(1)] s2.HasMiner [OF assms(2)] same split: sum.split)
  show "sv_MinerExistInUser srv1 c mreq w1 = sv_MinerExistInUser srv2 c mreq w2"
    by (simp add: sv_MinerExistInUser_def s1.MinerExistInUser [OF assms(1)] s2.MinerExistInUser [OF assms(2)] same split: sum.split)
  show "sv_SignerExistInUser srv1 c sreq w1 = sv_SignerExistInUser srv2 c sreq w2"
    unfolding sv_SignerExistInUser_def s1.SignerExistInUser [OF assms(1)] s2.SignerExistInUser [OF assms(2)]
      same(4) same_libs ..
  have get: "same_found (st_GetUser (sv_store srv1) n (w_db w1)) (st_GetUser (sv_store srv2) n (w_db w2))"
    using s1.GetUser [OF assms(1), of n] s2.GetUser [OF assms(2), of n] by (simp add: same found_same)
  show "same_found (sv_GetUser srv1 c n w1) (sv_GetUser srv2 c n w2)"
    unfolding same_found_def by (auto simp: s1.GetUser_iff [OF assms(1)] s2.GetUser_iff [OF assms(2)] same)
  have "same_found (st_Get (sv_store srv1) t (w_db w1)) (st_Get (sv_store srv2) t (w_db w2))"
    using s1.Get [OF assms(1), of t] s2.Get [OF assms(2), of t] by (simp add: same found_same)
  then show "same_found (sv_GetToken srv1 c t w1) (sv_GetToken srv2 c t w2)"
    by (rule same_foundE) (auto simp: sv_GetToken_def same_found_def same_libs split: sum.split)
  show "is_ok (sv_VerifyUsers srv1 c ns w1) \<longleftrightarrow> is_ok (sv_VerifyUsers srv2 c ns w2)"
    by (simp add: sv_VerifyUsers_def s1.VerifyUsers [OF assms(1)] s2.VerifyUsers [OF assms(2)] same split: sum.split)
qed

lemma listings_same:
  assumes "I1 (w_db w1)" and "I2 (w_db w2)" and "same_live (v1 (w_db w1)) (v2 (w_db w2))"
  shows "same_list (st_ByName (sv_store srv1) n (w_db w1)) (st_ByName (sv_store srv2) n (w_db w2))"
    and "same_list (st_GetRateLimits (sv_store srv1) n i (w_db w1)) (st_GetRateLimits (sv_store srv2) n i (w_db w2))"
proof -
  note same = same_liveD [OF assms(3)]
  show "same_list (st_ByName (sv_store srv1) n (w_db w1)) (st_ByName (sv_store srv2) n (w_db w2))"
    using s1.ByName [OF assms(1), of n] s2.ByName [OF assms(2), of n] by (simp add: same lists_same)
  show "same_list (st_GetRateLimits (sv_store srv1) n i (w_db w1)) (st_GetRateLimits (sv_store srv2) n i (w_db w2))"
    using s1.GetRateLimits [OF assms(1), of n i] s2.GetRateLimits [OF assms(2), of n i] by (simp add: same lists_same)
qed

end

interpretation two: two_services "badgerService K A rng J" "badger_inv K A rng" "badger_view K A"
    "mysqlService G A J" "mysql_inv A G db" "\<lambda>s. my_view (db s)"
  for K :: "('a obj, 'db, 'txn) badger" and A rng J and G :: "('a, 's) gorm" and db
  by unfold_locales simp_all

text \<open>
  The stores disagree on a miner that was deleted before: deleting it again is an error on badger, and
  the answer no on MySQL. The test \<open>testDelMiners\<close> (storage/store_test.go) requires the error.
\<close>

lemma DelMiner_again:
  assumes "badger_inv K A rng s1" and "as_miner (badger_view K A s1) a = Some m" and "Miner_isDeleted m"
    and "mysql_inv A G db s2" and "a_owner (my_view (db s2)) a = None"
  shows "\<not> is_ok (snd (bs_DelMiner K A now a s1))" and "snd (my_DelMiner G A a s2) = Inr False"
proof -
  have "spec_DelMiner now a (badger_view K A s1) = None" by (simp add: spec_DelMiner_def assms(2,3))
  with ref_DelMiner [OF assms(1), of now a] show "\<not> is_ok (snd (bs_DelMiner K A now a s1))"
    by (auto simp: refines_def)
  show "snd (my_DelMiner G A a s2) = Inr False"
    by (rule my_innerDelMiner_does [OF assms(4), of a]) (simp add: my_DelMiner_def assms(5))
qed

text \<open>
  A signer that is bound is found on both stores. The badger store also finds a signer whose text
  begins the text of another that is bound; where there is no such other one, the stores agree.
\<close>

lemma HasSigner_both:
  fixes J :: jwt_lib
  assumes "badger_inv K A rng (w_db w1)" and "mysql_inv A G db (w_db w2)"
    and "same_live (badger_view K A (w_db w1)) (my_view (db (w_db w2)))"
  shows "signer_alone A a (badger_view K A (w_db w1)) \<Longrightarrow>
      sv_HasSigner (badgerService K A rng J) c a w1 = sv_HasSigner (mysqlService G A J) c a w2"
    and "sv_HasSigner (mysqlService G A J) c a w2 = Inr True \<Longrightarrow>
      sv_HasSigner (badgerService K A rng J) c a w1 = Inr True"
proof -
  note same = same_liveD(4) [OF assms(3)]
  have m: "my_HasSigner G A a (w_db w2) = Inr (\<exists>n. a_signer (badger_view K A (w_db w1)) a n \<noteq> None)"
    unfolding my_HasSigner_eq [OF assms(2)] same ..
  show "sv_HasSigner (badgerService K A rng J) c a w1 = sv_HasSigner (mysqlService G A J) c a w2"
    if "signer_alone A a (badger_view K A (w_db w1))"
  proof -
    have "st_HasSigner (mysqlStore G A) a (w_db w2) = st_HasSigner (badgerStore K A rng) a (w_db w1)"
      by (simp add: badgerStore_def mysqlStore_def m HasSigner_alone [OF assms(1) that])
    then show ?thesis by (simp add: sv_HasSigner_def cong: sum.case_cong if_cong)
  qed
  have "bs_HasSigner K A a (w_db w1) = Inr True" if "my_HasSigner G A a (w_db w2) = Inr True"
  proof -
    from that m obtain n where "a_signer (badger_view K A (w_db w1)) a n \<noteq> None" by auto
    moreover have "extends A a a" by simp
    ultimately show ?thesis unfolding read_signers(3) [OF assms(1)] by blast
  qed
  then show "sv_HasSigner (mysqlService G A J) c a w2 = Inr True \<Longrightarrow>
      sv_HasSigner (badgerService K A rng J) c a w1 = Inr True"
    by (simp add: sv_HasSigner_def badgerStore_def mysqlStore_def split: sum.splits if_splits)
qed

end
