(* ===== verification/Gorm_Memory.thy ===== *)
theory Gorm_Memory
  imports Gorm
begin

text \<open>
  A database in memory that behaves as the laws of \<open>Gorm\<close> say, for every table from its schema: the
  laws can hold, and the theorems about the MySQL store can be applied to concrete rows.
\<close>

definition mem_find :: "('a, 'row) schema \<Rightarrow> query \<Rightarrow> 'a sqldb \<Rightarrow> 'row list" where
  "mem_find T q c =
     (let rows = selected T True (q_Where q) c
      in page_of (q_Offset q) (q_Limit q)
           (case q_Order q of None \<Rightarrow> rows | Some col \<Rightarrow> sort_key (\<lambda>row. sc_col T row col) rows))"

definition mem_take :: "('a, 'row) schema \<Rightarrow> cond \<Rightarrow> 'a sqldb \<Rightarrow> 'row res" where
  "mem_take T ps c = (case selected T True ps c of [] \<Rightarrow> Inl ErrRecordNotFound | row # _ \<Rightarrow> Inr row)"

text \<open>The clock stands at 1; a new id is the number of the row.\<close>

definition mem_create :: "('a, 'row) schema \<Rightarrow> on_conflict \<Rightarrow> 'row \<Rightarrow> 'a sqldb \<Rightarrow> 'a sqldb \<times> unit res" where
  "mem_create T oc row c =
     (let new = sc_new T 1 (length (sc_rows T c) + 1) row in
      case filter (sc_clash T row) (sc_rows T c) of
        [] \<Rightarrow> (sc_put T (sc_rows T c @ [new]) c, Inr ())
      | _ \<Rightarrow>
          (case oc of
             NoClause \<Rightarrow> (c, Inl (External ''Error 1062: Duplicate entry''))
           | UpdateAll _ \<Rightarrow>
               (sc_put T (map (\<lambda>r. if sc_clash T row r then sc_merge T r new else r) (sc_rows T c)) c, Inr ())))"

definition mem_save :: "('a, 'row) schema \<Rightarrow> 'row \<Rightarrow> 'a sqldb \<Rightarrow> 'a sqldb \<times> unit res" where
  "mem_save T row c =
     (case filter (sc_clash T row) (sc_rows T c) of
        [] \<Rightarrow> (sc_put T (sc_rows T c @ [row]) c, Inr ())
      | _ \<Rightarrow> (sc_put T (map (\<lambda>r. if sc_clash T row r then row else r) (sc_rows T c)) c, Inr ()))"

definition mem_delete :: "('a, 'row) schema \<Rightarrow> cond \<Rightarrow> 'a sqldb \<Rightarrow> 'a sqldb \<times> int res" where
  "mem_delete T ps c =
     (sc_put T (concat (map (\<lambda>row. if selects T True ps row
                  then (case sc_remove T 1 row of None \<Rightarrow> [] | Some r \<Rightarrow> [r]) else [row]) (sc_rows T c))) c,
      Inr (int (length (selected T True ps c))))"

definition mem_table :: "('a, 'row) schema \<Rightarrow> ('row, 'a sqldb) gorm_table" where
  "mem_table T = \<lparr>tb_Count = (\<lambda>model ps c. Inr (int (length (selected T model ps c)))),
     tb_Take = mem_take T, tb_First = mem_take T, tb_Find = (\<lambda>q c. Inr (mem_find T q c)),
     tb_Update = (\<lambda>ps sets c. (sc_put T (map (\<lambda>row. if selects T True ps row then sc_set T sets row else row)
                     (sc_rows T c)) c, Inr ())),
     tb_Create = mem_create T, tb_Save = mem_save T, tb_Delete = mem_delete T\<rparr>"

text \<open>A new column that counts up numbers the rows from one.\<close>

definition mem_exec :: "'a addr_lib \<Rightarrow> string \<Rightarrow> 'a sqldb \<Rightarrow> 'a sqldb \<times> unit res" where
  "mem_exec A q c =
     (case alteration_of q of
        None \<Rightarrow> (c, Inl (External ''Error 1064: syntax''))
      | Some alt \<Rightarrow>
          if alter_ok A alt c then (altered (map Suc [0..<length (sq_miners c)]) alt c, Inr ())
          else (c, Inl (External ''Error: alter table'')))"

definition mem_gorm :: "'a addr_lib \<Rightarrow> ('a, 'a sqldb) gorm" where
  "mem_gorm A = \<lparr>g_token = mem_table token_schema, g_users = mem_table users_schema,
     g_miners = mem_table (miners_schema A), g_signers = mem_table (signers_schema A),
     g_limits = mem_table limits_schema, g_version = mem_table version_schema,
     g_JoinMiners = (\<lambda>p q c. Inr (joined (miners_schema A) p q c)),
     g_JoinSigners = (\<lambda>p q c. Inr (joined (signers_schema A) p q c)),
     g_ScanUsers = (\<lambda>c. Inr (map (\<lambda>u. (usr_Name u, sq_legacy c (usr_Name u))) (sq_users c))),
     g_HasColumn = (\<lambda>field c. field = ''ID'' \<and> ''id'' \<in> set (td_columns (sq_miners_def c))),
     g_Exec = mem_exec A, g_Begin = Inr, g_Commit = Inr\<rparr>"

lemma mem_find_rows:
  "\<exists>rows. mset rows = mset (selected T True (q_Where q) c) \<and>
     (\<forall>col. q_Order q = Some col \<longrightarrow> sorted (map (\<lambda>x. sc_col T x col) rows)) \<and>
     mem_find T q c = page_of (q_Offset q) (q_Limit q) rows"
proof (cases "q_Order q")
  case None
  then show ?thesis by (intro exI [of _ "selected T True (q_Where q) c"]) (simp add: mem_find_def)
next
  case (Some col)
  then show ?thesis
    by (intro exI [of _ "sort_key (\<lambda>row. sc_col T row col) (selected T True (q_Where q) c)"]) (simp add: mem_find_def)
qed

lemma mem_take_rows:
  "selected T True ps c = [] \<Longrightarrow> mem_take T ps c = Inl ErrRecordNotFound"
  "selected T True ps c \<noteq> [] \<Longrightarrow> \<exists>row \<in> set (selected T True ps c). mem_take T ps c = Inr row"
  unfolding mem_take_def by (simp, cases "selected T True ps c") (simp_all del: set_filter)

lemma mem_table_ok: "table_ok id T (mem_table T) c"
  unfolding table_ok_def mem_table_def gorm_table.select_convs id_apply
proof (intro conjI allI impI)
  show "\<exists>s' now n. \<not> IsZero now \<and> mem_create T oc row c = (s', Inr ()) \<and>
      s' = sc_put T (sc_rows T c @ [sc_new T now n row]) c" if "filter (sc_clash T row) (sc_rows T c) = []" for oc row c
    using that by (intro exI [of _ 1] exI [of _ "length (sc_rows T c) + 1"] exI)
      (simp add: mem_create_def Let_def IsZero_def)
  show "\<exists>s' now n. \<not> IsZero now \<and> mem_create T (UpdateAll cols) row c = (s', Inr ()) \<and>
      s' = sc_put T (map (\<lambda>r. if sc_clash T row r then sc_merge T r (sc_new T now n row) else r) (sc_rows T c)) c"
    if "filter (sc_clash T row) (sc_rows T c) = [old]" for cols row c old
    using that by (intro exI [of _ 1] exI [of _ "length (sc_rows T c) + 1"] exI)
      (simp add: mem_create_def Let_def IsZero_def)
  show "\<exists>s' now. \<not> IsZero now \<and> mem_delete T ps c = (s', Inr (int (length (selected T True ps c)))) \<and>
      s' = sc_put T (concat (map (\<lambda>row. if selects T True ps row
                  then (case sc_remove T now row of None \<Rightarrow> [] | Some r \<Rightarrow> [r]) else [row]) (sc_rows T c))) c" for ps c
    by (intro exI [of _ 1] exI) (simp add: mem_delete_def IsZero_def)
  show "\<exists>e. mem_create T NoClause row c = (c, Inl e)" if "filter (sc_clash T row) (sc_rows T c) \<noteq> []" for row c
    using that by (auto simp: mem_create_def Let_def split: list.split)
qed (use mem_find_rows mem_take_rows in \<open>auto simp: mem_save_def\<close>)

lemma mem_exec_law:
  assumes "alteration_of q = Some alt"
  shows "alter_ok A alt c \<Longrightarrow> \<exists>c' ids. mem_exec A q c = (c', Inr ()) \<and> length ids = length (sq_miners c) \<and>
      distinct ids \<and> 0 \<notin> set ids \<and> c' = altered ids alt c"
    and "\<not> alter_ok A alt c \<Longrightarrow> \<exists>e. mem_exec A q c = (c, Inl e)"
  by (intro exI [of _ "altered (map Suc [0..<length (sq_miners c)]) alt c"]
        exI [of _ "map Suc [0..<length (sq_miners c)]"]) (simp_all add: mem_exec_def assms distinct_map)

lemma mem_gorm_laws: "gorm_laws A (mem_gorm A) id"
proof -
  have "g_Exec (mem_gorm A) = mem_exec A" by (simp add: mem_gorm_def)
  note exec = mem_exec_law [of _ _ A, folded this]
  show ?thesis unfolding gorm_laws_def
  proof (intro conjI allI impI)
    show "if alter_ok A alt (id c) then \<exists>c' ids. g_Exec (mem_gorm A) q c = (c', Inr ()) \<and>
        length ids = length (sq_miners (id c)) \<and> distinct ids \<and> 0 \<notin> set ids \<and> id c' = altered ids alt (id c)
      else \<exists>e. g_Exec (mem_gorm A) q c = (c, Inl e)"
      if "alteration_of q = Some alt" for q alt c
      using exec [OF that] by simp
  qed (simp_all add: mem_gorm_def mem_table_ok)
qed

end
