(* ===== verification/Os.thy ===== *)
theory Os
  imports Prelude
begin

text \<open>
  What the command line uses of Go's packages \<open>path\<close> and \<open>os\<close>, and the helpers on top of them in
  util/util.go and config/config.go (\<open>MakeDir\<close>, \<open>Exist\<close>). A file system is a map from clean paths to
  nodes. Symbolic links, file modes and other processes are not modelled; that an operation may fail
  for any other reason is, by the parameter \<open>faults\<close>. Proved: what each helper leaves on disk.
\<close>

section \<open>Paths\<close>

text \<open>\<open>Split\<close> at slashes, with the empty words between adjacent ones.\<close>

fun path_words :: "string \<Rightarrow> string list" where
  "path_words [] = [[]]"
| "path_words (ch # s) =
     (if ch = CHR ''/'' then [] # path_words s
      else case path_words s of [] \<Rightarrow> [[ch]] | w # ws \<Rightarrow> (ch # w) # ws)"

fun join_with :: "string \<Rightarrow> string list \<Rightarrow> string" where
  "join_with sep [] = []"
| "join_with sep [x] = x"
| "join_with sep (x # y # xs) = x @ sep @ join_with sep (y # xs)"

text \<open>
  The words of the clean path, last one first: no empty word and no dot, a double dot removes the
  word before it; at the root it is dropped.
\<close>

fun clean_words :: "bool \<Rightarrow> string list \<Rightarrow> string list \<Rightarrow> string list" where
  "clean_words rooted acc [] = acc"
| "clean_words rooted acc (w # ws) =
     (if w = [] \<or> w = ''.'' then clean_words rooted acc ws
      else if w = ''..'' then
        (if acc \<noteq> [] \<and> hd acc \<noteq> ''..'' then clean_words rooted (tl acc) ws
         else if rooted then clean_words rooted acc ws
         else clean_words rooted (w # acc) ws)
      else clean_words rooted (w # acc) ws)"

definition path_Clean :: "string \<Rightarrow> string" where
  "path_Clean p =
     (let rooted = (p \<noteq> [] \<and> hd p = CHR ''/'');
          ws = rev (clean_words rooted [] (path_words p)) in
      if rooted then CHR ''/'' # join_with ''/'' ws
      else if ws = [] then ''.'' else join_with ''/'' ws)"

text \<open>\<open>path.Join\<close> (on Unix also \<open>filepath.Join\<close>): empty elements are ignored.\<close>

definition path_Join :: "string list \<Rightarrow> string" where
  "path_Join elem =
     (let es = filter (\<lambda>e. e \<noteq> []) elem in if es = [] then [] else path_Clean (join_with ''/'' es))"

text \<open>The directories above a clean path, the outermost first; the root and the working directory exist.\<close>

definition ancestors :: "string \<Rightarrow> string list" where
  "ancestors p = [take i p. i \<leftarrow> [1..<length p], p ! i = CHR ''/'']"

section \<open>The file system\<close>

datatype node = Dir | File string

type_synonym fs = "string \<rightharpoonup> node"

datatype os_error = ErrNotExist | ErrExist | Errno string

datatype os_op = O_Stat | O_Mkdir | O_Create | O_Write | O_Close | O_ReadFile

text \<open>
  The faults of the operating system: the text of the error with which an operation on a path
  fails, if it does, and how many bytes a failing write has written.
\<close>

record faults =
  fl_error :: "os_op \<Rightarrow> string \<Rightarrow> string option"
  fl_written :: nat

fun os_Error :: "os_error \<Rightarrow> err" where
  "os_Error ErrNotExist = External ''no such file or directory''"
| "os_Error ErrExist = External ''file exists''"
| "os_Error (Errno m) = External m"

definition node_at :: "fs \<Rightarrow> string \<Rightarrow> node option" where
  "node_at f p = (if p = ''/'' \<or> p = ''.'' then Some Dir else f p)"

text \<open>Following a path: every directory above it must be there.\<close>

fun walk :: "fs \<Rightarrow> string list \<Rightarrow> os_error option" where
  "walk f [] = None"
| "walk f (d # ds) =
     (case node_at f d of
        Some Dir \<Rightarrow> walk f ds
      | Some (File _) \<Rightarrow> Some (Errno ''not a directory'')
      | None \<Rightarrow> Some ErrNotExist)"

definition fault :: "faults \<Rightarrow> os_op \<Rightarrow> string \<Rightarrow> os_error option" where
  "fault F op p = map_option Errno (fl_error F op p)"

text \<open>On a clean path, and on any path.\<close>

definition stat_at :: "faults \<Rightarrow> string \<Rightarrow> fs \<Rightarrow> os_error + node" where
  "stat_at F p f =
     (case fault F O_Stat p of
        Some e \<Rightarrow> Inl e
      | None \<Rightarrow>
     (case walk f (ancestors p) of
        Some e \<Rightarrow> Inl e
      | None \<Rightarrow> (case node_at f p of None \<Rightarrow> Inl ErrNotExist | Some n \<Rightarrow> Inr n)))"

definition os_Stat :: "faults \<Rightarrow> string \<Rightarrow> fs \<Rightarrow> os_error + node" where
  "os_Stat F path f = (if path = [] then Inl ErrNotExist else stat_at F (path_Clean path) f)"

definition mkdir_at :: "faults \<Rightarrow> string \<Rightarrow> fs \<Rightarrow> fs \<times> os_error option" where
  "mkdir_at F p f =
     (case fault F O_Mkdir p of
        Some e \<Rightarrow> (f, Some e)
      | None \<Rightarrow>
     (case walk f (ancestors p) of
        Some e \<Rightarrow> (f, Some e)
      | None \<Rightarrow> (case node_at f p of Some n \<Rightarrow> (f, Some ErrExist) | None \<Rightarrow> (f(p \<mapsto> Dir), None))))"

definition os_Mkdir :: "faults \<Rightarrow> string \<Rightarrow> fs \<Rightarrow> fs \<times> os_error option" where
  "os_Mkdir F path f = (if path = [] then (f, Some ErrNotExist) else mkdir_at F (path_Clean path) f)"

text \<open>Each directory on the way is made unless it is there; what has been made stays after an error.\<close>

fun mkdirs :: "faults \<Rightarrow> string list \<Rightarrow> fs \<Rightarrow> fs \<times> os_error option" where
  "mkdirs F [] f = (f, None)"
| "mkdirs F (d # ds) f =
     (case stat_at F d f of
        Inr Dir \<Rightarrow> mkdirs F ds f
      | Inr (File _) \<Rightarrow> (f, Some (Errno ''not a directory''))
      | Inl _ \<Rightarrow> (case mkdir_at F d f of (f, None) \<Rightarrow> mkdirs F ds f | (f, Some e) \<Rightarrow> (f, Some e)))"

definition os_MkdirAll :: "faults \<Rightarrow> string \<Rightarrow> fs \<Rightarrow> fs \<times> os_error option" where
  "os_MkdirAll F path f =
     (let p = path_Clean path in if path = [] then (f, Some ErrNotExist) else mkdirs F (ancestors p @ [p]) f)"

text \<open>\<open>Create\<close> truncates; the file that it opens is written from its start.\<close>

definition os_Create :: "faults \<Rightarrow> string \<Rightarrow> fs \<Rightarrow> fs \<times> os_error option" where
  "os_Create F path f =
     (let p = path_Clean path in
      if path = [] then (f, Some ErrNotExist)
      else case fault F O_Create p of
        Some e \<Rightarrow> (f, Some e)
      | None \<Rightarrow>
     (case walk f (ancestors p) of
        Some e \<Rightarrow> (f, Some e)
      | None \<Rightarrow>
     (if node_at f p = Some Dir then (f, Some (Errno ''is a directory''))
      else (f(p \<mapsto> File []), None))))"

definition os_Write :: "faults \<Rightarrow> string \<Rightarrow> string \<Rightarrow> fs \<Rightarrow> fs \<times> os_error option" where
  "os_Write F path data f =
     (let p = path_Clean path in
      case fault F O_Write p of
        Some e \<Rightarrow> (f(p \<mapsto> File (take (fl_written F) data)), Some e)
      | None \<Rightarrow> (f(p \<mapsto> File data), None))"

definition os_Close :: "faults \<Rightarrow> string \<Rightarrow> os_error option" where
  "os_Close F path = fault F O_Close (path_Clean path)"

definition os_ReadFile :: "faults \<Rightarrow> string \<Rightarrow> fs \<Rightarrow> os_error + string" where
  "os_ReadFile F path f =
     (let p = path_Clean path in
      if path = [] then Inl ErrNotExist
      else case fault F O_ReadFile p of
        Some e \<Rightarrow> Inl e
      | None \<Rightarrow>
     (case walk f (ancestors p) of
        Some e \<Rightarrow> Inl e
      | None \<Rightarrow>
     (case node_at f p of
        None \<Rightarrow> Inl ErrNotExist
      | Some Dir \<Rightarrow> Inl (Errno ''is a directory'')
      | Some (File data) \<Rightarrow> Inr data)))"

text \<open>\<open>WriteFile\<close> is \<open>Create\<close>, one write and \<open>Close\<close>; the first error is returned.\<close>

definition os_WriteFile :: "faults \<Rightarrow> string \<Rightarrow> string \<Rightarrow> fs \<Rightarrow> fs \<times> os_error option" where
  "os_WriteFile F path data f =
     (case os_Create F path f of
        (f, Some e) \<Rightarrow> (f, Some e)
      | (f, None) \<Rightarrow>
     (case os_Write F path data f of
        (f, Some e) \<Rightarrow> (f, Some e)
      | (f, None) \<Rightarrow> (f, os_Close F path)))"

section \<open>The helpers (util/util.go, config/config.go)\<close>

definition Exist :: "faults \<Rightarrow> string \<Rightarrow> fs \<Rightarrow> bool res" where
  "Exist F path f =
     (case os_Stat F path f of
        Inr _ \<Rightarrow> Inr True
      | Inl e \<Rightarrow> if e \<noteq> ErrNotExist then Inl (os_Error e) else Inr False)"

definition util_MakeDir :: "faults \<Rightarrow> string \<Rightarrow> fs \<Rightarrow> fs \<times> unit res" where
  "util_MakeDir F path f =
     (case os_Stat F path f of
        Inl e \<Rightarrow>
          if e = ErrNotExist then
            (case os_MkdirAll F path f of
               (f, Some e) \<Rightarrow> (f, Inl (Wrap ''make dir: '' (os_Error e)))
             | (f, None) \<Rightarrow> (f, Inr ()))
          else (f, Inl (Wrap ''stat dir: '' (os_Error e)))
      | Inr fi \<Rightarrow>
          if fi \<noteq> Dir then (f, Inl (Msg (''path '' @ path @ '' is not a dir''))) else (f, Inr ()))"

definition config_MakeDir :: "faults \<Rightarrow> string \<Rightarrow> fs \<Rightarrow> fs \<times> unit res" where
  "config_MakeDir F path f =
     (case os_Mkdir F path f of
        (f, Some e) \<Rightarrow> if e \<noteq> ErrExist then (f, Inl (os_Error e)) else (f, Inr ())
      | (f, None) \<Rightarrow> (f, Inr ()))"

section \<open>What is written is read back\<close>

text \<open>The directories above a path are shorter than the path.\<close>

lemma ancestors_shorter: "q \<in> set (ancestors p) \<Longrightarrow> length q < length p"
  by (auto simp: ancestors_def)

lemma self_not_ancestor [simp]: "p \<notin> set (ancestors p)"
  using ancestors_shorter by fastforce

text \<open>A path is followed as before when only a file, or what was not a directory, has changed.\<close>

lemma walk_update:
  assumes "walk f ds = None" and "node_at f p \<noteq> Some Dir"
  shows "walk (f(p := n)) ds = None"
  using assms
  by (induction ds) (auto simp: node_at_def split: option.splits node.splits if_splits)

lemma walk_other: "p \<notin> set ds \<Longrightarrow> walk (f(p := n)) ds = walk f ds"
  by (induction ds) (auto simp: node_at_def split: option.split node.split)

lemma Create_None:
  assumes "os_Create F path f = (f', None)"
  shows "path \<noteq> []" "walk f (ancestors (path_Clean path)) = None"
    "node_at f (path_Clean path) \<noteq> Some Dir" "f' = f(path_Clean path \<mapsto> File [])"
  using assms by (auto simp: os_Create_def Let_def split: if_splits option.splits)

lemma Create_other:
  assumes "os_Create F path f = (f', r)" and "q \<noteq> path_Clean path"
  shows "f' q = f q"
  using assms by (auto simp: os_Create_def Let_def split: if_splits option.splits)

lemma WriteFile_None:
  assumes "os_WriteFile F path data f = (f', None)"
  shows "path \<noteq> []" "walk f (ancestors (path_Clean path)) = None"
    "node_at f (path_Clean path) \<noteq> Some Dir" "f' = f(path_Clean path \<mapsto> File data)"
proof -
  obtain f1 where f1: "os_Create F path f = (f1, None)"
    using assms by (auto simp: os_WriteFile_def split: prod.splits option.splits)
  note Create_None [OF this]
  then show "path \<noteq> []" "walk f (ancestors (path_Clean path)) = None"
    "node_at f (path_Clean path) \<noteq> Some Dir" "f' = f(path_Clean path \<mapsto> File data)"
    using assms f1 by (auto simp: os_WriteFile_def os_Write_def Let_def split: prod.splits option.splits)
qed

text \<open>A written file is read back, unless reading fails.\<close>

lemma WriteFile_ReadFile:
  assumes "os_WriteFile F path data f = (f', None)" and "fl_error F' O_ReadFile (path_Clean path) = None"
  shows "os_ReadFile F' path f' = Inr data"
  using WriteFile_None [OF assms(1)] assms(2)
  by (auto simp: os_ReadFile_def Let_def fault_def walk_other node_at_def split: if_splits)

lemma WriteFile_Stat:
  assumes "os_WriteFile F path data f = (f', None)" and "fl_error F' O_Stat (path_Clean path) = None"
  shows "os_Stat F' path f' = Inr (File data)"
  using WriteFile_None [OF assms(1)] assms(2)
  by (auto simp: os_Stat_def stat_at_def fault_def walk_other node_at_def split: if_splits)

text \<open>No other path is affected.\<close>

lemma WriteFile_other:
  assumes "os_WriteFile F path data f = (f', None)" and "path_Clean q \<noteq> path_Clean path"
  shows "os_ReadFile F' q f = Inr x \<Longrightarrow> os_ReadFile F' q f' = Inr x"
    and "os_Stat F' q f = Inr n \<Longrightarrow> os_Stat F' q f' = Inr n"
proof -
  note w = WriteFile_None [OF assms(1)]
  have walk: "walk f (ancestors (path_Clean q)) = None \<Longrightarrow> walk f' (ancestors (path_Clean q)) = None"
    unfolding w(4) by (rule walk_update [OF _ w(3)])
  have node: "node_at f' (path_Clean q) = node_at f (path_Clean q)"
    using assms(2) by (simp add: w(4) node_at_def)
  show "os_ReadFile F' q f = Inr x \<Longrightarrow> os_ReadFile F' q f' = Inr x"
    using walk node by (auto simp: os_ReadFile_def Let_def split: if_splits option.splits node.splits)
  show "os_Stat F' q f = Inr n \<Longrightarrow> os_Stat F' q f' = Inr n"
    using walk node by (auto simp: os_Stat_def stat_at_def split: if_splits option.splits)
qed

section \<open>What the helpers do\<close>

text \<open>\<open>mkdirs\<close> only adds directories, and when it succeeds all of them are there.\<close>

lemma stat_at_Inr: "stat_at F d f = Inr n \<longleftrightarrow>
    fault F O_Stat d = None \<and> walk f (ancestors d) = None \<and> node_at f d = Some n"
  by (auto simp: stat_at_def split: option.splits)

lemma mkdir_at_keeps: "mkdir_at F d f = (f', r) \<Longrightarrow> node_at f q = Some n \<Longrightarrow> node_at f' q = Some n"
  by (auto simp: mkdir_at_def node_at_def split: if_splits option.splits)

lemma mkdir_at_None: "mkdir_at F d f = (f', None) \<Longrightarrow> node_at f' d = Some Dir"
  by (auto simp: mkdir_at_def node_at_def split: if_splits option.splits)

lemma mkdirs_keeps: "mkdirs F ds f = (f', r) \<Longrightarrow> node_at f q = Some n \<Longrightarrow> node_at f' q = Some n"
proof (induction F ds f rule: mkdirs.induct)
  case (2 F d ds f)
  then show ?case
    by (auto split: sum.splits node.splits prod.splits option.splits dest: mkdir_at_keeps)
qed simp

lemma mkdirs_None:
  "mkdirs F ds f = (f', None) \<Longrightarrow> d \<in> set ds \<Longrightarrow> node_at f' d = Some Dir"
proof (induction F ds f rule: mkdirs.induct)
  case (2 F d0 ds f)
  have rest: ?case if "mkdirs F ds f1 = (f', None)" "node_at f1 d0 = Some Dir"
    "d \<in> set ds \<Longrightarrow> node_at f' d = Some Dir" for f1
    using 2(4) that(3) mkdirs_keeps [OF that(1,2)] by auto
  show ?case
  proof (cases "stat_at F d0 f")
    case (Inl e)
    then obtain f1 where f1: "mkdir_at F d0 f = (f1, None)" "mkdirs F ds f1 = (f', None)"
      using 2(3) by (auto split: prod.splits option.splits)
    show ?thesis
      by (rule rest [OF f1(2) mkdir_at_None [OF f1(1)]]) (rule 2(1) [OF Inl f1(1) [symmetric] refl f1(2)])
  next
    case (Inr n)
    then have n: "n = Dir" "mkdirs F ds f = (f', None)" using 2(3) by (auto split: node.splits)
    show ?thesis
      by (rule rest [OF n(2)]) (use Inr 2(2) [OF Inr n(1) n(2)] n(1) in \<open>auto simp: stat_at_Inr\<close>)
  qed
qed simp

lemma walk_None_iff: "walk f ds = None \<longleftrightarrow> (\<forall>d \<in> set ds. node_at f d = Some Dir)"
  by (induction ds) (auto split: option.splits node.splits)

lemma Exist_True: "Exist F p f = Inr True \<longleftrightarrow> (\<exists>n. os_Stat F p f = Inr n)"
  by (auto simp: Exist_def split: sum.splits)

text \<open>A directory that has been made is there.\<close>

lemma MakeDir_Exist:
  assumes "util_MakeDir F p f = (f', Inr ())" and "fl_error F' O_Stat (path_Clean p) = None"
  shows "Exist F' p f' = Inr True"
proof (cases "os_Stat F p f")
  case (Inl e)
  then have "os_MkdirAll F p f = (f', None)"
    using assms(1) by (auto simp: util_MakeDir_def split: if_splits prod.splits option.splits)
  then have mk: "mkdirs F (ancestors (path_Clean p) @ [path_Clean p]) f = (f', None)" "p \<noteq> []"
    by (auto simp: os_MkdirAll_def Let_def split: if_splits)
  have "walk f' (ancestors (path_Clean p)) = None" "node_at f' (path_Clean p) = Some Dir"
    using mkdirs_None [OF mk(1)] by (auto simp: walk_None_iff)
  then show ?thesis using mk(2) assms(2) by (simp add: Exist_True os_Stat_def stat_at_Inr fault_def)
next
  case (Inr n)
  then have "n = Dir" "f' = f" using assms(1) by (auto simp: util_MakeDir_def split: if_splits)
  with Inr assms(2) show ?thesis
    by (auto simp: Exist_True os_Stat_def stat_at_Inr fault_def split: if_splits)
qed

text \<open>What exists keeps existing, whatever is made or written.\<close>

definition keeps_existing :: "fs \<Rightarrow> fs \<Rightarrow> bool" where
  "keeps_existing f f' \<longleftrightarrow> (\<forall>F p. Exist F p f = Inr True \<longrightarrow> Exist F p f' = Inr True)"

lemma keeps_existing_refl: "keeps_existing f f"
  by (simp add: keeps_existing_def)

lemma keeps_existing_trans: "keeps_existing f g \<Longrightarrow> keeps_existing g h \<Longrightarrow> keeps_existing f h"
  by (simp add: keeps_existing_def)

lemma keeps_existingI:
  assumes "\<And>q n. node_at f q = Some n \<Longrightarrow> \<exists>m. node_at f' q = Some m"
    and "\<And>q. node_at f q = Some Dir \<Longrightarrow> node_at f' q = Some Dir"
  shows "keeps_existing f f'"
  using assms by (auto simp: keeps_existing_def Exist_True os_Stat_def stat_at_Inr walk_None_iff split: if_splits)

lemma MakeDir_keeps:
  assumes "util_MakeDir F p f = (f', r)"
  shows "keeps_existing f f'"
proof -
  have "f' = f \<or> (\<exists>e. mkdirs F (ancestors (path_Clean p) @ [path_Clean p]) f = (f', e))"
    using assms by (auto simp: util_MakeDir_def os_MkdirAll_def Let_def split: sum.splits if_splits prod.splits option.splits)
  then show ?thesis
    by (auto intro!: keeps_existingI dest: mkdirs_keeps)
qed

lemma WriteFile_keeps:
  assumes "os_WriteFile F path data f = (f', None)"
  shows "keeps_existing f f'"
  using WriteFile_None [OF assms] by (intro keeps_existingI) (auto simp: node_at_def split: if_splits)

end
