(* ===== verification/Config.thy ===== *)
theory Config
  imports Os Complex_Main
begin

text \<open>
  The configuration of the daemon (config/config.go). The TOML encoder, viper, which reads the file
  back, and the configuration of the metrics package are parameters. Proved: what \<open>Cover\<close> writes is
  what \<open>DecodeConfig\<close> reads, and where writing the configuration goes wrong.
\<close>

section \<open>The structs\<close>

type_synonym duration = int

definition Second :: duration where
  "Second = 1000000000"

definition Minute :: duration where
  "Minute = 60 * Second"

type_synonym DBType = string

definition Mysql :: DBType where "Mysql = ''mysql''"
definition Badger :: DBType where "Badger = ''badger''"

record db_config =
  dc_Type :: DBType
  dc_DSN :: string
  dc_MaxOpenConns :: int
  dc_MaxIdleConns :: int
  dc_MaxLifeTime :: duration
  dc_MaxIdleTime :: duration
  dc_Debug :: bool

type_synonym LogHookType = int

definition LHTInfluxDB :: LogHookType where
  "LHTInfluxDB = 1"

record influx_config =
  ic_ServerURL :: string
  ic_AuthToken :: string
  ic_Org :: string
  ic_Bucket :: string
  ic_FlushInterval :: duration
  ic_BatchSize :: nat

record log_config =
  lc_LogLevel :: string
  lc_Type :: LogHookType
  lc_HookSwitch :: bool
  lc_InfluxDB :: "influx_config option"

text \<open>The fields of the metrics package's \<open>TraceConfig\<close> that the code names.\<close>

record trace_config =
  tr_JaegerTracingEnabled :: bool
  tr_ProbabilitySampler :: rat
  tr_JaegerEndpoint :: string
  tr_ServerName :: string

text \<open>A pointer field is an option. The type of the metrics configuration is a parameter.\<close>

record 'm config =
  cf_Listen :: string
  cf_ReadTimeout :: duration
  cf_WriteTimeout :: duration
  cf_IdleTimeout :: duration
  cf_Log :: "log_config option"
  cf_DB :: "db_config option"
  cf_Trace :: "trace_config option"
  cf_Metrics :: "'m option"

section \<open>The libraries\<close>

text \<open>
  \<open>vp_ReadConfig\<close> parses the text of a file of a given type; its result is what \<open>Unmarshal\<close> into
  a new \<open>Config\<close> gives.
\<close>

record 'm config_lib =
  vp_ReadConfig :: "string \<Rightarrow> string \<Rightarrow> ('m config res) res"
  toml_Encode :: "'m config \<Rightarrow> string res"
  ml_DefaultMetricsConfig :: 'm
  ml_setGraphiteNamespace :: "string \<Rightarrow> 'm \<Rightarrow> 'm"
  ml_setPrometheusNamespace :: "string \<Rightarrow> 'm \<Rightarrow> 'm"

section \<open>Operations\<close>

definition DefaultConfig :: "'m config_lib \<Rightarrow> 'm config" where
  "DefaultConfig L =
     (let defMetricsCfg = ml_DefaultMetricsConfig L;
          defMetricsCfg = ml_setGraphiteNamespace L ''sophon_auth'' defMetricsCfg;
          defMetricsCfg = ml_setPrometheusNamespace L ''sophon_auth'' defMetricsCfg in
      \<lparr>cf_Listen = ''127.0.0.1:8989'', cf_ReadTimeout = Minute, cf_WriteTimeout = Minute, cf_IdleTimeout = Minute,
       cf_Log = Some \<lparr>lc_LogLevel = ''trace'', lc_Type = 0, lc_HookSwitch = False, lc_InfluxDB = None\<rparr>,
       cf_DB = Some \<lparr>dc_Type = Badger, dc_DSN = [], dc_MaxOpenConns = 64, dc_MaxIdleConns = 128,
         dc_MaxLifeTime = 120 * Second, dc_MaxIdleTime = 60 * Second, dc_Debug = False\<rparr>,
       cf_Trace = Some \<lparr>tr_JaegerTracingEnabled = False, tr_ProbabilitySampler = 1,
         tr_JaegerEndpoint = ''localhost:6831'', tr_ServerName = ''sophon-auth''\<rparr>,
       cf_Metrics = Some defMetricsCfg\<rparr>)"

text \<open>
  \<open>RandSecret\<close> reads 32 bytes from the system's random source, given as the result of reading a
  number of bytes.
\<close>

definition RandSecret :: "(nat \<Rightarrow> string res) \<Rightarrow> string res" where
  "RandSecret reader = (case reader 32 of Inl e \<Rightarrow> Inl e | Inr sk \<Rightarrow> Inr sk)"

text \<open>\<open>FromConfigString\<close> (config/provider.go): viper on the file with its type set.\<close>

definition FromConfigString :: "'m config_lib \<Rightarrow> faults \<Rightarrow> string \<Rightarrow> string \<Rightarrow> fs \<Rightarrow> ('m config res) res" where
  "FromConfigString L F path configType f =
     (case os_ReadFile F path f of
        Inl e \<Rightarrow> Inl (os_Error e)
      | Inr data \<Rightarrow> vp_ReadConfig L configType data)"

definition DecodeConfig :: "'m config_lib \<Rightarrow> faults \<Rightarrow> string \<Rightarrow> fs \<Rightarrow> 'm config res" where
  "DecodeConfig L F path f =
     (case FromConfigString L F path ''toml'' f of
        Inl e \<Rightarrow> Inl e
      | Inr provider \<Rightarrow> provider)"

text \<open>\<open>bytes.ReplaceAll\<close> with a nonempty old text.\<close>

function ReplaceAll :: "string \<Rightarrow> string \<Rightarrow> string \<Rightarrow> string" where
  "ReplaceAll old new s =
     (if s = [] \<or> old = [] then s
      else if prefix old s then new @ ReplaceAll old new (drop (length old) s)
      else hd s # ReplaceAll old new (tl s))"
  by auto
termination
  by (relation "measure (\<lambda>(old, new, s). length s)") (auto simp: prefix_def)

declare ReplaceAll.simps [simp del]

definition toBytes :: "'m config_lib \<Rightarrow> 'm config \<Rightarrow> string res" where
  "toBytes L c =
     (case toml_Encode L c of
        Inl e \<Rightarrow> Inl (Wrap ''encoding config: '' e)
      | Inr b \<Rightarrow> Inr (ReplaceAll ''#['' ''['' b))"

definition Cover :: "'m config_lib \<Rightarrow> faults \<Rightarrow> string \<Rightarrow> 'm config \<Rightarrow> fs \<Rightarrow> fs \<times> unit res" where
  "Cover L F path config f =
     (case os_Create F path f of
        (f, Some e) \<Rightarrow> (f, Inl (os_Error e))
      | (f, None) \<Rightarrow>
     (case toBytes L config of
        Inl e \<Rightarrow> (f, Inl e)
      | Inr barr \<Rightarrow>
     (case os_Write F path barr f of
        (f, Some e) \<Rightarrow> (f, Inl (Wrap ''write config: '' (os_Error e)))
      | (f, None) \<Rightarrow>
     (case os_Close F path of
        Some e \<Rightarrow> (f, Inl (Wrap ''close config: '' (os_Error e)))
      | None \<Rightarrow> (f, Inr ())))))"

section \<open>Writing and reading back\<close>

text \<open>
  The documented behaviour of the libraries on a configuration: its encoding, once the lines that
  the encoder comments out (\<open>#[\<close>) are restored, is read back as that configuration.
\<close>

definition toml_ok :: "'m config_lib \<Rightarrow> 'm config \<Rightarrow> bool" where
  "toml_ok L c \<longleftrightarrow> (\<exists>b. toml_Encode L c = Inr b \<and>
     vp_ReadConfig L ''toml'' (ReplaceAll ''#['' ''['' b) = Inr (Inr c))"

lemma ReplaceAll_same:
  assumes "\<not> (\<exists>u v. s = u @ old @ v)"
  shows "ReplaceAll old new s = s"
  using assms
proof (induction old new s rule: ReplaceAll.induct)
  case (1 old new s)
  show ?case
  proof (cases "s = [] \<or> old = []")
    case False
    then have "\<not> prefix old s" using 1(3) by (metis append_Nil prefix_def)
    moreover have "ReplaceAll old new (tl s) = tl s"
    proof (rule 1(2))
      show "\<not> (\<exists>u v. tl s = u @ old @ v)"
      proof
        assume "\<exists>u v. tl s = u @ old @ v"
        then obtain u v where "tl s = u @ old @ v" by blast
        then have "s = (hd s # u) @ old @ v" using False by (cases s) auto
        with 1(3) show False by blast
      qed
    qed (use False \<open>\<not> prefix old s\<close> in auto)
    ultimately show ?thesis using False by (subst ReplaceAll.simps) auto
  qed (auto simp: ReplaceAll.simps)
qed

lemma Cover_Inr:
  assumes "Cover L F path c f = (f', Inr ())"
  obtains barr where "toBytes L c = Inr barr" "os_WriteFile F path barr f = (f', None)"
  using assms by (auto simp: Cover_def os_WriteFile_def split: prod.splits option.splits sum.splits)

text \<open>A configuration that has been written is the one that is read.\<close>

lemma Cover_Decode:
  assumes "Cover L F path c f = (f', Inr ())" and "toml_ok L c"
    and "fl_error F' O_ReadFile (path_Clean path) = None"
  shows "DecodeConfig L F' path f' = Inr c"
proof -
  obtain barr where b: "toBytes L c = Inr barr" "os_WriteFile F path barr f = (f', None)"
    by (rule Cover_Inr [OF assms(1)])
  have "os_ReadFile F' path f' = Inr barr" by (rule WriteFile_ReadFile [OF b(2) assms(3)])
  then show ?thesis
    using b(1) assms(2) by (auto simp: DecodeConfig_def FromConfigString_def toml_ok_def toBytes_def)
qed

text \<open>
  The file is truncated before the configuration is encoded: when the encoder fails, what it held
  is gone.
\<close>

lemma Cover_encode_error:
  assumes "toml_Encode L c = Inl e" and "os_Create F path f = (f1, None)"
  shows "Cover L F path c f = (f(path_Clean path \<mapsto> File []), Inl (Wrap ''encoding config: '' e))"
  using Create_None(4) [OF assms(2)] assms by (simp add: Cover_def toBytes_def)

end
