(* ===== verification/Mysql_Open.thy ===== *)
theory Mysql_Open
  imports Mysql_Service Config
begin

text \<open>
  Opening the MySQL store (\<open>newMySQLStore\<close>, storage/mysql.go): the connection and its pool, the test of
  the server's version, and the creation of the tables. What gorm does for each call is a parameter.
  Proved: which tables are created or altered, and what the version test makes of a version.
\<close>

section \<open>The connection\<close>

text \<open>
  A connection is opened from a data source name. The migrator works on the database \<open>'s\<close>, with the
  table options of the session; models are given by the names of their structs. \<open>go_Raw\<close> is the error
  of a statement that is built but not run.
\<close>

record ('c, 's) gorm_open =
  go_Open :: "string \<Rightarrow> 'c res"
  go_Debug :: "'c \<Rightarrow> 'c"
  go_DB :: "'c \<Rightarrow> unit res"
  go_version :: "'c \<Rightarrow> 's \<Rightarrow> string res"
  go_Raw :: "'c \<Rightarrow> string \<Rightarrow> err option"
  go_AutoMigrate :: "'c \<Rightarrow> string option \<Rightarrow> string list \<Rightarrow> 's \<Rightarrow> 's \<times> unit res"
  go_HasTable :: "'c \<Rightarrow> string \<Rightarrow> 's \<Rightarrow> bool"
  go_CreateTable :: "'c \<Rightarrow> string option \<Rightarrow> string \<Rightarrow> 's \<Rightarrow> 's \<times> unit res"
  go_HasColumn :: "'c \<Rightarrow> string \<Rightarrow> string \<Rightarrow> 's \<Rightarrow> bool"

text \<open>The settings of the connection pool.\<close>

record sql_pool =
  sp_MaxOpenConns :: int
  sp_MaxIdleConns :: int
  sp_ConnMaxLifetime :: duration
  sp_ConnMaxIdleTime :: duration

text \<open>The loop over the version: the first digit in it, 0 when there is none.\<close>

fun version_major :: "string \<Rightarrow> nat" where
  "version_major [] = 0"
| "version_major (ch # version) =
     (if CHR ''0'' \<le> ch \<and> ch \<le> CHR ''9'' then of_char ch - 48 else version_major version)"

definition base_models :: "string list" where
  "base_models = [''KeyPair'', ''User'', ''Signer'', ''UserRateLimit'', ''StoreVersion'']"

text \<open>
  The tables: \<open>AutoMigrate\<close> for the models but \<open>Miner\<close>, whose primary key changed in version 1.9.0: its
  table is created when there is none, and migrated only when it has the new key already.
\<close>

definition newMySQLStore_miners ::
  "('c, 's) gorm_open \<Rightarrow> 'c \<Rightarrow> string option \<Rightarrow> 's \<Rightarrow> 's \<times> unit res" where
  "newMySQLStore_miners GO db options s =
     (if \<not> go_HasTable GO db ''Miner'' s then go_CreateTable GO db options ''Miner'' s
      else if go_HasColumn GO db ''Miner'' ''ID'' s then go_AutoMigrate GO db options [''Miner''] s
      else (s, Inr ()))"

definition newMySQLStore_tables ::
  "('c, 's) gorm_open \<Rightarrow> 'c \<Rightarrow> string option \<Rightarrow> 's \<Rightarrow> 's \<times> unit res" where
  "newMySQLStore_tables GO db options s =
     (case go_AutoMigrate GO db options base_models s of
        (s, Inl e) \<Rightarrow> (s, Inl e)
      | (s, Inr _) \<Rightarrow> newMySQLStore_miners GO db options s)"

text \<open>The options of the session: row formats for servers older than version 8.\<close>

definition newMySQLStore_options :: "('c, 's) gorm_open \<Rightarrow> 'c \<Rightarrow> 's \<Rightarrow> string option" where
  "newMySQLStore_options GO db s =
     (let verMajer = (case go_version GO db s of Inl _ \<Rightarrow> 0 | Inr version \<Rightarrow> version_major version) in
      if verMajer > 0 \<and> verMajer < 8 \<and>
         go_Raw GO db ''set innodb_large_prefix = 1; set global innodb_file_format = BARRACUDA;'' = None
      then Some ''ROW_FORMAT=DYNAMIC'' else None)"

definition newMySQLStore ::
  "('c, 's) gorm_open \<Rightarrow> ('c \<Rightarrow> ('a, 's) gorm) \<Rightarrow> 'a addr_lib \<Rightarrow> db_config \<Rightarrow> 's \<Rightarrow>
     's \<times> (sql_pool \<times> ('a, 's) store_ops) res" where
  "newMySQLStore GO gorm_of A cnf s =
     (case go_Open GO (dc_DSN cnf) of
        Inl e \<Rightarrow> (s, Inl (Wrap (''[db connection failed] Database name: '' @ dc_DSN cnf @ '' '') e))
      | Inr db \<Rightarrow>
     (let db = (if dc_Debug cnf then go_Debug GO db else db) in
      case go_DB GO db of
        Inl e \<Rightarrow> (s, Inl e)
      | Inr _ \<Rightarrow>
     (let pool = \<lparr>sp_MaxOpenConns = dc_MaxOpenConns cnf, sp_MaxIdleConns = dc_MaxIdleConns cnf,
                  sp_ConnMaxLifetime = dc_MaxLifeTime cnf, sp_ConnMaxIdleTime = dc_MaxIdleTime cnf\<rparr> in
      case newMySQLStore_tables GO db (newMySQLStore_options GO db s) s of
        (s, Inl e) \<Rightarrow> (s, Inl e)
      | (s, Inr _) \<Rightarrow> (s, Inr (pool, mysqlStore (gorm_of db) A)))))"

section \<open>What opening does\<close>

text \<open>
  The version that is compared with 8 is one digit: version 10 of a server counts as version 1.
\<close>

lemma version_major_bound: "version_major v \<le> 9"
  by (induction v) (auto simp: less_eq_char_def)

lemma version_major_two_digits: "version_major (''10'' @ v) = 1"
  by (simp add: less_eq_char_def)

text \<open>
  A table of miners from before version 1.9.0, which has no column \<open>ID\<close>, is left to the migration of
  the store; no other state of the table is left alone.
\<close>

lemma newMySQLStore_old_miners:
  assumes "go_HasTable GO db ''Miner'' s" and "\<not> go_HasColumn GO db ''Miner'' ''ID'' s"
  shows "newMySQLStore_miners GO db options s = (s, Inr ())"
  using assms by (simp add: newMySQLStore_miners_def)

text \<open>
  When \<open>CreateTable\<close> leaves a table and \<open>AutoMigrate\<close> drops none, a store that is opened has a table of
  miners.
\<close>

lemma newMySQLStore_has_miners:
  assumes "\<And>s s'. go_CreateTable GO db options ''Miner'' s = (s', Inr ()) \<Longrightarrow> go_HasTable GO db ''Miner'' s'"
    and "\<And>s s'. go_AutoMigrate GO db options [''Miner''] s = (s', Inr ()) \<Longrightarrow>
           go_HasTable GO db ''Miner'' s \<Longrightarrow> go_HasTable GO db ''Miner'' s'"
    and "newMySQLStore_tables GO db options s = (s', Inr ())"
  shows "go_HasTable GO db ''Miner'' s'"
  using assms(3) by (auto simp: newMySQLStore_tables_def newMySQLStore_miners_def
      split: prod.splits sum.splits if_splits intro: assms(1,2))

text \<open>
  An opened store works on the connection with the settings of the configuration, and its tables were
  made or migrated without an error.
\<close>

lemma newMySQLStore_ok:
  assumes "newMySQLStore GO gorm_of A cnf s = (s', Inr (pool, S))" and "go_Open GO (dc_DSN cnf) = Inr c"
  shows "S = mysqlStore (gorm_of (if dc_Debug cnf then go_Debug GO c else c)) A"
    and "sp_MaxOpenConns pool = dc_MaxOpenConns cnf"
    and "\<exists>db options. newMySQLStore_tables GO db options s = (s', Inr ())"
  using assms by (auto simp: newMySQLStore_def Let_def split: sum.splits prod.splits)

text \<open>What \<open>NewStore\<close> gets from the constructor: the method table and the database it is opened on.\<close>

definition opened :: "'s \<times> (sql_pool \<times> 'st) res \<Rightarrow> ('st \<times> 's) res" where
  "opened r = (case r of (_, Inl e) \<Rightarrow> Inl e | (s, Inr (_, S)) \<Rightarrow> Inr (S, s))"

lemma opened_simps [simp]:
  "opened (s, Inl e) = Inl e"
  "opened (s, Inr (pool, S)) = Inr (S, s)"
  by (simp_all add: opened_def)

text \<open>A connection that is refused leaves the database alone.\<close>

lemma newMySQLStore_refused:
  assumes "go_Open GO (dc_DSN cnf) = Inl e"
  shows "fst (newMySQLStore GO gorm_of A cnf s) = s \<and> (\<exists>e. snd (newMySQLStore GO gorm_of A cnf s) = Inl e)"
  using assms by (simp add: newMySQLStore_def)

end
