(* ===== verification/Mysql_Properties.thy ===== *)
theory Mysql_Properties
  imports Two_Stores Gorm_Memory Instances Mysql_Open
begin

text \<open>
  The properties of the MySQL store and of the service on it, with witnesses on a database in memory:
  the invariants and the access control of the running system, the methods against the abstract
  store, migration, and what the store does where it differs from the badger store.
\<close>

section \<open>A database\<close>

definition ex_sql :: "nat sqldb" where
  "ex_sql = \<lparr>sq_token = [ex_kp ''alice'' PermWrite, ex_kp ''bob'' PermAdmin],
     sq_users = [ex_user ''alice'', ex_user ''bob''],
     sq_miners = [(ex_miner 2 ''alice'')\<lparr>DeletedAt := zero_deleted_at\<rparr>,
       (ex_miner 4 ''bob'')\<lparr>DeletedAt := zero_deleted_at\<rparr>],
     sq_signers = [(ex_signer 1 ''alice'')\<lparr>DeletedAt := zero_deleted_at\<rparr>,
       (ex_signer 1 ''bob'')\<lparr>DeletedAt := zero_deleted_at\<rparr>],
     sq_limits = [\<lparr>rl_Id = ''L1'', rl_Name = ''alice'', rl_Service = [], rl_API = [],
         rl_ReqLimit = \<lparr>Cap = 10, ResetDur = 60\<rparr>\<rparr>,
       \<lparr>rl_Id = ''L2'', rl_Name = ''alice'', rl_Service = ''s'', rl_API = [],
         rl_ReqLimit = \<lparr>Cap = 20, ResetDur = 60\<rparr>\<rparr>],
     sq_version = [],
     sq_miners_def = \<lparr>td_columns = [''id'', ''miner'', ''user'', ''open_mining'', ''created_at'', ''updated_at'', ''deleted_at''],
       td_primary = [''id''], td_auto = Some ''id'',
       td_indexes = [\<lparr>ix_name = ''miner_idx'', ix_unique = True, ix_columns = [''miner'']\<rparr>]\<rparr>,
     sq_legacy = (\<lambda>n. if n = ''alice'' then ex_String 6 else [])\<rparr>"

abbreviation ex_G :: "(nat, nat sqldb) gorm" where
  "ex_G \<equiv> mem_gorm ex_addr"

abbreviation ex_my :: "(nat, nat sqldb) service" where
  "ex_my \<equiv> mysqlService ex_G ex_addr ex_jwt"

definition ex_my_world :: "nat sqldb world" where
  "ex_my_world = \<lparr>w_db = ex_sql, w_metrics = []\<rparr>"

lemma ex_my_db [simp]: "w_db ex_my_world = ex_sql"
  by (simp add: ex_my_world_def)

lemma ex_col: "addr_col_ok ex_addr"
  using ex_addr_ok by (simp add: addr_col_ok_def ex_addr_def)

lemma ex_kp_sel [simp]: "kp_IsDeleted (ex_kp n p) = NotDelete" "kp_Name (ex_kp n p) = n"
  by (simp_all add: ex_kp_def)

lemma ex_sql_inv: "mysql_inv ex_addr ex_G id ex_sql"
proof -
  have tokens: "kp_Token (ex_kp ''alice'' PermWrite) \<noteq> kp_Token (ex_kp ''bob'' PermAdmin)" by code_simp
  have "rows_ok ex_addr ex_sql"
    unfolding rows_ok_def tables_ok_def ex_sql_def
    by (simp add: miners_ready_def tokens flag_ok_def ex_user_def ex_miner_def ex_signer_def bind_miner_def bind_signer_def
        mark_ok_def zero_deleted_at_def IsSignerAddress_def ex_addr_def)
  then show ?thesis by (simp add: mysql_inv_def mem_gorm_laws ex_col)
qed

abbreviation ex_my_view :: "nat astore" where
  "ex_my_view \<equiv> my_view ex_sql"

lemmas ex_my_views = inv_views [OF ex_sql_inv, unfolded id_apply]

lemma ex_my_data: "data_ok ex_jwt ex_my_view"
proof -
  have "signed_token ex_jwt kp" if "as_token ex_my_view t = Some kp" for t kp
  proof -
    have "kp \<in> set (sq_token ex_sql)" using that by (simp add: ex_my_views)
    then show ?thesis by (auto simp: ex_sql_def perm_defs intro!: ex_kp_signed)
  qed
  moreover have "mn_OpenMining m \<noteq> None" if "as_miner ex_my_view a = Some m" for a m
  proof -
    have "m \<in> set (sq_miners ex_sql)" using that by (simp add: ex_my_views)
    then show ?thesis by (auto simp: ex_sql_def ex_miner_def bind_miner_def)
  qed
  ultimately show ?thesis by (simp add: data_ok_def tokens_ok_def miners_open_def)
qed

lemma ex_my_ok: "sys_ok (mysql_inv ex_addr ex_G id) (\<lambda>s. my_view (id s)) ex_jwt (w_db ex_my_world)"
  using ex_sql_inv ex_my_data by (simp add: sys_ok_def)

section \<open>The running system\<close>

text \<open>
  \<^bold>\<open>C3\<close>: on MySQL too, every state that requests reach is well-formed: tokens, user names, user ids,
  miner addresses and signer bindings are unique, the deletion flags and marks have only the values
  that the queries test for, every stored signer can sign, every stored token is signed under the
  secret stored with it, and the mining flag of every miner is set. The requests are
  \<open>valid_request\<close>s: payloads to be signed are valid UTF-8, miners come with the required flag.
\<close>

theorem my_reachable_ok:
  assumes "served (mysqlService G A J) ver w0 w"
    and "sys_ok (mysql_inv A G db) (\<lambda>s. my_view (db s)) J (w_db w0)"
  shows "sys_ok (mysql_inv A G db) (\<lambda>s. my_view (db s)) J (w_db w)"
  using ms.served_ok [OF assms(1), where db = db] assms(2) by simp

theorem my_reachable_ok_witness:
  "sys_ok (mysql_inv ex_addr ex_G id) (\<lambda>s. my_view (id s)) ex_jwt
     (w_db (fst (serve ex_my [] True ex_env0 ex_rq (RDeleteMiner (2, None)) ex_my_world)))"
  by (rule my_reachable_ok [OF served.request [OF served.start] ex_my_ok]) simp

text \<open>
  \<^bold>\<open>C4\<close>: on MySQL too, a request that changes the store carries a bearer token that is stored and not
  removed, and the permission stored with it is \<open>admin\<close>, or the request concerns something the user
  of the token owns.
\<close>

theorem my_request_changes:
  assumes "sys_ok (mysql_inv A G db) (\<lambda>s. my_view (db s)) J (w_db w)" and "jwt_ok J marshal"
    and "rq_ctx rq = ctx_Background"
    and "w_db (fst (serve (mysqlService G A J) ver go_on E rq req w)) \<noteq> w_db w"
  shows "\<exists>tk kp. bearer_token rq = Some tk \<and> a_token (my_view (db (w_db w))) tk = Some kp
    \<and> (kp_Perm kp = PermAdmin \<or> owns_target J (my_view (db (w_db w))) (kp_Name kp) req)"
  by (rule my_reads.serve_changes [of A G db J w marshal rq ver go_on E req]) (use assms in auto)

theorem my_request_changes_witness:
  "\<exists>tk kp. bearer_token ex_rq = Some tk \<and> a_token (my_view (id (w_db ex_my_world))) tk = Some kp
    \<and> (kp_Perm kp = PermAdmin \<or> owns_target ex_jwt (my_view (id (w_db ex_my_world))) (kp_Name kp) (RDeleteMiner (2, None)))"
proof (rule my_request_changes [OF ex_my_ok ex_jwt_ok])
  have "map (\<lambda>m. da_Valid (DeletedAt m))
      (sq_miners (w_db (fst (serve ex_my [] True ex_env0 ex_rq (RDeleteMiner (2, None)) ex_my_world)))) = [True, False]"
    by code_simp
  moreover have "map (\<lambda>m. da_Valid (DeletedAt m)) (sq_miners ex_sql) = [False, False]" by code_simp
  ultimately show "w_db (fst (serve ex_my [] True ex_env0 ex_rq (RDeleteMiner (2, None)) ex_my_world)) \<noteq> w_db ex_my_world"
    by auto
qed simp

section \<open>The methods\<close>

text \<open>
  \<^bold>\<open>C25\<close>: the token and user methods of the MySQL store keep the tables well-formed and do exactly what
  the abstract store specifies, with these differences: a token, a user name or a user id that is
  in its table, deleted or not, cannot be put again, and \<open>UpdateToken\<close> of a token that is not there
  changes nothing and reports no error.
\<close>

theorem my_token_user_refinement:
  assumes "mysql_inv A G db s" and "flag_ok (kp_IsDeleted kp)" and "flag_ok (usr_IsDeleted u)"
  shows "my_refines A G db s (my_Put G kp s)
      (if as_token (my_view (db s)) (kp_Token kp) = None then spec_Put kp (my_view (db s)) else None)
    \<and> my_refines A G db s (my_UpdateToken G kp s)
      (if as_token (my_view (db s)) (kp_Token kp) = None then Some (my_view (db s), ())
       else spec_Put kp (my_view (db s)))
    \<and> my_refines A G db s (my_Delete G t s) (spec_Delete t (my_view (db s)))
    \<and> my_refines A G db s (my_Recover G t s) (spec_Recover t (my_view (db s)))
    \<and> my_refines A G db s (my_PutUser G u s)
      (if \<forall>n v. as_user (my_view (db s)) n = Some v \<longrightarrow> usr_Id u \<noteq> usr_Id v \<and> usr_Name u \<noteq> usr_Name v
       then spec_PutUser u (my_view (db s)) else None)
    \<and> my_refines A G db s (my_RecoverUser G n s) (spec_RecoverUser n (my_view (db s)))"
  using assms by (intro conjI my_Put_refines my_UpdateToken_refines my_Delete_refines my_Recover_refines
      my_PutUser_refines my_RecoverUser_refines)

theorem my_token_user_refinement_witness:
  "my_refines ex_addr ex_G id ex_sql (my_Put ex_G (ex_kp ''carol'' PermRead) ex_sql)
     (if as_token (my_view (id ex_sql)) (kp_Token (ex_kp ''carol'' PermRead)) = None
      then spec_Put (ex_kp ''carol'' PermRead) (my_view (id ex_sql)) else None)"
  by (rule my_token_user_refinement [OF ex_sql_inv, of _ "ex_user ''carol''", THEN conjunct1])
    (simp_all add: flag_ok_def ex_user_def)

lemma marked_owner:
  assumes "marked del_miner (\<lambda>a. map_option mn_User (live Miner_isDeleted (M a)) = Some n) M M'"
  shows "map_option mn_User (live Miner_isDeleted (M' a)) =
    (if map_option mn_User (live Miner_isDeleted (M a)) = Some n then None
     else map_option mn_User (live Miner_isDeleted (M a)))"
proof -
  obtain now where "\<not> IsZero now" "M' a = (if map_option mn_User (live Miner_isDeleted (M a)) = Some n
      then map_option (del_miner now) (M a) else M a)"
    using assms unfolding marked_def by blast
  then show ?thesis
    by (cases "M a") (auto simp: del_miner_def Miner_isDeleted_def Miner_setDeleted_def)
qed

lemma live_del_signer:
  "\<not> IsZero now \<Longrightarrow> live Signer_isDeleted (map_option (if P then del_signer now else id) x) =
     (if P then None else live Signer_isDeleted x)"
  by (cases x) (auto simp: del_signer_def Signer_isDeleted_def Signer_setDeleted_def)

text \<open>
  \<^bold>\<open>C26\<close>: \<open>DeleteUser\<close> of the MySQL store is one transaction: for an unknown or deleted user it is an
  error that leaves the database as it was; otherwise it returns no error, and the user, the
  ownership of each of the user's miners and each of the user's signer bindings are gone, and nothing
  else is: other users, miners, bindings, and all tokens and rate limits stay.
\<close>

theorem my_delete_user:
  assumes "mysql_inv A G db s" and "my_DeleteUser G A now n s = (s', r)"
  shows "if a_user (my_view (db s)) n = None then s' = s \<and> \<not> is_ok r
    else r = Inr () \<and> mysql_inv A G db s' \<and>
      (\<forall>m. a_user (my_view (db s')) m = (if m = n then None else a_user (my_view (db s)) m)) \<and>
      (\<forall>a. a_owner (my_view (db s')) a =
        (if a_owner (my_view (db s)) a = Some n then None else a_owner (my_view (db s)) a)) \<and>
      (\<forall>a m. a_signer (my_view (db s')) a m = (if m = n then None else a_signer (my_view (db s)) a m)) \<and>
      as_token (my_view (db s')) = as_token (my_view (db s)) \<and>
      as_limit (my_view (db s')) = as_limit (my_view (db s))"
proof (cases "a_user (my_view (db s)) n")
  case None
  then show ?thesis using my_DeleteUser_does(1) [OF assms(1), of n now] assms(2) by auto
next
  case (Some u)
  from my_DeleteUser_does(2) [OF assms(1) Some, of now] obtain M t where
    d: "r = Inr ()" "mysql_inv A G db s'" "\<not> IsZero t"
    "marked del_miner (\<lambda>a. a_owner (my_view (db s)) a = Some n) (as_miner (my_view (db s))) M"
    "my_view (db s') = (my_view (db s))\<lparr>
       as_user := (as_user (my_view (db s)))(n \<mapsto> u\<lparr>usr_IsDeleted := Deleted, usr_UpdateTime := now\<rparr>),
       as_miner := M,
       as_signer := (\<lambda>b m. map_option (if m = n then del_signer t else id) (as_signer (my_view (db s)) b m))\<rparr>"
    using assms(2) by auto
  have "a_owner (my_view (db s')) a = (if a_owner (my_view (db s)) a = Some n then None else a_owner (my_view (db s)) a)" for a
    using marked_owner [OF d(4) [unfolded a_owner_def], of a] by (simp add: d(5) a_owner_def del: map_option_eq_Some)
  then show ?thesis
    using Some d(1,2) by (simp add: d(5) live_del_signer [OF d(3)] User_isDeleted_def Deleted_def)
qed

theorem my_delete_user_witness:
  "a_user (my_view (id (fst (my_DeleteUser ex_G ex_addr 9 ''alice'' ex_sql)))) ''alice'' = None"
proof -
  have alive: "a_user (my_view (id ex_sql)) ''alice'' \<noteq> None" by code_simp
  show ?thesis
    using my_delete_user [OF ex_sql_inv surjective_pairing, where n = "''alice''" and now = 9]
    unfolding if_not_P [OF alive] by simp
qed

lemma my_upsert_owner:
  assumes "mysql_inv A G db s"
  shows "if as_user (my_view (db s)) n = None then \<exists>e. my_UpsertMiner G A a n om s = (s, Inl e)
    else \<exists>s'. my_UpsertMiner G A a n om s = (s', Inr (a_owner (my_view (db s)) a = None)) \<and> mysql_inv A G db s' \<and>
      a_owner (my_view (db s')) = (a_owner (my_view (db s)))(a \<mapsto> n) \<and>
      my_view (db s') = (my_view (db s))\<lparr>as_miner :=
        (as_miner (my_view (db s)))(a := as_miner (my_view (db s')) a)\<rparr>"
proof (cases "as_user (my_view (db s)) n")
  case (Some u)
  with my_UpsertMiner_does(2) [OF assms, of n a om] obtain s' row where
    "my_UpsertMiner G A a n om s = (s', Inr (a_owner (my_view (db s)) a = None))" "mysql_inv A G db s'"
    "my_view (db s') = (my_view (db s))\<lparr>as_miner := (as_miner (my_view (db s)))(a \<mapsto> row)\<rparr>"
    "mn_User row = n" "\<not> Miner_isDeleted row" by auto
  with Some show ?thesis by (simp add: a_owner_def fun_eq_iff)
qed (use my_UpsertMiner_does(1) [OF assms, of n a om] in simp)

lemma my_del_owner:
  assumes "mysql_inv A G db s"
  shows "\<exists>s'. my_DelMiner G A a s = (s', Inr (a_owner (my_view (db s)) a \<noteq> None)) \<and> mysql_inv A G db s' \<and>
      a_owner (my_view (db s')) = (a_owner (my_view (db s)))(a := None) \<and>
      my_view (db s') = (my_view (db s))\<lparr>as_miner :=
        (as_miner (my_view (db s)))(a := as_miner (my_view (db s')) a)\<rparr>"
proof (rule my_innerDelMiner_does [OF assms, of a])
  fix s' now
  assume d: "my_innerDelMiner G A a s = (s', Inr (a_owner (my_view (db s)) a \<noteq> None))" "mysql_inv A G db s'"
    "\<not> IsZero now"
  assume v: "my_view (db s') = (my_view (db s))\<lparr>as_miner :=
     (\<lambda>b. map_option (if b = a then del_miner now else id) (as_miner (my_view (db s)) b))\<rparr>"
  have "live Miner_isDeleted (map_option (del_miner now) x) = None" for x :: "'a miner option"
    using d(3) by (cases x) (auto simp: del_miner_def Miner_isDeleted_def Miner_setDeleted_def)
  with d(1,2) show ?thesis
    by (auto simp: my_DelMiner_def v a_owner_def fun_eq_iff option.map_id0)
qed

text \<open>
  \<^bold>\<open>C27\<close>: \<open>UpsertMiner\<close> of the MySQL store makes a known user, deleted or not, the owner of the miner,
  answers whether the miner had no owner, and is an error without effect for an unknown user;
  \<open>DelMiner\<close> takes the miner from its owner and answers whether it had one; for a miner that has
  none, unknown or deleted before, the answer is no and not an error. (The badger store refuses a
  miner that was deleted before, and so demands the repository's test \<open>testDelMiners\<close> of both stores.)
  Neither changes anything but that miner.
\<close>

theorem my_miner_ownership:
  assumes "mysql_inv A G db s"
  shows "(if as_user (my_view (db s)) n = None then \<exists>e. my_UpsertMiner G A a n om s = (s, Inl e)
    else \<exists>s'. my_UpsertMiner G A a n om s = (s', Inr (a_owner (my_view (db s)) a = None)) \<and> mysql_inv A G db s' \<and>
      a_owner (my_view (db s')) = (a_owner (my_view (db s)))(a \<mapsto> n) \<and>
      my_view (db s') = (my_view (db s))\<lparr>as_miner :=
        (as_miner (my_view (db s)))(a := as_miner (my_view (db s')) a)\<rparr>)
    \<and> (\<exists>s'. my_DelMiner G A a s = (s', Inr (a_owner (my_view (db s)) a \<noteq> None)) \<and> mysql_inv A G db s' \<and>
      a_owner (my_view (db s')) = (a_owner (my_view (db s)))(a := None) \<and>
      my_view (db s') = (my_view (db s))\<lparr>as_miner :=
        (as_miner (my_view (db s)))(a := as_miner (my_view (db s')) a)\<rparr>)"
  by (intro conjI my_upsert_owner my_del_owner assms)

theorem my_miner_ownership_witness:
  "\<exists>s'. my_DelMiner ex_G ex_addr 2 ex_sql = (s', Inr (a_owner (my_view (id ex_sql)) 2 \<noteq> None)) \<and> mysql_inv ex_addr ex_G id s' \<and>
      a_owner (my_view (id s')) = (a_owner (my_view (id ex_sql)))(2 := None) \<and>
      my_view (id s') = (my_view (id ex_sql))\<lparr>as_miner :=
        (as_miner (my_view (id ex_sql)))(2 := as_miner (my_view (id s')) 2)\<rparr>"
  by (rule my_miner_ownership [OF ex_sql_inv, THEN conjunct2])

text \<open>
  \<^bold>\<open>C28\<close>: the signer methods of the MySQL store change exactly the binding, or all bindings of the
  signer, that they name, and nothing else: \<open>RegisterSigner\<close> binds a known user, and is an error
  without effect for an unknown one, \<open>UnregisterSigner\<close> unbinds one user and \<open>DelSigner\<close> every user,
  answering whether there was one.
\<close>

theorem my_signer_bindings:
  assumes "mysql_inv A G db s" and "IsSignerAddress A a"
  defines "bound \<equiv> \<lambda>s b m. a_signer (my_view (db s)) b m \<noteq> None"
  defines "rest \<equiv> \<lambda>s. (my_view (db s))\<lparr>as_signer := (\<lambda>_ _. None)\<rparr>"
  shows "(if as_user (my_view (db s)) n = None then \<exists>e. my_RegisterSigner G A a n s = (s, Inl e)
      else \<exists>s'. my_RegisterSigner G A a n s = (s', Inr ()) \<and> mysql_inv A G db s' \<and> rest s' = rest s \<and>
        (\<forall>b m. bound s' b m \<longleftrightarrow> bound s b m \<or> b = a \<and> m = n))
    \<and> (\<exists>s'. my_UnregisterSigner G A a n s = (s', Inr ()) \<and> mysql_inv A G db s' \<and> rest s' = rest s \<and>
        (\<forall>b m. bound s' b m \<longleftrightarrow> bound s b m \<and> \<not> (b = a \<and> m = n)))
    \<and> (\<exists>s'. my_DelSigner G A a s = (s', Inr (\<exists>m. bound s a m)) \<and> mysql_inv A G db s' \<and> rest s' = rest s \<and>
        (\<forall>b m. bound s' b m \<longleftrightarrow> bound s b m \<and> b \<noteq> a))"
proof (intro conjI)
  show "if as_user (my_view (db s)) n = None then \<exists>e. my_RegisterSigner G A a n s = (s, Inl e)
      else \<exists>s'. my_RegisterSigner G A a n s = (s', Inr ()) \<and> mysql_inv A G db s' \<and> rest s' = rest s \<and>
        (\<forall>b m. bound s' b m \<longleftrightarrow> bound s b m \<or> b = a \<and> m = n)"
  proof (cases "as_user (my_view (db s)) n")
    case (Some u)
    with my_RegisterSigner_does(2) [OF assms(1,2), of n] obtain s' row where
      "my_RegisterSigner G A a n s = (s', Inr ())" "mysql_inv A G db s'"
      "my_view (db s') = (my_view (db s))\<lparr>as_signer :=
          (as_signer (my_view (db s)))(a := (as_signer (my_view (db s)) a)(n \<mapsto> row))\<rparr>"
      "\<not> Signer_isDeleted row" by auto
    with Some show ?thesis by (auto simp: rest_def bound_def)
  qed (use my_RegisterSigner_does(1) [OF assms(1,2), of n] in simp)
  show "\<exists>s'. my_UnregisterSigner G A a n s = (s', Inr ()) \<and> mysql_inv A G db s' \<and> rest s' = rest s \<and>
        (\<forall>b m. bound s' b m \<longleftrightarrow> bound s b m \<and> \<not> (b = a \<and> m = n))"
    by (rule my_UnregisterSigner_does [OF assms(1), of a n])
      (auto simp: rest_def bound_def live_del_signer)
  show "\<exists>s'. my_DelSigner G A a s = (s', Inr (\<exists>m. bound s a m)) \<and> mysql_inv A G db s' \<and> rest s' = rest s \<and>
        (\<forall>b m. bound s' b m \<longleftrightarrow> bound s b m \<and> b \<noteq> a)"
    by (rule my_DelSigner_does [OF assms(1), of a]) (auto simp: rest_def bound_def live_del_signer)
qed

theorem my_signer_bindings_witness:
  "\<exists>s'. my_DelSigner ex_G ex_addr 1 ex_sql = (s', Inr (\<exists>m. a_signer (my_view (id ex_sql)) 1 m \<noteq> None))
    \<and> mysql_inv ex_addr ex_G id s'
    \<and> (my_view (id s'))\<lparr>as_signer := (\<lambda>_ _. None)\<rparr> = (my_view (id ex_sql))\<lparr>as_signer := (\<lambda>_ _. None)\<rparr>
    \<and> (\<forall>b m. a_signer (my_view (id s')) b m \<noteq> None \<longleftrightarrow> a_signer (my_view (id ex_sql)) b m \<noteq> None \<and> b \<noteq> 1)"
  by (rule my_signer_bindings [OF ex_sql_inv, THEN conjunct2, THEN conjunct2])
    (simp add: IsSignerAddress_def ex_addr_def)

text \<open>
  \<^bold>\<open>C34\<close>: rate limits in MySQL: \<open>PutRateLimit\<close> returns the id, its own or the new one, and the limit is
  read back under it; a limit of another user with that id is replaced. \<open>DelRateLimit\<close> deletes that
  one limit of the user and keeps the others, which the badger store does not.
\<close>

theorem my_rate_limits:
  assumes "mysql_inv A G db s" and "n \<noteq> []" "i \<noteq> []" and "rl_Id l \<noteq> [] \<or> uuid \<noteq> []"
  defines "j \<equiv> (if rl_Id l = [] then uuid else rl_Id l)"
  shows "(\<exists>s'. my_PutRateLimit G uuid l s = (s', Inr j) \<and> mysql_inv A G db s' \<and>
        lists (my_GetRateLimits G (rl_Name l) j s') {l\<lparr>rl_Id := j\<rparr>} \<and>
        (\<forall>m. m \<noteq> rl_Name l \<longrightarrow> as_limit (my_view (db s')) m = (as_limit (my_view (db s)) m)(j := None)))
    \<and> (\<exists>s'. my_DelRateLimit G n i s = (s', Inr ()) \<and> mysql_inv A G db s' \<and>
        my_view (db s') = (my_view (db s))\<lparr>as_limit :=
          (as_limit (my_view (db s)))(n := (as_limit (my_view (db s)) n)(i := None))\<rparr>)"
proof
  have "j \<noteq> []" using assms(4) by (auto simp: j_def)
  obtain s' where s': "my_PutRateLimit G uuid l s = (s', Inr j)" "mysql_inv A G db s'"
    "my_view (db s') = put_limit (l\<lparr>rl_Id := j\<rparr>) (my_view (db s))"
    unfolding j_def by (rule my_PutRateLimit_does [OF assms(1) refl, where l = l and uuid = uuid])
  have "{l'. as_limit (my_view (db s')) (rl_Name l) (rl_Id l') = Some l' \<and> (j = [] \<or> rl_Id l' = j)} = {l\<lparr>rl_Id := j\<rparr>}"
    using \<open>j \<noteq> []\<close> by (auto simp: s'(3) put_limit_def)
  with my_GetRateLimits_lists [OF s'(2), of "rl_Name l" j]
  have "lists (my_GetRateLimits G (rl_Name l) j s') {l\<lparr>rl_Id := j\<rparr>}" by simp
  with s' show "\<exists>s'. my_PutRateLimit G uuid l s = (s', Inr j) \<and> mysql_inv A G db s' \<and>
        lists (my_GetRateLimits G (rl_Name l) j s') {l\<lparr>rl_Id := j\<rparr>} \<and>
        (\<forall>m. m \<noteq> rl_Name l \<longrightarrow> as_limit (my_view (db s')) m = (as_limit (my_view (db s)) m)(j := None))"
    by (auto simp: put_limit_def fun_eq_iff)
  show "\<exists>s'. my_DelRateLimit G n i s = (s', Inr ()) \<and> mysql_inv A G db s' \<and>
        my_view (db s') = (my_view (db s))\<lparr>as_limit :=
          (as_limit (my_view (db s)))(n := (as_limit (my_view (db s)) n)(i := None))\<rparr>"
    by (rule my_DelRateLimit_does [OF assms(1-3)]) blast
qed

theorem my_rate_limits_witness:
  "\<exists>s'. my_DelRateLimit ex_G ''alice'' ''L1'' ex_sql = (s', Inr ()) \<and> mysql_inv ex_addr ex_G id s' \<and>
     my_view (id s') = (my_view (id ex_sql))\<lparr>as_limit := (as_limit (my_view (id ex_sql)))
       (''alice'' := (as_limit (my_view (id ex_sql)) ''alice'')(''L1'' := None))\<rparr>"
  by (rule my_rate_limits [OF ex_sql_inv, where l = "\<lparr>rl_Id = ''L3'', rl_Name = ''bob'', rl_Service = [], rl_API = [],
       rl_ReqLimit = \<lparr>Cap = 10, ResetDur = 60\<rparr>\<rparr>", THEN conjunct2]) simp_all

text \<open>
  A server of version 5.7 with the memory database, and a database there from before version 1.9.0: a
  store of version 1, with the old table of miners.
\<close>

definition ex_go :: "(unit, nat sqldb) gorm_open" where
  "ex_go = \<lparr>go_Open = (\<lambda>_. Inr ()), go_Debug = id, go_DB = (\<lambda>_. Inr ()),
     go_version = (\<lambda>_ _. Inr ''5.7.44''), go_Raw = (\<lambda>_ _. None),
     go_AutoMigrate = (\<lambda>_ _ _ s. (s, Inr ())), go_HasTable = (\<lambda>_ _ _. True),
     go_CreateTable = (\<lambda>_ _ _ s. (s, Inl (Msg ''exists''))),
     go_HasColumn = (\<lambda>_ _ field. g_HasColumn ex_G field)\<rparr>"

definition ex_mysql_cnf :: db_config where
  "ex_mysql_cnf = \<lparr>dc_Type = ''MySQL'', dc_DSN = ''root@/auth'', dc_MaxOpenConns = 64,
     dc_MaxIdleConns = 128, dc_MaxLifeTime = 120, dc_MaxIdleTime = 30, dc_Debug = False\<rparr>"

definition ex_old_sql :: "nat sqldb" where
  "ex_old_sql = ex_sql\<lparr>sq_version := [\<lparr>sv_ID = 1, sv_Version = 1\<rparr>],
     sq_miners_def := \<lparr>td_columns = [''miner'', ''user'', ''open_mining'', ''created_at'', ''updated_at'', ''deleted_at''],
       td_primary = [''miner''], td_auto = None,
       td_indexes = [\<lparr>ix_name = ''user_miner_idx'', ix_unique = False, ix_columns = [''user'']\<rparr>]\<rparr>\<rparr>"

lemma ex_old_sql_open: "mysql_open ex_addr ex_G id ex_old_sql"
proof -
  have "tables_ok ex_addr ex_sql" using mysql_invD(3) [OF ex_sql_inv] by (simp add: rows_ok_def)
  then have "tables_ok ex_addr ex_old_sql" by (simp add: tables_ok_def ex_old_sql_def)
  moreover have "miners_old (sq_miners_def ex_old_sql) \<and> my_version ex_old_sql = 1"
    by (simp add: miners_old_def my_version_def ex_old_sql_def)
  ultimately show ?thesis by (simp add: mysql_open_def mem_gorm_laws ex_col)
qed

text \<open>
  \<^bold>\<open>C32\<close>: opening the MySQL store returns it migrated. When \<open>newMySQLStore\<close> opens a connection on
  well-formed tables, with the present table of miners or, in a store of version 1 or 2, the one from
  before version 1.9.0, \<open>NewStore\<close> runs the migration loop, which ends without an error, at version 3 or
  later, with well-formed tables and the present table of miners: each statement that alters it can
  be carried out where it stands. The tokens, users, signers and rate limits are kept, and from version
  1 on the miners too, up to their numbers.
\<close>

theorem NewStore_mysql:
  assumes "newMySQLStore GO gorm_of A cnf s0 = (s, Inr (pool, S))" and "go_Open GO (dc_DSN cnf) = Inr c"
    and "G = gorm_of (if dc_Debug cnf then go_Debug GO c else c)" and "mysql_open A G db s"
    and "ToLower (dc_Type cnf) = ''mysql''"
  shows "\<exists>s'. NewStore (opened (newMySQLStore GO gorm_of A cnf s0)) bg now (dc_Type cnf) =
      Some (Inr (mysqlStore G A, s'))
    \<and> mysql_inv A G db s' \<and> my_version (db s') = max 3 (my_version (db s)) \<and> my_keeps (db s) (db s')"
proof -
  obtain s' where s': "StoreMigrate (mysqlStore G A) now s = Some (s', Inr ())" "mysql_open A G db s'"
    "my_version (db s') = max 3 (my_version (db s))" "my_keeps (db s) (db s')"
    using mysql_migration.StoreMigrate_ok [OF assms(4), of now] by blast
  have "mysql_inv A G db s'" by (rule mysql_openD(5) [OF s'(2)]) (simp_all add: s'(3) max_def)
  with s' assms(5) newMySQLStore_ok(1) [OF assms(1,2)] assms(3) show ?thesis
    by (simp add: NewStore_def assms(1))
qed

theorem NewStore_mysql_witness:
  "\<exists>s'. NewStore (opened (newMySQLStore ex_go (\<lambda>_. ex_G) ex_addr ex_mysql_cnf ex_old_sql))
        (Inl (Msg ''no directory'')) 9 (dc_Type ex_mysql_cnf) = Some (Inr (mysqlStore ex_G ex_addr, s'))
    \<and> mysql_inv ex_addr ex_G id s' \<and> my_version (id s') = max 3 (my_version (id ex_old_sql))
    \<and> my_keeps (id ex_old_sql) (id s')"
proof (rule NewStore_mysql [OF _ _ _ ex_old_sql_open])
  show "newMySQLStore ex_go (\<lambda>_. ex_G) ex_addr ex_mysql_cnf ex_old_sql =
      (ex_old_sql, Inr (\<lparr>sp_MaxOpenConns = 64, sp_MaxIdleConns = 128, sp_ConnMaxLifetime = 120, sp_ConnMaxIdleTime = 30\<rparr>,
        mysqlStore ex_G ex_addr))"
    by (simp add: newMySQLStore_def newMySQLStore_tables_def newMySQLStore_miners_def ex_go_def ex_mysql_cnf_def
        mem_gorm_def ex_old_sql_def)
  show "go_Open ex_go (dc_DSN ex_mysql_cnf) = Inr ()" by (simp add: ex_go_def)
  show "ToLower (dc_Type ex_mysql_cnf) = ''mysql''" by (simp add: ex_mysql_cnf_def ToLower_def, code_simp)
qed simp

text \<open>The old table in the example is altered: the migrated one has the number as its key.\<close>

lemma ex_old_migrated:
  "map_option (td_primary \<circ> sq_miners_def \<circ> fst) (StoreMigrate (mysqlStore ex_G ex_addr) 9 ex_old_sql) = Some [''id'']"
proof -
  obtain s' where s': "StoreMigrate (mysqlStore ex_G ex_addr) 9 ex_old_sql = Some (s', Inr ())" "mysql_open ex_addr ex_G id s'"
    "my_version (id s') = max 3 (my_version (id ex_old_sql))"
    using mysql_migration.StoreMigrate_ok [OF ex_old_sql_open, of 9] by blast
  have "mysql_inv ex_addr ex_G id s'" by (rule mysql_openD(5) [OF s'(2)]) (use s'(3) in \<open>auto simp: max_def split: if_splits\<close>)
  then show ?thesis by (simp add: s'(1) mysql_inv_def rows_ok_def miners_ready_def)
qed

section \<open>The two stores side by side\<close>

text \<open>
  \<^bold>\<open>C11\<close>: with the same live data in badger and in MySQL, the middleware makes the same caller of every
  request or refuses it in the same way, and the service gives every caller the same answers from
  \<open>HasUser\<close>, \<open>HasMiner\<close>, \<open>MinerExistInUser\<close> and \<open>SignerExistInUser\<close>, the same but for the text of an error
  from \<open>GetUser\<close> and \<open>GetToken\<close>, and the same but for the order in the listings of a user's tokens and
  rate limits. \<open>HasSigner\<close> agrees when no other bound signer's text begins with the text of the one
  asked for; otherwise badger may answer yes where MySQL answers no, and never the other way round.
  Nothing is said of \<open>GetUserByMiner\<close>, on which the stores differ.
\<close>

theorem stores_agree:
  fixes J :: jwt_lib
  assumes "badger_inv K A rng (w_db w1)" and "mysql_inv A G db (w_db w2)"
    and "same_live (badger_view K A (w_db w1)) (my_view (db (w_db w2)))"
  defines "b \<equiv> badgerService K A rng J" and "m \<equiv> mysqlService G A J"
  shows "snd (permMiddleWare b rq w1) = snd (permMiddleWare m rq w2)
    \<and> sv_HasUser b c n w1 = sv_HasUser m c n w2 \<and> sv_HasMiner b c a w1 = sv_HasMiner m c a w2
    \<and> (signer_alone A a (badger_view K A (w_db w1)) \<longrightarrow> sv_HasSigner b c a w1 = sv_HasSigner m c a w2)
    \<and> (sv_HasSigner m c a w2 = Inr True \<longrightarrow> sv_HasSigner b c a w1 = Inr True)
    \<and> sv_MinerExistInUser b c mreq w1 = sv_MinerExistInUser m c mreq w2
    \<and> sv_SignerExistInUser b c sreq w1 = sv_SignerExistInUser m c sreq w2
    \<and> same_found (sv_GetUser b c n w1) (sv_GetUser m c n w2)
    \<and> same_found (sv_GetToken b c t w1) (sv_GetToken m c t w2)
    \<and> same_list (bs_ByName K n (w_db w1)) (my_ByName G n (w_db w2))
    \<and> same_list (bs_GetRateLimits K rng n i (w_db w1)) (my_GetRateLimits G n i (w_db w2))"
  unfolding b_def m_def
  using two.permMiddleWare_same [OF assms(1-3), of J rq] two.questions_same [OF assms(1-3), of J c]
    two.listings_same [OF assms(1-3), of J] HasSigner_both [OF assms(1-3), where a = a and J = J and c = c] by (simp add: badgerStore_def mysqlStore_def)

lemma ex_content_upd: "db_content ex_K ex_db = Map.empty
  (rateLimitKey ''alice'' \<mapsto> RateLimitObj (map (\<lambda>l. (rl_Id l, l)) (sq_limits ex_sql)),
   tokenKey (kp_Token (ex_kp ''bob'' PermAdmin)) \<mapsto> KeyPairObj (ex_kp ''bob'' PermAdmin),
   tokenKey ex_alice_token \<mapsto> KeyPairObj (ex_kp ''alice'' PermWrite),
   signerForUserKey (addr_String ex_addr 1) ''bob'' \<mapsto> SignerObj (ex_signer 1 ''bob''),
   signerForUserKey (addr_String ex_addr 1) ''alice'' \<mapsto> SignerObj (ex_signer 1 ''alice''),
   minerKey (addr_String ex_addr 4) \<mapsto> MinerObj (ex_miner 4 ''bob''),
   minerKey (addr_String ex_addr 2) \<mapsto> MinerObj (ex_miner 2 ''alice''),
   userKey ''bob'' \<mapsto> UserObj (ex_user ''bob'') None,
   userKey ''alice'' \<mapsto> UserObj (ex_user ''alice'') None)"
  unfolding mem_content ex_db_def ex_docs_def ex_sql_def
  by (simp add: ex_key_def KeyPair_key_def User_key_def Miner_key_def Signer_key_def mapedRatelimit_key_def
     ex_user_def ex_miner_def ex_signer_def bind_miner_def bind_signer_def)

lemma ex_same_live: "same_live ex_view ex_my_view"
proof -
  have docs: "token_doc Map.empty = Map.empty" "user_doc Map.empty = Map.empty"
    "miner_doc ex_addr Map.empty = Map.empty" "signer_doc ex_addr Map.empty b m = None"
    "user_limits Map.empty = (\<lambda>_. Map.empty)" for b m
    by (auto simp: token_doc_def user_doc_def miner_doc_def signer_doc_def user_limits_def limits_doc_def)
  note view = badger_view_def cview_sel ex_content_upd token_doc_upd user_doc_upd miner_doc_upd [OF ex_addr_ok(1)]
    signer_doc_upd [OF ex_addr_ok(1)] docs my_view_def ex_sql_def
  have "a_token ex_view t = a_token ex_my_view t" for t
    by (simp add: view)
  moreover have "a_user ex_view n = a_user ex_my_view n" for n
    by (simp add: view ex_user_def)
  moreover have "a_owner ex_view a = a_owner ex_my_view a" for a
    by (simp add: view a_owner_def ex_miner_def bind_miner_def Miner_isDeleted_def zero_deleted_at_def IsZero_def zero_time_def)
  moreover have "a_signer ex_view a n = None \<longleftrightarrow> a_signer ex_my_view a n = None" for a n
    by (simp add: view ex_signer_def bind_signer_def Signer_isDeleted_def zero_deleted_at_def IsZero_def zero_time_def)
  moreover have "as_limit ex_view n i = as_limit ex_my_view n i" for n i
    by (simp add: view)
  ultimately show ?thesis by (simp add: same_live_def fun_eq_iff)
qed

theorem stores_agree_witness:
  "snd (permMiddleWare ex_srv ex_rq ex_world) = snd (permMiddleWare ex_my ex_rq ex_my_world)"
  by (rule stores_agree [where db = id and rng = id and K = ex_K and A = ex_addr, THEN conjunct1])
    (simp_all add: ex_db_inv ex_sql_inv ex_same_live)

text \<open>
  \<^bold>\<open>C35\<close>: asked for the owner of a miner that nobody owns, or whose owner has been deleted, the service
  on MySQL answers an administrator with an empty user and no error; on badger it answers with an
  error.
\<close>

theorem unknown_miner_answers:
  assumes "badger_inv K A rng (w_db w1)" and "mysql_inv A G db (w_db w2)" and "grants c PermAdmin"
    and "Option.bind (a_owner (badger_view K A (w_db w1)) a) (a_user (badger_view K A (w_db w1))) = None"
    and "Option.bind (a_owner (my_view (db (w_db w2))) a) (a_user (my_view (db (w_db w2)))) = None"
  shows "\<not> is_ok (sv_GetUserByMiner (badgerService K A rng J) c a w1)
    \<and> sv_GetUserByMiner (mysqlService G A J) c a w2 = Inr (out_user zero_user)"
proof
  have perm: "permCheck c PermAdmin = Inr ()" using assms(3) by (simp add: permCheck_iff)
  show "\<not> is_ok (sv_GetUserByMiner (badgerService K A rng J) c a w1)"
  proof
    assume "is_ok (sv_GetUserByMiner (badgerService K A rng J) c a w1)"
    then obtain ou where "sv_GetUserByMiner (badgerService K A rng J) c a w1 = Inr ou" by (auto elim: is_okE)
    then show False using assms(4) by (auto simp: bs.GetUserByMiner_iff [OF assms(1)])
  qed
  show "sv_GetUserByMiner (mysqlService G A J) c a w2 = Inr (out_user zero_user)"
    using my_GetUserByMiner_eq [OF assms(2), of a] assms(5)
    by (simp add: sv_GetUserByMiner_def perm mysqlStore_def)
qed

theorem unknown_miner_answers_witness:
  "sv_GetUserByMiner ex_my ex_admin 6 ex_my_world = Inr (out_user zero_user)"
proof (rule unknown_miner_answers [where K = ex_K and rng = id and ?w1.0 = ex_world, THEN conjunct2])
  show "badger_inv ex_K ex_addr id (w_db ex_world)" "mysql_inv ex_addr ex_G id (w_db ex_my_world)"
    by (simp_all add: ex_db_inv ex_sql_inv)
  have none: "a_owner ex_view 6 = None" unfolding badger_view_def mem_content by code_simp
  then show "Option.bind (a_owner (badger_view ex_K ex_addr (w_db ex_world)) 6)
      (a_user (badger_view ex_K ex_addr (w_db ex_world))) = None" by simp
  from none show "Option.bind (a_owner (my_view (id (w_db ex_my_world))) 6)
      (a_user (my_view (id (w_db ex_my_world)))) = None"
    using same_liveD(3) [OF ex_same_live, of 6] by simp
qed simp

end
