(* ===== verification/Log_Hook.thy ===== *)
theory Log_Hook
  imports Config
begin

text \<open>
  Logging: how \<open>InitLog\<close> sets the logger up (log/init.go) and what its hook sends to InfluxDB
  (log/hook.go). logrus and the InfluxDB client are parameters. The rest of log/log.go hands its
  arguments to logrus and is not modelled. Proved: a logged field is sent as a tag or as a field,
  never as both, and a configuration without InfluxDB settings panics when the hook is switched on.
\<close>

section \<open>Log fields (core/const.go)\<close>

definition MTMethod :: string where
  "MTMethod = ''method''"

definition FieldLevel :: string where
  "FieldLevel = ''level''"

definition TagFields :: "string list" where
  "TagFields = [''name'', ''ip'', FieldLevel, ''svcName'']"

text \<open>A value of type \<open>interface{}\<close>, by its dynamic type.\<close>

datatype log_value =
    V_Stringer string
  | V_string string
  | V_byte nat
  | V_int int
  | V_int32 int
  | V_int64 int
  | V_uint nat
  | V_uint32 nat
  | V_uint64 nat
  | V_other nat

type_synonym log_fields = "string \<rightharpoonup> log_value"

section \<open>The hook (log/hook.go)\<close>

text \<open>\<open>string(b)\<close> of a byte is the UTF-8 encoding of that code point.\<close>

definition utf8_byte :: "nat \<Rightarrow> string" where
  "utf8_byte b = (if b < 128 then [char_of b] else [char_of (192 + b div 64), char_of (128 + b mod 64)])"

definition getTag :: "log_fields \<Rightarrow> string \<Rightarrow> string \<times> bool" where
  "getTag data tag =
     (case data tag of
        None \<Rightarrow> ([], False)
      | Some value \<Rightarrow>
          (case value of
             V_Stringer s \<Rightarrow> (s, True)
           | V_string s \<Rightarrow> (s, True)
           | V_byte b \<Rightarrow> (utf8_byte b, True)
           | V_int x \<Rightarrow> (FormatInt x, True)
           | V_int32 x \<Rightarrow> (FormatInt x, True)
           | V_int64 x \<Rightarrow> (FormatInt x, True)
           | V_uint n \<Rightarrow> (show_nat n, True)
           | V_uint32 n \<Rightarrow> (show_nat n, True)
           | V_uint64 n \<Rightarrow> (show_nat n, True)
           | V_other _ \<Rightarrow> ([], False)))"

record log_entry =
  le_Level :: string
  le_Message :: string
  le_Time :: time
  le_Data :: log_fields

record influx_point =
  ip_Measurement :: string
  ip_Tags :: "string \<rightharpoonup> string"
  ip_Fields :: log_fields
  ip_Time :: time

fun tag_loop :: "string list \<Rightarrow> log_fields \<Rightarrow> (string \<rightharpoonup> string) \<Rightarrow> (string \<rightharpoonup> string)" where
  "tag_loop [] data tags = tags"
| "tag_loop (tag # rest) data tags =
     (case getTag data tag of (tagValue, ok) \<Rightarrow> tag_loop rest data (if ok then tags(tag \<mapsto> tagValue) else tags))"

fun delete_loop :: "string list \<Rightarrow> log_fields \<Rightarrow> log_fields" where
  "delete_loop [] flds = flds"
| "delete_loop (tag # rest) flds = delete_loop rest (flds(tag := None))"

text \<open>
  \<open>Fire\<close>: the entry after it (its data loses the method) and the point it writes, if any. The fields
  are the message and then the data, which overrides it.
\<close>

definition Fire :: "string list \<Rightarrow> log_entry \<Rightarrow> log_entry \<times> influx_point option res" where
  "Fire h_tags entry =
     (let tags = [FieldLevel \<mapsto> le_Level entry] in
      case le_Data entry MTMethod of
        None \<Rightarrow> (entry, Inr None)
      | Some measurement \<Rightarrow>
          (let entry = entry\<lparr>le_Data := (le_Data entry)(MTMethod := None)\<rparr>;
               tags = tag_loop h_tags (le_Data entry) tags;
               flds = [''message'' \<mapsto> V_string (le_Message entry)] ++ le_Data entry;
               flds = delete_loop h_tags flds in
           case measurement of
             V_string m \<Rightarrow> (entry, Inr (Some \<lparr>ip_Measurement = m, ip_Tags = tags, ip_Fields = flds, ip_Time = le_Time entry\<rparr>))
           | _ \<Rightarrow> (entry, Inl (Panic ''interface conversion''))))"

record influx_hook =
  ih_ServerURL :: string
  ih_AuthToken :: string
  ih_BatchSize :: nat
  ih_FlushInterval :: nat
  ih_Org :: string
  ih_Bucket :: string
  ih_tags :: "string list"

text \<open>\<open>Milliseconds\<close> truncates towards zero; the conversion to \<open>uint\<close> wraps.\<close>

definition Milliseconds :: "duration \<Rightarrow> int" where
  "Milliseconds d = (if d < 0 then - ((- d) div 1000000) else d div 1000000)"

definition NewInfluxHook :: "influx_config \<Rightarrow> influx_hook" where
  "NewInfluxHook c =
     \<lparr>ih_ServerURL = ic_ServerURL c, ih_AuthToken = ic_AuthToken c, ih_BatchSize = ic_BatchSize c,
      ih_FlushInterval = nat (Milliseconds (ic_FlushInterval c) mod 2 ^ 64),
      ih_Org = ic_Org c, ih_Bucket = ic_Bucket c, ih_tags = TagFields\<rparr>"

section \<open>The logger (log/init.go)\<close>

record 'l logger =
  lg_Level :: 'l
  lg_Hooks :: "influx_hook list"

definition WithInflux :: "influx_config option \<Rightarrow> 'l logger \<Rightarrow> 'l logger res" where
  "WithInflux c lg =
     (case c of
        None \<Rightarrow> Inl (Panic ''nil pointer dereference'')
      | Some c \<Rightarrow> Inr (lg\<lparr>lg_Hooks := lg_Hooks lg @ [NewInfluxHook c]\<rparr>))"

definition InitLog :: "(string \<Rightarrow> 'l res) \<Rightarrow> 'l \<Rightarrow> log_config option \<Rightarrow> 'l logger res" where
  "InitLog ParseLevel TraceLevel c =
     (case c of
        None \<Rightarrow> Inl (Panic ''nil pointer dereference'')
      | Some c \<Rightarrow>
          (let lvl = (case ParseLevel (lc_LogLevel c) of Inl _ \<Rightarrow> TraceLevel | Inr lvl \<Rightarrow> lvl);
               localLog = \<lparr>lg_Level = lvl, lg_Hooks = []\<rparr> in
           if lc_HookSwitch c then WithInflux (lc_InfluxDB c) localLog else Inr localLog))"

section \<open>What is sent\<close>

lemma delete_loop_eq: "delete_loop ts m k = (if k \<in> set ts then None else m k)"
  by (induction ts arbitrary: m) auto

lemma tag_loop_eq:
  "tag_loop ts data tags k =
     (if k \<in> set ts \<and> snd (getTag data k) then Some (fst (getTag data k)) else tags k)"
  by (induction ts arbitrary: tags) (auto split: prod.split)

text \<open>
  Every logged field goes into the point once: a tag field of a type that \<open>getTag\<close> knows as a tag,
  any other that is not a tag field as a field. A tag field of another type is dropped.
\<close>

lemma Fire_once:
  assumes "Fire TagFields entry = (entry', Inr (Some pt))" and "le_Data entry k = Some v" and "k \<noteq> MTMethod"
  shows "ip_Fields pt k = (if k \<in> set TagFields then None else Some v)"
    and "k \<noteq> FieldLevel \<Longrightarrow> ip_Tags pt k = (if k \<in> set TagFields \<and> (\<forall>n. v \<noteq> V_other n) then Some (fst (getTag (le_Data entry) k)) else None)"
  using assms
  by (auto simp: Fire_def Let_def delete_loop_eq tag_loop_eq getTag_def split: option.splits log_value.splits)

lemma Fire_panic:
  assumes "le_Data entry MTMethod = Some m" and "\<forall>s. m \<noteq> V_string s"
  shows "snd (Fire ts entry) = Inl (Panic ''interface conversion'')"
  using assms by (auto simp: Fire_def Let_def split: log_value.split)

text \<open>A hook that is switched on needs its settings.\<close>

lemma InitLog_panic:
  "InitLog P T c = Inl e \<longleftrightarrow> e = Panic ''nil pointer dereference'' \<and>
     (c = None \<or> (\<exists>lc. c = Some lc \<and> lc_HookSwitch lc \<and> lc_InfluxDB lc = None))"
  by (auto simp: InitLog_def WithInflux_def Let_def split: option.splits)

end
