(* ===== verification/Cli.thy ===== *)
theory Cli
  imports Repo Log_Hook Gauges Auth_Client
begin

text \<open>
  The command line up to its commands: the repository and the client a command uses (cli/api.go),
  the configuration of the daemon and the daemon up to the point where it listens (cli/run.go), and
  \<open>NewOAuthApp\<close> (auth/app.go). The flag parser (urfave/cli) gives a context; the home directory, the
  databases and the Jaeger exporter are parameters. Messages that are only logged and the exporters
  of metrics, whose errors are only logged, are left out.
\<close>

section \<open>The context of a command\<close>

text \<open>\<open>cx_IsSet\<close> tells whether a flag was given; the getters give its value or its default.\<close>

record cli_ctx =
  cx_Args :: "string list"
  cx_IsSet :: "string \<Rightarrow> bool"
  cx_String :: "string \<Rightarrow> string"
  cx_Int :: "string \<Rightarrow> int"
  cx_Int64 :: "string \<Rightarrow> int"
  cx_Uint :: "string \<Rightarrow> nat"
  cx_Bool :: "string \<Rightarrow> bool"

definition NArg :: "cli_ctx \<Rightarrow> nat" where
  "NArg ctx = length (cx_Args ctx)"

text \<open>\<open>Args().Get(n)\<close> is empty where there is no argument; \<open>First()\<close> is \<open>Get(0)\<close>.\<close>

definition Args_Get :: "cli_ctx \<Rightarrow> nat \<Rightarrow> string" where
  "Args_Get ctx n = (if n < NArg ctx then cx_Args ctx ! n else [])"

text \<open>
  What a command needs of its surroundings: the home directory, the operating system, the
  configuration and URL libraries, the address library, the HTTP client that a client of the
  service is, the error of showing the help, and the texts of times and hours and of aligned
  tables, which depend on the time zone or on a layout.
\<close>

record ('s, 'a, 'm, 'ma, 'u) cli_env =
  cl_Expand :: "string \<Rightarrow> string res"
  cl_faults :: faults
  cl_config :: "'m config_lib"
  cl_url :: "('ma, 'u) url_lib"
  cl_addr :: "'a addr_lib"
  cl_Do :: "auth_client \<Rightarrow> ('s, 'a) rest"
  cl_ShowAppHelp :: "err option"
  cl_ParseDuration :: "string \<Rightarrow> duration res"
  cl_UnixRFC1123 :: "int \<Rightarrow> string"
  cl_RFC1123 :: "time \<Rightarrow> string"
  cl_DateTime :: "time \<Rightarrow> string"
  cl_TimeString :: "time \<Rightarrow> string"
  cl_Hours :: "duration \<Rightarrow> string"
  cl_tabwriter :: "string list \<Rightarrow> string"

section \<open>The repository and the client (cli/api.go)\<close>

definition GetRepoPath :: "('s, 'a, 'm, 'ma, 'u) cli_env \<Rightarrow> cli_ctx \<Rightarrow> fs \<Rightarrow> string res" where
  "GetRepoPath E ctx f =
     (case cl_Expand E (cx_String ctx ''repo'') of
        Inl e \<Rightarrow> Inl e
      | Inr repoPath \<Rightarrow>
     (case Exist (cl_faults E) repoPath f of
        Inl e \<Rightarrow> Inl (Wrap ''check repo exist: '' e)
      | Inr exist \<Rightarrow>
          if exist then Inr repoPath
          else
     (case cl_Expand E ''~/.venus-auth'' of
        Inl e \<Rightarrow> Inl (Wrap ''expand deprecated home dir: '' e)
      | Inr deprecatedRepoPath \<Rightarrow>
     (case Exist (cl_faults E) deprecatedRepoPath f of
        Inl e \<Rightarrow> Inl (Wrap ''check deprecated repo exist: '' e)
      | Inr deprecatedRepoPathExist \<Rightarrow>
          Inr (if deprecatedRepoPathExist then deprecatedRepoPath else repoPath)))))"

definition GetCli :: "('s, 'a, 'm, 'ma, 'u) cli_env \<Rightarrow> cli_ctx \<Rightarrow> fs \<Rightarrow> fs \<times> auth_client res" where
  "GetCli E ctx f =
     (case GetRepoPath E ctx f of
        Inl e \<Rightarrow> (f, Inl e)
      | Inr repoPath \<Rightarrow>
     (case NewFsRepo (cl_faults E) repoPath f of
        (f, (repo, Inl e)) \<Rightarrow> (f, Inl (Wrap ''create repo: '' e))
      | (f, (repo, Inr _)) \<Rightarrow>
     (case repo_GetToken (cl_faults E) repo f of
        Inl e \<Rightarrow> (f, Inl (Wrap ''get token: '' e))
      | Inr token \<Rightarrow>
     (case (if cx_IsSet ctx ''listen'' then Inr (cx_String ctx ''listen'')
            else case repo_GetConfig (cl_config E) (cl_faults E) repo f of
                   Inl e \<Rightarrow> Inl (Wrap ''get config: '' e)
                 | Inr cnf \<Rightarrow> Inr (cf_Listen cnf)) of
        Inl e \<Rightarrow> (f, Inl e)
      | Inr listen \<Rightarrow> (f, NewAuthClient (cl_url E) (''http://'' @ listen) token)))))"

section \<open>The configuration of the daemon (cli/run.go)\<close>

definition fillConfigByFlag :: "'m config \<Rightarrow> cli_ctx \<Rightarrow> 'm config res" where
  "fillConfigByFlag cnf ctx =
     (case (if cx_IsSet ctx ''mysql-dsn'' then
              (case cf_DB cnf of
                 None \<Rightarrow> Inl (Panic ''nil pointer dereference'')
               | Some db \<Rightarrow> Inr (cnf\<lparr>cf_DB := Some (db\<lparr>dc_DSN := cx_String ctx ''mysql-dsn''\<rparr>)\<rparr>))
            else Inr cnf) of
        Inl e \<Rightarrow> Inl e
      | Inr cnf \<Rightarrow>
     (case (if cx_IsSet ctx ''db-type'' then
              (case cf_DB cnf of
                 None \<Rightarrow> Inl (Panic ''nil pointer dereference'')
               | Some db \<Rightarrow> Inr (cnf\<lparr>cf_DB := Some (db\<lparr>dc_Type := cx_String ctx ''db-type''\<rparr>)\<rparr>))
            else Inr cnf) of
        Inl e \<Rightarrow> Inl e
      | Inr cnf \<Rightarrow>
          Inr (if cx_IsSet ctx ''listen'' then cnf\<lparr>cf_Listen := cx_String ctx ''listen''\<rparr> else cnf)))"

text \<open>Go's \<open>fmt.Errorf\<close> with \<open>%s\<close>; a panic is not an error value and passes through.\<close>

definition flat :: "string \<Rightarrow> err \<Rightarrow> err" where
  "flat msg e = (if is_panic e then e else Msg (msg @ err_Error e))"

definition configScan ::
  "('s, 'a, 'm, 'ma, 'u) cli_env \<Rightarrow> string \<Rightarrow> cli_ctx \<Rightarrow> fs \<Rightarrow> fs \<times> 'm config res" where
  "configScan E path ctx f =
     (let L = cl_config E; F = cl_faults E in
      case Exist F path f of
        Inl e \<Rightarrow> (f, Inl (flat ''failed to check file exist : '' e))
      | Inr exist \<Rightarrow>
          if exist then
     (case DecodeConfig L F path f of
        Inl e \<Rightarrow> (f, Inl (flat ''failed to decode config : '' e))
      | Inr cnf \<Rightarrow>
          (let cnf' = (if cf_Listen cnf = [] then cnf\<lparr>cf_Listen := cx_String ctx ''listen''\<rparr> else cnf) in
           case (if cf_Listen cnf = [] then Cover L F path cnf' f else (f, Inr ())) of
             (f, Inl e) \<Rightarrow> (f, Inl e)
           | (f, Inr _) \<Rightarrow> (f, fillConfigByFlag cnf' ctx)))
          else
     (case fillConfigByFlag (DefaultConfig L) ctx of
        Inl e \<Rightarrow> (f, Inl e)
      | Inr cnf \<Rightarrow>
     (case Cover L F path cnf f of
        (f, Inl e) \<Rightarrow> (f, Inl (flat ''failed to write config to home dir : '' e))
      | (f, Inr _) \<Rightarrow> (f, Inr cnf))))"

section \<open>The daemon (cli/run.go, auth/app.go)\<close>

text \<open>
  The databases are opened by their constructors, from the configuration or the path of the data;
  a call of the service has its random source and clock in \<open>dm_env\<close>.
\<close>

record ('a, 'db, 'l) daemon_lib =
  dm_newMySQLStore :: "db_config \<Rightarrow> (('a, 'db) store_ops \<times> 'db) res"
  dm_newBadgerStore :: "string \<Rightarrow> (('a, 'db) store_ops \<times> 'db) res"
  dm_addr :: "'a addr_lib"
  dm_jwt :: jwt_lib
  dm_rng_perm :: "(permission \<rightharpoonup> int) \<Rightarrow> permission list"
  dm_rng_state :: "(user_state \<rightharpoonup> int) \<Rightarrow> user_state list"
  dm_now :: time
  dm_env :: call_env
  dm_ParseLevel :: "string \<Rightarrow> 'l res"
  dm_TraceLevel :: 'l
  dm_SetupJaegerTracing :: "string \<Rightarrow> trace_config \<Rightarrow> unit res"

text \<open>\<open>NewOAuthApp\<close>; the constructors read the configuration through a pointer that may be nil.\<close>

definition NewOAuthApp ::
  "('a, 'db, 'l) daemon_lib \<Rightarrow> string \<Rightarrow> db_config option \<Rightarrow> (('a, 'db) service \<times> 'db world) res option" where
  "NewOAuthApp D dbPath cnf =
     (case cnf of
        None \<Rightarrow> Some (Inl (Panic ''nil pointer dereference''))
      | Some cnf \<Rightarrow> NewOAuthService (dm_newMySQLStore D cnf) (dm_newBadgerStore D dbPath) (dm_addr D) (dm_jwt D)
          (dm_rng_perm D) (dm_rng_state D) (dm_now D) (dc_Type cnf))"

text \<open>The HTTP server about to listen: the service and its state, with its settings.\<close>

record ('a, 'db) http_server =
  hs_srv :: "('a, 'db) service"
  hs_world :: "'db world"
  hs_Addr :: string
  hs_ReadTimeout :: duration
  hs_WriteTimeout :: duration
  hs_IdleTimeout :: duration
  hs_Traced :: bool
  hs_ApiState :: int

text \<open>\<open>None\<close> is a migration loop that never ends.\<close>

definition run ::
  "('s, 'a, 'm, 'ma, 'u) cli_env \<Rightarrow> ('a, 'db, 'l) daemon_lib \<Rightarrow> cli_ctx \<Rightarrow> fs \<Rightarrow>
     fs \<times> ('a, 'db) http_server res option" where
  "run E D ctx f =
     (case GetRepoPath E ctx f of
        Inl e \<Rightarrow> (f, Some (Inl e))
      | Inr repoPath \<Rightarrow>
     (case NewFsRepo (cl_faults E) repoPath f of
        (f, (repo, Inl e)) \<Rightarrow> (f, Some (Inl (flat ''init repo: '' e)))
      | (f, (repo, Inr _)) \<Rightarrow>
     (let cnfPath = cx_String ctx ''config'';
          cnfPath = (if cnfPath = [] then path_Join [repoPath, DefaultConfigFile] else cnfPath) in
      case configScan E cnfPath ctx f of
        (f, Inl e) \<Rightarrow> (f, Some (Inl e))
      | (f, Inr cnf) \<Rightarrow>
     (case InitLog (dm_ParseLevel D) (dm_TraceLevel D) (cf_Log cnf) of
        Inl e \<Rightarrow> (f, Some (Inl e))
      | Inr _ \<Rightarrow>
     (case NewOAuthApp D (repo_GetDataDir repo) (cf_DB cnf) of
        None \<Rightarrow> (f, None)
      | Some (Inl e) \<Rightarrow> (f, Some (Inl (flat ''init oauth app: '' e)))
      | Some (Inr (srv, w)) \<Rightarrow>
     (case app_GetDefaultAdminToken srv (dm_env D) w of
        (w, Inl e) \<Rightarrow> (f, Some (Inl (flat ''get default admin token: '' e)))
      | (w, Inr token) \<Rightarrow>
     (case repo_SaveToken (cl_faults E) repo token f of
        (f, Inl e) \<Rightarrow> (f, Some (Inl (flat ''save token: '' e)))
      | (f, Inr _) \<Rightarrow>
     (case (case cf_Trace cnf of
              None \<Rightarrow> Inr False
            | Some tr \<Rightarrow>
                if tr_JaegerTracingEnabled tr then
                  (case dm_SetupJaegerTracing D ''sophon-auth'' tr of
                     Inl e \<Rightarrow> Inl (Wrap ''SetupJaegerTracing failed:'' e)
                   | Inr _ \<Rightarrow> Inr True)
                else Inr False) of
        Inl e \<Rightarrow> (f, Some (Inl e))
      | Inr traced \<Rightarrow>
          (f, Some (Inr \<lparr>hs_srv = srv, hs_world = w, hs_Addr = cf_Listen cnf, hs_ReadTimeout = cf_ReadTimeout cnf,
             hs_WriteTimeout = cf_WriteTimeout cnf, hs_IdleTimeout = cf_IdleTimeout cnf, hs_Traced = traced,
             hs_ApiState = 1\<rparr>))))))))))"

end
