(* ===== verification/Cli_Commands.thy ===== *)
theory Cli_Commands
  imports Cli
begin

text \<open>
  The commands of the command line (cli/token.go, cli/user.go, cli/user_miner.go, cli/user_signer.go,
  cli/miner.go, cli/signer.go, cli/cmds.go). A command runs on the files, the network and the output;
  it ends normally, with an error, or by leaving the process with a status. Help texts are events of
  the output.
\<close>

section \<open>Commands\<close>

datatype printed = P_Text string | P_SubcommandHelp | P_AppHelp

datatype stop = Failed err | Exited nat

record 's cli_world =
  cw_fs :: fs
  cw_net :: 's
  cw_out :: "printed list"

type_synonym ('s, 'x) cmd = "'s cli_world \<Rightarrow> 's cli_world \<times> (stop + 'x)"

definition done_with :: "'x \<Rightarrow> ('s, 'x) cmd" where
  "done_with x w = (w, Inr x)"

definition fail_with :: "err \<Rightarrow> ('s, 'x) cmd" where
  "fail_with e w = (w, Inl (Failed e))"

definition and_then :: "('s, 'x) cmd \<Rightarrow> ('x \<Rightarrow> ('s, 'y) cmd) \<Rightarrow> ('s, 'y) cmd" where
  "and_then m k w = (case m w of (w, Inl e) \<Rightarrow> (w, Inl e) | (w, Inr x) \<Rightarrow> k x w)"

text \<open>\<open>if err != nil { return f(err) }\<close>.\<close>

definition wrap_err :: "(err \<Rightarrow> err) \<Rightarrow> ('s, 'x) cmd \<Rightarrow> ('s, 'x) cmd" where
  "wrap_err g m w = (case m w of (w, Inl (Failed e)) \<Rightarrow> (w, Inl (Failed (g e))) | r \<Rightarrow> r)"

definition of_res :: "'x res \<Rightarrow> ('s, 'x) cmd" where
  "of_res r w = (w, map_sum Failed id r)"

definition puts :: "string \<Rightarrow> ('s, unit) cmd" where
  "puts s w = (w\<lparr>cw_out := cw_out w @ [P_Text s]\<rparr>, Inr ())"

definition get_client :: "('s, 'a, 'm, 'ma, 'u) cli_env \<Rightarrow> cli_ctx \<Rightarrow> ('s, auth_client) cmd" where
  "get_client E ctx w = (case GetCli E ctx (cw_fs w) of (f, r) \<Rightarrow> (w\<lparr>cw_fs := f\<rparr>, map_sum Failed id r))"

text \<open>A call of a method of the client.\<close>

definition request ::
  "('s, 'a, 'm, 'ma, 'u) cli_env \<Rightarrow> auth_client \<Rightarrow> (('s, 'a) rest \<Rightarrow> 's \<Rightarrow> 's \<times> 'x res) \<Rightarrow> ('s, 'x) cmd" where
  "request E cl m w = (case m (cl_Do E cl) (cw_net w) of (s, r) \<Rightarrow> (w\<lparr>cw_net := s\<rparr>, map_sum Failed id r))"

text \<open>\<open>cli.ShowSubcommandHelpAndExit(ctx, 1)\<close> and \<open>return cli.ShowAppHelp(ctx)\<close>.\<close>

definition subcommand_help :: "('s, 'x) cmd" where
  "subcommand_help w = (w\<lparr>cw_out := cw_out w @ [P_SubcommandHelp]\<rparr>, Inl (Exited 1))"

definition app_help :: "('s, 'a, 'm, 'ma, 'u) cli_env \<Rightarrow> ('s, unit) cmd" where
  "app_help E w = (w\<lparr>cw_out := cw_out w @ [P_AppHelp]\<rparr>,
     case cl_ShowAppHelp E of None \<Rightarrow> Inr () | Some e \<Rightarrow> Inl (Failed e))"

section \<open>Printing\<close>

definition nl :: string where "nl = [CHR 0x0A]"
definition tab :: string where "tab = [CHR 0x09]"

definition Println :: "string list \<Rightarrow> ('s, unit) cmd" where
  "Println xs = puts (join_with '' '' xs @ nl)"

definition show_bool :: "bool \<Rightarrow> string" where
  "show_bool b = (if b then ''true'' else ''false'')"

fun for_each :: "(nat \<Rightarrow> 'x \<Rightarrow> ('s, unit) cmd) \<Rightarrow> nat \<Rightarrow> 'x list \<Rightarrow> ('s, unit) cmd" where
  "for_each body k [] = done_with ()"
| "for_each body k (x # xs) = and_then (body k x) (\<lambda>_. for_each body (k + 1) xs)"

section \<open>Tokens (cli/token.go)\<close>

definition genToken_action :: "('s, 'a, 'm, 'ma, 'u) cli_env \<Rightarrow> cli_ctx \<Rightarrow> ('s, unit) cmd" where
  "genToken_action E ctx =
     and_then (get_client E ctx) (\<lambda>client.
     if NArg ctx < 1 then fail_with (Msg ''usage: username is required'')
     else if \<not> cx_IsSet ctx ''perm'' then fail_with (Msg ''`perm` flag not set'')
     else if \<not> IsValid (cx_String ctx ''perm'') then fail_with (Msg ''`perm` flag invalid'')
     else and_then (request E client (\<lambda>Do. AuthClient_GenerateToken Do (Args_Get ctx 0) (cx_String ctx ''perm'') (cx_String ctx ''extra''))) (\<lambda>tk.
     puts (''generate token success: '' @ tk @ nl)))"

definition print_token :: "('s, 'a, 'm, 'ma, 'u) cli_env \<Rightarrow> tokenInfo \<Rightarrow> ('s, unit) cmd" where
  "print_token E token =
     and_then (Println [''name:       '', ti_Name token]) (\<lambda>_.
     and_then (Println [''perm:       '', ti_Perm token]) (\<lambda>_.
     and_then (Println [''create time:'', cl_TimeString E (ti_CreateTime token)]) (\<lambda>_.
     and_then (Println [''token:      '', ti_Token token]) (\<lambda>_.
     Println []))))"

definition getToken_action :: "('s, 'a, 'm, 'ma, 'u) cli_env \<Rightarrow> cli_ctx \<Rightarrow> ('s, unit) cmd" where
  "getToken_action E ctx =
     (let name = cx_String ctx ''name''; token = cx_String ctx ''token'' in
     and_then (get_client E ctx) (\<lambda>client.
     and_then (request E client (\<lambda>Do. AuthClient_GetToken Do name token)) (\<lambda>tokens.
     for_each (\<lambda>_. print_token E) 0 tokens)))"

definition listTokens_row :: "('s, 'a, 'm, 'ma, 'u) cli_env \<Rightarrow> nat \<Rightarrow> tokenInfo \<Rightarrow> ('s, unit) cmd" where
  "listTokens_row E k v =
     (let name = ti_Name v; name = (if length name < 8 then name @ tab else name) in
      puts (show_nat (k + 1) @ tab @ name @ tab @ ti_Perm v @ tab @ cl_DateTime E (ti_CreateTime v) @ tab @ ti_Token v @ nl))"

definition listTokens_action :: "('s, 'a, 'm, 'ma, 'u) cli_env \<Rightarrow> cli_ctx \<Rightarrow> ('s, unit) cmd" where
  "listTokens_action E ctx =
     and_then (get_client E ctx) (\<lambda>client.
     (let skip = i64 (int (cx_Uint ctx ''skip'')); limit = i64 (int (cx_Uint ctx ''limit'')) in
     and_then (request E client (\<lambda>Do. AuthClient_Tokens Do skip limit)) (\<lambda>tks.
     and_then (Println [''num'' @ tab @ ''name'' @ tab @ tab @ ''perm'' @ tab @ tab @ ''createTime'' @ tab @ tab @ ''token'']) (\<lambda>_.
     for_each (listTokens_row E) 0 tks))))"

definition removeToken_action :: "('s, 'a, 'm, 'ma, 'u) cli_env \<Rightarrow> cli_ctx \<Rightarrow> ('s, unit) cmd" where
  "removeToken_action E ctx =
     (if NArg ctx < 1 then fail_with (Msg ''usage: rmToken [token]'')
      else and_then (get_client E ctx) (\<lambda>client.
     (let tk = Args_Get ctx 0 in
     and_then (request E client (\<lambda>Do. AuthClient_RemoveToken Do tk)) (\<lambda>_.
     puts (''remove token success: '' @ tk @ nl)))))"

definition recoverToken_action :: "('s, 'a, 'm, 'ma, 'u) cli_env \<Rightarrow> cli_ctx \<Rightarrow> ('s, unit) cmd" where
  "recoverToken_action E ctx =
     (if NArg ctx < 1 then fail_with (Msg ''usage: recover [token]'')
      else and_then (get_client E ctx) (\<lambda>client.
     (let tk = Args_Get ctx 0 in
     and_then (request E client (\<lambda>Do. AuthClient_RecoverToken Do tk)) (\<lambda>_.
     puts (''recover token success: '' @ tk @ nl)))))"

section \<open>Users (cli/user.go)\<close>

definition userAdd_action :: "('s, 'a, 'm, 'ma, 'u) cli_env \<Rightarrow> cli_ctx \<Rightarrow> ('s, unit) cmd" where
  "userAdd_action E ctx =
     (if NArg ctx \<noteq> 1 then subcommand_help
      else and_then (get_client E ctx) (\<lambda>client.
     (let user = \<lparr>cu_Name = Args_Get ctx 0,
                  cu_Comment = (if cx_IsSet ctx ''comment'' then Some (cx_String ctx ''comment'') else None),
                  cu_State = cx_Int ctx ''state''\<rparr> in
     and_then (request E client (\<lambda>Do. AuthClient_CreateUser Do user)) (\<lambda>res.
     puts (''Add user success: '' @ ou_Id res @ '', next can add miner for this user'' @ nl)))))"

definition userGet_action :: "('s, 'a, 'm, 'ma, 'u) cli_env \<Rightarrow> cli_ctx \<Rightarrow> ('s, unit) cmd" where
  "userGet_action E ctx =
     and_then (get_client E ctx) (\<lambda>client.
     if NArg ctx \<noteq> 1 then subcommand_help
     else and_then (request E client (\<lambda>Do. AuthClient_GetUser Do (Args_Get ctx 0))) (\<lambda>user.
     and_then (Println [''name:'', ou_Name user]) (\<lambda>_.
     and_then (Println [''state'', UserState_String (ou_State user), tab @ ''// 2: disable, 1: enable'']) (\<lambda>_.
     and_then (Println [''comment:'', ou_Comment user]) (\<lambda>_.
     and_then (Println [''createTime:'', cl_UnixRFC1123 E (ou_CreateTime user)]) (\<lambda>_.
     and_then (Println [''updateTime:'', cl_UnixRFC1123 E (ou_CreateTime user)]) (\<lambda>_.
     Println [])))))))"

definition userUpdate_action :: "('s, 'a, 'm, 'ma, 'u) cli_env \<Rightarrow> cli_ctx \<Rightarrow> ('s, unit) cmd" where
  "userUpdate_action E ctx =
     and_then (get_client E ctx) (\<lambda>client.
     (let req = \<lparr>uu_Name = cx_String ctx ''name'',
                 uu_Comment = (if cx_IsSet ctx ''comment'' then Some (cx_String ctx ''comment'') else None),
                 uu_State = (if cx_IsSet ctx ''state'' then cx_Int ctx ''state'' else UserStateUndefined)\<rparr> in
     and_then (request E client (\<lambda>Do. AuthClient_UpdateUser Do req)) (\<lambda>_.
     Println [''update user success''])))"

definition userActive_action :: "('s, 'a, 'm, 'ma, 'u) cli_env \<Rightarrow> cli_ctx \<Rightarrow> ('s, unit) cmd" where
  "userActive_action E ctx =
     and_then (get_client E ctx) (\<lambda>client.
     if NArg ctx \<noteq> 1 then fail_with (Msg ''expect name'')
     else (let req = \<lparr>uu_Name = Args_Get ctx 0, uu_Comment = None, uu_State = 1\<rparr> in
     and_then (request E client (\<lambda>Do. AuthClient_UpdateUser Do req)) (\<lambda>_.
     Println [''active user success''])))"

text \<open>Printing a list of addresses, \<open>[a b]\<close>.\<close>

definition show_addrs :: "('s, 'a, 'm, 'ma, 'u) cli_env \<Rightarrow> 'a list \<Rightarrow> string" where
  "show_addrs E addrs = ''['' @ join_with '' '' (map (addr_String (cl_addr E)) addrs) @ '']''"

definition print_user :: "('s, 'a, 'm, 'ma, 'u) cli_env \<Rightarrow> nat \<Rightarrow> 'a outputUser_miners \<Rightarrow> ('s, unit) cmd" where
  "print_user E k v =
     (let vMiners = (case ou_Miners v of None \<Rightarrow> [] | Some ms \<Rightarrow> ms) in
     and_then (Println [''number:'', show_nat (k + 1)]) (\<lambda>_.
     and_then (Println [''name:'', ou_Name v]) (\<lambda>_.
     and_then (Println [''state:'', UserState_String (ou_State v)]) (\<lambda>_.
     and_then (if length vMiners \<noteq> 0 then Println [''miners:'', show_addrs E (map om_Miner vMiners)] else done_with ()) (\<lambda>_.
     and_then (if length (ou_Comment v) \<noteq> 0 then Println [''comment:'', ou_Comment v] else done_with ()) (\<lambda>_.
     and_then (Println [''createTime:'', cl_UnixRFC1123 E (ou_CreateTime v)]) (\<lambda>_.
     and_then (Println [''updateTime:'', cl_UnixRFC1123 E (ou_CreateTime v)]) (\<lambda>_.
     Println []))))))))"

definition userList_action :: "('s, 'a, 'm, 'ma, 'u) cli_env \<Rightarrow> cli_ctx \<Rightarrow> ('s, unit) cmd" where
  "userList_action E ctx =
     and_then (get_client E ctx) (\<lambda>client.
     (let state = (if cx_IsSet ctx ''state'' then cx_Int ctx ''state'' else UserStateUndefined) in
     and_then (request E client (\<lambda>Do. AuthClient_ListUsersWithMiners Do (cx_Int64 ctx ''skip'') (cx_Int64 ctx ''limit'') state)) (\<lambda>users.
     for_each (print_user E) 0 users)))"

definition userDelete_action :: "('s, 'a, 'm, 'ma, 'u) cli_env \<Rightarrow> cli_ctx \<Rightarrow> ('s, unit) cmd" where
  "userDelete_action E ctx =
     and_then (get_client E ctx) (\<lambda>client.
     if NArg ctx \<noteq> 1 then fail_with (Msg ''expect name'')
     else and_then (request E client (\<lambda>Do. AuthClient_HasUser Do (Args_Get ctx 0))) (\<lambda>has.
     if \<not> has then fail_with (Msg ''not found user'')
     else and_then (request E client (\<lambda>Do. AuthClient_DeleteUser Do (Args_Get ctx 0))) (\<lambda>_.
     Println [''remove user success''])))"

definition userRecover_action :: "('s, 'a, 'm, 'ma, 'u) cli_env \<Rightarrow> cli_ctx \<Rightarrow> ('s, unit) cmd" where
  "userRecover_action E ctx =
     and_then (get_client E ctx) (\<lambda>client.
     if NArg ctx = 0 then fail_with (Msg ''expect name'')
     else and_then (request E client (\<lambda>Do. AuthClient_RecoverUser Do (Args_Get ctx 0))) (\<lambda>_.
     Println [''recover user success'']))"

end
