(* ===== verification/Cli_Owners.thy ===== *)
theory Cli_Owners
  imports Cli_Commands
begin

text \<open>
  The commands on rate limits (cli/user.go), miners and signers (cli/user_miner.go,
  cli/user_signer.go, cli/miner.go, cli/signer.go).
\<close>

section \<open>Numbers\<close>

text \<open>\<open>strconv.ParseUint(s, 10, 64)\<close>.\<close>

definition parse_error :: "string \<Rightarrow> string \<Rightarrow> err" where
  "parse_error s msg = External (''strconv.ParseUint: parsing '' @ [CHR 0x22] @ s @ [CHR 0x22] @ '': '' @ msg)"

definition digit_of :: "char \<Rightarrow> nat option" where
  "digit_of ch = (let n = of_char ch :: nat in if 48 \<le> n \<and> n \<le> 57 then Some (n - 48) else None)"

fun ParseUint_loop :: "string \<Rightarrow> string \<Rightarrow> nat \<Rightarrow> nat res" where
  "ParseUint_loop orig [] n = Inr n"
| "ParseUint_loop orig (ch # s) n =
     (case digit_of ch of
        None \<Rightarrow> Inl (parse_error orig ''invalid syntax'')
      | Some d \<Rightarrow>
          if n * 10 + d \<ge> 2 ^ 64 then Inl (parse_error orig ''value out of range'')
          else ParseUint_loop orig s (n * 10 + d))"

definition ParseUint :: "string \<Rightarrow> nat res" where
  "ParseUint s = (if s = [] then Inl (parse_error s ''invalid syntax'') else ParseUint_loop s s 0)"

section \<open>Rate limits (cli/user.go)\<close>

definition rateLimitGet_action :: "('s, 'a, 'm, 'ma, 'u) cli_env \<Rightarrow> cli_ctx \<Rightarrow> ('s, unit) cmd" where
  "rateLimitGet_action E ctx =
     and_then (get_client E ctx) (\<lambda>client.
     if NArg ctx \<noteq> 1 then fail_with (Msg ''expect name'')
     else and_then (request E client (\<lambda>Do. AuthClient_GetUserRateLimit Do (Args_Get ctx 0) [])) (\<lambda>limits.
     if length limits = 0 then puts (''user have no request rate limit'' @ nl)
     else for_each (\<lambda>_ l. puts (''user:'' @ rl_Name l @ '', limit id:'' @ rl_Id l @ '', request limit amount:'' @
       FormatInt (Cap (rl_ReqLimit l)) @ '', duration:'' @ cl_Hours E (ResetDur (rl_ReqLimit l)) @ ''(h)'' @ nl)) 0 limits))"

text \<open>The limit that the last arguments of \<open>add\<close> and \<open>update\<close> give.\<close>

definition parse_limit :: "('s, 'a, 'm, 'ma, 'u) cli_env \<Rightarrow> string \<Rightarrow> string \<Rightarrow> ('s, req_limit) cmd" where
  "parse_limit E amount duration =
     and_then (of_res (ParseUint amount)) (\<lambda>limitAmount.
     and_then (of_res (cl_ParseDuration E duration)) (\<lambda>resetDuration.
     if resetDuration \<le> 0 then fail_with (Msg ''reset duratoin must be positive'')
     else done_with \<lparr>Cap = i64 (int limitAmount), ResetDur = resetDuration\<rparr>))"

text \<open>
  \<open>if res, _ := client.GetUserRateLimit(...); len(res) > 0\<close>: with an error there is no result, and the
  error is dropped.
\<close>

definition rateLimitAdd_action :: "('s, 'a, 'm, 'ma, 'u) cli_env \<Rightarrow> cli_ctx \<Rightarrow> ('s, unit) cmd" where
  "rateLimitAdd_action E ctx =
     and_then (get_client E ctx) (\<lambda>client.
     if NArg ctx < 3 then app_help E
     else (let name = Args_Get ctx 0 in
     and_then (request E client (\<lambda>Do s. case AuthClient_GetUserRateLimit Do name [] s of
         (s, Inl _) \<Rightarrow> (s, Inr []) | (s, Inr res) \<Rightarrow> (s, Inr res))) (\<lambda>res.
     case res of
       r # _ \<Rightarrow> fail_with (Msg (''user rate limit:'' @ rl_Id r @ '' exists''))
     | [] \<Rightarrow>
     and_then (parse_limit E (Args_Get ctx 1) (Args_Get ctx 2)) (\<lambda>limit.
     (let userLimit = \<lparr>rl_Id = (if cx_IsSet ctx ''id'' then cx_String ctx ''id'' else []), rl_Name = name,
            rl_Service = [], rl_API = [], rl_ReqLimit = limit\<rparr> in
     and_then (request E client (\<lambda>Do. AuthClient_UpsertUserRateLimit Do userLimit)) (\<lambda>rid.
     puts (''upsert user rate limit success:'' @ tab @ rid @ nl)))))))"

definition rateLimitUpdate_action :: "('s, 'a, 'm, 'ma, 'u) cli_env \<Rightarrow> cli_ctx \<Rightarrow> ('s, unit) cmd" where
  "rateLimitUpdate_action E ctx =
     and_then (get_client E ctx) (\<lambda>client.
     if NArg ctx \<noteq> 4 then app_help E
     else (let name = Args_Get ctx 0; lid = Args_Get ctx 1 in
     and_then (request E client (\<lambda>Do. AuthClient_GetUserRateLimit Do name lid)) (\<lambda>res.
     if length res = 0 then fail_with (Msg (''user rate limit:'' @ lid @ '' NOT exists''))
     else and_then (parse_limit E (Args_Get ctx 2) (Args_Get ctx 3)) (\<lambda>limit.
     (let userLimit = \<lparr>rl_Id = lid, rl_Name = name, rl_Service = [], rl_API = [], rl_ReqLimit = limit\<rparr> in
     and_then (request E client (\<lambda>Do. AuthClient_UpsertUserRateLimit Do userLimit)) (\<lambda>rid.
     puts (''upsert user rate limit success:'' @ tab @ rid @ nl)))))))"

definition rateLimitDel_action :: "('s, 'a, 'm, 'ma, 'u) cli_env \<Rightarrow> cli_ctx \<Rightarrow> ('s, unit) cmd" where
  "rateLimitDel_action E ctx =
     and_then (get_client E ctx) (\<lambda>client.
     if NArg ctx \<noteq> 2 then app_help E
     else (let delReq = \<lparr>dr_Name = Args_Get ctx 0, dr_Id = Args_Get ctx 1\<rparr> in
     and_then (request E client (\<lambda>Do. AuthClient_GetUserRateLimit Do (dr_Name delReq) (dr_Id delReq))) (\<lambda>res.
     if length res = 0 then puts (''user:'' @ dr_Name delReq @ '', rate-limit-id:'' @ dr_Id delReq @ '' Not exits'' @ nl)
     else and_then (request E client (\<lambda>Do. AuthClient_DelUserRateLimit Do delReq)) (\<lambda>rid.
     puts (''delete rate limit success, '' @ rid @ nl)))))"

section \<open>Miners (cli/user_miner.go, cli/miner.go)\<close>

definition minerAdd_action :: "('s, 'a, 'm, 'ma, 'u) cli_env \<Rightarrow> cli_ctx \<Rightarrow> ('s, unit) cmd" where
  "minerAdd_action E ctx =
     (if NArg ctx \<noteq> 2 then subcommand_help
      else and_then (get_client E ctx) (\<lambda>client.
     (let user = Args_Get ctx 0; miner = Args_Get ctx 1; openMining = cx_Bool ctx ''openMining'' in
     and_then (request E client (\<lambda>Do. AuthClient_UpsertMiner Do (cl_addr E) user miner openMining)) (\<lambda>isCreate.
     (let opStr = (if isCreate then ''create'' else ''update'') in
     puts (opStr @ '' user:'' @ user @ '' miner:'' @ miner @ '' success.'' @ nl))))))"

definition minerExist_action :: "('s, 'a, 'm, 'ma, 'u) cli_env \<Rightarrow> cli_ctx \<Rightarrow> ('s, unit) cmd" where
  "minerExist_action E ctx =
     (if NArg ctx \<noteq> 1 then subcommand_help
      else and_then (get_client E ctx) (\<lambda>client.
     and_then (of_res (addr_NewFromString (cl_addr E) (Args_Get ctx 0))) (\<lambda>addr.
     and_then (request E client (\<lambda>Do. AuthClient_MinerExistInUser Do (cl_addr E) (cx_String ctx ''user'') addr)) (\<lambda>exist.
     Println [show_bool exist]))))"

definition minerList_action :: "('s, 'a, 'm, 'ma, 'u) cli_env \<Rightarrow> cli_ctx \<Rightarrow> ('s, unit) cmd" where
  "minerList_action E ctx =
     (if NArg ctx \<noteq> 1 then subcommand_help
      else and_then (get_client E ctx) (\<lambda>client.
     (let user = Args_Get ctx 0 in
     and_then (wrap_err (Wrap (''list user:'' @ user @ '' miner failed: '')) (request E client (\<lambda>Do. AuthClient_GetUser Do user))) (\<lambda>_.
     and_then (request E client (\<lambda>Do. AuthClient_ListMiners Do user)) (\<lambda>miners.
     and_then (puts (''user: '' @ user @ '', miner count:'' @ show_nat (length miners) @ nl)) (\<lambda>_.
     if length miners = 0 then done_with ()
     else puts (cl_tabwriter E ((''idx'' @ tab @ ''miner'' @ tab @ ''openMining'' @ tab @ ''create-time'' @ tab @ nl) #
       map (\<lambda>(idx, miner). show_nat idx @ tab @ addr_String (cl_addr E) (om_Miner miner) @ tab @
         show_bool (om_OpenMining miner) @ tab @ cl_RFC1123 E (om_CreatedAt miner) @ tab @ nl)
         (enumerate 0 miners)))))))))"

definition minerDelete_action :: "('s, 'a, 'm, 'ma, 'u) cli_env \<Rightarrow> cli_ctx \<Rightarrow> ('s, unit) cmd" where
  "minerDelete_action E ctx =
     (if NArg ctx \<noteq> 1 then subcommand_help
      else and_then (get_client E ctx) (\<lambda>client.
     (let miner = Args_Get ctx 0 in
     and_then (wrap_err (Wrap (''delete miner:'' @ miner @ '' failed: '')) (request E client (\<lambda>Do. AuthClient_DelMiner Do (cl_addr E) miner))) (\<lambda>exists.
     if exists then puts (''remove miner:'' @ miner @ '' success.'' @ nl)
     else puts (''miner:'' @ miner @ '' not exists.'' @ nl)))))"

definition minerHas_action :: "('s, 'a, 'm, 'ma, 'u) cli_env \<Rightarrow> cli_ctx \<Rightarrow> ('s, unit) cmd" where
  "minerHas_action E ctx =
     (if NArg ctx \<noteq> 1 then subcommand_help
      else and_then (get_client E ctx) (\<lambda>client.
     and_then (of_res (addr_NewFromString (cl_addr E) (Args_Get ctx 0))) (\<lambda>addr.
     and_then (request E client (\<lambda>Do. AuthClient_HasMiner Do (cl_addr E) addr)) (\<lambda>exist.
     Println [show_bool exist]))))"

section \<open>Signers (cli/user_signer.go, cli/signer.go)\<close>

definition signerRegister_action :: "('s, 'a, 'm, 'ma, 'u) cli_env \<Rightarrow> cli_ctx \<Rightarrow> ('s, unit) cmd" where
  "signerRegister_action E ctx =
     (if NArg ctx \<noteq> 2 then subcommand_help
      else and_then (get_client E ctx) (\<lambda>client.
     (let user = Args_Get ctx 0; addr = Args_Get ctx 1 in
     and_then (of_res (addr_NewFromString (cl_addr E) addr)) (\<lambda>mAddr.
     and_then (request E client (\<lambda>Do. AuthClient_RegisterSigners Do user [mAddr])) (\<lambda>_.
     puts (''register signer address:'' @ addr @ '' success for '' @ user @ ''.'' @ nl))))))"

definition signerExist_action :: "('s, 'a, 'm, 'ma, 'u) cli_env \<Rightarrow> cli_ctx \<Rightarrow> ('s, unit) cmd" where
  "signerExist_action E ctx =
     (if NArg ctx \<noteq> 1 then subcommand_help
      else and_then (get_client E ctx) (\<lambda>client.
     and_then (of_res (addr_NewFromString (cl_addr E) (Args_Get ctx 0))) (\<lambda>addr.
     and_then (request E client (\<lambda>Do. AuthClient_SignerExistInUser Do (cl_addr E) (cx_String ctx ''user'') addr)) (\<lambda>has.
     Println [show_bool has]))))"

definition signerList_action :: "('s, 'a, 'm, 'ma, 'u) cli_env \<Rightarrow> cli_ctx \<Rightarrow> ('s, unit) cmd" where
  "signerList_action E ctx =
     (if NArg ctx \<noteq> 1 then subcommand_help
      else and_then (get_client E ctx) (\<lambda>client.
     (let user = Args_Get ctx 0 in
     and_then (wrap_err (Wrap (''list user:'' @ user @ '' signer failed: '')) (request E client (\<lambda>Do. AuthClient_GetUser Do user))) (\<lambda>_.
     and_then (request E client (\<lambda>Do. AuthClient_ListSigners Do user)) (\<lambda>signers.
     and_then (puts (''user: '' @ user @ '', signer count:'' @ show_nat (length signers) @ nl)) (\<lambda>_.
     if length signers = 0 then done_with ()
     else puts (cl_tabwriter E ((''idx'' @ tab @ ''signer'' @ tab @ ''create-time'' @ tab @ nl) #
       map (\<lambda>(idx, signer). show_nat idx @ tab @ addr_String (cl_addr E) (os_Signer signer) @ tab @
         cl_RFC1123 E (os_CreatedAt signer) @ tab @ nl) (enumerate 0 signers)))))))))"

definition signerUnregister_action :: "('s, 'a, 'm, 'ma, 'u) cli_env \<Rightarrow> cli_ctx \<Rightarrow> ('s, unit) cmd" where
  "signerUnregister_action E ctx =
     (if NArg ctx \<noteq> 1 then subcommand_help
      else and_then (get_client E ctx) (\<lambda>client.
     (let signer = Args_Get ctx 0; user = cx_String ctx ''user'' in
     and_then (of_res (addr_NewFromString (cl_addr E) signer)) (\<lambda>sAddr.
     and_then (wrap_err (Wrap (''unregister signer:'' @ signer @ '' failed: '')) (request E client (\<lambda>Do. AuthClient_UnregisterSigners Do user [sAddr]))) (\<lambda>_.
     puts (''unregister signers: '' @ signer @ '' of '' @ user @ '' success.'' @ nl))))))"

definition signerHas_action :: "('s, 'a, 'm, 'ma, 'u) cli_env \<Rightarrow> cli_ctx \<Rightarrow> ('s, unit) cmd" where
  "signerHas_action E ctx =
     (if NArg ctx \<noteq> 1 then subcommand_help
      else and_then (get_client E ctx) (\<lambda>client.
     and_then (of_res (addr_NewFromString (cl_addr E) (Args_Get ctx 0))) (\<lambda>addr.
     and_then (request E client (\<lambda>Do. AuthClient_HasSigner Do (cl_addr E) addr)) (\<lambda>exist.
     Println [show_bool exist]))))"

definition signerDel_action :: "('s, 'a, 'm, 'ma, 'u) cli_env \<Rightarrow> cli_ctx \<Rightarrow> ('s, unit) cmd" where
  "signerDel_action E ctx =
     (if \<not> cx_Bool ctx ''really-do-it'' then
        fail_with (Msg ''--really-do-it must be specified for this action to have an effect; you have been warned'')
      else if NArg ctx \<noteq> 1 then subcommand_help
      else and_then (get_client E ctx) (\<lambda>client.
     and_then (of_res (addr_NewFromString (cl_addr E) (Args_Get ctx 0))) (\<lambda>addr.
     and_then (request E client (\<lambda>Do. AuthClient_DelSigner Do (cl_addr E) (addr_String (cl_addr E) addr))) (\<lambda>_.
     Println [''delete success'']))))"

end
