(* ===== verification/Cli_Table.thy ===== *)
theory Cli_Table
  imports Cli_Owners
begin

text \<open>
  The commands and their flags: \<open>Commands\<close> (cli/cmds.go), the command variables of the package cli, and
  the application with its global flags (cmd/server/main.go). Usage texts are left out. Proved here:
  no command touches the network, or succeeds, without a client.
\<close>

section \<open>Flags and commands\<close>

datatype flag_value = FString string | FInt int | FUint nat | FBool bool

record flag =
  fg_Name :: string
  fg_Aliases :: "string list"
  fg_EnvVars :: "string list"
  fg_Value :: flag_value
  fg_Required :: bool

definition flag_of :: "string \<Rightarrow> flag_value \<Rightarrow> flag" where
  "flag_of name val = \<lparr>fg_Name = name, fg_Aliases = [], fg_EnvVars = [], fg_Value = val, fg_Required = False\<rparr>"

text \<open>A flag without a \<open>Value\<close> has the zero value of its type.\<close>

definition StringFlag :: "string \<Rightarrow> flag" where "StringFlag name = flag_of name (FString [])"
definition IntFlag :: "string \<Rightarrow> flag" where "IntFlag name = flag_of name (FInt 0)"
definition UintFlag :: "string \<Rightarrow> flag" where "UintFlag name = flag_of name (FUint 0)"
definition BoolFlag :: "string \<Rightarrow> flag" where "BoolFlag name = flag_of name (FBool False)"

text \<open>A command with its action, or a group of subcommands. The action of \<open>run\<close> does not return.\<close>

datatype 'act command =
    Command string "flag list" 'act
  | Group string "'act command list"

fun actions :: "'act command \<Rightarrow> 'act list" where
  "actions (Command name flags act) = [act]"
| "actions (Group name cs) = concat (map actions cs)"

type_synonym 's action = "(cli_ctx \<Rightarrow> ('s, unit) cmd) option"

section \<open>The command variables\<close>

definition runCommand :: "'s action command" where
  "runCommand = Command ''run'' [StringFlag ''mysql-dsn'', StringFlag ''db-type''] None"

definition genTokenCmd :: "('s, 'a, 'm, 'ma, 'u) cli_env \<Rightarrow> 's action command" where
  "genTokenCmd E = Command ''gen'' [StringFlag ''perm'', StringFlag ''extra''] (Some (genToken_action E))"

definition getTokenCmd :: "('s, 'a, 'm, 'ma, 'u) cli_env \<Rightarrow> 's action command" where
  "getTokenCmd E = Command ''get'' [StringFlag ''name'', StringFlag ''token''] (Some (getToken_action E))"

definition listTokensCmd :: "('s, 'a, 'm, 'ma, 'u) cli_env \<Rightarrow> 's action command" where
  "listTokensCmd E = Command ''list'' [UintFlag ''skip'', (UintFlag ''limit'')\<lparr>fg_Value := FUint 20\<rparr>] (Some (listTokens_action E))"

definition removeTokenCmd :: "('s, 'a, 'm, 'ma, 'u) cli_env \<Rightarrow> 's action command" where
  "removeTokenCmd E = Command ''rm'' [] (Some (removeToken_action E))"

definition recoverTokenCmd :: "('s, 'a, 'm, 'ma, 'u) cli_env \<Rightarrow> 's action command" where
  "recoverTokenCmd E = Command ''recover'' [] (Some (recoverToken_action E))"

definition tokenSubCommand :: "('s, 'a, 'm, 'ma, 'u) cli_env \<Rightarrow> 's action command" where
  "tokenSubCommand E = Group ''token'' [genTokenCmd E, getTokenCmd E, listTokensCmd E, removeTokenCmd E, recoverTokenCmd E]"

definition userAddCmd :: "('s, 'a, 'm, 'ma, 'u) cli_env \<Rightarrow> 's action command" where
  "userAddCmd E = Command ''add'' [StringFlag ''comment'', (IntFlag ''state'')\<lparr>fg_Value := FInt 1\<rparr>] (Some (userAdd_action E))"

definition userGetCmd :: "('s, 'a, 'm, 'ma, 'u) cli_env \<Rightarrow> 's action command" where
  "userGetCmd E = Command ''get'' [] (Some (userGet_action E))"

definition userUpdateCmd :: "('s, 'a, 'm, 'ma, 'u) cli_env \<Rightarrow> 's action command" where
  "userUpdateCmd E = Command ''update'' [(StringFlag ''name'')\<lparr>fg_Required := True\<rparr>, StringFlag ''comment'', IntFlag ''state'']
     (Some (userUpdate_action E))"

definition userActiveCmd :: "('s, 'a, 'm, 'ma, 'u) cli_env \<Rightarrow> 's action command" where
  "userActiveCmd E = Command ''active'' [] (Some (userActive_action E))"

definition userListCmd :: "('s, 'a, 'm, 'ma, 'u) cli_env \<Rightarrow> 's action command" where
  "userListCmd E = Command ''list'' [UintFlag ''skip'', (UintFlag ''limit'')\<lparr>fg_Value := FUint 20\<rparr>, IntFlag ''state'']
     (Some (userList_action E))"

definition userDeleteCmd :: "('s, 'a, 'm, 'ma, 'u) cli_env \<Rightarrow> 's action command" where
  "userDeleteCmd E = Command ''delete'' [] (Some (userDelete_action E))"

definition userRecoverCmd :: "('s, 'a, 'm, 'ma, 'u) cli_env \<Rightarrow> 's action command" where
  "userRecoverCmd E = Command ''recover'' [] (Some (userRecover_action E))"

definition rateLimitAdd :: "('s, 'a, 'm, 'ma, 'u) cli_env \<Rightarrow> 's action command" where
  "rateLimitAdd E = Command ''add'' [StringFlag ''id''] (Some (rateLimitAdd_action E))"

definition rateLimitUpdate :: "('s, 'a, 'm, 'ma, 'u) cli_env \<Rightarrow> 's action command" where
  "rateLimitUpdate E = Command ''update'' [] (Some (rateLimitUpdate_action E))"

definition rateLimitGet :: "('s, 'a, 'm, 'ma, 'u) cli_env \<Rightarrow> 's action command" where
  "rateLimitGet E = Command ''get'' [] (Some (rateLimitGet_action E))"

definition rateLimitDel :: "('s, 'a, 'm, 'ma, 'u) cli_env \<Rightarrow> 's action command" where
  "rateLimitDel E = Command ''del'' [] (Some (rateLimitDel_action E))"

definition rateLimitSubCmds :: "('s, 'a, 'm, 'ma, 'u) cli_env \<Rightarrow> 's action command" where
  "rateLimitSubCmds E = Group ''rate-limit'' [rateLimitAdd E, rateLimitUpdate E, rateLimitGet E, rateLimitDel E]"

definition minerAddCmd :: "('s, 'a, 'm, 'ma, 'u) cli_env \<Rightarrow> 's action command" where
  "minerAddCmd E = Command ''add'' [(BoolFlag ''openMining'')\<lparr>fg_Value := FBool True\<rparr>] (Some (minerAdd_action E))"

definition minerExistCmd :: "('s, 'a, 'm, 'ma, 'u) cli_env \<Rightarrow> 's action command" where
  "minerExistCmd E = Command ''exist'' [(StringFlag ''user'')\<lparr>fg_Required := True\<rparr>] (Some (minerExist_action E))"

definition minerListCmd :: "('s, 'a, 'm, 'ma, 'u) cli_env \<Rightarrow> 's action command" where
  "minerListCmd E = Command ''list'' [] (Some (minerList_action E))"

definition minerDeleteCmd :: "('s, 'a, 'm, 'ma, 'u) cli_env \<Rightarrow> 's action command" where
  "minerDeleteCmd E = Command ''delete'' [] (Some (minerDelete_action E))"

definition minerSubCmds :: "('s, 'a, 'm, 'ma, 'u) cli_env \<Rightarrow> 's action command" where
  "minerSubCmds E = Group ''miner'' [minerAddCmd E, minerExistCmd E, minerListCmd E, minerDeleteCmd E]"

definition signerRegisterCmd :: "('s, 'a, 'm, 'ma, 'u) cli_env \<Rightarrow> 's action command" where
  "signerRegisterCmd E = Command ''register'' [] (Some (signerRegister_action E))"

definition signerExistCmd :: "('s, 'a, 'm, 'ma, 'u) cli_env \<Rightarrow> 's action command" where
  "signerExistCmd E = Command ''exist'' [(StringFlag ''user'')\<lparr>fg_Required := True\<rparr>] (Some (signerExist_action E))"

definition signerListCmd :: "('s, 'a, 'm, 'ma, 'u) cli_env \<Rightarrow> 's action command" where
  "signerListCmd E = Command ''list'' [] (Some (signerList_action E))"

definition signerUnregisterCmd :: "('s, 'a, 'm, 'ma, 'u) cli_env \<Rightarrow> 's action command" where
  "signerUnregisterCmd E = Command ''unregister'' [(StringFlag ''user'')\<lparr>fg_Required := True\<rparr>] (Some (signerUnregister_action E))"

definition signerSubCmds :: "('s, 'a, 'm, 'ma, 'u) cli_env \<Rightarrow> 's action command" where
  "signerSubCmds E = Group ''signer'' [signerRegisterCmd E, signerExistCmd E, signerListCmd E, signerUnregisterCmd E]"

definition userSubCommand :: "('s, 'a, 'm, 'ma, 'u) cli_env \<Rightarrow> 's action command" where
  "userSubCommand E = Group ''user'' [userAddCmd E, userGetCmd E, userUpdateCmd E, userActiveCmd E, userListCmd E,
     userDeleteCmd E, userRecoverCmd E, rateLimitSubCmds E, minerSubCmds E, signerSubCmds E]"

definition minerHasCommand :: "('s, 'a, 'm, 'ma, 'u) cli_env \<Rightarrow> 's action command" where
  "minerHasCommand E = Command ''has'' [] (Some (minerHas_action E))"

definition minerSubCommand :: "('s, 'a, 'm, 'ma, 'u) cli_env \<Rightarrow> 's action command" where
  "minerSubCommand E = Group ''miner'' [minerHasCommand E]"

definition signerHasCommand :: "('s, 'a, 'm, 'ma, 'u) cli_env \<Rightarrow> 's action command" where
  "signerHasCommand E = Command ''has'' [] (Some (signerHas_action E))"

definition signerDelCommand :: "('s, 'a, 'm, 'ma, 'u) cli_env \<Rightarrow> 's action command" where
  "signerDelCommand E = Command ''del'' [BoolFlag ''really-do-it''] (Some (signerDel_action E))"

definition signerSubCommand :: "('s, 'a, 'm, 'ma, 'u) cli_env \<Rightarrow> 's action command" where
  "signerSubCommand E = Group ''signer'' [signerHasCommand E, signerDelCommand E]"

definition Commands :: "('s, 'a, 'm, 'ma, 'u) cli_env \<Rightarrow> 's action command list" where
  "Commands E = [runCommand, tokenSubCommand E, userSubCommand E, minerSubCommand E, signerSubCommand E]"

text \<open>The application: its global flags and its commands (\<open>newApp\<close>).\<close>

definition newApp :: "('s, 'a, 'm, 'ma, 'u) cli_env \<Rightarrow> flag list \<times> 's action command list" where
  "newApp E =
     ([(StringFlag ''config'')\<lparr>fg_Aliases := [''c'']\<rparr>,
       (StringFlag ''repo'')\<lparr>fg_EnvVars := [''VENUS_AUTH_PATH'', ''SOPHON_AUTH_PATH''], fg_Value := FString ''~/.sophon-auth''\<rparr>,
       (StringFlag ''listen'')\<lparr>fg_Value := FString ''127.0.0.1:8989''\<rparr>],
      Commands E)"

lemmas command_defs = runCommand_def genTokenCmd_def getTokenCmd_def listTokensCmd_def removeTokenCmd_def
  recoverTokenCmd_def tokenSubCommand_def userAddCmd_def userGetCmd_def userUpdateCmd_def userActiveCmd_def
  userListCmd_def userDeleteCmd_def userRecoverCmd_def rateLimitAdd_def rateLimitUpdate_def rateLimitGet_def
  rateLimitDel_def rateLimitSubCmds_def minerAddCmd_def minerExistCmd_def minerListCmd_def minerDeleteCmd_def
  minerSubCmds_def signerRegisterCmd_def signerExistCmd_def signerListCmd_def signerUnregisterCmd_def
  signerSubCmds_def userSubCommand_def minerHasCommand_def minerSubCommand_def signerHasCommand_def
  signerDelCommand_def signerSubCommand_def Commands_def

lemmas action_defs = genToken_action_def getToken_action_def listTokens_action_def removeToken_action_def
  recoverToken_action_def userAdd_action_def userGet_action_def userUpdate_action_def userActive_action_def
  userList_action_def userDelete_action_def userRecover_action_def rateLimitAdd_action_def
  rateLimitUpdate_action_def rateLimitGet_action_def rateLimitDel_action_def minerAdd_action_def
  minerExist_action_def minerList_action_def minerDelete_action_def minerHas_action_def signerRegister_action_def
  signerExist_action_def signerList_action_def signerUnregister_action_def signerHas_action_def signerDel_action_def

section \<open>No command without a client\<close>

text \<open>
  A command whose client cannot be made: the network is as it was, and the command does not end
  normally.
\<close>

definition refused :: "('s, 'x) cmd \<Rightarrow> 's cli_world \<Rightarrow> bool" where
  "refused m w \<longleftrightarrow> cw_net (fst (m w)) = cw_net w \<and> (\<exists>e. snd (m w) = Inl e)"

named_theorems refusedI

lemma refused_client [refusedI]:
  "snd (GetCli E ctx (cw_fs w)) = Inl e \<Longrightarrow> refused (and_then (get_client E ctx) k) w"
  by (cases "GetCli E ctx (cw_fs w)") (simp add: refused_def and_then_def get_client_def)

lemma refused_fail [refusedI]: "refused (fail_with e) w" "refused subcommand_help w"
  by (simp_all add: refused_def fail_with_def subcommand_help_def)

lemma command_refused:
  assumes "Some act \<in> set (concat (map actions (Commands E)))" and "snd (GetCli E ctx (cw_fs w)) = Inl e"
  shows "refused (act ctx) w"
proof -
  note client = refused_client [OF assms(2)]
  show ?thesis
    using assms(1) unfolding command_defs
    by (auto simp: action_defs Let_def client refused_fail)
qed

end
