(* ===== verification/Cli_Run.thy ===== *)
theory Cli_Run
  imports Cli_Table Badger_Service
begin

text \<open>
  From the daemon to its clients: what \<open>run\<close> leaves in the repository, and the client that a command
  then makes of it.
\<close>

section \<open>Files keep existing\<close>

lemma Cover_keeps: "Cover L F path c f = (f', Inr ()) \<Longrightarrow> keeps_existing f f'"
  by (auto elim: Cover_Inr intro: WriteFile_keeps)

lemma configScan_keeps:
  assumes "configScan E path ctx f = (f', Inr cnf)"
  shows "keeps_existing f f'"
  using assms keeps_existing_refl
  by (auto simp: configScan_def Let_def split: sum.splits if_splits prod.splits dest: Cover_keeps)

lemma SaveToken_keeps: "repo_SaveToken F r tk f = (f', Inr ()) \<Longrightarrow> keeps_existing f f'"
  unfolding SaveToken_None by (rule WriteFile_keeps)

lemma repo_init_keeps: "repo_init F r f = (f', x) \<Longrightarrow> keeps_existing f f'"
  by (auto simp: repo_init_def keeps_existing_refl split: sum.splits if_splits prod.splits
      dest!: MakeDir_keeps intro: keeps_existing_trans)

text \<open>A repository that has been opened is there, unless looking for it fails.\<close>

lemma repo_init_Exist:
  assumes "repo_init F (FsRepo p) f = (f', Inr ())" and "fl_error F O_Stat (path_Clean p) = None"
  shows "Exist F p f' = Inr True"
proof (cases "Exist F p f = Inr True")
  case True
  with repo_init_keeps [OF assms(1)] show ?thesis by (simp add: keeps_existing_def)
next
  case False
  then obtain f1 where f1: "util_MakeDir F p f = (f1, Inr ())" "util_MakeDir F (repo_GetDataDir (FsRepo p)) f1 = (f', Inr ())"
    using assms(1) by (auto simp: repo_init_def FsRepo_def split: sum.splits if_splits prod.splits)
  have "Exist F p f1 = Inr True" by (rule MakeDir_Exist [OF f1(1) assms(2)])
  with MakeDir_keeps [OF f1(2)] show ?thesis by (simp add: keeps_existing_def)
qed

lemma Exist_nonempty: "Exist F p f = Inr True \<Longrightarrow> p \<noteq> []"
  by (auto simp: Exist_True os_Stat_def)

section \<open>The configuration that the clients read\<close>

text \<open>The configuration that \<open>configScan\<close> writes, if it writes one.\<close>

definition written_config :: "('s, 'a, 'm, 'ma, 'u) cli_env \<Rightarrow> string \<Rightarrow> cli_ctx \<Rightarrow> fs \<Rightarrow> 'm config option" where
  "written_config E path ctx f =
     (case Exist (cl_faults E) path f of
        Inr True \<Rightarrow>
          (case DecodeConfig (cl_config E) (cl_faults E) path f of
             Inl _ \<Rightarrow> None
           | Inr cnf \<Rightarrow> if cf_Listen cnf = [] then Some (cnf\<lparr>cf_Listen := cx_String ctx ''listen''\<rparr>) else None)
      | _ \<Rightarrow>
          (case fillConfigByFlag (DefaultConfig (cl_config E)) ctx of Inl _ \<Rightarrow> None | Inr cnf \<Rightarrow> Some cnf))"

lemma fillConfig_Listen:
  "fillConfigByFlag cnf ctx = Inr cnf' \<Longrightarrow> \<not> cx_IsSet ctx ''listen'' \<Longrightarrow> cf_Listen cnf' = cf_Listen cnf"
  by (auto simp: fillConfigByFlag_def split: if_splits option.splits sum.splits)

text \<open>
  After \<open>configScan\<close> the file holds a configuration with the address that the daemon is given, when
  that address does not come from a flag.
\<close>

lemma configScan_reads:
  assumes "configScan E path ctx f = (f', Inr cnf)" and "\<not> cx_IsSet ctx ''listen''"
    and "\<And>c. written_config E path ctx f = Some c \<Longrightarrow> toml_ok (cl_config E) c"
    and "fl_error (cl_faults E) O_ReadFile (path_Clean path) = None"
  shows "\<exists>c. DecodeConfig (cl_config E) (cl_faults E) path f' = Inr c \<and> cf_Listen c = cf_Listen cnf"
proof (cases "Exist (cl_faults E) path f = Inr True")
  case True
  with assms(1) obtain c where c: "DecodeConfig (cl_config E) (cl_faults E) path f = Inr c"
    by (cases "DecodeConfig (cl_config E) (cl_faults E) path f") (auto simp: configScan_def Let_def)
  show ?thesis
  proof (cases "cf_Listen c = []")
    case True
    with \<open>Exist _ _ _ = _\<close> assms(1) c obtain
      cov: "Cover (cl_config E) (cl_faults E) path (c\<lparr>cf_Listen := cx_String ctx ''listen''\<rparr>) f = (f', Inr ())"
        "fillConfigByFlag (c\<lparr>cf_Listen := cx_String ctx ''listen''\<rparr>) ctx = Inr cnf"
      by (auto simp: configScan_def Let_def split: sum.splits prod.splits)
    have "toml_ok (cl_config E) (c\<lparr>cf_Listen := cx_String ctx ''listen''\<rparr>)"
      by (rule assms(3)) (simp add: written_config_def \<open>Exist _ _ _ = _\<close> c True)
    from Cover_Decode [OF cov(1) this assms(4)] fillConfig_Listen [OF cov(2) assms(2)] show ?thesis by simp
  next
    case False
    with \<open>Exist _ _ _ = _\<close> assms(1) c have same: "f' = f" and fill: "fillConfigByFlag c ctx = Inr cnf"
      by (auto simp: configScan_def Let_def)
    show ?thesis using c fillConfig_Listen [OF fill assms(2)] by (simp add: same)
  qed
next
  case False
  with assms(1) obtain e: "Exist (cl_faults E) path f = Inr False"
    and fill: "fillConfigByFlag (DefaultConfig (cl_config E)) ctx = Inr cnf"
    and cov: "Cover (cl_config E) (cl_faults E) path cnf f = (f', Inr ())"
    by (auto simp: configScan_def Let_def split: sum.splits if_splits prod.splits)
  have "toml_ok (cl_config E) cnf"
    by (rule assms(3)) (simp add: written_config_def e fill)
  from Cover_Decode [OF cov this assms(4)] show ?thesis by simp
qed

text \<open>
  A flag \<open>--listen\<close> on top of a configuration with an address is not written: the daemon listens on
  the address of the flag, and the file keeps the other one.
\<close>

lemma listen_not_written:
  assumes "Exist (cl_faults E) path f = Inr True" and "DecodeConfig (cl_config E) (cl_faults E) path f = Inr c"
    and "cf_Listen c \<noteq> []" and "cx_IsSet ctx ''listen''" and "configScan E path ctx f = (f', Inr cnf)"
  shows "f' = f" and "cf_Listen cnf = cx_String ctx ''listen''"
  using assms by (auto simp: configScan_def Let_def fillConfigByFlag_def split: if_splits option.splits sum.splits)

section \<open>After run\<close>

text \<open>The steps of a daemon that has started, up to the token.\<close>

lemma run_steps:
  assumes "run E D ctx f = (f', Some (Inr h))" and "GetRepoPath E ctx f = Inr p" and "cx_String ctx ''config'' = []"
  obtains f1 f2 cnf srv w tk where "repo_init (cl_faults E) (FsRepo p) f = (f1, Inr ())"
    and "configScan E (path_Join [p, DefaultConfigFile]) ctx f1 = (f2, Inr cnf)"
    and "NewOAuthApp D (repo_GetDataDir (FsRepo p)) (cf_DB cnf) = Some (Inr (srv, w))"
    and "app_GetDefaultAdminToken srv (dm_env D) w = (hs_world h, Inr tk)"
    and "repo_SaveToken (cl_faults E) (FsRepo p) tk f2 = (f', Inr ())"
    and "hs_srv h = srv" "hs_Addr h = cf_Listen cnf"
  using assms
  by (auto simp: run_def NewFsRepo_def Let_def split: sum.splits prod.splits option.splits if_splits)

text \<open>A reading operating system.\<close>

definition reads_ok :: "faults \<Rightarrow> bool" where
  "reads_ok F \<longleftrightarrow> (\<forall>op p. op \<in> {O_Stat, O_ReadFile} \<longrightarrow> fl_error F op p = None)"

text \<open>The databases that the daemon opens are badger databases with well-formed data.\<close>

definition opens_badger ::
  "('a, 'db, 'l) daemon_lib \<Rightarrow> ('a obj, 'db, 'txn) badger \<Rightarrow> 'a addr_lib \<Rightarrow> (maped_ratelimit \<Rightarrow> maped_ratelimit) \<Rightarrow> jwt_lib \<Rightarrow> bool" where
  "opens_badger D K A rng J \<longleftrightarrow>
     (\<forall>path cnf srv w. NewOAuthApp D path cnf = Some (Inr (srv, w)) \<longrightarrow>
        srv = badgerService K A rng J \<and> sys_ok (badger_inv K A rng) (badger_view K A) J (w_db w))"

text \<open>
  A daemon that has started on the repository \<open>p\<close>: its configuration is the one in the repository, no
  address is given by a flag, the files can be read, and the configuration that is written, if one
  is, reads back.
\<close>

definition started ::
  "('s, 'a, 'm, 'ma, 'u) cli_env \<Rightarrow> ('a, 'db, 'l) daemon_lib \<Rightarrow> cli_ctx \<Rightarrow> string \<Rightarrow> fs \<Rightarrow> fs \<Rightarrow> ('a, 'db) http_server \<Rightarrow> bool" where
  "started E D ctx p f f' h \<longleftrightarrow> run E D ctx f = (f', Some (Inr h)) \<and> GetRepoPath E ctx f = Inr p \<and>
     cx_String ctx ''config'' = [] \<and> \<not> cx_IsSet ctx ''listen'' \<and> reads_ok (cl_faults E) \<and>
     (\<forall>c. written_config E (path_Join [p, DefaultConfigFile]) ctx (fst (NewFsRepo (cl_faults E) p f)) = Some c \<longrightarrow>
        toml_ok (cl_config E) c)"

text \<open>
  A client made for the same repository reads the token that the daemon has saved, finds the
  daemon's address, and is an administrator to the daemon.
\<close>

lemma run_GetCli:
  assumes st: "started E D ctx p f f' h" and "cl_Expand E (cx_String ctx' ''repo'') = Inr p" and "\<not> cx_IsSet ctx' ''listen''"
    and "opens_badger D K A rng J" and "jwt_ok J marshal"
  obtains tk where "GetCli E ctx' f' = (f', NewAuthClient (cl_url E) (''http://'' @ hs_Addr h) tk)" and "tk \<noteq> []"
    and "hs_srv h = badgerService K A rng J"
    and "\<And>cl. NewAuthClient (cl_url E) (''http://'' @ hs_Addr h) tk = Inr cl \<Longrightarrow>
      admin_client (badger_inv K A rng) (badger_view K A) J marshal cl (w_db (hs_world h))"
proof -
  note st = st [unfolded started_def]
  have "reads_ok (cl_faults E)" using st by blast
  note quiet = this [unfolded reads_ok_def, rule_format]
  from run_steps [of E D ctx f f' h p] st obtain f1 f2 cnf srv w tk where
    r: "repo_init (cl_faults E) (FsRepo p) f = (f1, Inr ())"
    "configScan E (path_Join [p, DefaultConfigFile]) ctx f1 = (f2, Inr cnf)"
    "NewOAuthApp D (repo_GetDataDir (FsRepo p)) (cf_DB cnf) = Some (Inr (srv, w))"
    "app_GetDefaultAdminToken srv (dm_env D) w = (hs_world h, Inr tk)"
    "repo_SaveToken (cl_faults E) (FsRepo p) tk f2 = (f', Inr ())" "hs_srv h = srv" "hs_Addr h = cf_Listen cnf"
    by blast
  have srv: "srv = badgerService K A rng J" "sys_ok (badger_inv K A rng) (badger_view K A) J (w_db w)"
    using assms(4) r(3) unfolding opens_badger_def by blast+
  have ex1: "Exist (cl_faults E) p f1 = Inr True"
    by (rule repo_init_Exist [OF r(1)]) (simp add: quiet)
  with configScan_keeps [OF r(2)] SaveToken_keeps [OF r(5)] have ex: "Exist (cl_faults E) p f' = Inr True"
    by (simp add: keeps_existing_def)
  then have path: "GetRepoPath E ctx' f' = Inr p" using assms(2) by (simp add: GetRepoPath_def)
  have token: "repo_GetToken (cl_faults E) (FsRepo p) f' = Inr tk"
    by (rule SaveToken_GetToken [OF r(5)]) (simp add: quiet)
  have f1: "fst (NewFsRepo (cl_faults E) p f) = f1" by (simp add: NewFsRepo_def r(1))
  have "\<exists>c. DecodeConfig (cl_config E) (cl_faults E) (path_Join [p, DefaultConfigFile]) f2 = Inr c \<and>
      cf_Listen c = cf_Listen cnf"
    by (rule configScan_reads [OF r(2)]) (use st in \<open>simp_all add: f1 quiet\<close>)
  then obtain c where "DecodeConfig (cl_config E) (cl_faults E) (path_Join [p, DefaultConfigFile]) f2 = Inr c"
    "cf_Listen c = cf_Listen cnf" by blast
  then have "repo_GetConfig (cl_config E) (cl_faults E) (FsRepo p) f2 = Inr c" and l: "cf_Listen c = hs_Addr h"
    by (simp_all add: repo_GetConfig_def FsRepo_def Let_def r(7))
  from SaveToken_GetConfig [OF r(5) Exist_nonempty [OF ex] this(1)]
  have get: "GetCli E ctx' f' = (f', NewAuthClient (cl_url E) (''http://'' @ hs_Addr h) tk)"
    using assms(3) by (simp add: GetCli_def path NewFsRepo_exists [OF ex] token l)
  have tk: "snd (app_GetDefaultAdminToken (badgerService K A rng J) (dm_env D) w) = Inr tk"
    "fst (app_GetDefaultAdminToken (badgerService K A rng J) (dm_env D) w) = hs_world h"
    using r(4) by (simp_all add: srv(1))
  have ok: "sys_ok (badger_inv K A rng) (badger_view K A) J (w_db (hs_world h))"
    using bs.GetDefaultAdminToken_keeps [of K A rng J w "dm_env D"] srv(2) by (simp add: tk(2))
  obtain kp where kp: "a_token (badger_view K A (w_db (hs_world h))) tk = Some kp" "kp_Perm kp = PermAdmin"
    using bs.default_token_stored [of K A rng J w marshal "dm_env D" tk] srv(2) assms(5) tk by auto
  then have signed: "signed_token J kp" "kp_Token kp = tk"
    using sys_okD(3) [OF ok] badger_keyed(1) [OF sys_okD(1) [OF ok]] by (auto simp: live_Some dest: tokens_okD)
  show thesis
  proof (rule that [OF get])
    show "tk \<noteq> []" using signed jwt_ok_token [OF assms(5), of "kp_payload kp" _ tk] by (auto simp: signed_token_def)
    show "hs_srv h = badgerService K A rng J" by (simp add: r(6) srv(1))
    show "admin_client (badger_inv K A rng) (badger_view K A) J marshal cl (w_db (hs_world h))"
      if "NewAuthClient (cl_url E) (''http://'' @ hs_Addr h) tk = Inr cl" for cl
      using that ok kp assms(5) by (auto simp: admin_client_def NewAuthClient_def split: if_splits sum.splits)
  qed
qed

end
