(* ===== verification/Cli_Properties.thy ===== *)
theory Cli_Properties
  imports Cli_Run Gauge_Properties Client_Properties
begin

text \<open>
  The properties of the command line: nothing happens without a client, the limits that commands
  send, the client that a started daemon admits as an administrator, and a command answered by the
  daemon it talks to.
\<close>

section \<open>A command line\<close>

text \<open>
  An operating system without faults, libraries that read and write one configuration, a client whose
  requests are listed, and a daemon on the example database.
\<close>

definition ex_faults :: faults where
  "ex_faults = \<lparr>fl_error = (\<lambda>_ _. None), fl_written = 0\<rparr>"

definition ex_plain :: "unit config_lib" where
  "ex_plain = \<lparr>vp_ReadConfig = (\<lambda>_ _. Inl (External ''parse error'')), toml_Encode = (\<lambda>_. Inr ''default''),
     ml_DefaultMetricsConfig = (), ml_setGraphiteNamespace = (\<lambda>_ _. ()), ml_setPrometheusNamespace = (\<lambda>_ _. ())\<rparr>"

definition ex_config :: "unit config_lib" where
  "ex_config = ex_plain\<lparr>vp_ReadConfig := (\<lambda>_ _. Inr (Inr (DefaultConfig ex_plain)))\<rparr>"

definition ex_url :: "(unit, string) url_lib" where
  "ex_url = \<lparr>ma_NewMultiaddr = (\<lambda>_. Inl (External ''no multiaddress'')), ma_DialArgs = (\<lambda>_. Inl (External ''no multiaddress'')),
     ma_ValueForProtocol = (\<lambda>_ _. Inr False), url_Parse = Inr, url_Scheme = (\<lambda>_. ''http''),
     url_setScheme = (\<lambda>_ u. u), url_String = (\<lambda>u. u)\<rparr>"

definition ex_cenv :: "(auth_client \<Rightarrow> ('s, nat) rest) \<Rightarrow> ('s, nat, unit, unit, string) cli_env" where
  "ex_cenv Do = \<lparr>cl_Expand = Inr, cl_faults = ex_faults, cl_config = ex_config, cl_url = ex_url, cl_addr = ex_addr,
     cl_Do = Do, cl_ShowAppHelp = None, cl_ParseDuration = (\<lambda>_. Inr 60), cl_UnixRFC1123 = (\<lambda>_. []), cl_RFC1123 = (\<lambda>_. []),
     cl_DateTime = (\<lambda>_. []), cl_TimeString = (\<lambda>_. []), cl_Hours = (\<lambda>_. []), cl_tabwriter = concat\<rparr>"

definition ex_ctx :: "string list \<Rightarrow> cli_ctx" where
  "ex_ctx args = \<lparr>cx_Args = args, cx_IsSet = (\<lambda>_. False),
     cx_String = (\<lambda>n. if n = ''repo'' then ''/repo'' else if n = ''user'' then ''alice'' else []), cx_Int = (\<lambda>_. 0), cx_Int64 = (\<lambda>_. 0),
     cx_Uint = (\<lambda>_. 0), cx_Bool = (\<lambda>_. False)\<rparr>"

text \<open>A network that lists the requests and answers each with an empty list of limits.\<close>

definition ex_spy :: "auth_client \<Rightarrow> (nat rest_request list, nat) rest" where
  "ex_spy cl rq s = (s @ [rq], Inr \<lparr>rs_StatusCode = 200, rs_Body = [], rs_Result = Some (BRateLimits []), rs_Error = []\<rparr>)"

definition ex_shell :: "fs \<Rightarrow> nat rest_request list cli_world" where
  "ex_shell f = \<lparr>cw_fs = f, cw_net = [], cw_out = []\<rparr>"

section \<open>Commands and their client\<close>

text \<open>
  \<^bold>\<open>C39\<close>: whatever the command, when no client can be made (no token in the repository, a repository or
  a configuration that cannot be read, an address that cannot be parsed) nothing is sent and the
  command does not succeed.
\<close>

theorem commands_need_client:
  assumes "Some act \<in> set (concat (map actions (Commands E)))" and "snd (GetCli E ctx (cw_fs w)) = Inl e"
  shows "cw_net (fst (act ctx w)) = cw_net w \<and> (\<exists>stopped. snd (act ctx w) = Inl stopped)"
  using command_refused [OF assms] by (simp add: refused_def)

theorem commands_need_client_witness:
  "cw_net (fst (genToken_action (ex_cenv ex_spy) (ex_ctx [''bob'']) (ex_shell Map.empty))) = []"
proof -
  have "Some (genToken_action (ex_cenv ex_spy)) \<in> set (concat (map actions (Commands (ex_cenv ex_spy))))"
    by (simp add: command_defs)
  moreover have "snd (GetCli (ex_cenv ex_spy) (ex_ctx [''bob'']) (cw_fs (ex_shell Map.empty))) =
      Inl (Wrap ''get token: '' (Msg ''token not exist''))" by code_simp
  ultimately show ?thesis
    using commands_need_client [of "genToken_action (ex_cenv ex_spy)" "ex_cenv ex_spy" "ex_ctx [''bob'']" "ex_shell Map.empty"]
    by (simp add: ex_shell_def)
qed

section \<open>Amounts of rate limits\<close>

lemma char_code_digit: "digit_of (char_of (48 + n)) = Some n" if "n < 10"
  using that by (simp add: digit_of_def Let_def)

lemma ParseUint_loop_append:
  "ParseUint_loop orig (s @ t) n =
     (case ParseUint_loop orig s n of Inl e \<Rightarrow> Inl e | Inr m \<Rightarrow> ParseUint_loop orig t m)"
  by (induction s arbitrary: n) (auto split: option.split)

lemma ParseUint_loop_show: "n < 2 ^ 64 \<Longrightarrow> ParseUint_loop orig (show_nat n) 0 = Inr n"
proof (induction n rule: show_nat.induct)
  case (1 n)
  show ?case
  proof (cases "n < 10")
    case True
    then show ?thesis using 1(2) by (simp add: show_nat.simps [of n] char_code_digit)
  next
    case False
    have "n div 10 < 2 ^ 64" using 1(2) by simp
    with False 1(1) have ih: "ParseUint_loop orig (show_nat (n div 10)) 0 = Inr (n div 10)" by simp
    have "n div 10 * 10 + n mod 10 = n" by simp
    then show ?thesis
      using False 1(2) by (simp add: show_nat.simps [of n] ParseUint_loop_append ih char_code_digit)
  qed
qed

lemma show_nat_nonempty: "show_nat n \<noteq> []"
  by (cases "n < 10") (simp_all add: show_nat.simps [of n])

text \<open>What a number prints as is read back.\<close>

lemma ParseUint_show: "n < 2 ^ 64 \<Longrightarrow> ParseUint (show_nat n) = Inr n"
  by (simp add: ParseUint_def show_nat_nonempty ParseUint_loop_show)

lemma ParseUint_loop_range: "ParseUint_loop orig s n = Inr v \<Longrightarrow> n < 2 ^ 64 \<Longrightarrow> v < 2 ^ 64"
  by (induction s arbitrary: n) (auto split: option.splits if_splits)

lemma i64_unsigned:
  assumes "v < 2 ^ 64"
  shows "i64 (int v) = (if v < 2 ^ 63 then int v else int v - 2 ^ 64)"
proof (cases "v < 2 ^ 63")
  case True
  then show ?thesis by (simp add: i64_id is_i64_def)
next
  case False
  have "int v + 2 ^ 63 = (int v - 2 ^ 63) + 2 ^ 64" by simp
  also have "\<dots> mod 2 ^ 64 = (int v - 2 ^ 63) mod 2 ^ 64" by (rule mod_add_self2)
  also have "\<dots> = int v - 2 ^ 63" using False assms by (intro mod_pos_pos_trivial) simp_all
  finally show ?thesis using False by (simp add: i64_def)
qed

text \<open>The steps of a command.\<close>

lemma and_then_step: "m w = (w', Inr x) \<Longrightarrow> and_then m k w = k x w'"
  by (simp add: and_then_def)

lemma and_then_puts_net: "cw_net (fst (and_then m (\<lambda>x. puts (t x)) w)) = cw_net (fst (m w))"
  by (auto simp: and_then_def puts_def split: prod.split sum.split)

lemma get_client_step: "GetCli E ctx (cw_fs w) = (f, Inr cl) \<Longrightarrow> get_client E ctx w = (w\<lparr>cw_fs := f\<rparr>, Inr cl)"
  by (simp add: get_client_def)

lemma Args_Get_simps:
  "cx_Args ctx = [a] \<Longrightarrow> Args_Get ctx 0 = a \<and> NArg ctx = 1"
  "cx_Args ctx = [a, b, c] \<Longrightarrow> Args_Get ctx 0 = a \<and> Args_Get ctx (Suc 0) = b \<and> Args_Get ctx 2 = c \<and> NArg ctx = 3"
  by (simp_all add: Args_Get_def NArg_def)

text \<open>
  \<^bold>\<open>C40\<close>: \<open>user rate-limit add\<close> reads the amount as an unsigned number, so that amounts up to
  2^64 - 1 are accepted, and sends it as a signed one: below 2^63 the service is sent the amount that
  was given, from 2^63 on a negative one. The lookup before it may fail, and the command goes on.
\<close>

theorem rate_limit_amount:
  assumes "GetCli E ctx (cw_fs w) = (f, Inr cl)" and "cx_Args ctx = [user, amount, dur]"
    and "AuthClient_GetUserRateLimit (cl_Do E cl) user [] (cw_net w) = (s, r)"
    and "case r of Inl _ \<Rightarrow> True | Inr limits \<Rightarrow> limits = []"
    and "ParseUint amount = Inr v" and "cl_ParseDuration E dur = Inr d" and "0 < d" and "\<not> cx_IsSet ctx ''id''"
  shows "cw_net (fst (rateLimitAdd_action E ctx w)) =
      fst (AuthClient_UpsertUserRateLimit (cl_Do E cl) \<lparr>rl_Id = [], rl_Name = user, rl_Service = [], rl_API = [],
        rl_ReqLimit = \<lparr>Cap = (if v < 2 ^ 63 then int v else int v - 2 ^ 64), ResetDur = d\<rparr>\<rparr> s)"
proof -
  let ?lim = "\<lparr>Cap = (if v < 2 ^ 63 then int v else int v - 2 ^ 64), ResetDur = d\<rparr>"
  have v: "i64 (int v) = (if v < 2 ^ 63 then int v else int v - 2 ^ 64)"
    using assms(5) by (intro i64_unsigned) (auto simp: ParseUint_def split: if_splits dest: ParseUint_loop_range)
  let ?look = "request E cl (\<lambda>Do s. case AuthClient_GetUserRateLimit Do user [] s of
      (s, Inl _) \<Rightarrow> (s, Inr []) | (s, Inr res) \<Rightarrow> (s, Inr res))"
  have lookup: "?look (w\<lparr>cw_fs := f\<rparr>) = (w\<lparr>cw_fs := f, cw_net := s\<rparr>, Inr [])"
    using assms(3,4) by (auto simp: request_def split: sum.splits)
  have limit: "parse_limit E amount dur w' = (w', Inr ?lim)" for w'
    using assms(5-7) by (simp add: parse_limit_def and_then_def of_res_def done_with_def v)
  have args: "Args_Get ctx 0 = user" "Args_Get ctx 1 = amount" "Args_Get ctx 2 = dur" "(NArg ctx < 3) = False"
    "cx_IsSet ctx ''id'' = False"
    using Args_Get_simps(2) [OF assms(2)] assms(8) by simp_all
  have "rateLimitAdd_action E ctx w = and_then (request E cl (\<lambda>Do. AuthClient_UpsertUserRateLimit Do
      \<lparr>rl_Id = [], rl_Name = user, rl_Service = [], rl_API = [], rl_ReqLimit = ?lim\<rparr>))
      (\<lambda>rid. puts (''upsert user rate limit success:'' @ tab @ rid @ nl)) (w\<lparr>cw_fs := f, cw_net := s\<rparr>)"
    by (simp only: rateLimitAdd_action_def and_then_step [of "get_client E ctx", OF get_client_step [OF assms(1)]]
        Let_def args and_then_step [of ?look, OF lookup] and_then_step [of "parse_limit E amount dur", OF limit]
        list.case if_False)
  then show ?thesis by (simp add: and_then_puts_net request_def case_prod_beta)
qed

definition ex_repo_files :: fs where
  "ex_repo_files = [''/repo'' \<mapsto> Dir, ''/repo/token'' \<mapsto> File ''tk'', ''/repo/config.toml'' \<mapsto> File ''default'']"

theorem rate_limit_amount_witness:
  "cw_net (fst (rateLimitAdd_action (ex_cenv ex_spy) (ex_ctx [''bob'', ''18446744073709551615'', ''1h'']) (ex_shell ex_repo_files))) =
     [rest_query ''GET'' ''/user/ratelimit'' [(''name'', ''bob'')],
      rest_body ''POST'' ''/user/ratelimit/upsert'' (J_RateLimit \<lparr>rl_Id = [], rl_Name = ''bob'', rl_Service = [], rl_API = [],
        rl_ReqLimit = \<lparr>Cap = - 1, ResetDur = 60\<rparr>\<rparr>)]"
proof -
  let ?E = "ex_cenv ex_spy" and ?c = "ex_ctx [''bob'', ''18446744073709551615'', ''1h'']" and ?w = "ex_shell ex_repo_files"
  let ?cl = "\<lparr>cli_HostURL = ''http://127.0.0.1:8989'', cli_Authorization = ''Bearer tk''\<rparr>"
  have client: "snd (GetCli ?E ?c (cw_fs ?w)) = Inr ?cl" by code_simp
  have lookup: "AuthClient_GetUserRateLimit (cl_Do ?E ?cl) ''bob'' [] (cw_net ?w) =
      ([rest_query ''GET'' ''/user/ratelimit'' [(''name'', ''bob'')]], Inr [])"
    by (simp add: AuthClient_GetUserRateLimit_def ex_cenv_def ex_spy_def ex_shell_def rest_result_def rest_query_def)
  have parse: "ParseUint ''18446744073709551615'' = Inr 18446744073709551615" by (simp add: ParseUint_def digit_of_def Let_def)
  have client': "GetCli ?E ?c (cw_fs ?w) = (fst (GetCli ?E ?c (cw_fs ?w)), Inr ?cl)"
    using client by (metis prod.collapse)
  have args: "cx_Args ?c = [''bob'', ''18446744073709551615'', ''1h'']" "cl_ParseDuration ?E ''1h'' = Inr 60"
    "\<not> cx_IsSet ?c ''id''" by (simp_all add: ex_ctx_def ex_cenv_def)
  have amount: "(if (18446744073709551615::nat) < 2 ^ 63 then int 18446744073709551615 else int 18446744073709551615 - 2 ^ 64) = - 1"
    by simp
  have "cw_net (fst (rateLimitAdd_action ?E ?c ?w)) = fst (AuthClient_UpsertUserRateLimit (cl_Do ?E ?cl)
      \<lparr>rl_Id = [], rl_Name = ''bob'', rl_Service = [], rl_API = [], rl_ReqLimit = \<lparr>Cap = - 1, ResetDur = 60\<rparr>\<rparr>
      [rest_query ''GET'' ''/user/ratelimit'' [(''name'', ''bob'')]])"
    by (rule rate_limit_amount [OF client' args(1) lookup _ parse args(2) _ args(3), unfolded amount]) simp_all
  then show ?thesis
    unfolding AuthClient_UpsertUserRateLimit_def ex_cenv_def cli_env.select_convs ex_spy_def rest_result_def by simp
qed

section \<open>The daemon and its administrator\<close>

text \<open>Badger databases with tokens that are signed, of whatever store version, are opened well-formed.\<close>

lemma open_badger:
  assumes "\<And>path S s. dm_newBadgerStore D path = Inr (S, s) \<Longrightarrow>
      S = badgerStore K A rng \<and> migration_inv K A rng s \<and> tokens_ok J (badger_view K A s)"
    and "\<And>cnf. \<not> is_ok (dm_newMySQLStore D cnf)" and "dm_addr D = A" and "dm_jwt D = J"
  shows "opens_badger D K A rng J"
  unfolding opens_badger_def
proof (intro allI impI)
  fix path cnf srv w
  assume "NewOAuthApp D path cnf = Some (Inr (srv, w))"
  then obtain c S s where c: "NewStore (dm_newMySQLStore D c) (dm_newBadgerStore D path) (dm_now D) (dc_Type c) = Some (Inr (S, s))"
    "srv = \<lparr>sv_store = S, sv_addr = A, sv_jwt = J\<rparr>" "w_db w = s"
    using assms(3,4) by (auto simp: NewOAuthApp_def NewOAuthService_def Let_def split: option.splits sum.splits)
  then obtain s0 where s0: "dm_newBadgerStore D path = Inr (S, s0)" "StoreMigrate S (dm_now D) s0 = Some (s, Inr ())"
    using assms(2) [of c] by (auto simp: NewStore_def Let_def split: if_splits sum.splits option.splits)
  note S = assms(1) [OF s0(1)]
  then obtain s' where s': "StoreMigrate S (dm_now D) s0 = Some (s', Inr ())" "migration_inv K A rng s'"
    "stored_version (db_content K s') = max 3 (stored_version (db_content K s0))" "kept (db_content K s0) (db_content K s')"
    using badger_migration_inv.StoreMigrate_ok [of K A rng s0 "dm_now D"] by blast
  have s: "s' = s" using s0(2) s'(1) by simp
  have "miners_open (badger_view K A s)"
    using s'(2,3) by (auto simp: s migration_inv_def all_open_def miners_open_def badger_view_def miner_doc_def
        split: option.splits obj.splits)
  moreover have "tokens_ok J (badger_view K A s)"
    using S kept_view(1) [OF s'(4), of A] by (simp add: s tokens_ok_def)
  ultimately show "srv = badgerService K A rng J \<and> sys_ok (badger_inv K A rng) (badger_view K A) J (w_db w)"
    using c S s'(2) by (simp add: s badgerService_def sys_ok_def data_ok_def migration_inv_def)
qed

text \<open>
  \<^bold>\<open>C37\<close>: once the daemon has started on a badger database, without a flag for its configuration file or
  its address, every command on the same repository makes a client with the address the daemon listens
  on and the token of the default administrator, and the daemon admits that client's requests as an
  administrator's.
\<close>

theorem run_then_client:
  assumes "started E D ctx p f f' h" and "cl_Expand E (cx_String ctx' ''repo'') = Inr p" and "\<not> cx_IsSet ctx' ''listen''"
    and "opens_badger D K A rng J" and "jwt_ok J marshal"
  shows "hs_srv h = badgerService K A rng J \<and>
    (\<exists>tk. GetCli E ctx' f' = (f', NewAuthClient (cl_url E) (''http://'' @ hs_Addr h) tk) \<and>
      (\<forall>cl. NewAuthClient (cl_url E) (''http://'' @ hs_Addr h) tk = Inr cl \<longrightarrow>
        admin_client (badger_inv K A rng) (badger_view K A) J marshal cl (w_db (hs_world h))))"
  by (rule run_GetCli [OF assms]) blast

text \<open>A daemon on a database of version 0, with two users and no token.\<close>

definition ex_daemon :: "(nat, ex_db, unit) daemon_lib" where
  "ex_daemon = \<lparr>dm_newMySQLStore = (\<lambda>_. Inl (Msg ''no database'')),
     dm_newBadgerStore = (\<lambda>_. Inr (badgerStore ex_K ex_addr id, ex_v0)), dm_addr = ex_addr, dm_jwt = ex_jwt,
     dm_rng_perm = (\<lambda>_. PermArr), dm_rng_state = (\<lambda>_. [0, 1, 2]), dm_now = 9, dm_env = ex_env0,
     dm_ParseLevel = (\<lambda>_. Inr ()), dm_TraceLevel = (), dm_SetupJaegerTracing = (\<lambda>_ _. Inr ())\<rparr>"

lemma ex_opens: "opens_badger ex_daemon ex_K ex_addr id ex_jwt"
  by (rule open_badger) (auto simp: ex_daemon_def ex_v0_inv tokens_ok_def ex_v0_view(1))

text \<open>The client's requests reach the service of the example.\<close>

definition ex_Do :: "auth_client \<Rightarrow> (ex_db world, nat) rest" where
  "ex_Do cl = Do_server \<lparr>n_srv = ex_srv, n_ver = [], n_go_on = True, n_env = ex_env0, n_wire = ex_wire, n_client = cl\<rparr>"

abbreviation ex_run :: "fs \<times> (nat, ex_db) http_server res option" where
  "ex_run \<equiv> run (ex_cenv ex_Do) ex_daemon (ex_ctx []) Map.empty"

definition ex_h :: "(nat, ex_db) http_server" where
  "ex_h = projr (the (snd ex_run))"

declare StoreMigrate.simps [code]

lemma ex_started: "started (ex_cenv ex_Do) ex_daemon (ex_ctx []) ''/repo'' Map.empty (fst ex_run) ex_h"
proof -
  have "case snd ex_run of Some (Inr _) \<Rightarrow> True | _ \<Rightarrow> False" by code_simp
  then have "snd ex_run = Some (Inr ex_h)" by (auto simp: ex_h_def split: option.splits sum.splits)
  then have "ex_run = (fst ex_run, Some (Inr ex_h))" by (metis prod.collapse)
  moreover have "GetRepoPath (ex_cenv ex_Do) (ex_ctx []) Map.empty = Inr ''/repo''" by code_simp
  moreover have "toml_ok ex_config c"
    if "written_config (ex_cenv ex_Do) q (ex_ctx []) g = Some c" for q g c
    using that by (auto simp: written_config_def ex_cenv_def ex_ctx_def fillConfigByFlag_def toml_ok_def ex_config_def
        ex_plain_def DefaultConfig_def DecodeConfig_def FromConfigString_def Let_def split: sum.splits bool.splits if_splits)
  ultimately show ?thesis
    by (simp add: started_def reads_ok_def ex_cenv_def ex_ctx_def ex_faults_def)
qed

theorem run_then_client_witness:
  "hs_srv ex_h = ex_srv \<and> (\<exists>tk. GetCli (ex_cenv ex_Do) (ex_ctx [''f11z'']) (fst ex_run) =
     (fst ex_run, NewAuthClient ex_url (''http://'' @ hs_Addr ex_h) tk))"
  using run_then_client [OF ex_started _ _ ex_opens ex_jwt_ok, of "ex_ctx [''f11z'']"]
  by (auto simp: ex_cenv_def ex_ctx_def)

text \<open>
  \<^bold>\<open>C38\<close>: with the daemon running and its clients connected to it, \<open>user miner exist --user u m\<close> prints
  \<open>true\<close> when the daemon's store has \<open>u\<close> as the owner of the miner, and \<open>false\<close> otherwise.
\<close>

theorem miner_exist_answer:
  assumes "started E D ctx p f (cw_fs w) h" and "cw_net w = hs_world h"
    and "cl_Expand E (cx_String ctx' ''repo'') = Inr p" and "\<not> cx_IsSet ctx' ''listen''"
    and "opens_badger D K A rng J" and "jwt_ok J marshal"
    and "cl_addr E = A" and "cl_Do E = (\<lambda>cl. Do_server \<lparr>n_srv = hs_srv h, n_ver = ver, n_go_on = go_on, n_env = Ev,
      n_wire = W, n_client = cl\<rparr>)" and "wire_ok A W"
    and "\<forall>tk. tk \<noteq> [] \<longrightarrow> is_ok (NewAuthClient (cl_url E) (''http://'' @ hs_Addr h) tk)"
    and "cx_Args ctx' = [m]" and "addr_NewFromString A m = Inr a" and "\<not> addr_Empty A a"
  shows "\<exists>s. minerExist_action E ctx' w = (w\<lparr>cw_net := s, cw_out := cw_out w @ [P_Text
    (show_bool (a_owner (badger_view K A (w_db (hs_world h))) a = Some (cx_String ctx' ''user'')) @ nl)]\<rparr>, Inr ())"
proof (rule run_GetCli [OF assms(1,3-6)])
  fix tk
  assume tk: "GetCli E ctx' (cw_fs w) = (cw_fs w, NewAuthClient (cl_url E) (''http://'' @ hs_Addr h) tk)" "tk \<noteq> []"
    "hs_srv h = badgerService K A rng J" "\<And>cl. NewAuthClient (cl_url E) (''http://'' @ hs_Addr h) tk = Inr cl \<Longrightarrow>
      admin_client (badger_inv K A rng) (badger_view K A) J marshal cl (w_db (hs_world h))"
  obtain cl where cl: "NewAuthClient (cl_url E) (''http://'' @ hs_Addr h) tk = Inr cl"
    using assms(10) tk(2) by (auto elim: is_okE)
  let ?b = "a_owner (badger_view K A (w_db (hs_world h))) a = Some (cx_String ctx' ''user'')"
  have "snd (AuthClient_MinerExistInUser (cl_Do E cl) A (cx_String ctx' ''user'') a (hs_world h)) = Inr ?b"
    using bs.client_MinerExistInUser [of K A rng J marshal cl "hs_world h" W a ver go_on Ev "cx_String ctx' ''user''"]
      tk(4) [OF cl] assms(9,13) by (simp add: assms(8) tk(3))
  then obtain s where s: "request E cl (\<lambda>Do. AuthClient_MinerExistInUser Do A (cx_String ctx' ''user'') a) w = (w\<lparr>cw_net := s\<rparr>, Inr ?b)"
    by (cases "AuthClient_MinerExistInUser (cl_Do E cl) A (cx_String ctx' ''user'') a (hs_world h)")
      (simp add: request_def assms(2))
  have client: "get_client E ctx' w = (w, Inr cl)"
    using get_client_step [OF tk(1) [unfolded cl]] by simp
  have "minerExist_action E ctx' w = Println [show_bool ?b] (w\<lparr>cw_net := s\<rparr>)"
    using Args_Get_simps(1) [OF assms(11)]
    by (simp add: minerExist_action_def and_then_def client of_res_def assms(7,12) s)
  then show ?thesis by (auto simp: Println_def puts_def)
qed

theorem miner_exist_answer_witness:
  "\<exists>s out. minerExist_action (ex_cenv ex_Do) (ex_ctx [''f11z'']) \<lparr>cw_fs = fst ex_run, cw_net = hs_world ex_h, cw_out = []\<rparr> =
     (\<lparr>cw_fs = fst ex_run, cw_net = s, cw_out = [P_Text out]\<rparr>, Inr ())"
proof -
  let ?w = "\<lparr>cw_fs = fst ex_run, cw_net = hs_world ex_h, cw_out = []\<rparr>"
  have srv: "hs_srv ex_h = ex_srv"
    by (rule run_GetCli [OF ex_started _ _ ex_opens ex_jwt_ok, of "ex_ctx []"]) (simp_all add: ex_cenv_def ex_ctx_def)
  have "cl_Do (ex_cenv ex_Do) = (\<lambda>cl. Do_server \<lparr>n_srv = hs_srv ex_h, n_ver = [], n_go_on = True, n_env = ex_env0,
      n_wire = ex_wire, n_client = cl\<rparr>)"
    by (simp add: ex_cenv_def fun_eq_iff ex_Do_def srv)
  moreover have "is_ok (NewAuthClient ex_url u tk)" if "tk \<noteq> []" for u tk
    using that by (simp add: NewAuthClient_def ParseAddr_def ex_url_def)
  moreover have "addr_NewFromString ex_addr ''f11z'' = Inr 2" by code_simp
  ultimately have "\<exists>s. minerExist_action (ex_cenv ex_Do) (ex_ctx [''f11z'']) ?w = (?w\<lparr>cw_net := s, cw_out := cw_out ?w @ [P_Text
    (show_bool (a_owner (badger_view ex_K ex_addr (w_db (hs_world ex_h))) 2 = Some (cx_String (ex_ctx [''f11z'']) ''user'')) @ nl)]\<rparr>, Inr ())"
    by (intro miner_exist_answer [where D = ex_daemon and ctx = "ex_ctx []" and p = "''/repo''" and f = Map.empty
          and J = ex_jwt and rng = id and W = ex_wire and m = "''f11z''" and marshal = ex_marshal])
      (use ex_started ex_opens ex_jwt_ok ex_wire_ok in \<open>simp_all add: ex_cenv_def ex_ctx_def ex_addr_def\<close>)
  then show ?thesis by auto
qed

end
