(* ===== verification/Spec2Isabelle.thy ===== *)
theory Spec2Isabelle
  imports Service_Properties Store_Properties Client_Properties Gauge_Properties Middleware Reach_Properties Mysql_Properties Cli_Properties
begin

text \<open>
  sophon-auth: authentication and authorisation for a cluster of Filecoin services. The program
  issues JSON Web Tokens to named users, keeps users, miners, signers, tokens and rate limits in a
  store, and answers over HTTP whether a token is valid and who owns what. The other services of
  the cluster guard their JSON-RPC endpoint with its client library.

  \<^bold>\<open>How the parts interact.\<close> A request passes the middlewares \<open>CorsMiddleWare\<close>,
  \<open>RewriteAddressInUrl\<close> and \<open>permMiddleWare\<close> (auth/route.go); the last verifies the bearer token
  and puts the caller's permissions and name into the context. A handler (auth/app.go) calls the
  service (auth/jwt.go), which checks the context, signs or reads tokens, moves the gauges and
  calls the store (storage/store.go). The store is an interface with two implementations: the badger
  store (storage/badger.go, storage/badger_helper.go) on a key-value engine, and the MySQL store
  (storage/mysql.go) on gorm. On the other side of the wire, \<open>AuthClient\<close> (jwtclient/auth_client.go)
  makes the requests, and \<open>AuthMux\<close> (jwtclient/auth_mux.go) with the checks of jwtclient/utils.go and
  auth/util.go uses the answers. The program is one binary (cli/, cmd/server): \<open>run\<close> reads the
  configuration (config/) of a repository on disk, sets up the log (log/), opens the store, writes the
  token of the default administrator into the repository, and serves; every other command makes an
  \<open>AuthClient\<close> from that token and calls the daemon.

  \<^bold>\<open>Which theory models what.\<close>
  \<^item> \<open>Prelude\<close>: results as sums, the errors, 64-bit integers, generic facts.
    \<open>Core\<close>: the package core (permissions, contexts, pages) and log/token fields.
    \<open>Transport\<close>: auth/transport.go, auth/mapper.go, \<open>MatchedLimit\<close>.
  \<^item> \<open>Store_Types\<close>: the documents of storage/store.go, their methods and keys.
    \<open>Store_Spec\<close>: the abstract store (finite maps) and the meaning of every method on it.
    \<open>Store_Interface\<close>: the interface \<open>Store\<close> as a record of methods, \<open>StoreMigrate\<close>, and the locale
    of the contract that a store meets.
  \<^item> \<open>Badger\<close>: the engine as a parameter, its documented laws \<open>badger_ok\<close>, and an engine in memory
    that meets them. \<open>Badger_Helper\<close>: the object layer. \<open>Badger_Token\<close>, \<open>Badger_User\<close>,
    \<open>Badger_DeleteUser\<close>, \<open>Badger_Miner\<close>, \<open>Badger_Signer\<close>, \<open>Badger_RateLimit\<close>, \<open>Badger_Migrate\<close>:
    the methods of \<open>badgerStore\<close>, group by group. \<open>Badger_Store\<close>: the invariant of the
    database, its abstract view, and the interpretations of the store's locales.
  \<^item> \<open>Gorm\<close>: the calls on tables as a parameter, with the laws \<open>gorm_laws\<close>; \<open>Gorm_Memory\<close>: a database
    in memory that meets them. \<open>Mysql_Open\<close>: \<open>newMySQLStore\<close>. \<open>Mysql_Store\<close>: the methods of \<open>mysqlStore\<close>.
    \<open>Mysql_View\<close>, \<open>Mysql_Reads\<close>, \<open>Mysql_Writes\<close>, \<open>Mysql_Owners\<close>, \<open>Mysql_DeleteUser\<close>, \<open>Mysql_Migrate\<close>: the invariant
    of the tables, their abstract view, and what each method does on it.
  \<^item> \<open>Token_Codec\<close>: the token as three base64url parts, the payload's form, the JWT library as a
    parameter (\<open>jwt_ok\<close>), \<open>DecodeToBytes\<close> and \<open>JwtUserFromToken\<close>. \<open>Perm_Check\<close>: the permission checks of
    auth/jwt.go. \<open>Service_Token\<close>, \<open>Service_User\<close>, \<open>Service_Miner\<close>: the operations of \<open>jwtOAuth\<close>.
  \<^item> \<open>App\<close>: the handlers. \<open>Route\<close>: the routes and \<open>permMiddleWare\<close>; \<open>Middleware\<close>: the other two.
    \<open>System\<close>: a request as a step (\<open>serve\<close>), runs of requests (\<open>served\<close>), their invariants.
    \<open>Gauges\<close>: \<open>NewOAuthService\<close> and the gauges while requests are served.
  \<^item> \<open>Auth_Mux\<close>: the JSON-RPC guard and the clients it asks. \<open>Client_Checks\<close>: the checks the guarded
    services make. \<open>Auth_Client\<close>: every method of the HTTP client. \<open>Client_Server\<close>: the client
    connected to the router.
  \<^item> \<open>Default_Token\<close>: \<open>GetDefaultAdminToken\<close>. \<open>Badger_Service\<close>, \<open>Mysql_Service\<close>: the service interpreted on
    each store; \<open>Two_Stores\<close>: the two side by side.
  \<^item> \<open>Os\<close>: paths and the file system, with faults as a parameter, and util/util.go. \<open>Config\<close>: config/.
    \<open>Log_Hook\<close>: log/init.go, log/hook.go. \<open>Repo\<close>: cli/repo.go. \<open>Cli\<close>: cli/api.go, cli/run.go and
    \<open>NewOAuthApp\<close>. \<open>Cli_Commands\<close>, \<open>Cli_Owners\<close>: the commands; \<open>Cli_Table\<close>: their flags and the application.
    \<open>Cli_Run\<close>: what the daemon leaves for the commands.
  \<^item> \<open>Instances\<close>: concrete parameters. \<open>Store_Properties\<close>, \<open>Service_Properties\<close>, \<open>Gauge_Properties\<close>,
    \<open>Client_Properties\<close>, \<open>Middleware\<close>, \<open>Reach_Properties\<close>, \<open>Mysql_Properties\<close>, \<open>Cli_Properties\<close> and this
    theory hold the properties.

  \<^bold>\<open>How state and operations correspond.\<close> A method that changes the store takes the database and
  returns it with a result, \<open>Inl\<close> an error or \<open>Inr\<close> a value; a panic is the error \<open>Panic\<close>, which no
  code inspects. A method \<open>M\<close> of \<open>badgerStore\<close> is \<open>bs_M\<close>, of \<open>mysqlStore\<close> is \<open>my_M\<close>, of \<open>jwtOAuth\<close> is
  \<open>sv_M\<close>, of \<open>oauthApp\<close> is \<open>app_M\<close>; a method \<open>M\<close> of \<open>AuthClient\<close> is \<open>AuthClient_M\<close>. The action of a
  command is \<open>X_action\<close>: it runs on the files, the network and the output, and ends normally, with an
  error, or by leaving the process. A file system maps clean paths to files and directories. What a method reads from the world (clock, random
  bytes, new identifiers) is an argument. A handler returns the calls it makes on gin's context,
  in order. Addresses are a type parameter with the operations \<open>addr_lib\<close> of go-address. An
  \<open>int64\<close> that is computed with wraps (\<open>i64\<close>).

  \<^bold>\<open>What the lemmas show.\<close>
  \<^item> The store: each method of the badger store refines its abstract meaning and keeps the invariant
    of the key space (locales \<open>soft_object\<close> for objects with a deletion mark, and the contracts in
    \<open>Store_Interface\<close>); a failed call leaves the database as it was, \<open>DeleteUser\<close> excepted;
    migration from any version ends in the current one and is idempotent.
  \<^item> The MySQL store: each method does on the abstract store what the proved lemmas say, which is the
    meaning in \<open>Store_Spec\<close> but where the two stores differ: tokens and users that exist, rate limits
    with another user's id, and unknown miners. \<open>DeleteUser\<close> is one transaction there.
  \<^item> The service, on any store with the part of the contract it needs (locale \<open>service_reads\<close> for a
    store that reads truly, \<open>service_safe\<close> for one that keeps its invariant, \<open>service_on\<close> for the full
    contract; MySQL is an instance of the first two, badger of all): who may call what, the life of a token, ownership
    of miners and signers, listings, and the default administrator's token.
  \<^item> The system: what a request may change and reveal, by rule induction over runs of requests; the
    gauges of tokens stay exact.
  \<^item> The two stores: with the same live data they answer the questions of a caller alike (locale
    \<open>two_services\<close>).
  \<^item> The command line: what is saved in the repository is what is read; no command does anything
    without a client; after the daemon has started on a badger database (\<open>started\<close>, \<open>opens_badger\<close>) a
    command on the same repository is let in as an administrator.
  \<^item> The clients: an \<open>AuthClient\<close> connected to the router tells what the service answers; the mux lets
    no request pass without a verified token unless its path is trusted; the client-side ownership
    checks decide ownership in the store.

  \<^bold>\<open>Parameters and what is assumed of them.\<close> \<open>badger_ok\<close>: transactions read their own writes, commit
  all or nothing, and iterate a prefix in key order. \<open>addr_ok\<close>: the text of an address
  identifies it; nothing says that no text begins with another, so \<open>HasSigner\<close> and \<open>DelSigner\<close> of badger,
  which walk a prefix, mean one signer only where \<open>signer_alone\<close> holds. \<open>jwt_ok\<close>: a signed token is three
  words joined by dots, the middle one the payload's JSON in base64url; under the key it was signed with it
  verifies and gives the payload back, when the payload is valid UTF-8; JSON brings such a payload back. \<open>wire_ok\<close>: JSON
  decodes what it encodes. \<open>net_url_ok\<close>: \<open>url.Parse\<close> accepts what \<open>URL.String\<close> makes. \<open>gorm_laws\<close>: a
  table holds rows; a query selects by equations between columns and values, compared byte by byte; an insertion fails on a
  key that is taken unless told to update; a transaction commits all or nothing; the statements that
  alter the table of miners are carried out or refused by its definition (columns, primary key,
  indices) and its rows, and the other calls on that table are specified only once it has its present definition
  (\<open>miners_ready\<close>). \<open>addr_col_ok\<close>: the
  column of an address identifies it. \<open>mysql_open\<close>: the tables that \<open>newMySQLStore\<close> leaves, the miners in
  their present or their old definition. \<open>toml_ok\<close>: the configuration in question reads back from the text
  that is written. \<open>opens_badger\<close>: what \<open>NewOAuthApp\<close> opens is a well-formed badger database, which is
  proved of the model's own constructor in \<open>Cli_Properties\<close>. \<open>valid_request\<close>: a run of requests asks
  \<open>GenerateToken\<close> for valid UTF-8 only, which is all that Go's JSON decoder delivers. \<open>failing_commit\<close> is an engine
  made from any other: it refuses the commits that would change one given document, as badger does on a
  conflict or an error of the disk. Every such hypothesis holds of the values in \<open>Instances\<close>, on which the witnesses evaluate.

  \<^bold>\<open>Loops and fuel.\<close> No definition has fuel. Loops over slices and iterators are structural recursion.
  \<open>StoreMigrate\<close> is a \<open>for\<close> without a condition, so it is a partial function whose value \<open>None\<close> is a
  loop that does not end; that it ends on every well-formed database is a property.

  \<^bold>\<open>Not modelled.\<close> The libraries gin, resty, badger, gorm, jwt, go-address, viper, toml, logrus,
  influxdb and urfave/cli are parameters. The JSON of documents is a datatype. gorm's statements are
  not SQL text, and that MySQL commits at a DDL statement inside a transaction is not in its laws.
  Opening badger and the collection of its value log (\<open>newBadgerStore\<close>) are the engine's. Flags arrive
  parsed; the layout of tables and times, and file modes and symbolic links, are left out. log/log.go
  hands its arguments to logrus, core/metrics.go declares the gauges, util/pc.go asks the system for a
  free port and has no caller, cmd/mock is a test server and jwtclient/mocks is generated.
  A request is one step: two requests that interleave inside a handler are not modelled, so races
  between the transactions of one operation are out of scope.
\<close>

section \<open>The running system\<close>

abbreviation ex_del_miner :: "nat request" where
  "ex_del_miner \<equiv> RDeleteMiner (2, None)"

text \<open>
  \<^bold>\<open>C1\<close>: in every state that requests reach, whatever their tokens, bindings, clocks and random bytes
  are, each document lies under the key that its own fields determine, every stored signer is a
  signer's address, every stored token is signed under the secret stored with it, and the mining
  flag of every miner is set. The requests are \<open>valid_request\<close>s: the payload to be signed is valid
  UTF-8, as the strings of every JSON body are, and a miner comes with the flag that the binding
  requires.
\<close>

theorem reachable_ok:
  assumes "served (badgerService K A rng J) ver w0 w"
    and "sys_ok (badger_inv K A rng) (badger_view K A) J (w_db w0)"
  shows "sys_ok (badger_inv K A rng) (badger_view K A) J (w_db w)"
  by (rule bs.served_ok [OF assms(1), unfolded badgerService_sel, OF assms(2)])

theorem reachable_ok_witness:
  "sys_ok (badger_inv ex_K ex_addr id) (badger_view ex_K ex_addr) ex_jwt
     (w_db (fst (serve ex_srv [] True ex_env0 ex_rq ex_del_miner ex_world)))"
  by (rule reachable_ok [OF served.request [OF served.start] ex_sys_ok]) simp

text \<open>
  \<^bold>\<open>C2\<close>: a request that changes the store carries a bearer token that is stored and not removed, and
  the permission stored with that token is \<open>admin\<close>, or the request concerns something the user of
  the token owns: the user's own token, a miner of the user, or a signer the user is bound to.
\<close>

theorem request_changes:
  assumes "sys_ok (badger_inv K A rng) (badger_view K A) J (w_db w)" and "jwt_ok J marshal"
    and "rq_ctx rq = ctx_Background"
    and "w_db (fst (serve (badgerService K A rng J) ver go_on E rq req w)) \<noteq> w_db w"
  shows "\<exists>tk kp. bearer_token rq = Some tk \<and> a_token (badger_view K A (w_db w)) tk = Some kp
    \<and> (kp_Perm kp = PermAdmin \<or> owns_target J (badger_view K A (w_db w)) (kp_Name kp) req)"
  by (rule bs.serve_changes [of K A rng J w marshal rq ver go_on E req, unfolded badgerService_sel, OF assms]) blast

theorem request_changes_witness:
  "\<exists>tk kp. bearer_token ex_rq = Some tk \<and> a_token (badger_view ex_K ex_addr (w_db ex_world)) tk = Some kp
    \<and> (kp_Perm kp = PermAdmin \<or> owns_target ex_jwt (badger_view ex_K ex_addr (w_db ex_world)) (kp_Name kp) ex_del_miner)"
proof (rule request_changes [OF ex_sys_ok ex_jwt_ok])
  have "map fst (take 1 (w_db (fst (serve ex_srv [] True ex_env0 ex_rq ex_del_miner ex_world)))) = [''MINERS:f11z'']"
    by code_simp
  moreover have "map fst (take 1 ex_db) = [''USER:alice'']" by code_simp
  ultimately show "w_db (fst (serve ex_srv [] True ex_env0 ex_rq ex_del_miner ex_world)) \<noteq> w_db ex_world"
    by auto
qed simp

text \<open>
  \<^bold>\<open>C5\<close>: a request without a token that verifies changes nothing and is never answered with a success,
  even where gin runs the handler after the middleware has answered with 401; only the health check
  and the version are open to it.
\<close>

theorem request_refused:
  assumes "rq_ctx rq = ctx_Background" and "verified (badgerService K A rng J) rq (w_db w) = None"
    and "handler_of req \<noteq> H_healthcheck" "handler_of req \<noteq> H_version"
  shows "w_db (fst (serve (badgerService K A rng J) ver go_on E rq req w)) = w_db w
    \<and> \<not> list_ex is_success (snd (serve (badgerService K A rng J) ver go_on E rq req w))"
  using serve_refused [OF assms] by simp

theorem request_refused_witness:
  "\<not> list_ex is_success (snd (serve ex_srv [] True ex_env0
     (ex_rq\<lparr>rq_Authorization := ''Bearer x''\<rparr>) (RDeleteUser (''alice'', None)) ex_world))"
proof (rule request_refused [THEN conjunct2])
  have "snd (Verify_body ex_srv ex_reader ''x'' ex_db) = Some (Msg ''can't parse user from input token'')" by code_simp
  then show "verified ex_srv (ex_rq\<lparr>rq_Authorization := ''Bearer x''\<rparr>) (w_db ex_world) = None"
    by (auto simp: verified_def bearer_token_def split: prod.split option.split)
qed simp_all

end
